(* ===== verification/Prelude.thy ===== *)
theory Prelude imports Main "HOL-Library.Word" begin

unbundle bit_operations_syntax

section \<open>Shared types, automation and generic lemmas\<close>

text \<open>
  This theory holds what every component of the model uses: the C integer types, the result codes
  of the stack, byte memories, and the generic facts on lists, words and byte splitting that the
  component theories rest on.

  Integer types. \<open>uint8_t\<close>, \<open>uint16_t\<close>, \<open>uint32_t\<close> and \<open>uint64_t\<close> are words of their width; an
  expression that C promotes to \<open>int\<close> before it is compared is written with \<open>unat\<close> or \<open>int\<close>.
  The allocator's \<open>bufsize\<close> (\<open>int16_t\<close>) is an \<open>int\<close> with the wrap-around of every assignment
  written out by \<open>s16\<close>. Pointers are \<open>int\<close> addresses; a pointer that may be \<open>NULL\<close> is an
  \<open>option\<close>.
\<close>

type_synonym u8 = "8 word"
type_synonym u16 = "16 word"
type_synonym u32 = "32 word"
type_synonym u64 = "64 word"

type_synonym addr = int
type_synonym fnptr = nat

text \<open>The theorem collections of the development: facts that unfold one component's operations.\<close>

named_theorems coap_defs \<open>unfolding of small helper definitions\<close>
named_theorems content_simps \<open>what the operations do to the content of an option list\<close>

subsection \<open>Signed 16 bit assignment\<close>

definition s16 :: "int \<Rightarrow> int" where
  "s16 x = signed_take_bit 15 x"

lemma s16_id [simp]: "- 32768 \<le> x \<Longrightarrow> x < 32768 \<Longrightarrow> s16 x = x"
  by (simp add: s16_def signed_take_bit_int_eq_self)

lemma s16_numeral: "s16 (numeral n) = signed_take_bit 15 (numeral n)"
  by (simp add: s16_def)

lemma int_and_not3 [simp]: "(x :: int) AND - 4 = 4 * (x div 4)"
proof -
  have "(x AND NOT (mask 2 :: int)) = push_bit 2 (drop_bit 2 x)"
    by (rule bit_eqI) (auto simp: bit_simps not_less le_iff_add)
  moreover have "NOT (mask 2 :: int) = - 4" by (simp add: mask_eq_exp_minus_1)
  ultimately show ?thesis
    by (simp add: push_bit_eq_mult drop_bit_eq_div)
qed

subsection \<open>Result codes\<close>

text \<open>\<open>CoAP_Result_t\<close> of \<open>coap.h\<close>, in the order of the enum.\<close>

datatype CoAP_Result_t =
    COAP_OK
  | COAP_NOT_FOUND
  | COAP_PARSE_DATAGRAM_TOO_SHORT
  | COAP_PARSE_UNKOWN_COAP_VERSION
  | COAP_PARSE_MESSAGE_FORMAT_ERROR
  | COAP_PARSE_TOO_MANY_OPTIONS
  | COAP_PARSE_TOO_LONG_OPTION
  | COAP_PARSE_TOO_MUCH_PAYLOAD
  | COAP_PACK_TOO_MANY_OPTIONS
  | COAP_PACK_TOO_LONG_OPTION
  | COAP_ERR_ARGUMENT
  | COAP_ERR_SOCKET
  | COAP_ERR_NETWORK
  | COAP_ERR_OUT_OF_MEMORY
  | COAP_ERR_TOO_LONG_URI_PATH
  | COAP_ERR_NOT_FOUND
  | COAP_ERR_WRONG_OPTION
  | COAP_ERR_EXISTING
  | COAP_TRUE
  | COAP_FALSE
  | COAP_ERR_WRONG_REQUEST
  | COAP_BAD_OPTION_VAL
  | COAP_BAD_OPTION_LEN
  | COAP_REMOVED
  | COAP_ERR_UNKNOWN
  | COAP_ERR_REMOTE_RST
  | COAP_ERR_OUT_OF_ATTEMPTS
  | COAP_ERR_TIMEOUT
  | COAP_WAITING
  | COAP_HOLDING_BACK
  | COAP_RETRY

definition MAX_PAYLOAD_SIZE :: nat where
  "MAX_PAYLOAD_SIZE = 256"

definition PREFERED_PAYLOAD_SIZE :: u16 where
  "PREFERED_PAYLOAD_SIZE = 64"

definition COAP_VERSION :: u8 where
  "COAP_VERSION = 1"

subsection \<open>Byte memories\<close>

text \<open>
  A pointer into raw memory is modelled by the memory seen from it: \<open>m i\<close> is the byte \<open>i\<close> places
  after the pointer. The function is total, as memory on the target is: a read past the datagram
  returns whatever lies there. \<open>has_bytes m o bs\<close>: the bytes \<open>bs\<close> lie at offset \<open>o\<close>.
\<close>

type_synonym memory = "nat \<Rightarrow> u8"

definition mem_of :: "u8 list \<Rightarrow> memory" where
  "mem_of bs = (\<lambda>i. if i < length bs then bs ! i else 0)"

definition mem_at :: "memory \<Rightarrow> nat \<Rightarrow> memory" where
  "mem_at m k = (\<lambda>i. m (k + i))"

definition read_bytes :: "memory \<Rightarrow> nat \<Rightarrow> u8 list" where
  "read_bytes m n = map m [0..<n]"

definition has_bytes :: "memory \<Rightarrow> nat \<Rightarrow> u8 list \<Rightarrow> bool" where
  "has_bytes m k bs \<longleftrightarrow> (\<forall>i < length bs. m (k + i) = bs ! i)"

definition agree_below :: "nat \<Rightarrow> memory \<Rightarrow> memory \<Rightarrow> bool" where
  "agree_below n m m' \<longleftrightarrow> (\<forall>i < n. m i = m' i)"

lemma has_bytes_Nil [simp]: "has_bytes m k []"
  by (simp add: has_bytes_def)

lemma has_bytes_Cons [simp]:
  "has_bytes m k (b # bs) \<longleftrightarrow> m k = b \<and> has_bytes m (Suc k) bs"
  by (auto simp: has_bytes_def nth_Cons less_Suc_eq_0_disj split: nat.splits)

lemma has_bytes_append [simp]:
  "has_bytes m k (xs @ ys) \<longleftrightarrow> has_bytes m k xs \<and> has_bytes m (k + length xs) ys"
  by (induction xs arbitrary: k) auto

lemma has_bytes_mem_of: "has_bytes (mem_of bs) 0 bs"
  by (simp add: has_bytes_def mem_of_def)

lemma has_bytes_mem_at [simp]: "has_bytes (mem_at m k) j bs \<longleftrightarrow> has_bytes m (k + j) bs"
  by (simp add: has_bytes_def mem_at_def add.assoc)

lemma length_read_bytes [simp]: "length (read_bytes m n) = n"
  by (simp add: read_bytes_def)

lemma read_bytes_has: "has_bytes m k bs \<Longrightarrow> read_bytes (mem_at m k) (length bs) = bs"
  by (auto simp: read_bytes_def has_bytes_def mem_at_def intro: nth_equalityI)

lemma read_bytes_agree:
  "agree_below n m m' \<Longrightarrow> k + j \<le> n \<Longrightarrow> read_bytes (mem_at m k) j = read_bytes (mem_at m' k) j"
  by (auto simp: read_bytes_def agree_below_def mem_at_def)

lemma agree_belowD [dest]: "agree_below n m m' \<Longrightarrow> i < n \<Longrightarrow> m i = m' i"
  by (simp add: agree_below_def)

lemma agree_below_mono: "agree_below n m m' \<Longrightarrow> k \<le> n \<Longrightarrow> agree_below k m m'"
  by (simp add: agree_below_def)


subsection \<open>Words\<close>

lemma bit_small:
  fixes w :: "'a :: len word"
  assumes "unat w < 2 ^ n" "bit w k"
  shows "k < n"
proof (rule ccontr)
  assume "\<not> k < n"
  then have "(2 :: nat) ^ n \<le> 2 ^ k" by simp
  then have "unat w < 2 ^ k" using assms(1) less_le_trans by blast
  then have "unat w div 2 ^ k = 0" by simp
  moreover have "odd (unat w div 2 ^ k)"
    using assms(2) by (simp add: bit_unsigned_iff flip: bit_iff_odd)
  ultimately show False by simp
qed

lemma unat_less: "unat (w :: 'a :: len word) < 2 ^ LENGTH('a)"
  by (rule unsigned_less)

lemma u16_less [simp]: "unat (w :: u16) < 65536"
  using unat_less[of w] by simp

lemma u8_less [simp]: "unat (w :: u8) < 256"
  using unat_less[of w] by simp

text \<open>Two bytes in network order are the 16 bit value they were split from.\<close>

lemma u16_of_bytes:
  fixes v :: u16
  shows "push_bit 8 (ucast (ucast (drop_bit 8 v) :: u8)) OR ucast (ucast (v AND 0xff) :: u8) = v"
proof -
  have m: "(0xff :: u16) = mask 8" by (simp add: mask_eq_exp_minus_1)
  show ?thesis unfolding m by (rule bit_word_eqI) (auto simp: bit_simps)
qed

lemma nibbles:
  fixes a b :: u8
  assumes "unat a < 16" "unat b < 16"
  shows "drop_bit 4 (push_bit 4 a OR b) = a" and "(push_bit 4 a OR b) AND 0x0f = b"
proof -
  have ba: "bit a n \<Longrightarrow> n < 4" and bb: "bit b n \<Longrightarrow> n < 4" for n
    using bit_small[of a 4] bit_small[of b 4] assms by simp_all
  show "drop_bit 4 (push_bit 4 a OR b) = a"
    by (rule bit_word_eqI) (auto simp: bit_simps dest: ba bb)
  have m: "(0x0f :: u8) = mask 4" by (simp add: mask_eq_exp_minus_1)
  show "(push_bit 4 a OR b) AND 0x0f = b"
    unfolding m by (rule bit_word_eqI) (auto simp: bit_simps dest: ba bb)
qed

end
