(* ===== verification/Bget.thy ===== *)
theory Bget imports Prelude begin

section \<open>The buffer allocator (\<open>coap_mem.c\<close>)\<close>

text \<open>
  BGET as the stack compiles it: \<open>SizeQuant = 4\<close>, \<open>BestFit\<close>, \<open>BufStats\<close>, no \<open>BECtl\<close>. The boundary
  tags (\<open>struct bhead\<close>) lie in memory at the address of their block, so the state holds them as a
  map from addresses; the size is positive in a free block and negative in an allocated one, and
  \<open>prevfree\<close> is the size of the block before when that one is free. The circular queue of free
  blocks (\<open>freelist\<close>, linked through \<open>struct qlinks\<close>) is the list of their addresses in the order of
  the forward links, without the sentinel: unlinking a block is \<open>remove1\<close>, inserting one before
  the sentinel is appending it. Every assignment to a \<open>bufsize\<close> wraps at 16 bits (\<open>s16\<close>).
  The sizes are those of the 32 bit target: \<open>sizeof(struct bhead) = 4\<close>, \<open>sizeof(struct qlinks) = 8\<close>.
\<close>

record bhead =
  prevfree :: int
  bh_size :: int

record bget_state =
  bh :: "addr \<Rightarrow> bhead"
  freelist :: "addr list"
  totalloc :: int
  numget :: int
  numrel :: int
  pMemArea :: addr
  TotalBufBytes :: int

definition sizeof_bhead :: int where
  "sizeof_bhead = 4"

definition SizeQ :: int where
  "SizeQ = 8"

definition ESent :: int where
  "ESent = - 32768"

definition bget_init :: bget_state where
  "bget_init = \<lparr>bh = (\<lambda>_. \<lparr>prevfree = 0, bh_size = 0\<rparr>), freelist = [], totalloc = 0,
     numget = 0, numrel = 0, pMemArea = 0, TotalBufBytes = 0\<rparr>"

definition set_bsize :: "addr \<Rightarrow> int \<Rightarrow> bget_state \<Rightarrow> bget_state" where
  "set_bsize a n h = h\<lparr>bh := (bh h)(a := (bh h a)\<lparr>bh_size := s16 n\<rparr>)\<rparr>"

definition set_prevfree :: "addr \<Rightarrow> int \<Rightarrow> bget_state \<Rightarrow> bget_state" where
  "set_prevfree a n h = h\<lparr>bh := (bh h)(a := (bh h a)\<lparr>prevfree := s16 n\<rparr>)\<rparr>"

definition add_totalloc :: "int \<Rightarrow> bget_state \<Rightarrow> bget_state" where
  "add_totalloc n h = h\<lparr>totalloc := s16 (totalloc h + n)\<rparr>"

subsection \<open>Sizes\<close>

text \<open>
  \<open>bsize\<close>: the user bytes of an allocated buffer. The header size is an unsigned \<open>size_t\<close>; the result
  is converted back to \<open>int32_t\<close>, which is the difference itself.
\<close>

definition bsize :: "addr option \<Rightarrow> bget_state \<Rightarrow> int" where
  "bsize buf h =
    (case buf of
       None \<Rightarrow> 0
     | Some p \<Rightarrow>
         (let n = bh_size (bh h (p - sizeof_bhead)) in
          if n < 0 then n * - 1 - sizeof_bhead else 0))"

text \<open>
  The size of the block that a request needs. \<open>SizeQ\<close> is unsigned, so the comparison
  \<open>size < SizeQ\<close> is false for a negative request.
\<close>

definition round_request :: "int \<Rightarrow> int" where
  "round_request requested_size =
    (let n = requested_size;
         n = (if 0 \<le> n \<and> n < SizeQ then SizeQ else n);
         n = s16 ((n + 3) AND NOT 3)
     in s16 (n + sizeof_bhead))"

text \<open>
  The scan of the free list for the best fit: the first of the smallest blocks that are big enough.
  \<open>None\<close> is the sentinel \<open>&freelist\<close>.
\<close>

fun best_fit :: "(addr \<Rightarrow> int) \<Rightarrow> int \<Rightarrow> addr option \<Rightarrow> addr list \<Rightarrow> addr option" where
  "best_fit len need best [] = best"
| "best_fit len need best (b # bs) =
    (if need \<le> len b \<and> (case best of None \<Rightarrow> True | Some c \<Rightarrow> len b < len c)
     then best_fit len need (Some b) bs
     else best_fit len need best bs)"

subsection \<open>Allocation\<close>

text \<open>
  \<open>bget_split\<close> is the branch that cuts the request off the end of a free block, \<open>bget_whole\<close> the
  branch that hands out the whole block; they return the address of the user data.
\<close>

definition bget_split :: "addr \<Rightarrow> int \<Rightarrow> bget_state \<Rightarrow> addr \<times> bget_state" where
  "bget_split b need h =
    (let ba = b + (bh_size (bh h b) - need);
         bn = ba + need;
         h = set_bsize b (bh_size (bh h b) - need) h;
         h = set_prevfree ba (bh_size (bh h b)) h;
         h = set_bsize ba (- need) h;
         h = set_prevfree bn 0 h;
         h = add_totalloc need h
     in (ba + sizeof_bhead, h\<lparr>numget := numget h + 1\<rparr>))"

definition bget_whole :: "addr \<Rightarrow> bget_state \<Rightarrow> addr \<times> bget_state" where
  "bget_whole b h =
    (let ba = b + bh_size (bh h b);
         h = h\<lparr>freelist := remove1 b (freelist h)\<rparr>;
         h = add_totalloc (bh_size (bh h b)) h;
         h = h\<lparr>numget := numget h + 1\<rparr>;
         h = set_bsize b (- bh_size (bh h b)) h;
         h = set_prevfree ba 0 h
     in (b + sizeof_bhead, h))"

definition bget :: "int \<Rightarrow> bget_state \<Rightarrow> addr option \<times> bget_state" where
  "bget requested_size h =
    (let need = round_request requested_size in
     case best_fit (\<lambda>b. bh_size (bh h b)) need None (freelist h) of
       None \<Rightarrow> (None, h)
     | Some b \<Rightarrow>
         (let (buf, h') =
                (if bh_size (bh h b) - need > SizeQ + sizeof_bhead
                 then bget_split b need h else bget_whole b h)
          in (Some buf, h')))"

text \<open>
  \<open>bgetz\<close> also clears the buffer; user bytes are not part of this state (the components that own a
  buffer hold its content).
\<close>

definition bgetz :: "int \<Rightarrow> bget_state \<Rightarrow> addr option \<times> bget_state" where
  "bgetz n h = bget n h"

subsection \<open>Release\<close>

definition brel_merge_prev :: "addr \<Rightarrow> bget_state \<Rightarrow> addr \<times> bget_state" where
  "brel_merge_prev b h =
    (if prevfree (bh h b) \<noteq> 0
     then let n = bh_size (bh h b);
              b' = b - prevfree (bh h b)
          in (b', set_bsize b' (bh_size (bh h b') - n) h)
     else let h = h\<lparr>freelist := freelist h @ [b]\<rparr>
          in (b, set_bsize b (- bh_size (bh h b)) h))"

definition brel_merge_next :: "addr \<Rightarrow> bget_state \<Rightarrow> bget_state" where
  "brel_merge_next b h =
    (let bn = b + bh_size (bh h b);
         h = (if bh_size (bh h bn) > 0
              then set_bsize b (bh_size (bh h b) + bh_size (bh h bn))
                     (h\<lparr>freelist := remove1 bn (freelist h)\<rparr>)
              else h);
         bn = b + bh_size (bh h b)
     in set_prevfree bn (bh_size (bh h b)) h)"

definition brel :: "addr \<Rightarrow> bget_state \<Rightarrow> bget_state" where
  "brel buf h =
    (let b = buf - sizeof_bhead;
         h = h\<lparr>numrel := numrel h + 1\<rparr>;
         h = add_totalloc (bh_size (bh h b)) h;
         (b, h) = brel_merge_prev b h
     in brel_merge_next b h)"

subsection \<open>Pools, reallocation and statistics\<close>

definition bpool :: "addr \<Rightarrow> int \<Rightarrow> bget_state \<Rightarrow> bget_state" where
  "bpool buf len h =
    (let b = buf;
         len = s16 (len AND NOT 3);
         h = set_prevfree b 0 h;
         h = h\<lparr>freelist := freelist h @ [b]\<rparr>;
         len = s16 (len - sizeof_bhead);
         h = set_bsize b len h;
         bn = b + len;
         h = set_prevfree bn len h
     in set_bsize bn ESent h)"

definition bgetr :: "addr option \<Rightarrow> int \<Rightarrow> bget_state \<Rightarrow> addr option \<times> bget_state" where
  "bgetr buf n h =
    (case bget n h of
       (None, h) \<Rightarrow> (None, h)
     | (Some nbuf, h) \<Rightarrow>
         (case buf of None \<Rightarrow> (Some nbuf, h) | Some p \<Rightarrow> (Some nbuf, brel p h)))"

record bget_stats =
  curalloc :: int
  totfree :: int
  maxfree :: int
  nget :: int
  nrel :: int

definition bstats :: "bget_state \<Rightarrow> bget_stats" where
  "bstats h =
    foldl (\<lambda>st b. st\<lparr>totfree := s16 (totfree st + bh_size (bh h b)),
                     maxfree := (if bh_size (bh h b) > maxfree st then bh_size (bh h b)
                                 else maxfree st)\<rparr>)
      \<lparr>curalloc = totalloc h, totfree = 0, maxfree = - 1, nget = numget h, nrel = numrel h\<rparr>
      (freelist h)"

subsection \<open>The stack's interface to the allocator\<close>

definition coap_mem_buf_lowEnd :: "bget_state \<Rightarrow> addr" where
  "coap_mem_buf_lowEnd h = pMemArea h"

definition coap_mem_buf_highEnd :: "bget_state \<Rightarrow> addr" where
  "coap_mem_buf_highEnd h = pMemArea h + (TotalBufBytes h - 1)"

definition coap_mem_init :: "addr option \<Rightarrow> int \<Rightarrow> bget_state \<Rightarrow> bget_state" where
  "coap_mem_init pMemoryArea n h =
    (case pMemoryArea of
       None \<Rightarrow> h
     | Some p \<Rightarrow> bpool p n (h\<lparr>pMemArea := p, TotalBufBytes := n\<rparr>))"

definition coap_mem_get :: "int \<Rightarrow> bget_state \<Rightarrow> addr option \<times> bget_state" where
  "coap_mem_get n h = bget (s16 n) h"

definition coap_mem_get0 :: "int \<Rightarrow> bget_state \<Rightarrow> addr option \<times> bget_state" where
  "coap_mem_get0 n h = bgetz (s16 n) h"

definition coap_mem_release :: "addr option \<Rightarrow> bget_state \<Rightarrow> bget_state" where
  "coap_mem_release buf h = (case buf of None \<Rightarrow> h | Some p \<Rightarrow> brel p h)"

end
