(* ===== verification/Bget_Inv.thy ===== *)
theory Bget_Inv imports Bget begin

section \<open>The allocator's invariant\<close>

text \<open>
  The abstract view of the pool is the list of its blocks in address order, each with its size and
  whether it is free. \<open>tiled\<close> says that the boundary tags in memory describe such a list up to the
  end sentinel: sizes are multiples of four and hold the queue links, every back link is right, and
  no two free blocks are neighbours. \<open>pool_inv\<close> adds that the queue of free blocks holds exactly the
  free blocks and that \<open>totalloc\<close> counts the allocated ones. The lemmas below show that \<open>bpool\<close>
  establishes it, that \<open>bget\<close> and \<open>brel\<close> preserve it and what they do to the block list.
\<close>

type_synonym blocks = "(int \<times> bool) list"

fun total_size :: "blocks \<Rightarrow> int" where
  "total_size [] = 0"
| "total_size ((n, fr) # bs) = n + total_size bs"

fun total_of :: "bool \<Rightarrow> blocks \<Rightarrow> int" where
  "total_of f [] = 0"
| "total_of f ((n, fr) # bs) = (if fr = f then n else 0) + total_of f bs"

fun starts :: "bool \<Rightarrow> addr \<Rightarrow> blocks \<Rightarrow> addr list" where
  "starts f a [] = []"
| "starts f a ((n, fr) # bs) = (if fr = f then [a] else []) @ starts f (a + n) bs"

fun lastfree :: "int \<Rightarrow> blocks \<Rightarrow> int" where
  "lastfree pf [] = pf"
| "lastfree pf ((n, fr) # bs) = lastfree (if fr then n else 0) bs"

fun tseg :: "(addr \<Rightarrow> bhead) \<Rightarrow> addr \<Rightarrow> int \<Rightarrow> blocks \<Rightarrow> bool" where
  "tseg m a pf [] \<longleftrightarrow> True"
| "tseg m a pf ((n, fr) # bs) \<longleftrightarrow>
     prevfree (m a) = pf \<and> bh_size (m a) = (if fr then n else - n) \<and> 12 \<le> n \<and> n mod 4 = 0 \<and>
     \<not> (fr \<and> pf \<noteq> 0) \<and> tseg m (a + n) (if fr then n else 0) bs"

fun tiled :: "(addr \<Rightarrow> bhead) \<Rightarrow> addr \<Rightarrow> int \<Rightarrow> blocks \<Rightarrow> bool" where
  "tiled m a pf [] \<longleftrightarrow> prevfree (m a) = pf \<and> bh_size (m a) = ESent"
| "tiled m a pf ((n, fr) # bs) \<longleftrightarrow>
     prevfree (m a) = pf \<and> bh_size (m a) = (if fr then n else - n) \<and> 12 \<le> n \<and> n mod 4 = 0 \<and>
     \<not> (fr \<and> pf \<noteq> 0) \<and> tiled m (a + n) (if fr then n else 0) bs"

lemma total_append [simp]: "total_size (xs @ ys) = total_size xs + total_size ys"
  by (induction xs rule: total_size.induct) auto

lemma total_of_append [simp]: "total_of f (xs @ ys) = total_of f xs + total_of f ys"
  by (induction xs rule: total_size.induct) auto

lemma total_split: "total_size bs = total_of True bs + total_of False bs"
  by (induction bs rule: total_size.induct) auto

lemma starts_append [simp]: "starts f a (xs @ ys) = starts f a xs @ starts f (a + total_size xs) ys"
  by (induction xs arbitrary: a rule: total_size.induct) (auto simp: add.assoc)

lemma lastfree_append [simp]: "lastfree pf (xs @ ys) = lastfree (lastfree pf xs) ys"
  by (induction xs arbitrary: pf rule: total_size.induct) auto

lemma tiled_append:
  "tiled m a pf (xs @ ys) \<longleftrightarrow> tseg m a pf xs \<and> tiled m (a + total_size xs) (lastfree pf xs) ys"
  by (induction xs arbitrary: a pf rule: total_size.induct) (auto simp: add.assoc)

lemma tseg_append [simp]:
  "tseg m a pf (xs @ ys) \<longleftrightarrow> tseg m a pf xs \<and> tseg m (a + total_size xs) (lastfree pf xs) ys"
  by (induction xs arbitrary: a pf rule: total_size.induct) (auto simp: add.assoc)

lemma tseg_total: "tseg m a pf bs \<Longrightarrow> 0 \<le> total_size bs"
  by (induction bs arbitrary: a pf rule: total_size.induct) fastforce+

lemma tiled_total: "tiled m a pf bs \<Longrightarrow> 0 \<le> total_size bs"
  by (induction bs arbitrary: a pf rule: total_size.induct) fastforce+

lemma tseg_total_of: "tseg m a pf bs \<Longrightarrow> 0 \<le> total_of f bs"
  by (induction bs arbitrary: a pf rule: total_size.induct) fastforce+

lemma tiled_total_of: "tiled m a pf bs \<Longrightarrow> 0 \<le> total_of f bs"
  by (induction bs arbitrary: a pf rule: total_size.induct) fastforce+

lemma tseg_starts: "tseg m a pf bs \<Longrightarrow> x \<in> set (starts f a bs) \<Longrightarrow> a \<le> x \<and> x < a + total_size bs"
proof (induction bs arbitrary: a pf rule: total_size.induct)
  case 1
  then show ?case by simp
next
  case (2 n fr bs)
  then show ?case using tseg_total by (fastforce split: if_splits)
qed

lemma tiled_starts: "tiled m a pf bs \<Longrightarrow> x \<in> set (starts f a bs) \<Longrightarrow> a \<le> x \<and> x < a + total_size bs"
proof (induction bs arbitrary: a pf rule: total_size.induct)
  case 1
  then show ?case by simp
next
  case (2 n fr bs)
  then show ?case using tiled_total by (fastforce split: if_splits)
qed

text \<open>A segment or a tail of the pool does not see updates outside its own addresses.\<close>

lemma tseg_frame:
  "tseg m a pf bs \<Longrightarrow> (\<And>x. a \<le> x \<Longrightarrow> x < a + total_size bs \<Longrightarrow> m' x = m x) \<Longrightarrow> tseg m' a pf bs"
proof (induction bs arbitrary: a pf rule: total_size.induct)
  case 1
  then show ?case by simp
next
  case (2 n fr bs)
  have n: "12 \<le> n" and r: "tseg m (a + n) (if fr then n else 0) bs" using "2.prems"(1) by auto
  have "tseg m' (a + n) (if fr then n else 0) bs"
    using "2.IH"[OF r] "2.prems"(2) n by auto
  moreover have "m' a = m a" using "2.prems"(2) n tseg_total[OF r] by auto
  ultimately show ?case using "2.prems"(1) by auto
qed

lemma tiled_frame:
  "tiled m a pf bs \<Longrightarrow> (\<And>x. a \<le> x \<Longrightarrow> m' x = m x) \<Longrightarrow> tiled m' a pf bs"
proof (induction bs arbitrary: a pf rule: total_size.induct)
  case 1
  then show ?case by simp
next
  case (2 n fr bs)
  then have "12 \<le> n" and "tiled m (a + n) (if fr then n else 0) bs" by auto
  then have "tiled m' (a + n) (if fr then n else 0) bs"
    using "2.IH" "2.prems"(2) by auto
  then show ?case using "2.prems" by auto
qed

text \<open>Changing the back link at the head of a tail.\<close>

lemma tiled_set_prevfree:
  assumes "tiled m a pf bs" and "pf \<noteq> 0 \<or> bs = [] \<or> \<not> snd (hd bs) \<or> pf' = 0"
    and "\<And>x. a < x \<Longrightarrow> m' x = m x" and "m' a = (m a)\<lparr>prevfree := pf'\<rparr>"
  shows "tiled m' a pf' bs"
proof (cases bs)
  case Nil
  then show ?thesis using assms by simp
next
  case (Cons x ys)
  obtain n fr where x: "x = (n, fr)" by (cases x)
  have r: "tiled m (a + n) (if fr then n else 0) ys" and n: "12 \<le> n" using assms(1) Cons x by auto
  have "tiled m' (a + n) (if fr then n else 0) ys"
    by (rule tiled_frame[OF r]) (use n assms(3) in auto)
  then show ?thesis using assms Cons x by auto
qed

text \<open>Finding the block that starts at an address.\<close>

lemma starts_decomp:
  "x \<in> set (starts f a bs) \<Longrightarrow> \<exists>xs n ys. bs = xs @ (n, f) # ys \<and> x = a + total_size xs"
proof (induction bs arbitrary: a rule: total_size.induct)
  case 1
  then show ?case by simp
next
  case (2 n fr bs)
  show ?case
  proof (cases "fr = f \<and> x = a")
    case True
    then show ?thesis by (intro exI[of _ "[]"] exI[of _ n] exI[of _ bs]) simp
  next
    case False
    then have "x \<in> set (starts f (a + n) bs)" using "2.prems" by (auto split: if_splits)
    then obtain xs k ys where "bs = xs @ (k, f) # ys" "x = a + n + total_size xs"
      using "2.IH" by blast
    then show ?thesis by (intro exI[of _ "(n, fr) # xs"] exI[of _ k] exI[of _ ys]) simp
  qed
qed

lemma distinct_starts: "tiled m a pf bs \<Longrightarrow> distinct (starts f a bs)"
proof (induction bs arbitrary: a pf rule: total_size.induct)
  case 1
  then show ?case by simp
next
  case (2 n fr bs)
  then show ?case using tiled_starts by fastforce
qed

lemma starts_disjoint:
  "tiled m a pf bs \<Longrightarrow> x \<in> set (starts True a bs) \<Longrightarrow> x \<in> set (starts False a bs) \<Longrightarrow> False"
proof (induction bs arbitrary: a pf rule: total_size.induct)
  case 1
  then show ?case by simp
next
  case (2 n fr bs)
  then show ?case using tiled_starts by (fastforce split: if_splits)
qed

lemma lastfree_decomp:
  "lastfree 0 bs \<noteq> 0 \<Longrightarrow> bs = butlast bs @ [(lastfree 0 bs, True)]"
proof (induction bs rule: rev_induct)
  case Nil
  then show ?case by simp
next
  case (snoc x xs)
  then show ?case by (cases x) (auto split: if_splits)
qed

subsection \<open>The invariant\<close>

definition pool_inv :: "bget_state \<Rightarrow> blocks \<Rightarrow> bool" where
  "pool_inv h bl \<longleftrightarrow>
     tiled (bh h) (pMemArea h) 0 bl \<and>
     distinct (freelist h) \<and> set (freelist h) = set (starts True (pMemArea h) bl) \<and>
     totalloc h = total_of False bl \<and> total_size bl \<le> 32760 \<and> total_size bl + 4 \<le> TotalBufBytes h"

definition live_of :: "addr \<Rightarrow> blocks \<Rightarrow> addr set" where
  "live_of a bl = (\<lambda>x. x + 4) ` set (starts False a bl)"

definition heap_inv :: "bget_state \<Rightarrow> addr set \<Rightarrow> bool" where
  "heap_inv h L \<longleftrightarrow> (\<exists>bl. pool_inv h bl \<and> L = live_of (pMemArea h) bl)"

lemmas heap_ops = set_bsize_def set_prevfree_def add_totalloc_def sizeof_bhead_def SizeQ_def Let_def

lemma pool_inv_bounds:
  assumes "pool_inv h (xs @ (n, f) # ys)"
  shows "12 \<le> n" "n \<le> 32760" "n mod 4 = 0" "bh_size (bh h (pMemArea h + total_size xs)) = (if f then n else - n)"
    "prevfree (bh h (pMemArea h + total_size xs)) = lastfree 0 xs"
proof -
  have t: "tseg (bh h) (pMemArea h) 0 xs"
    "tiled (bh h) (pMemArea h + total_size xs) (lastfree 0 xs) ((n, f) # ys)"
    and le: "total_size xs + (n + total_size ys) \<le> 32760"
    using assms by (auto simp: pool_inv_def tiled_append)
  have "0 \<le> total_size xs" "0 \<le> total_size ys" using t tseg_total tiled_total by auto
  then show "12 \<le> n" "n \<le> 32760" "n mod 4 = 0"
    "bh_size (bh h (pMemArea h + total_size xs)) = (if f then n else - n)"
    "prevfree (bh h (pMemArea h + total_size xs)) = lastfree 0 xs" using t le by auto
qed


text \<open>Every rewrite of the tags of one region leaves the rest of the pool tiled.\<close>

lemma tiled_replace:
  assumes "tiled m a 0 (xs @ mid @ ys)"
    and mid: "tseg m' (a + total_size xs) (lastfree 0 xs) mid'"
    and tot: "total_size mid' = total_size mid" and midlen: "0 < total_size mid"
    and out: "\<And>x. x < a + total_size xs \<or> a + total_size xs + total_size mid < x \<Longrightarrow> m' x = m x"
    and bn: "m' (a + total_size xs + total_size mid) =
      (m (a + total_size xs + total_size mid))\<lparr>prevfree := lastfree (lastfree 0 xs) mid'\<rparr>"
    and nofree: "ys = [] \<or> \<not> snd (hd ys) \<or> lastfree (lastfree 0 xs) mid' = 0"
  shows "tiled m' a 0 (xs @ mid' @ ys)"
proof -
  have t: "tseg m a 0 xs"
    "tiled m (a + total_size xs + total_size mid) (lastfree (lastfree 0 xs) mid) ys"
    using assms(1) by (auto simp: tiled_append add.assoc)
  have 1: "tseg m' a 0 xs" by (rule tseg_frame[OF t(1)]) (use out in auto)
  have 2: "tiled m' (a + total_size xs + total_size mid) (lastfree (lastfree 0 xs) mid') ys"
    by (rule tiled_set_prevfree[OF t(2)]) (use nofree out midlen bn in auto)
  show ?thesis using 1 2 mid tot by (simp add: tiled_append add.assoc)
qed

lemma head_not_free:
  assumes "tiled m a 0 (xs @ (n, True) # ys)"
  shows "ys = [] \<or> \<not> snd (hd ys)"
  using assms by (cases ys) (auto simp: tiled_append)

lemma lastfree_before_free:
  assumes "tiled m a 0 (xs @ (n, True) # ys)"
  shows "lastfree 0 xs = 0"
  using assms by (auto simp: tiled_append)

subsection \<open>Allocation preserves the invariant\<close>

lemma bget_split_frame [simp]:
  "freelist (snd (bget_split b need h)) = freelist h"
  "pMemArea (snd (bget_split b need h)) = pMemArea h"
  "TotalBufBytes (snd (bget_split b need h)) = TotalBufBytes h"
  by (simp_all add: bget_split_def heap_ops)

lemma bget_whole_frame [simp]:
  "freelist (snd (bget_whole b h)) = remove1 b (freelist h)"
  "pMemArea (snd (bget_whole b h)) = pMemArea h"
  "TotalBufBytes (snd (bget_whole b h)) = TotalBufBytes h"
  by (simp_all add: bget_whole_def heap_ops)

lemma bget_split_inv:
  assumes inv: "pool_inv h (xs @ (n, True) # ys)"
    and b: "b = pMemArea h + total_size xs"
    and need: "12 \<le> need" "need mod 4 = 0" "12 < n - need"
  shows "pool_inv (snd (bget_split b need h)) (xs @ (n - need, True) # (need, False) # ys)"
    and "fst (bget_split b need h) = b + (n - need) + 4"
proof -
  note bd = pool_inv_bounds[OF inv, folded b]
  let ?m = "bh (snd (bget_split b need h))"
  have m: "?m = (bh h)(b := (bh h b)\<lparr>bh_size := n - need\<rparr>,
       b + (n - need) := (bh h (b + (n - need)))\<lparr>prevfree := n - need, bh_size := - need\<rparr>,
       b + n := (bh h (b + n))\<lparr>prevfree := 0\<rparr>)"
    using bd need by (simp add: bget_split_def heap_ops fun_upd_twist)
  have t: "tiled (bh h) (pMemArea h) 0 (xs @ [(n, True)] @ ys)"
    using inv by (simp add: pool_inv_def)
  have "tiled ?m (pMemArea h) 0 (xs @ [(n - need, True), (need, False)] @ ys)"
  proof (rule tiled_replace[OF t])
    show "tseg ?m (pMemArea h + total_size xs) (lastfree 0 xs) [(n - need, True), (need, False)]"
      using bd need lastfree_before_free[of _ _ xs n ys] t unfolding m b[symmetric]
      by (auto simp: algebra_simps)
  qed (use bd need in \<open>auto simp: m b[symmetric]\<close>)
  moreover have "totalloc (snd (bget_split b need h)) = totalloc h + need"
  proof -
    have "0 \<le> total_of False xs" "0 \<le> total_of False ys" "0 \<le> total_of True xs" "0 \<le> total_of True ys"
      using t by (auto simp: tiled_append tseg_total_of tiled_total_of)
    then show ?thesis using inv need
      by (auto simp: bget_split_def heap_ops pool_inv_def total_split[of xs] total_split[of ys])
  qed
  ultimately show "pool_inv (snd (bget_split b need h)) (xs @ (n - need, True) # (need, False) # ys)"
    using inv by (simp add: pool_inv_def add.assoc)
  show "fst (bget_split b need h) = b + (n - need) + 4"
    using bd by (simp add: bget_split_def heap_ops)
qed

lemma bget_whole_inv:
  assumes inv: "pool_inv h (xs @ (n, True) # ys)"
    and b: "b = pMemArea h + total_size xs"
  shows "pool_inv (snd (bget_whole b h)) (xs @ (n, False) # ys)"
    and "fst (bget_whole b h) = b + 4"
proof -
  note bd = pool_inv_bounds[OF inv, folded b]
  let ?m = "bh (snd (bget_whole b h))"
  have m: "?m = (bh h)(b := (bh h b)\<lparr>bh_size := - n\<rparr>, b + n := (bh h (b + n))\<lparr>prevfree := 0\<rparr>)"
    using bd by (simp add: bget_whole_def heap_ops)
  have t: "tiled (bh h) (pMemArea h) 0 (xs @ [(n, True)] @ ys)"
    using inv by (simp add: pool_inv_def)
  have "tiled ?m (pMemArea h) 0 (xs @ [(n, False)] @ ys)"
  proof (rule tiled_replace[OF t])
    show "tseg ?m (pMemArea h + total_size xs) (lastfree 0 xs) [(n, False)]"
      using bd unfolding m b[symmetric] by auto
  qed (use bd in \<open>auto simp: m b[symmetric]\<close>)
  moreover have "totalloc (snd (bget_whole b h)) = totalloc h + n"
  proof -
    have "0 \<le> total_of False xs" "0 \<le> total_of False ys" "0 \<le> total_of True xs" "0 \<le> total_of True ys"
      using t by (auto simp: tiled_append tseg_total_of tiled_total_of)
    then show ?thesis using inv bd
      by (auto simp: bget_whole_def heap_ops pool_inv_def total_split[of xs] total_split[of ys])
  qed
  moreover have "set (remove1 b (freelist h)) = set (starts True (pMemArea h) (xs @ (n, False) # ys))"
  proof -
    have "distinct (starts True (pMemArea h) (xs @ (n, True) # ys))"
      using t distinct_starts by fastforce
    then have "set (starts True (pMemArea h) (xs @ (n, True) # ys)) - {b}
      = set (starts True (pMemArea h) (xs @ (n, False) # ys))" by (auto simp: b)
    then show ?thesis using inv by (simp add: pool_inv_def)
  qed
  ultimately show "pool_inv (snd (bget_whole b h)) (xs @ (n, False) # ys)"
    using inv by (simp add: pool_inv_def)
  show "fst (bget_whole b h) = b + 4" by (simp add: bget_whole_def heap_ops)
qed


subsection \<open>Release preserves the invariant\<close>

text \<open>
  What releasing the block \<open>(n, False)\<close> between \<open>xs\<close> and \<open>ys\<close> leaves: one free block that has
  swallowed its free neighbours.
\<close>

definition before_release :: "blocks \<Rightarrow> blocks" where
  "before_release xs = (if lastfree 0 xs \<noteq> 0 then butlast xs else xs)"

definition after_release :: "blocks \<Rightarrow> blocks" where
  "after_release ys = (if ys \<noteq> [] \<and> snd (hd ys) then tl ys else ys)"

definition next_size :: "blocks \<Rightarrow> int" where
  "next_size ys = (if ys \<noteq> [] \<and> snd (hd ys) then fst (hd ys) else 0)"

definition release_blocks :: "blocks \<Rightarrow> int \<Rightarrow> blocks \<Rightarrow> blocks" where
  "release_blocks xs n ys =
     before_release xs @ (lastfree 0 xs + n + next_size ys, True) # after_release ys"

definition mid_blocks :: "blocks \<Rightarrow> int \<Rightarrow> blocks \<Rightarrow> blocks" where
  "mid_blocks xs n ys =
     (if lastfree 0 xs \<noteq> 0 then [(lastfree 0 xs, True)] else []) @ [(n, False)] @
     (if ys \<noteq> [] \<and> snd (hd ys) then [hd ys] else [])"

lemma before_mid_after:
  "xs @ (n, False) # ys = before_release xs @ mid_blocks xs n ys @ after_release ys"
  using lastfree_decomp[of xs]
  by (auto simp: before_release_def mid_blocks_def after_release_def butlast_append)

lemma total_mid: "total_size (mid_blocks xs n ys) = lastfree 0 xs + n + next_size ys"
  by (cases ys) (auto simp: mid_blocks_def next_size_def)

lemma before_release_end: "lastfree 0 xs \<noteq> 0 \<Longrightarrow> xs = before_release xs @ [(lastfree 0 xs, True)]"
  using lastfree_decomp[of xs] by (auto simp: before_release_def)

lemma before_release_same: "lastfree 0 xs = 0 \<Longrightarrow> before_release xs = xs"
  by (simp add: before_release_def)

lemma total_before: "total_size (before_release xs) = total_size xs - lastfree 0 xs"
  using before_release_end[of xs] before_release_same[of xs]
  by (metis add_diff_cancel_right' total_size.simps total_append add.right_neutral)

lemma next_tag:
  assumes "tiled m a pf ys"
  shows "(if ys \<noteq> [] \<and> snd (hd ys) then bh_size (m a) = next_size ys \<and> 12 \<le> next_size ys
          else bh_size (m a) < 0 \<and> next_size ys = 0)"
  using assms by (cases "(m, a, pf, ys)" rule: tiled.cases) (auto simp: next_size_def ESent_def)

text \<open>The state after a release, with the branches of the code collected.\<close>

lemma brel_state:
  assumes inv: "pool_inv h (xs @ (n, False) # ys)"
    and b: "b = pMemArea h + total_size xs"
    and a: "a = b - lastfree 0 xs" and N: "N = lastfree 0 xs + n + next_size ys"
  shows "bh (brel (b + 4) h) =
           (bh h)(a := (bh h a)\<lparr>bh_size := N\<rparr>, a + N := (bh h (a + N))\<lparr>prevfree := N\<rparr>)"
    and "freelist (brel (b + 4) h) =
           (let fl = (if lastfree 0 xs \<noteq> 0 then freelist h else freelist h @ [b])
            in if ys \<noteq> [] \<and> snd (hd ys) then remove1 (b + n) fl else fl)"
    and "totalloc (brel (b + 4) h) = s16 (totalloc h - n)"
    and "pMemArea (brel (b + 4) h) = pMemArea h"
    and "TotalBufBytes (brel (b + 4) h) = TotalBufBytes h"
proof -
  note bd = pool_inv_bounds[OF inv, folded b]
  have t: "tseg (bh h) (pMemArea h) 0 xs" "tiled (bh h) (b + n) 0 ys"
    and le: "total_size xs + (n + total_size ys) \<le> 32760"
    using inv by (auto simp: pool_inv_def tiled_append b add.assoc)
  note nx = next_tag[OF t(2)]
  have pr: "lastfree 0 xs \<noteq> 0 \<Longrightarrow> bh_size (bh h a) = lastfree 0 xs \<and> 12 \<le> lastfree 0 xs"
  proof -
    assume "lastfree 0 xs \<noteq> 0"
    then have "tseg (bh h) (pMemArea h) 0 (before_release xs @ [(lastfree 0 xs, True)])"
      using before_release_end t(1) by simp
    then show ?thesis by (simp add: a b total_before add_diff_eq)
  qed
  have lb: "lastfree 0 xs + n + next_size ys \<le> 32760" "0 \<le> next_size ys" "0 \<le> lastfree 0 xs"
  proof -
    have "0 \<le> total_size (before_release xs)"
    proof (cases "lastfree 0 xs = 0")
      case True
      then show ?thesis using before_release_same tseg_total[OF t(1)] by simp
    next
      case False
      then show ?thesis using before_release_end t(1) tseg_total tseg_append by metis
    qed
    moreover have "next_size ys \<le> total_size ys"
    proof (cases "(bh h, b + n, 0::int, ys)" rule: tiled.cases)
      case (2 m c q k fr zs)
      then have "0 \<le> total_size zs" "12 \<le> k" using t(2) tiled_total by auto
      then show ?thesis using 2 by (auto simp: next_size_def)
    qed (auto simp: next_size_def)
    ultimately show "lastfree 0 xs + n + next_size ys \<le> 32760" using total_before[of xs] le by simp
    show "0 \<le> next_size ys" using nx by (auto split: if_splits)
    show "0 \<le> lastfree 0 xs" using pr by (cases "lastfree 0 xs = 0") auto
  qed
  show "bh (brel (b + 4) h) =
           (bh h)(a := (bh h a)\<lparr>bh_size := N\<rparr>, a + N := (bh h (a + N))\<lparr>prevfree := N\<rparr>)"
    using bd nx pr lb unfolding N
    by (cases "lastfree 0 xs = 0"; cases "ys \<noteq> [] \<and> snd (hd ys)")
       (simp_all add: brel_def brel_merge_prev_def brel_merge_next_def heap_ops a algebra_simps)
  show "freelist (brel (b + 4) h) =
           (let fl = (if lastfree 0 xs \<noteq> 0 then freelist h else freelist h @ [b])
            in if ys \<noteq> [] \<and> snd (hd ys) then remove1 (b + n) fl else fl)"
    using bd nx pr lb
    by (cases "lastfree 0 xs = 0"; cases "ys \<noteq> [] \<and> snd (hd ys)";
        simp add: brel_def brel_merge_prev_def brel_merge_next_def heap_ops a algebra_simps; auto)
  show "totalloc (brel (b + 4) h) = s16 (totalloc h - n)"
    using bd by (simp add: brel_def brel_merge_prev_def brel_merge_next_def heap_ops)
  show "pMemArea (brel (b + 4) h) = pMemArea h" "TotalBufBytes (brel (b + 4) h) = TotalBufBytes h"
    by (simp_all add: brel_def brel_merge_prev_def brel_merge_next_def heap_ops)
qed


lemma starts_mid:
  "starts True a (mid_blocks xs n ys) =
     (if lastfree 0 xs \<noteq> 0 then [a] else []) @
     (if ys \<noteq> [] \<and> snd (hd ys) then [a + lastfree 0 xs + n] else [])"
  "starts False a (mid_blocks xs n ys) = [a + lastfree 0 xs]"
  by (cases ys; auto simp: mid_blocks_def)+

lemma brel_inv:
  assumes inv: "pool_inv h (xs @ (n, False) # ys)"
    and b: "b = pMemArea h + total_size xs"
  shows "pool_inv (brel (b + 4) h) (release_blocks xs n ys)"
proof -
  define a N where "a = b - lastfree 0 xs" and "N = lastfree 0 xs + n + next_size ys"
  let ?bef = "before_release xs" and ?aft = "after_release ys" and ?mid = "mid_blocks xs n ys"
  note st = brel_state[OF inv b a_def N_def]
  have bl: "xs @ (n, False) # ys = ?bef @ ?mid @ ?aft" by (rule before_mid_after)
  have t: "tiled (bh h) (pMemArea h) 0 (?bef @ ?mid @ ?aft)"
    using inv bl by (simp add: pool_inv_def)
  have a: "a = pMemArea h + total_size ?bef" by (simp add: a_def b total_before)
  have N: "total_size ?mid = N" by (simp add: total_mid N_def)
  have tm: "tseg (bh h) a (lastfree 0 ?bef) ?mid"
    using t by (simp add: tiled_append a)
  have lb: "lastfree 0 ?bef = 0"
  proof (cases "lastfree 0 xs = 0")
    case True
    then show ?thesis by (simp add: before_release_same)
  next
    case False
    then show ?thesis using tm by (simp add: mid_blocks_def)
  qed
  have pa: "prevfree (bh h a) = 0" using tm lb by (simp add: mid_blocks_def split: if_splits)
  have N12: "12 \<le> N \<and> N mod 4 = 0"
  proof -
    have "\<And>p. tseg (bh h) a p ?mid \<Longrightarrow> 12 \<le> total_size ?mid \<and> total_size ?mid mod 4 = 0"
      by (cases ys) (auto simp: mid_blocks_def split: if_splits; presburger)+
    then show ?thesis using tm N by blast
  qed
  have nf: "?aft = [] \<or> \<not> snd (hd ?aft)"
  proof (cases "ys \<noteq> [] \<and> snd (hd ys)")
    case True
    then obtain j zs where "ys = (j, True) # zs" by (cases ys) auto
    then show ?thesis using t by (cases zs) (auto simp: after_release_def mid_blocks_def tiled_append)
  qed (auto simp: after_release_def)
  have tile: "tiled (bh (brel (b + 4) h)) (pMemArea h) 0 (?bef @ [(N, True)] @ ?aft)"
    by (rule tiled_replace[OF t]) (use st(1) N12 N lb pa nf in \<open>auto simp: a\<close>)
  have dst: "distinct (starts True (pMemArea h) (?bef @ ?mid @ ?aft))"
    using distinct_starts[OF t] .
  have bnot: "b \<notin> set (starts True (pMemArea h) (?bef @ ?mid @ ?aft))"
    using starts_disjoint[OF t, of b] by (auto simp: starts_mid a[symmetric] a_def)
  have fl0: "distinct (freelist h)"
    "set (freelist h) = set (starts True (pMemArea h) (?bef @ ?mid @ ?aft))"
    using inv bl by (simp_all add: pool_inv_def)
  have fl: "distinct (freelist (brel (b + 4) h)) \<and>
    set (freelist (brel (b + 4) h)) = set (starts True (pMemArea h) (?bef @ [(N, True)] @ ?aft))"
    using fl0 bnot dst N unfolding st(2)
    by (auto simp: Let_def starts_mid a[symmetric] a_def N_def add.assoc split: if_splits)
  have "totalloc (brel (b + 4) h) = total_of False (?bef @ [(N, True)] @ ?aft)"
  proof -
    have "total_of False ?mid = n" by (cases ys) (auto simp: mid_blocks_def)
    moreover have "0 \<le> total_of False ?bef" "0 \<le> total_of False ?aft" "0 \<le> total_of True ?bef"
      "0 \<le> total_of True ?aft"
      using t by (auto simp: tiled_append tseg_total_of tiled_total_of)
    ultimately show ?thesis using inv bl N12 N unfolding st(3)
      by (simp add: pool_inv_def total_split[of ?bef] total_split[of ?aft])
  qed
  then show ?thesis
    using tile fl inv bl N st(4,5) unfolding release_blocks_def N_def
    by (simp add: pool_inv_def)
qed

lemma release_blocks_live:
  assumes "pool_inv h (xs @ (n, False) # ys)"
  shows "live_of (pMemArea h) (release_blocks xs n ys) =
    live_of (pMemArea h) (xs @ (n, False) # ys) - {pMemArea h + total_size xs + 4}"
proof -
  have "tiled (bh h) (pMemArea h) 0 (xs @ (n, False) # ys)" using assms by (simp add: pool_inv_def)
  then have "distinct (starts False (pMemArea h) (xs @ (n, False) # ys))" by (rule distinct_starts)
  then show ?thesis
    unfolding before_mid_after release_blocks_def live_of_def
    by (auto simp: starts_mid total_before total_mid)
qed

subsection \<open>Requests\<close>

lemma round_request_eq:
  assumes "0 < n" "n \<le> 32752"
  shows "round_request n = 4 * ((max n 8 + 3) div 4) + 4"
  using assms by (auto simp: round_request_def SizeQ_def sizeof_bhead_def Let_def max_def)

lemma round_request_bounds:
  assumes "0 < n" "n \<le> 32752"
  shows "12 \<le> round_request n" "round_request n mod 4 = 0" "n + 4 \<le> round_request n"
    "round_request n < n + 16"
  using assms by (auto simp: round_request_eq max_def)

text \<open>The scan finds a smallest sufficient block, if there is one.\<close>

lemma best_fit_Some:
  "best_fit len need best bs = Some b \<Longrightarrow>
     (\<forall>c. best = Some c \<longrightarrow> need \<le> len c) \<Longrightarrow>
     (b \<in> set bs \<or> best = Some b) \<and> need \<le> len b \<and>
     (\<forall>c \<in> set bs. need \<le> len c \<longrightarrow> len b \<le> len c) \<and> (\<forall>c. best = Some c \<longrightarrow> len b \<le> len c)"
proof (induction bs arbitrary: best)
  case Nil
  then show ?case by simp
next
  case (Cons a bs)
  then show ?case by (fastforce split: if_splits option.splits)
qed

lemma best_fit_None:
  "best_fit len need best bs = None \<longleftrightarrow> best = None \<and> (\<forall>c \<in> set bs. len c < need)"
  by (induction bs arbitrary: best) (auto split: option.splits)

text \<open>Allocation, as a step of the block list.\<close>

lemma bget_None:
  assumes "bget n h = (None, h')"
  shows "h' = h" and "\<forall>b \<in> set (freelist h). bh_size (bh h b) < round_request n"
  using assms by (auto simp: bget_def Let_def best_fit_None split: option.splits prod.splits if_splits)

lemma bget_Some:
  assumes g: "bget n h = (Some p, h')" and inv: "pool_inv h bl" and n: "0 < n" "n \<le> 32752"
  obtains xs m ys where "bl = xs @ (m, True) # ys" "round_request n \<le> m"
    "\<forall>b \<in> set (freelist h). round_request n \<le> bh_size (bh h b) \<longrightarrow> m \<le> bh_size (bh h b)"
    "12 < m - round_request n \<Longrightarrow> p = pMemArea h + total_size xs + (m - round_request n) + 4 \<and>
       pool_inv h' (xs @ (m - round_request n, True) # (round_request n, False) # ys)"
    "\<not> 12 < m - round_request n \<Longrightarrow> p = pMemArea h + total_size xs + 4 \<and>
       pool_inv h' (xs @ (m, False) # ys)"
    "pMemArea h' = pMemArea h"
proof -
  let ?need = "round_request n"
  obtain b where bf: "best_fit (\<lambda>b. bh_size (bh h b)) ?need None (freelist h) = Some b"
    and r: "(p, h') = (if bh_size (bh h b) - ?need > 12 then bget_split b ?need h else bget_whole b h)"
    using g by (auto simp: bget_def Let_def SizeQ_def sizeof_bhead_def
        split: option.splits prod.splits if_splits)
  have b: "b \<in> set (freelist h)" "?need \<le> bh_size (bh h b)"
    "\<forall>c \<in> set (freelist h). ?need \<le> bh_size (bh h c) \<longrightarrow> bh_size (bh h b) \<le> bh_size (bh h c)"
    using best_fit_Some[OF bf] by auto
  then have "b \<in> set (starts True (pMemArea h) bl)" using inv by (simp add: pool_inv_def)
  then obtain xs m ys where d: "bl = xs @ (m, True) # ys" "b = pMemArea h + total_size xs"
    using starts_decomp by blast
  note inv' = inv[unfolded d(1)]
  have m: "bh_size (bh h b) = m" using pool_inv_bounds(4)[OF inv'] d(2) by simp
  note rb = round_request_bounds[OF n]
  show thesis
  proof (rule that[OF d(1)])
    show "12 < m - ?need \<Longrightarrow> p = pMemArea h + total_size xs + (m - ?need) + 4 \<and>
       pool_inv h' (xs @ (m - ?need, True) # (?need, False) # ys)"
      using bget_split_inv[OF inv' d(2) rb(1,2)] r m d(2) by (auto simp: prod_eq_iff)
    show "\<not> 12 < m - ?need \<Longrightarrow> p = pMemArea h + total_size xs + 4 \<and> pool_inv h' (xs @ (m, False) # ys)"
      using bget_whole_inv[OF inv' d(2)] r m d(2) by (auto simp: prod_eq_iff)
    show "pMemArea h' = pMemArea h"
      using r by (auto simp: prod_eq_iff split: if_splits)
  qed (use b m in auto)
qed

lemma bget_blocks:
  assumes g: "bget n h = (Some p, h')" and inv: "pool_inv h bl" and n: "0 < n" "n \<le> 32752"
  obtains bl' where "pool_inv h' bl'" "live_of (pMemArea h) bl' = insert p (live_of (pMemArea h) bl)"
    "p \<notin> live_of (pMemArea h) bl" "total_size bl' = total_size bl" "pMemArea h' = pMemArea h"
proof -
  obtain xs m ys where d: "bl = xs @ (m, True) # ys" "round_request n \<le> m"
    "12 < m - round_request n \<Longrightarrow> p = pMemArea h + total_size xs + (m - round_request n) + 4 \<and>
       pool_inv h' (xs @ (m - round_request n, True) # (round_request n, False) # ys)"
    "\<not> 12 < m - round_request n \<Longrightarrow> p = pMemArea h + total_size xs + 4 \<and>
       pool_inv h' (xs @ (m, False) # ys)"
    "pMemArea h' = pMemArea h"
    using bget_Some[OF g inv n] by metis
  define bl' where "bl' = (if 12 < m - round_request n
    then xs @ (m - round_request n, True) # (round_request n, False) # ys else xs @ (m, False) # ys)"
  have t: "tiled (bh h) (pMemArea h) 0 (xs @ (m, True) # ys)" using inv d(1) by (simp add: pool_inv_def)
  have "x + 4 \<noteq> p" if "x \<in> set (starts False (pMemArea h) (xs @ (m, True) # ys))" for x
  proof -
    have "x \<in> set (starts False (pMemArea h) xs) \<or>
      x \<in> set (starts False (pMemArea h + total_size xs + m) ys)" using that by auto
    then have "x < pMemArea h + total_size xs \<or> pMemArea h + total_size xs + m \<le> x"
      using t tseg_starts tiled_starts by (auto simp: tiled_append; blast)
    moreover have "pMemArea h + total_size xs + 4 \<le> p" "p < pMemArea h + total_size xs + m + 4"
      using d(2,3,4) round_request_bounds[OF n] by (cases "12 < m - round_request n"; auto)+
    ultimately show ?thesis by auto
  qed
  then have "p \<notin> live_of (pMemArea h) bl" using d(1) by (auto simp: live_of_def)
  moreover have "pool_inv h' bl'" using d(3,4) by (auto simp: bl'_def)
  moreover have "live_of (pMemArea h) bl' = insert p (live_of (pMemArea h) bl)"
    using d(1,3,4) by (auto simp: bl'_def live_of_def add.assoc split: if_splits)
  moreover have "total_size bl' = total_size bl" using d(1) by (simp add: bl'_def)
  ultimately show thesis using that d(5) by blast
qed

lemma brel_blocks:
  assumes inv: "pool_inv h bl" and p: "p \<in> live_of (pMemArea h) bl"
  obtains bl' where "pool_inv (brel p h) bl'" "live_of (pMemArea h) bl' = live_of (pMemArea h) bl - {p}"
    "total_size bl' = total_size bl" "pMemArea (brel p h) = pMemArea h"
proof -
  obtain b where b: "b \<in> set (starts False (pMemArea h) bl)" "p = b + 4"
    using p by (auto simp: live_of_def)
  then obtain xs n ys where d: "bl = xs @ (n, False) # ys" "b = pMemArea h + total_size xs"
    using starts_decomp by blast
  note inv' = inv[unfolded d(1)]
  have "total_size (release_blocks xs n ys) = total_size bl"
    unfolding d(1) before_mid_after by (simp add: release_blocks_def total_mid)
  then show thesis
    using that[of "release_blocks xs n ys"] brel_inv[OF inv' d(2)] release_blocks_live[OF inv'] d b(2)
      brel_state(4)[OF inv' d(2) refl refl] by simp
qed

lemma heap_inv_bget:
  assumes "bget n h = (Some p, h')" "heap_inv h L" "0 < n" "n \<le> 32752"
  shows "heap_inv h' (insert p L)" and "p \<notin> L"
  using bget_blocks[OF assms(1) _ assms(3,4)] assms(2) unfolding heap_inv_def by metis+

lemma heap_inv_brel: "heap_inv h L \<Longrightarrow> p \<in> L \<Longrightarrow> heap_inv (brel p h) (L - {p})"
  using brel_blocks unfolding heap_inv_def by metis

end
