(* ===== verification/Coap_Mem.thy ===== *)
theory Coap_Mem imports Bget_Inv begin

section \<open>The allocator's contract\<close>

text \<open>
  What the rest of the stack relies on: the interface \<open>allocator\<close>, its interpretation on
  \<open>coap_mem_get\<close> and \<open>coap_mem_release\<close>, and the properties of the allocator itself (separation of
  live buffers, completeness of a failed request, best fit, accounting, and that a pool whose
  buffers have all been released is one free block again).
\<close>

subsection \<open>The interface\<close>

text \<open>
  \<open>inv h L\<close>: \<open>h\<close> is a well-formed heap whose live buffers are exactly \<open>L\<close>. \<open>fits n\<close>: \<open>n\<close> is a
  request the allocator accepts.
\<close>

locale allocator =
  fixes get :: "int \<Rightarrow> 'h \<Rightarrow> addr option \<times> 'h"
    and rel :: "addr \<Rightarrow> 'h \<Rightarrow> 'h"
    and inv :: "'h \<Rightarrow> addr set \<Rightarrow> bool"
    and fits :: "int \<Rightarrow> bool"
  assumes get_fresh: "get n h = (Some p, h') \<Longrightarrow> inv h L \<Longrightarrow> fits n \<Longrightarrow> p \<notin> L"
    and get_inv: "get n h = (Some p, h') \<Longrightarrow> inv h L \<Longrightarrow> fits n \<Longrightarrow> inv h' (insert p L)"
    and get_None: "get n h = (None, h') \<Longrightarrow> h' = h"
    and rel_inv: "inv h L \<Longrightarrow> p \<in> L \<Longrightarrow> inv (rel p h) (L - {p})"
begin

lemma rel_all:
  "inv h L \<Longrightarrow> distinct ps \<Longrightarrow> set ps \<subseteq> L \<Longrightarrow> inv (fold rel ps h) (L - set ps)"
proof (induction ps arbitrary: h L)
  case Nil
  then show ?case by simp
next
  case (Cons p ps)
  have "inv (rel p h) (L - {p})" using Cons.prems rel_inv by simp
  then have "inv (fold rel ps (rel p h)) (L - {p} - set ps)"
    using Cons.IH[of "rel p h" "L - {p}"] Cons.prems(2,3) by (simp add: subset_Diff_insert)
  moreover have "L - {p} - set ps = L - set (p # ps)" by auto
  ultimately show ?case by simp
qed

lemma get_rel_inv: "get n h = (Some p, h') \<Longrightarrow> inv h L \<Longrightarrow> fits n \<Longrightarrow> inv (rel p h') L"
  using rel_inv[OF get_inv] get_fresh by fastforce

end

definition fits :: "int \<Rightarrow> bool" where
  "fits n \<longleftrightarrow> 0 < n \<and> n \<le> 32752"

lemma coap_mem_get_eq [simp]: "fits n \<Longrightarrow> coap_mem_get n h = bget n h"
  by (simp add: fits_def coap_mem_get_def)

lemma coap_mem_get0_eq [simp]: "coap_mem_get0 n h = coap_mem_get n h"
  by (simp add: coap_mem_get0_def coap_mem_get_def bgetz_def)

lemma coap_mem_release_None [simp]: "coap_mem_release None h = h"
  by (simp add: coap_mem_release_def)

abbreviation release1 :: "addr \<Rightarrow> bget_state \<Rightarrow> bget_state" where
  "release1 p h \<equiv> coap_mem_release (Some p) h"

interpretation mem: allocator coap_mem_get release1 heap_inv fits
proof
  show "p \<notin> L" if "coap_mem_get n h = (Some p, h')" "heap_inv h L" "fits n" for n h p h' L
    using that heap_inv_bget(2) by (simp add: fits_def coap_mem_get_def)
  show "heap_inv h' (insert p L)"
    if "coap_mem_get n h = (Some p, h')" "heap_inv h L" "fits n" for n h p h' L
    using that heap_inv_bget(1) by (simp add: fits_def coap_mem_get_def)
  show "h' = h" if "coap_mem_get n h = (None, h')" for n h h'
    using that bget_None(1) by (simp add: coap_mem_get_def)
  show "heap_inv (release1 p h) (L - {p})" if "heap_inv h L" "p \<in> L" for h L p
    using that heap_inv_brel by (simp add: coap_mem_release_def)
qed

subsection \<open>Initialisation\<close>

lemma coap_mem_init_inv:
  assumes "16 \<le> n" "n \<le> 32767"
  shows "pool_inv (coap_mem_init (Some p) n bget_init) [(4 * (n div 4) - 4, True)]"
    and "pMemArea (coap_mem_init (Some p) n bget_init) = p"
proof -
  have "s16 (n AND NOT 3) = 4 * (n div 4)" "16 \<le> 4 * (n div 4)" using assms by auto
  then show "pool_inv (coap_mem_init (Some p) n bget_init) [(4 * (n div 4) - 4, True)]"
    using assms
    by (simp add: coap_mem_init_def bpool_def heap_ops pool_inv_def bget_init_def ESent_def)
       presburger
  show "pMemArea (coap_mem_init (Some p) n bget_init) = p"
    by (simp add: coap_mem_init_def bpool_def heap_ops)
qed

lemma heap_inv_init:
  assumes "16 \<le> n" "n \<le> 32767"
  shows "heap_inv (coap_mem_init (Some p) n bget_init) {}"
  using coap_mem_init_inv[OF assms] by (force simp: heap_inv_def live_of_def)

subsection \<open>Separation of live buffers\<close>

text \<open>The bytes of the block of a live buffer, its header included.\<close>

definition block_of :: "addr \<Rightarrow> bget_state \<Rightarrow> addr set" where
  "block_of p h = {p - 4 ..< p + bsize (Some p) h}"

lemma live_block:
  assumes "pool_inv h bl" "p \<in> live_of (pMemArea h) bl"
  obtains xs n ys where "bl = xs @ (n, False) # ys" "p = pMemArea h + total_size xs + 4"
    "bsize (Some p) h = n - 4" "12 \<le> n" "n mod 4 = 0"
proof -
  obtain b where b: "b \<in> set (starts False (pMemArea h) bl)" "p = b + 4"
    using assms(2) by (auto simp: live_of_def)
  then obtain xs n ys where d: "bl = xs @ (n, False) # ys" "b = pMemArea h + total_size xs"
    using starts_decomp by blast
  note bd = pool_inv_bounds[OF assms(1)[unfolded d(1)]]
  show thesis
    using that[OF d(1)] d(2) b(2) bd by (simp add: bsize_def sizeof_bhead_def)
qed

lemma live_in_pool:
  assumes "heap_inv h L" "p \<in> L"
  shows "block_of p h \<subseteq> {pMemArea h ..< pMemArea h + TotalBufBytes h}" "8 \<le> bsize (Some p) h"
proof -
  obtain bl where bl: "pool_inv h bl" "L = live_of (pMemArea h) bl"
    using assms(1) by (auto simp: heap_inv_def)
  obtain xs n ys where d: "bl = xs @ (n, False) # ys" "p = pMemArea h + total_size xs + 4"
    "bsize (Some p) h = n - 4" "12 \<le> n"
    using live_block[OF bl(1)] assms(2) bl(2) by metis
  have "0 \<le> total_size xs" "0 \<le> total_size ys"
    using bl(1) d(1) tseg_total tiled_total by (auto simp: pool_inv_def tiled_append)
  then show "block_of p h \<subseteq> {pMemArea h ..< pMemArea h + TotalBufBytes h}" "8 \<le> bsize (Some p) h"
    using bl(1) d by (auto simp: block_of_def pool_inv_def)
qed

lemma live_disjoint:
  assumes "heap_inv h L" "p \<in> L" "q \<in> L" "p \<noteq> q"
  shows "block_of p h \<inter> block_of q h = {}"
proof -
  obtain bl where bl: "pool_inv h bl" "L = live_of (pMemArea h) bl"
    using assms(1) by (auto simp: heap_inv_def)
  obtain xs n ys where d: "bl = xs @ (n, False) # ys" "p = pMemArea h + total_size xs + 4"
    "bsize (Some p) h = n - 4" "12 \<le> n"
    using live_block[OF bl(1)] assms(2) bl(2) by metis
  obtain us m vs where e: "bl = us @ (m, False) # vs" "q = pMemArea h + total_size us + 4"
    "bsize (Some q) h = m - 4" "12 \<le> m"
    using live_block[OF bl(1)] assms(3) bl(2) by metis
  have nonneg: "0 \<le> total_size zs" if "bl = ws @ zs @ ts" for ws zs ts
    using that bl(1) tseg_total by (fastforce simp: pool_inv_def tiled_append)
  have "(\<exists>ts. us = xs @ (n, False) # ts) \<or> (\<exists>ts. xs = us @ (m, False) # ts) \<or> xs = us"
    using d(1) e(1) by (auto simp: append_eq_append_conv2 append_eq_Cons_conv Cons_eq_append_conv)
  then consider ts where "us = xs @ (n, False) # ts" | ts where "xs = us @ (m, False) # ts"
    using assms(4) d(2) e(2) by auto
  then show ?thesis
  proof cases
    case 1
    then have "0 \<le> total_size ts" using nonneg[of "xs @ [(n, False)]" ts] e(1) by simp
    then show ?thesis using 1 d e by (auto simp: block_of_def)
  next
    case 2
    then have "0 \<le> total_size ts" using nonneg[of "us @ [(m, False)]" ts] d(1) by simp
    then show ?thesis using 2 d e by (auto simp: block_of_def)
  qed
qed

text \<open>The size tag of a live buffer survives requests and the release of other buffers.\<close>

lemma bget_bsize:
  assumes "bget n h = (Some p, h')" "heap_inv h L" "fits n"
  shows "n \<le> bsize (Some p) h'" and "\<forall>q \<in> L. bsize (Some q) h' = bsize (Some q) h"
proof -
  have n: "0 < n" "n \<le> 32752" using assms(3) by (auto simp: fits_def)
  note rb = round_request_bounds[OF n]
  obtain bl where bl: "pool_inv h bl" "L = live_of (pMemArea h) bl"
    using assms(2) by (auto simp: heap_inv_def)
  obtain xs m ys where d: "bl = xs @ (m, True) # ys" "round_request n \<le> m"
    "12 < m - round_request n \<Longrightarrow> p = pMemArea h + total_size xs + (m - round_request n) + 4 \<and>
       pool_inv h' (xs @ (m - round_request n, True) # (round_request n, False) # ys)"
    "\<not> 12 < m - round_request n \<Longrightarrow> p = pMemArea h + total_size xs + 4 \<and>
       pool_inv h' (xs @ (m, False) # ys)" "pMemArea h' = pMemArea h"
    using bget_Some[OF assms(1) bl(1) n] by metis
  show "n \<le> bsize (Some p) h'"
  proof (cases "12 < m - round_request n")
    case True
    have "p - 4 = pMemArea h' + total_size (xs @ [(m - round_request n, True)])"
      using d(3,5) True by simp
    then have "bh_size (bh h' (p - 4)) = - round_request n"
      using pool_inv_bounds(4)[of h' "xs @ [(m - round_request n, True)]" "round_request n" False ys]
        d(3) True by (simp add: add.assoc)
    then show ?thesis using rb by (simp add: bsize_def sizeof_bhead_def)
  next
    case False
    have "bh_size (bh h' (p - 4)) = - m" "12 \<le> m"
      using pool_inv_bounds(1,4)[of h' xs m False ys] d(4,5) False by auto
    then show ?thesis using rb d(2) by (simp add: bsize_def sizeof_bhead_def)
  qed
  have bh': "bh_size (bh h' b) = bh_size (bh h b)"
    if bs: "b \<in> set (starts False (pMemArea h) bl)" for b
  proof -
    obtain us k vs where u: "bl = us @ (k, False) # vs" "b = pMemArea h + total_size us"
      using starts_decomp[OF bs] by blast
    have old: "bh_size (bh h b) = - k" using pool_inv_bounds(4)[OF bl(1)[unfolded u(1)]] u(2) by simp
    have "xs @ (m, True) # ys = us @ (k, False) # vs" using d(1) u(1) by simp
    then consider ts where "us = xs @ (m, True) # ts" "ys = ts @ (k, False) # vs"
      | ts where "xs = us @ (k, False) # ts" "vs = ts @ (m, True) # ys"
      by (auto simp: append_eq_append_conv2 append_eq_Cons_conv Cons_eq_append_conv)
    then have "bh_size (bh h' b) = - k"
    proof cases
      case 1
      then show ?thesis
        using d(3,4,5) u(2)
          pool_inv_bounds(4)[of h' "xs @ (m - round_request n, True) # (round_request n, False) # ts" k False vs]
          pool_inv_bounds(4)[of h' "xs @ (m, False) # ts" k False vs]
        by (cases "12 < m - round_request n") (auto simp: add.assoc)
    next
      case 2
      then show ?thesis
        using d(3,4,5) u(2)
          pool_inv_bounds(4)[of h' us k False "ts @ (m - round_request n, True) # (round_request n, False) # ys"]
          pool_inv_bounds(4)[of h' us k False "ts @ (m, False) # ys"]
        by (cases "12 < m - round_request n") (auto simp: add.assoc)
    qed
    then show ?thesis using old by simp
  qed
  then show "\<forall>q \<in> L. bsize (Some q) h' = bsize (Some q) h"
    using bl(2) by (auto simp: live_of_def bsize_def sizeof_bhead_def)
qed


subsection \<open>Requests that succeed\<close>

text \<open>\<open>room h k\<close>: some free block has at least \<open>k\<close> bytes. A request takes at most its size and 15 bytes of it.\<close>

definition room :: "bget_state \<Rightarrow> int \<Rightarrow> bool" where
  "room h k \<longleftrightarrow> (\<exists>b \<in> set (freelist h). k \<le> bh_size (bh h b))"

lemma room_mono: "room h k \<Longrightarrow> j \<le> k \<Longrightarrow> room h j"
  unfolding room_def by (meson order_trans)

lemma room_blocks:
  assumes "pool_inv h bl"
  shows "room h k \<longleftrightarrow> (\<exists>m. (m, True) \<in> set bl \<and> k \<le> m)"
proof
  assume "room h k"
  then obtain b where b: "b \<in> set (starts True (pMemArea h) bl)" "k \<le> bh_size (bh h b)"
    using assms by (auto simp: room_def pool_inv_def)
  then obtain xs m ys where d: "bl = xs @ (m, True) # ys" "b = pMemArea h + total_size xs"
    using starts_decomp by blast
  then have "bh_size (bh h b) = m" using pool_inv_bounds(4)[of h xs m True ys] assms by simp
  then show "\<exists>m. (m, True) \<in> set bl \<and> k \<le> m" using b(2) d(1) by auto
next
  assume "\<exists>m. (m, True) \<in> set bl \<and> k \<le> m"
  then obtain m where m: "(m, True) \<in> set bl" "k \<le> m" by blast
  then obtain xs ys where d: "bl = xs @ (m, True) # ys" by (meson split_list)
  have "bh_size (bh h (pMemArea h + total_size xs)) = m"
    using pool_inv_bounds(4)[OF assms[unfolded d]] by simp
  moreover have "pMemArea h + total_size xs \<in> set (freelist h)" using assms d by (auto simp: pool_inv_def)
  ultimately show "room h k" using m(2) by (auto simp: room_def)
qed

lemma room_get:
  assumes inv: "heap_inv h L" and f: "fits n" and r: "room h k" and k: "n + 28 \<le> k"
  shows "\<exists>p h'. coap_mem_get n h = (Some p, h') \<and> room h' (k - n - 15)"
proof -
  have n: "0 < n" "n \<le> 32752" using f by (auto simp: fits_def)
  note rb = round_request_bounds[OF n]
  obtain bl where bl: "pool_inv h bl" using inv by (auto simp: heap_inv_def)
  obtain m where m: "(m, True) \<in> set bl" "k \<le> m" using r room_blocks[OF bl] by blast
  obtain b where b: "b \<in> set (freelist h)" "k \<le> bh_size (bh h b)" using r by (auto simp: room_def)
  obtain q h' where g: "bget n h = (q, h')" by (cases "bget n h")
  have "q \<noteq> None"
  proof
    assume "q = None"
    then have "bh_size (bh h b) < round_request n" using bget_None(2) g b(1) by blast
    then show False using b(2) rb k by linarith
  qed
  then obtain p where p: "q = Some p" by blast
  obtain xs c ys where d: "bl = xs @ (c, True) # ys" "round_request n \<le> c"
    "12 < c - round_request n \<Longrightarrow> pool_inv h' (xs @ (c - round_request n, True) # (round_request n, False) # ys)"
    "\<not> 12 < c - round_request n \<Longrightarrow> pool_inv h' (xs @ (c, False) # ys)"
    using bget_Some[OF g[unfolded p] bl n] by metis
  have "room h' (k - n - 15)"
  proof (cases "12 < c - round_request n")
    case True
    have "\<exists>j. (j, True) \<in> set (xs @ (c - round_request n, True) # (round_request n, False) # ys) \<and> k - n - 15 \<le> j"
    proof (cases "m = c")
      case True
      then show ?thesis using m(2) rb by (intro exI[of _ "c - round_request n"]) auto
    next
      case False
      then show ?thesis using m d(1) n by (intro exI[of _ m]) auto
    qed
    then show ?thesis using room_blocks d(3) True by blast
  next
    case False
    then have "m \<noteq> c" using m(2) k rb by linarith
    then have "(m, True) \<in> set (xs @ (c, False) # ys)" using m(1) d(1) by auto
    moreover have "k - n - 15 \<le> m" using m(2) n by linarith
    ultimately show ?thesis using room_blocks d(4) False by blast
  qed
  then show ?thesis using g p f by simp
qed

lemma room_get_some:
  assumes "fits n" "room h k" "n + 16 \<le> k"
  shows "\<exists>p h'. coap_mem_get n h = (Some p, h')"
proof -
  obtain b where b: "b \<in> set (freelist h)" "k \<le> bh_size (bh h b)" using assms(2) by (auto simp: room_def)
  obtain q h' where g: "bget n h = (q, h')" by (cases "bget n h")
  have "round_request n < n + 16" using round_request_bounds(4)[of n] assms(1) by (simp add: fits_def)
  then have "q \<noteq> None" using bget_None(2)[of n h h'] g b assms(3) by fastforce
  then show ?thesis using g assms(1) by auto
qed

subsection \<open>Runs\<close>

text \<open>
  The heaps a program reaches from an initialised pool by requests, failed ones included, and
  releases of live buffers.
\<close>

inductive mem_run :: "addr \<Rightarrow> int \<Rightarrow> bget_state \<Rightarrow> addr set \<Rightarrow> bool" for base :: addr and n :: int where
  mem_start: "16 \<le> n \<Longrightarrow> n \<le> 32767 \<Longrightarrow> mem_run base n (coap_mem_init (Some base) n bget_init) {}"
| mem_get: "mem_run base n h L \<Longrightarrow> fits k \<Longrightarrow> coap_mem_get k h = (Some p, h') \<Longrightarrow>
    mem_run base n h' (insert p L)"
| mem_fail: "mem_run base n h L \<Longrightarrow> coap_mem_get k h = (None, h') \<Longrightarrow> mem_run base n h' L"
| mem_rel: "mem_run base n h L \<Longrightarrow> p \<in> L \<Longrightarrow> mem_run base n (coap_mem_release (Some p) h) (L - {p})"

lemma mem_run_blocks:
  "mem_run base n h L \<Longrightarrow> \<exists>bl. pool_inv h bl \<and> pMemArea h = base \<and> L = live_of base bl \<and>
     total_size bl = 4 * (n div 4) - 4"
proof (induction rule: mem_run.induct)
  case mem_start
  then show ?case using coap_mem_init_inv
    by (intro exI[of _ "[(4 * (n div 4) - 4, True)]"]) (simp add: live_of_def)
next
  case (mem_get h L k p h')
  then have "bget k h = (Some p, h')" "0 < k" "k \<le> 32752"
    by (auto simp: coap_mem_get_def fits_def)
  then show ?case using mem_get.IH bget_blocks[of k h p h'] by metis
next
  case (mem_fail h L k h')
  then show ?case using mem.get_None by blast
next
  case (mem_rel h L p)
  then show ?case using brel_blocks unfolding coap_mem_release_def option.case by metis
qed

lemma mem_run_size: "mem_run base n h L \<Longrightarrow> 16 \<le> n"
  by (induction rule: mem_run.induct) auto

lemma all_free_single:
  assumes "tiled m a pf bl" "starts False a bl = []" "bl \<noteq> []"
  shows "\<exists>k. bl = [(k, True)]"
proof -
  obtain n fr bs where b: "bl = (n, fr) # bs" using assms(3) by (cases bl) auto
  then have fr: "fr" "starts False (a + n) bs = []" using assms(2) by (auto split: if_splits)
  have "bs = []"
  proof (rule ccontr)
    assume "bs \<noteq> []"
    then obtain k g cs where "bs = (k, g) # cs" by (cases bs) auto
    then show False using assms(1) b fr by (auto split: if_splits)
  qed
  then show ?thesis using b fr by simp
qed

lemma mem_run_drained:
  assumes "mem_run base n h {}"
  shows "freelist h = [base] \<and> bh_size (bh h base) = 4 * (n div 4) - 4 \<and> totalloc h = 0"
proof -
  obtain bl where bl: "pool_inv h bl" "pMemArea h = base" "{} = live_of base bl"
    "total_size bl = 4 * (n div 4) - 4" using mem_run_blocks[OF assms] by blast
  have "16 \<le> n" using assms by (rule mem_run_size)
  then have ne: "bl \<noteq> []" using bl(4) by auto
  have "starts False base bl = []" using bl(3) by (simp add: live_of_def)
  moreover have "tiled (bh h) base 0 bl" using bl(1,2) by (simp add: pool_inv_def)
  ultimately obtain k where one: "bl = [(k, True)]" using all_free_single[OF _ _ ne] by blast
  then have "freelist h = [base]"
    using bl(1,2) by (cases "freelist h" rule: remdups_adj.cases) (auto simp: pool_inv_def)
  then show ?thesis using bl one by (auto simp: pool_inv_def)
qed


subsection \<open>Statistics\<close>

lemma bstats_fold:
  assumes "\<forall>b \<in> set bs. 0 \<le> f b" "0 \<le> totfree st" "totfree st + sum_list (map f bs) < 32768"
  shows "totfree (foldl (\<lambda>st b. st\<lparr>totfree := s16 (totfree st + f b),
           maxfree := (if f b > maxfree st then f b else maxfree st)\<rparr>) st bs)
         = totfree st + sum_list (map f bs)"
  using assms
proof (induction bs arbitrary: st)
  case Nil
  then show ?case by simp
next
  case (Cons b bs)
  have "0 \<le> sum_list (map f bs)" using Cons.prems(1) by (intro sum_list_nonneg) auto
  then have "s16 (totfree st + f b) = totfree st + f b" using Cons.prems by simp
  then show ?case using Cons by simp
qed

lemma bstats_fold_other:
  "curalloc (foldl (\<lambda>st b. st\<lparr>totfree := g st b, maxfree := k st b\<rparr>) st bs) = curalloc st"
  "nget (foldl (\<lambda>st b. st\<lparr>totfree := g st b, maxfree := k st b\<rparr>) st bs) = nget st"
  "nrel (foldl (\<lambda>st b. st\<lparr>totfree := g st b, maxfree := k st b\<rparr>) st bs) = nrel st"
  by (induction bs arbitrary: st) auto

lemma starts_sum:
  "tiled m a pf bl \<Longrightarrow> sum_list (map (\<lambda>b. bh_size (m b)) (starts True a bl)) = total_of True bl"
  by (induction bl arbitrary: a pf rule: total_size.induct) auto

lemma starts_size_pos:
  "tiled m a pf bl \<Longrightarrow> b \<in> set (starts True a bl) \<Longrightarrow> 0 \<le> bh_size (m b)"
  by (induction bl arbitrary: a pf rule: total_size.induct) (auto split: if_splits)

lemma starts_distinct: "tiled m a pf bl \<Longrightarrow> distinct (starts f a bl)"
proof (induction bl arbitrary: a pf rule: total_size.induct)
  case 1
  then show ?case by simp
next
  case (2 n fr bs)
  then show ?case using tiled_starts[of m "a + n" _ bs a f] by fastforce
qed

lemma free_sum:
  assumes "pool_inv h bl"
  shows "sum_list (map (\<lambda>b. bh_size (bh h b)) (freelist h)) = total_of True bl"
    and "\<forall>b \<in> set (freelist h). 0 \<le> bh_size (bh h b)"
proof -
  have t: "tiled (bh h) (pMemArea h) 0 bl" and d: "distinct (freelist h)"
    and s: "set (freelist h) = set (starts True (pMemArea h) bl)"
    using assms by (auto simp: pool_inv_def)
  have "sum_list (map f (freelist h)) = sum f (set (freelist h))" for f :: "addr \<Rightarrow> int"
    using d by (simp add: sum_list_distinct_conv_sum_set)
  moreover have "sum_list (map f (starts True (pMemArea h) bl)) = sum f (set (freelist h))"
    for f :: "addr \<Rightarrow> int"
    using starts_distinct[OF t] s by (simp add: sum_list_distinct_conv_sum_set)
  ultimately show "sum_list (map (\<lambda>b. bh_size (bh h b)) (freelist h)) = total_of True bl"
    using starts_sum[OF t] by simp
  show "\<forall>b \<in> set (freelist h). 0 \<le> bh_size (bh h b)"
    using starts_size_pos[OF t] s by auto
qed

lemma bget_counts:
  "bget n h = (Some p, h') \<Longrightarrow> numget h' = numget h + 1 \<and> numrel h' = numrel h"
  by (auto simp: bget_def bget_split_def bget_whole_def Let_def heap_ops
           split: option.splits if_splits)

lemma brel_counts: "numget (brel p h) = numget h \<and> numrel (brel p h) = numrel h + 1"
  by (auto simp: brel_def brel_merge_prev_def brel_merge_next_def Let_def heap_ops
           split: prod.splits)

lemma mem_run_counts:
  "mem_run base n h L \<Longrightarrow> finite L \<and> numget h - numrel h = int (card L)"
proof (induction rule: mem_run.induct)
  case mem_start
  then show ?case by (simp add: coap_mem_init_def bpool_def heap_ops bget_init_def)
next
  case (mem_get h L k p h')
  then have g: "bget k h = (Some p, h')" "0 < k" "k \<le> 32752"
    by (auto simp: coap_mem_get_def fits_def)
  obtain bl where "pool_inv h bl" "pMemArea h = base" "L = live_of base bl"
    using mem_run_blocks[OF mem_get.hyps(1)] by blast
  then have "p \<notin> L" using bget_blocks[OF g(1) _ g(2,3)] by metis
  then show ?case using mem_get.IH bget_counts[OF g(1)] by simp
next
  case (mem_fail h L k h')
  then show ?case using mem.get_None by blast
next
  case (mem_rel h L p)
  then have "0 < card L" by (auto simp: card_gt_0_iff)
  then show ?case using mem_rel brel_counts[of p h]
    by (simp add: coap_mem_release_def of_nat_diff)
qed


lemma brel_size_elsewhere:
  assumes "x \<noteq> p - 4" "prevfree (bh h (p - 4)) \<noteq> 0 \<Longrightarrow> x \<noteq> p - 4 - prevfree (bh h (p - 4))"
  shows "bh_size (bh (brel p h) x) = bh_size (bh h x)"
proof -
  have next_ok: "bh_size (bh (brel_merge_next b k) x) = bh_size (bh k x)" if "x \<noteq> b" for b k
    using that by (simp add: brel_merge_next_def heap_ops)
  show ?thesis
  proof (cases "prevfree (bh h (p - 4)) = 0")
    case True
    then show ?thesis using assms(1) next_ok by (simp add: brel_def brel_merge_prev_def heap_ops)
  next
    case False
    then show ?thesis using assms next_ok by (simp add: brel_def brel_merge_prev_def heap_ops)
  qed
qed

lemma lastfree_nonzero: "lastfree 0 xs \<noteq> 0 \<Longrightarrow> \<exists>zs. xs = zs @ [(lastfree 0 xs, True)]"
  by (cases xs rule: rev_exhaust) (auto split: if_splits)

lemma brel_bsize:
  assumes "heap_inv h L" "p \<in> L" "q \<in> L" "q \<noteq> p"
  shows "bsize (Some q) (release1 p h) = bsize (Some q) h"
proof -
  obtain bl where bl: "pool_inv h bl" "L = live_of (pMemArea h) bl"
    using assms(1) by (auto simp: heap_inv_def)
  obtain xs n ys where d: "bl = xs @ (n, False) # ys" "p = pMemArea h + total_size xs + 4"
    using live_block[OF bl(1)] assms(2) bl(2) by metis
  obtain us m vs where e: "bl = us @ (m, False) # vs" "q = pMemArea h + total_size us + 4" "12 \<le> m"
    using live_block[OF bl(1)] assms(3) bl(2) by metis
  have q: "bh_size (bh h (q - 4)) = - m" using pool_inv_bounds(4)[OF bl(1)[unfolded e(1)]] e(2) by simp
  have "q - 4 \<noteq> p - 4 - prevfree (bh h (p - 4))" if ne: "prevfree (bh h (p - 4)) \<noteq> 0"
  proof -
    have pf: "prevfree (bh h (p - 4)) = lastfree 0 xs"
      using pool_inv_bounds(5)[OF bl(1)[unfolded d(1)]] d(2) by simp
    then obtain zs where zs: "xs = zs @ [(lastfree 0 xs, True)]" using ne lastfree_nonzero by metis
    define k where "k = lastfree 0 xs"
    have zs': "xs = zs @ [(k, True)]" using zs by (simp add: k_def)
    have t: "total_size xs = total_size zs + k" using zs' by simp
    have "bl = zs @ (k, True) # (n, False) # ys" using d(1) zs' by simp
    then have "bh_size (bh h (pMemArea h + total_size zs)) = k" "12 \<le> k"
      using pool_inv_bounds(1,4)[of h zs k True] bl(1) by auto
    moreover have "p - 4 - prevfree (bh h (p - 4)) = pMemArea h + total_size zs" using t d(2) pf k_def by simp
    ultimately show ?thesis using q e(3) by auto
  qed
  then have "bh_size (bh (release1 p h) (q - 4)) = bh_size (bh h (q - 4))"
    using brel_size_elsewhere[of "q - 4" p h] assms(4) by (simp add: coap_mem_release_def)
  then show ?thesis by (simp add: bsize_def sizeof_bhead_def)
qed


subsection \<open>Properties of the allocator\<close>

text \<open>The pool of the concrete instances: 4096 bytes at address 4096, as the server sets it up.\<close>

definition demo_heap :: bget_state where
  "demo_heap = coap_mem_init (Some 4096) 4096 bget_init"

lemma demo_heap_inv: "heap_inv demo_heap {}"
  by (simp add: demo_heap_def heap_inv_init)

text \<open>
  C7: a successful request returns a fresh buffer: it was not live before, it holds at least the
  requested bytes, its block lies inside the pool and overlaps the block of no other live buffer, the
  sizes of all other live buffers are unchanged, and the pool is well formed again with exactly this
  buffer added.
\<close>

theorem coap_mem_get_sound:
  assumes "heap_inv h L" "fits n" "coap_mem_get n h = (Some p, h')"
  shows "p \<notin> L \<and> heap_inv h' (insert p L) \<and> n \<le> bsize (Some p) h' \<and>
    block_of p h' \<subseteq> {pMemArea h' ..< pMemArea h' + TotalBufBytes h'} \<and>
    (\<forall>q \<in> L. bsize (Some q) h' = bsize (Some q) h \<and> block_of q h' \<inter> block_of p h' = {})"
proof -
  have inv: "heap_inv h' (insert p L)" and fresh: "p \<notin> L"
    using mem.get_inv mem.get_fresh assms by blast+
  have "bget n h = (Some p, h')" using assms(2,3) by simp
  note bs = bget_bsize[OF this assms(1,2)]
  have "block_of q h' \<inter> block_of p h' = {}" if "q \<in> L" for q
    using live_disjoint[OF inv, of q p] fresh that by auto
  then show ?thesis using inv fresh bs live_in_pool(1)[OF inv, of p] by simp
qed

theorem coap_mem_get_sound_witness:
  "\<exists>p h'. coap_mem_get 20 demo_heap = (Some p, h') \<and> p = 8168 \<and> 20 \<le> bsize (Some p) h' \<and>
     heap_inv h' {p}"
proof -
  have f: "fits 20" by (simp add: fits_def)
  obtain p h' where g: "coap_mem_get 20 demo_heap = (Some p, h')" "p = 8168"
    by (simp add: demo_heap_def coap_mem_init_def bpool_def heap_ops bget_init_def bget_def
        bget_split_def round_request_def ESent_def fits_def)
  show ?thesis using coap_mem_get_sound[OF demo_heap_inv f g(1)] g by simp
qed


text \<open>
  C8: the search is complete and best-fit. A request fails exactly when every free block is smaller
  than the rounded request (which exceeds the request by 4 to 15 bytes), and then nothing changes;
  otherwise the buffer is cut out of a free block that is big enough and no larger than any other one
  that is.
\<close>

theorem coap_mem_get_best_fit:
  assumes "heap_inv h L" "fits n"
  shows "n + 4 \<le> round_request n \<and> round_request n < n + 16 \<and>
    (case coap_mem_get n h of
       (None, h') \<Rightarrow> h' = h \<and> (\<forall>b \<in> set (freelist h). bh_size (bh h b) < round_request n)
     | (Some p, h') \<Rightarrow> \<exists>b \<in> set (freelist h).
         round_request n \<le> bh_size (bh h b) \<and> b < p \<and> p + n \<le> b + bh_size (bh h b) \<and>
         (\<forall>c \<in> set (freelist h). round_request n \<le> bh_size (bh h c) \<longrightarrow>
            bh_size (bh h b) \<le> bh_size (bh h c)))"
proof -
  have n: "0 < n" "n \<le> 32752" using assms(2) by (auto simp: fits_def)
  note rb = round_request_bounds[OF n]
  obtain bl where bl: "pool_inv h bl" using assms(1) by (auto simp: heap_inv_def)
  have g: "coap_mem_get n h = bget n h" using assms(2) by simp
  show ?thesis
  proof (cases "bget n h")
    case (Pair r h')
    show ?thesis
    proof (cases r)
      case None
      then show ?thesis using bget_None[of n h h'] Pair g rb by simp
    next
      case (Some p)
      obtain xs m ys where d: "bl = xs @ (m, True) # ys" "round_request n \<le> m"
        "\<forall>b \<in> set (freelist h). round_request n \<le> bh_size (bh h b) \<longrightarrow> m \<le> bh_size (bh h b)"
        "12 < m - round_request n \<Longrightarrow> p = pMemArea h + total_size xs + (m - round_request n) + 4"
        "\<not> 12 < m - round_request n \<Longrightarrow> p = pMemArea h + total_size xs + 4"
        using bget_Some[OF Pair[unfolded Some] bl n] by metis
      let ?b = "pMemArea h + total_size xs"
      have b: "?b \<in> set (freelist h)" "bh_size (bh h ?b) = m"
        using bl d(1) pool_inv_bounds(4)[OF bl[unfolded d(1)]] by (auto simp: pool_inv_def)
      have "?b < p" "p + n \<le> ?b + m" using d(2,4,5) rb by linarith+
      then show ?thesis using Pair Some g rb b d(2,3) by (auto intro!: bexI[of _ ?b])
    qed
  qed
qed

theorem coap_mem_get_best_fit_witness:
  "(case coap_mem_get 5000 demo_heap of
     (None, h') \<Rightarrow> h' = demo_heap \<and> (\<forall>b \<in> set (freelist demo_heap). bh_size (bh demo_heap b) < 5004)
   | (Some p, h') \<Rightarrow> False) \<and> round_request 5000 < 5016"
proof -
  have f: "fits 5000" by (simp add: fits_def)
  have "fst (coap_mem_get 5000 demo_heap) = None"
    by (simp add: demo_heap_def coap_mem_init_def bpool_def heap_ops bget_init_def bget_def
        round_request_def ESent_def fits_def)
  moreover have "round_request 5000 = 5004" by (simp add: round_request_def sizeof_bhead_def SizeQ_def)
  ultimately show ?thesis using coap_mem_get_best_fit[OF demo_heap_inv f]
    by (auto split: prod.splits option.splits)
qed

text \<open>
  C9: releasing a live buffer gives a well-formed pool with exactly that buffer gone, leaves the size
  of every other live buffer as it was, and a request that is released at once leaves the live set
  unchanged. Releasing a null pointer does nothing.
\<close>

theorem coap_mem_release_sound:
  assumes "heap_inv h L" "p \<in> L"
  shows "heap_inv (coap_mem_release (Some p) h) (L - {p}) \<and>
    (\<forall>q \<in> L - {p}. bsize (Some q) (coap_mem_release (Some p) h) = bsize (Some q) h \<and>
       block_of q (coap_mem_release (Some p) h) = block_of q h) \<and>
    coap_mem_release None h = h"
  using mem.rel_inv[OF assms] brel_bsize[OF assms] by (simp add: block_of_def)

theorem coap_mem_release_sound_witness:
  "\<exists>p h'. coap_mem_get 20 demo_heap = (Some p, h') \<and> heap_inv (coap_mem_release (Some p) h') {}"
proof -
  have f: "fits 20" by (simp add: fits_def)
  obtain p h' where g: "coap_mem_get 20 demo_heap = (Some p, h')"
    by (simp add: demo_heap_def coap_mem_init_def bpool_def heap_ops bget_init_def bget_def
        bget_split_def round_request_def ESent_def fits_def)
  have "heap_inv h' {p}" using mem.get_inv[OF g demo_heap_inv f] by simp
  then show ?thesis using coap_mem_release_sound[of h' "{p}" p] g by simp
qed

text \<open>
  C10: no fragmentation remains. Whatever requests (failed ones included) and releases a program makes
  from an initialised pool, once every buffer has been released the pool is one free block of the
  original size again and \<open>totalloc\<close> is zero.
\<close>

theorem mem_drained:
  assumes "mem_run base n h {}"
  shows "freelist h = [base] \<and> bh_size (bh h base) = 4 * (n div 4) - 4 \<and> totalloc h = 0"
  using assms by (rule mem_run_drained)

theorem mem_drained_witness:
  "\<exists>p h q h2. coap_mem_get 20 demo_heap = (Some p, h) \<and> coap_mem_get 100 h = (Some q, h2) \<and>
     freelist (coap_mem_release (Some q) (coap_mem_release (Some p) h2)) = [4096]"
proof -
  note ev = demo_heap_def coap_mem_init_def bpool_def heap_ops bget_init_def bget_def
        bget_split_def round_request_def ESent_def fits_def
  obtain h where g: "coap_mem_get 20 demo_heap = (Some 8168, h)" by (simp add: ev)
  then have h: "h = snd (coap_mem_get 20 demo_heap)" by simp
  obtain h2 where g2: "coap_mem_get 100 h = (Some 8064, h2)" unfolding h by (simp add: ev)
  have "mem_run 4096 4096 demo_heap {}" unfolding demo_heap_def by (rule mem_start) simp_all
  then have "mem_run 4096 4096 h {8168}" using mem_get[OF _ _ g] by (simp add: fits_def)
  then have "mem_run 4096 4096 h2 {8064, 8168}" using mem_get[OF _ _ g2] by (simp add: fits_def)
  then have "mem_run 4096 4096 (coap_mem_release (Some 8168) h2) {8064}"
    using mem_rel[of 4096 4096 h2 "{8064, 8168}" 8168] by (simp add: insert_Diff_if)
  then have "mem_run 4096 4096 (coap_mem_release (Some 8064) (coap_mem_release (Some 8168) h2)) {}"
    using mem_rel[of 4096 4096 _ "{8064}" 8064] by (simp add: insert_Diff_if)
  from mem_drained[OF this] show ?thesis using g g2 by blast
qed

text \<open>
  The statistics account for the pool. In every reachable heap the allocated and the free bytes
  that \<open>bstats\<close> reports add up to the pool's size, and the requests it counts exceed the releases by
  the number of live buffers.
\<close>

theorem bstats_accounting:
  assumes "mem_run base n h L"
  shows "curalloc (bstats h) + totfree (bstats h) = 4 * (n div 4) - 4 \<and>
    nget (bstats h) - nrel (bstats h) = int (card L)"
proof -
  obtain bl where bl: "pool_inv h bl" "total_size bl = 4 * (n div 4) - 4"
    using mem_run_blocks[OF assms] by blast
  have f: "0 \<le> total_of False bl" using bl(1) tiled_total_of by (auto simp: pool_inv_def)
  let ?st = "\<lparr>curalloc = totalloc h, totfree = 0, maxfree = - 1, nget = numget h, nrel = numrel h\<rparr>"
  have "totfree (bstats h) = total_of True bl"
    using bstats_fold[of "freelist h" "\<lambda>b. bh_size (bh h b)" ?st] free_sum[OF bl(1)] bl(1) f
      total_split[of bl] by (simp add: bstats_def pool_inv_def)
  moreover have "curalloc (bstats h) = total_of False bl"
    using bl(1) by (simp add: bstats_def bstats_fold_other pool_inv_def)
  ultimately show ?thesis using bl(2) total_split[of bl] mem_run_counts[OF assms]
    by (simp add: bstats_def bstats_fold_other)
qed

theorem bstats_accounting_witness:
  "curalloc (bstats demo_heap) + totfree (bstats demo_heap) = 4092"
  using bstats_accounting[OF mem_start[of 4096 4096]] by (simp add: demo_heap_def)

end
