(* ===== verification/Coap_Options.thy ===== *)
theory Coap_Options imports Coap_Mem begin

section \<open>Options (\<open>coap_options.c\<close>)\<close>

text \<open>
  An option list is the linked list of \<open>CoAP_option_t\<close> nodes in the order of the \<open>next\<close> pointers;
  each node carries the address of its buffer (\<open>opt_addr\<close>), so that releasing the list gives the
  buffers back to the allocator, and comparing node pointers compares addresses. The value bytes lie
  behind the node in the same buffer. \<open>opt_wf\<close> says that a node's \<open>Length\<close> is the number of its value
  bytes, which every function that makes a node establishes.
\<close>

record CoAP_option =
  opt_addr :: addr
  Number :: u16
  Length :: u16
  Value :: "u8 list"

type_synonym options = "CoAP_option list"

definition opt_wf :: "CoAP_option \<Rightarrow> bool" where
  "opt_wf opt \<longleftrightarrow> length (Value opt) = unat (Length opt)"

definition content :: "CoAP_option \<Rightarrow> u16 \<times> u8 list" where
  "content opt = (Number opt, Value opt)"

definition OPT_NUM_URI_HOST :: u16 where "OPT_NUM_URI_HOST = 3"
definition OPT_NUM_ETAG :: u16 where "OPT_NUM_ETAG = 4"
definition OPT_NUM_OBSERVE :: u16 where "OPT_NUM_OBSERVE = 6"
definition OPT_NUM_URI_PORT :: u16 where "OPT_NUM_URI_PORT = 7"
definition OPT_NUM_URI_PATH :: u16 where "OPT_NUM_URI_PATH = 11"
definition OPT_NUM_CONTENT_FORMAT :: u16 where "OPT_NUM_CONTENT_FORMAT = 12"
definition OPT_NUM_URI_QUERY :: u16 where "OPT_NUM_URI_QUERY = 15"
definition OPT_BLOCK2 :: u16 where "OPT_BLOCK2 = 23"
definition OPT_BLOCK1 :: u16 where "OPT_BLOCK1 = 27"
definition OPT_NUM_LOBARO_TOKEN_SAVE :: u16 where "OPT_NUM_LOBARO_TOKEN_SAVE = 350"

lemmas option_numbers = OPT_NUM_URI_HOST_def OPT_NUM_ETAG_def OPT_NUM_OBSERVE_def
  OPT_NUM_URI_PORT_def OPT_NUM_URI_PATH_def OPT_NUM_CONTENT_FORMAT_def OPT_NUM_URI_QUERY_def
  OPT_BLOCK2_def OPT_BLOCK1_def OPT_NUM_LOBARO_TOKEN_SAVE_def

definition KNOWN_OPTIONS :: "u16 list" where
  "KNOWN_OPTIONS = [OPT_NUM_URI_PATH, OPT_BLOCK2, OPT_BLOCK1, OPT_NUM_ETAG,
     OPT_NUM_CONTENT_FORMAT, OPT_NUM_URI_QUERY]"

definition OPT_FLAG_CRITICAL :: u16 where
  "OPT_FLAG_CRITICAL = 1"

definition MAX_OPTION_VALUE_SIZE :: nat where
  "MAX_OPTION_VALUE_SIZE = 1034"

text \<open>\<open>sizeof(CoAP_option_t)\<close> on the 32 bit target: two pointers and two \<open>uint16_t\<close>.\<close>

definition sizeof_option :: int where
  "sizeof_option = 12"

definition option_request :: "u16 \<Rightarrow> int" where
  "option_request len = sizeof_option + int (unat len)"

definition mk_option :: "addr \<Rightarrow> u16 \<Rightarrow> u8 list \<Rightarrow> u16 \<Rightarrow> CoAP_option" where
  "mk_option p num buf len =
     \<lparr>opt_addr = p, Number = num, Length = len, Value = take (unat len) buf\<rparr>"

subsection \<open>List operations\<close>

definition append_OptionToListEnd ::
  "options \<Rightarrow> u16 \<Rightarrow> u8 list \<Rightarrow> u16 \<Rightarrow> bget_state \<Rightarrow> CoAP_Result_t \<times> options \<times> bget_state" where
  "append_OptionToListEnd opts num buf len h =
    (case coap_mem_get (option_request len) h of
       (None, h) \<Rightarrow> (COAP_ERR_OUT_OF_MEMORY, opts, h)
     | (Some p, h) \<Rightarrow> (COAP_OK, opts @ [mk_option p num buf len], h))"

text \<open>
  The search loop stops at the first node with a greater number: \<open>pre\<close> are the nodes before it. In
  the case of a new smallest number the list head itself is assigned the result of the request, so a
  failed request leaves the caller with an empty list.
\<close>

definition CoAP_AppendOptionToList ::
  "options \<Rightarrow> u16 \<Rightarrow> u8 list \<Rightarrow> u16 \<Rightarrow> bget_state \<Rightarrow> CoAP_Result_t \<times> options \<times> bget_state" where
  "CoAP_AppendOptionToList opts num buf len h =
    (if opts = [] then append_OptionToListEnd opts num buf len h
     else
       let pre = takeWhile (\<lambda>opt. Number opt \<le> num) opts;
           rest = dropWhile (\<lambda>opt. Number opt \<le> num) opts
       in if rest = [] then append_OptionToListEnd opts num buf len h
          else if pre = [] then
            (case coap_mem_get (option_request len) h of
               (None, h) \<Rightarrow> (COAP_ERR_OUT_OF_MEMORY, [], h)
             | (Some p, h) \<Rightarrow> (COAP_OK, mk_option p num buf len # opts, h))
          else
            (case coap_mem_get (option_request len) h of
               (None, h) \<Rightarrow> (COAP_ERR_OUT_OF_MEMORY, opts, h)
             | (Some p, h) \<Rightarrow> (COAP_OK, pre @ mk_option p num buf len # rest, h)))"

definition CoAP_CopyOptionToList ::
  "options \<Rightarrow> CoAP_option \<Rightarrow> bget_state \<Rightarrow> CoAP_Result_t \<times> options \<times> bget_state" where
  "CoAP_CopyOptionToList opts opt h =
     CoAP_AppendOptionToList opts (Number opt) (Value opt) (Length opt) h"

fun CoAP_RemoveOptionFromList ::
  "options \<Rightarrow> addr \<Rightarrow> bget_state \<Rightarrow> options \<times> bget_state" where
  "CoAP_RemoveOptionFromList [] p h = ([], h)"
| "CoAP_RemoveOptionFromList (opt # opts) p h =
    (if opt_addr opt = p then (opts, coap_mem_release (Some p) h)
     else let (opts', h') = CoAP_RemoveOptionFromList opts p h in (opt # opts', h'))"

text \<open>The second node is released until only the first is left, then the first.\<close>

definition CoAP_FreeOptionList :: "options \<Rightarrow> bget_state \<Rightarrow> bget_state" where
  "CoAP_FreeOptionList opts h =
    (case opts of
       [] \<Rightarrow> h
     | first # others \<Rightarrow>
         coap_mem_release (Some (opt_addr first))
           (fold (\<lambda>opt h. coap_mem_release (Some (opt_addr opt)) h) others h))"

definition CoAP_OptionsAreEqual :: "CoAP_option option \<Rightarrow> CoAP_option option \<Rightarrow> bool" where
  "CoAP_OptionsAreEqual OptA OptB =
    (case (OptA, OptB) of
       (None, None) \<Rightarrow> True
     | (None, Some _) \<Rightarrow> False
     | (Some _, None) \<Rightarrow> False
     | (Some a, Some b) \<Rightarrow>
         if Length a \<noteq> Length b then False
         else if Number a \<noteq> Number b then False
         else list_all (\<lambda>i. Value a ! i = Value b ! i) [0..<unat (Length a)])"

fun CoAP_CheckForUnknownCriticalOption :: "options \<Rightarrow> u16" where
  "CoAP_CheckForUnknownCriticalOption [] = 0"
| "CoAP_CheckForUnknownCriticalOption (opt # opts) =
    (let optKnown = list_ex (\<lambda>known. Number opt = known) KNOWN_OPTIONS in
     if \<not> optKnown \<and> Number opt AND OPT_FLAG_CRITICAL \<noteq> 0 then Number opt
     else CoAP_CheckForUnknownCriticalOption opts)"

subsection \<open>Packing\<close>

text \<open>
  The field of four bits for a delta or a length, and its extension bytes. The two branches of each
  \<open>if\<close> chain of the source are the same for the delta and for the length, up to the shift.
\<close>

definition opt_nibble :: "u16 \<Rightarrow> u8" where
  "opt_nibble v = (if v < 13 then ucast v else if v < 269 then 13 else 14)"

definition opt_ext :: "u16 \<Rightarrow> u8 list" where
  "opt_ext v =
    (if v < 13 then []
     else if v < 269 then [ucast v - 13]
     else [ucast (drop_bit 8 (v - 269)), ucast ((v - 269) AND 0xff)])"

definition pack_option :: "u16 \<Rightarrow> CoAP_option \<Rightarrow> u8 list" where
  "pack_option lastOptNumber opt =
    (let currDelta = Number opt - lastOptNumber;
         optLength = Length opt
     in [push_bit 4 (opt_nibble currDelta) OR opt_nibble optLength]
        @ opt_ext currDelta @ opt_ext optLength @ take (unat optLength) (Value opt))"

fun pack_options_loop :: "u16 \<Rightarrow> options \<Rightarrow> u8 list" where
  "pack_options_loop lastOptNumber [] = []"
| "pack_options_loop lastOptNumber (opt # opts) =
    pack_option lastOptNumber opt @ pack_options_loop (Number opt) opts"

text \<open>The bytes written to the destination and \<open>*pBytesWritten\<close>, a \<open>uint16_t\<close>.\<close>

definition pack_OptionsFromList :: "options \<Rightarrow> u8 list \<times> u16" where
  "pack_OptionsFromList opts =
    (let bytes = pack_options_loop 0 opts in (bytes, of_nat (length bytes)))"

definition ext_size :: "u16 \<Rightarrow> u16" where
  "ext_size v = (if v < 13 then 0 else if v < 269 then 1 else 2)"

fun needed_mem_loop :: "u16 \<Rightarrow> u16 \<Rightarrow> options \<Rightarrow> u16" where
  "needed_mem_loop offset lastOptNumber [] = offset"
| "needed_mem_loop offset lastOptNumber (opt # opts) =
    (let currDelta = Number opt - lastOptNumber;
         offset = offset + 1;
         offset = offset + ext_size currDelta;
         offset = offset + ext_size (Length opt);
         offset = offset + Length opt
     in needed_mem_loop offset (Number opt) opts)"

definition CoAP_NeededMem4PackOptions :: "options \<Rightarrow> u16" where
  "CoAP_NeededMem4PackOptions opts = needed_mem_loop 0 0 opts"

subsection \<open>Parsing\<close>

text \<open>
  Reading an extended field: \<open>src\<close> is the memory behind \<open>srcArr\<close>, read without a bounds check as in
  the source. The result is the value and the new offset; \<open>None\<close> is the reserved field 15.
\<close>

definition read_ext :: "memory \<Rightarrow> u8 \<Rightarrow> u16 \<Rightarrow> (u16 \<times> u16) option" where
  "read_ext src field offset =
    (if field = 13 then Some (ucast (src (unat offset)) + 13, offset + 1)
     else if field = 14 then
       Some ((push_bit 8 (ucast (src (unat offset))) OR ucast (src (unat offset + 1))) + 269,
             offset + 2)
     else if field = 15 then None
     else Some (ucast field, offset))"

text \<open>
  The loop. \<open>srcLength - offset\<close> is computed in \<open>int\<close>. The \<open>option\<close> of the result is \<open>None\<close> when the
  loop never ends; otherwise it holds the result code, the offset of the payload (\<open>None\<close> for a null
  pointer), the list and the heap.
\<close>

type_synonym parse_result = "CoAP_Result_t \<times> nat option \<times> options \<times> bget_state"

partial_function (option) parse_options_loop ::
  "memory \<Rightarrow> u16 \<Rightarrow> u16 \<Rightarrow> u16 \<Rightarrow> options \<Rightarrow> bget_state \<Rightarrow> parse_result option" where
  "parse_options_loop src srcLength offset lastOptionNumber opts h =
    (if \<not> offset < srcLength then Some (COAP_OK, None, opts, h)
     else if src (unat offset) = 0xff then
       (if int (unat srcLength) - int (unat offset) < 2
        then Some (COAP_PARSE_MESSAGE_FORMAT_ERROR, None, opts, h)
        else Some (COAP_OK, Some (unat offset + 1), opts, h))
     else
       (case read_ext src (drop_bit 4 (src (unat offset))) (offset + 1) of
          None \<Rightarrow> Some (COAP_PARSE_MESSAGE_FORMAT_ERROR, None, opts, h)
        | Some (currOptDelta, offset1) \<Rightarrow>
            (case read_ext src (src (unat offset) AND 0x0f) offset1 of
               None \<Rightarrow> Some (COAP_PARSE_MESSAGE_FORMAT_ERROR, None, opts, h)
             | Some (currOptLength, offset2) \<Rightarrow>
                 if MAX_OPTION_VALUE_SIZE < unat currOptLength
                 then Some (COAP_PARSE_MESSAGE_FORMAT_ERROR, None, opts, h)
                 else if int (unat srcLength) - int (unat offset2) < int (unat currOptLength)
                 then Some (COAP_PARSE_MESSAGE_FORMAT_ERROR, None, opts, h)
                 else
                   (case CoAP_AppendOptionToList opts (currOptDelta + lastOptionNumber)
                           (read_bytes (mem_at src (unat offset2)) (unat currOptLength))
                           currOptLength h of
                      (res, opts', h') \<Rightarrow>
                        if res \<noteq> COAP_OK then Some (res, None, opts', h')
                        else parse_options_loop src srcLength (offset2 + currOptLength)
                               (currOptDelta + lastOptionNumber) opts' h'))))"

definition parse_OptionsFromRaw ::
  "memory \<Rightarrow> u16 \<Rightarrow> options \<Rightarrow> bget_state \<Rightarrow> parse_result option" where
  "parse_OptionsFromRaw src srcLength opts h =
    (if srcLength = 0 then Some (COAP_OK, None, opts, h)
     else if src 0 = 0xff then Some (COAP_PARSE_MESSAGE_FORMAT_ERROR, None, opts, h)
     else if opts \<noteq> [] then Some (COAP_ERR_ARGUMENT, None, opts, h)
     else parse_options_loop src srcLength 0 0 opts h)"

end
