(* ===== verification/Options_Facts.thy ===== *)
theory Options_Facts imports Coap_Options begin

section \<open>Facts on option lists\<close>

text \<open>
  The lemmas the option properties and the message codec rest on: what appending does to the content
  and to the heap, the shape of packed options, and what the parsing loop does on packed bytes.
\<close>

subsection \<open>Appending\<close>

lemma append_end_eq:
  "append_OptionToListEnd opts num buf len h =
    (case coap_mem_get (option_request len) h of
       (None, h') \<Rightarrow> (COAP_ERR_OUT_OF_MEMORY, opts, h')
     | (Some p, h') \<Rightarrow> (COAP_OK, opts @ [mk_option p num buf len], h'))"
  by (simp add: append_OptionToListEnd_def)

definition insert_option :: "CoAP_option \<Rightarrow> options \<Rightarrow> options" where
  "insert_option new opts =
     takeWhile (\<lambda>opt. Number opt \<le> Number new) opts @ new #
     dropWhile (\<lambda>opt. Number opt \<le> Number new) opts"

lemma mk_option_sel [simp]:
  "opt_addr (mk_option p num buf len) = p" "Number (mk_option p num buf len) = num"
  "Length (mk_option p num buf len) = len" "Value (mk_option p num buf len) = take (unat len) buf"
  by (simp_all add: mk_option_def)

lemma append_option_cases:
  assumes "CoAP_AppendOptionToList opts num buf len h = (res, opts', h')"
  shows "(res = COAP_OK \<and> (\<exists>p. coap_mem_get (option_request len) h = (Some p, h') \<and>
             opts' = insert_option (mk_option p num buf len) opts)) \<or>
         (res = COAP_ERR_OUT_OF_MEMORY \<and> coap_mem_get (option_request len) h = (None, h) \<and> h' = h \<and>
             opts' = (if opts \<noteq> [] \<and> num < Number (hd opts) then [] else opts))"
proof -
  let ?P = "\<lambda>opt. Number opt \<le> num"
  define A B where "A = takeWhile ?P opts" and "B = dropWhile ?P opts"
  have AB: "opts = A @ B" by (simp add: A_def B_def)
  have hdB: "B \<noteq> [] \<Longrightarrow> num < Number (hd B)"
    unfolding B_def using hd_dropWhile[of ?P opts] by auto
  have hdA: "A \<noteq> [] \<Longrightarrow> Number (hd A) \<le> num"
    unfolding A_def by (metis hd_in_set set_takeWhileD)
  have eq: "CoAP_AppendOptionToList opts num buf len h =
     (case coap_mem_get (option_request len) h of
        (None, h) \<Rightarrow> (COAP_ERR_OUT_OF_MEMORY, if opts \<noteq> [] \<and> num < Number (hd opts) then [] else opts, h)
      | (Some p, h) \<Rightarrow> (COAP_OK, A @ mk_option p num buf len # B, h))"
    unfolding CoAP_AppendOptionToList_def append_end_eq Let_def A_def[symmetric] B_def[symmetric]
    using hdA hdB by (cases A; cases B; auto simp: AB split: option.splits prod.splits)
  have ins: "insert_option (mk_option p num buf len) opts = A @ mk_option p num buf len # B" for p
    by (simp add: insert_option_def A_def B_def)
  show ?thesis
  proof (cases "coap_mem_get (option_request len) h")
    case (Pair q h1)
    then show ?thesis using assms ins mem.get_None[of "option_request len" h h1]
      unfolding eq by (cases q) auto
  qed
qed

lemma append_option_OK:
  "CoAP_AppendOptionToList opts num buf len h = (COAP_OK, opts', h') \<Longrightarrow>
     \<exists>p. coap_mem_get (option_request len) h = (Some p, h') \<and>
         opts' = insert_option (mk_option p num buf len) opts"
  using append_option_cases by blast

lemma insert_option_set [simp]: "set (insert_option new opts) = insert new (set opts)"
proof -
  have "set (takeWhile P opts) \<union> set (dropWhile P opts) = set opts" for P
    by (metis set_append takeWhile_dropWhile_id)
  then show ?thesis by (auto simp: insert_option_def)
qed

lemma insert_option_sorted:
  assumes "sorted (map Number opts)"
  shows "sorted (map Number (insert_option new opts))"
  using assms
proof (induction opts)
  case Nil
  then show ?case by (simp add: insert_option_def)
next
  case (Cons a opts)
  then have IH: "sorted (map Number (insert_option new opts))" by simp
  have "\<forall>x \<in> set (insert_option new opts). Number a \<le> Number x" if "Number a \<le> Number new"
    using that Cons.prems by auto
  then show ?case using IH Cons.prems by (auto simp: insert_option_def)
qed

lemma insert_option_last:
  assumes "\<forall>opt \<in> set opts. Number opt \<le> Number new"
  shows "insert_option new opts = opts @ [new]"
  using assms by (simp add: insert_option_def)

lemma insert_option_filter:
  assumes "sorted (map Number opts)"
  shows "filter (\<lambda>opt. Number opt = k) (insert_option new opts) =
    filter (\<lambda>opt. Number opt = k) opts @ (if Number new = k then [new] else [])"
  using assms
proof (induction opts)
  case Nil
  then show ?case by (simp add: insert_option_def)
next
  case (Cons a opts)
  show ?case
  proof (cases "Number a \<le> Number new")
    case True
    then show ?thesis using Cons by (simp add: insert_option_def)
  next
    case False
    then have "filter (\<lambda>opt. Number opt = Number new) (a # opts) = []"
      using Cons.prems by (auto simp: filter_empty_conv)
    then show ?thesis using False by (auto simp: insert_option_def)
  qed
qed

lemma insert_option_addrs:
  assumes "distinct (map opt_addr opts)" "opt_addr new \<notin> opt_addr ` set opts"
  shows "distinct (map opt_addr (insert_option new opts))"
proof -
  let ?P = "\<lambda>opt. Number opt \<le> Number new"
  have "distinct (map opt_addr (takeWhile ?P opts @ dropWhile ?P opts))" using assms(1) by simp
  moreover have "set (takeWhile ?P opts) \<subseteq> set opts" "set (dropWhile ?P opts) \<subseteq> set opts"
    by (auto dest: set_takeWhileD set_dropWhileD)
  ultimately show ?thesis using assms(2)
    unfolding insert_option_def map_append distinct_append by auto
qed

subsection \<open>Ownership\<close>

text \<open>
  The nodes of a list are distinct live buffers, apart from the buffers \<open>R\<close> that something else owns,
  and nothing else is live.
\<close>

definition opts_heap :: "bget_state \<Rightarrow> addr set \<Rightarrow> options \<Rightarrow> bool" where
  "opts_heap h R opts \<longleftrightarrow> heap_inv h (R \<union> opt_addr ` set opts) \<and>
     distinct (map opt_addr opts) \<and> R \<inter> opt_addr ` set opts = {}"

lemma opts_heap_Nil [simp]: "opts_heap h R [] \<longleftrightarrow> heap_inv h R"
  by (simp add: opts_heap_def)

lemma option_request_fits: "unat len \<le> 32740 \<Longrightarrow> fits (option_request len)"
  unfolding fits_def option_request_def sizeof_option_def by linarith

lemma append_option_heap:
  assumes "CoAP_AppendOptionToList opts num buf len h = (COAP_OK, opts', h')"
    and "opts_heap h R opts" and "unat len \<le> 32740"
  shows "opts_heap h' R opts'"
proof -
  obtain p where p: "coap_mem_get (option_request len) h = (Some p, h')"
    "opts' = insert_option (mk_option p num buf len) opts" using append_option_OK[OF assms(1)] by blast
  note f = option_request_fits[OF assms(3)]
  let ?L = "R \<union> opt_addr ` set opts"
  have "heap_inv h' (insert p ?L)" "p \<notin> ?L"
    using mem.get_inv[OF p(1) _ f] mem.get_fresh[OF p(1) _ f] assms(2) by (auto simp: opts_heap_def)
  then show ?thesis using assms(2) p(2)
    by (auto simp: opts_heap_def insert_option_addrs)
qed

text \<open>The free bytes in one block that are enough for the nodes of a list.\<close>

definition opts_room :: "options \<Rightarrow> int" where
  "opts_room opts = sum_list (map (\<lambda>opt. option_request (Length opt) + 15) opts) + 13"

lemma opts_room_simps [simp]:
  "opts_room [] = 13" "opts_room (opt # opts) = option_request (Length opt) + 15 + opts_room opts"
  by (simp_all add: opts_room_def)

lemma opts_room_ge: "13 \<le> opts_room opts"
  by (induction opts) (auto simp: option_request_def sizeof_option_def)

lemma append_option_room:
  assumes ap: "CoAP_AppendOptionToList opts num buf len h = (res, opts', h')"
    and inv: "heap_inv h L" and r: "room h k" and k: "option_request len + 28 \<le> k" and len: "unat len \<le> 32740"
  shows "res = COAP_OK" "room h' (k - option_request len - 15)" "\<exists>L'. heap_inv h' L'"
proof -
  note f = option_request_fits[OF len]
  obtain p h2 where g: "coap_mem_get (option_request len) h = (Some p, h2)" "room h2 (k - option_request len - 15)"
    using room_get[OF inv f r k] by blast
  show "res = COAP_OK" "room h' (k - option_request len - 15)" "\<exists>L'. heap_inv h' L'"
    using append_option_cases[OF ap] g mem.get_inv[OF g(1) inv f] by auto
qed

lemma FreeOptionList_fold:
  "CoAP_FreeOptionList opts h =
     (if opts = [] then h else release1 (opt_addr (hd opts)) (fold release1 (map opt_addr (tl opts)) h))"
  by (cases opts) (auto simp: CoAP_FreeOptionList_def fold_map comp_def)

lemma FreeOptionList_heap:
  assumes "opts_heap h R opts"
  shows "heap_inv (CoAP_FreeOptionList opts h) R"
proof (cases opts)
  case Nil
  then show ?thesis using assms by (simp add: FreeOptionList_fold)
next
  case (Cons a os)
  let ?L = "R \<union> opt_addr ` set opts"
  have d: "distinct (map opt_addr os)" "opt_addr a \<notin> opt_addr ` set os" "opt_addr a \<notin> R"
    "R \<inter> opt_addr ` set os = {}" and i: "heap_inv h ?L"
    using assms Cons by (auto simp: opts_heap_def)
  have "heap_inv (fold release1 (map opt_addr os) h) (?L - set (map opt_addr os))"
    by (rule mem.rel_all[OF i d(1)]) (auto simp: Cons)
  moreover have "?L - set (map opt_addr os) = insert (opt_addr a) R" using d Cons by auto
  ultimately have "heap_inv (release1 (opt_addr a) (fold release1 (map opt_addr os) h))
      (insert (opt_addr a) R - {opt_addr a})"
    using mem.rel_inv[of _ "insert (opt_addr a) R" "opt_addr a"] by simp
  then show ?thesis using d(3) Cons by (simp add: FreeOptionList_fold)
qed

lemma remove_option_eq:
  "distinct (map opt_addr opts) \<Longrightarrow> CoAP_RemoveOptionFromList opts p h =
     (filter (\<lambda>opt. opt_addr opt \<noteq> p) opts, if p \<in> opt_addr ` set opts then release1 p h else h)"
proof (induction opts)
  case Nil
  then show ?case by simp
next
  case (Cons a os)
  show ?case
  proof (cases "opt_addr a = p")
    case True
    then have "\<forall>x \<in> set os. opt_addr x \<noteq> p" using Cons.prems by (auto simp: image_iff)
    then have "filter (\<lambda>opt. opt_addr opt \<noteq> p) os = os" by simp
    then show ?thesis using True by simp
  next
    case False
    then show ?thesis using Cons by auto
  qed
qed

lemma remove_option_heap:
  assumes "CoAP_RemoveOptionFromList opts p h = (opts', h')" "opts_heap h R opts"
  shows "opts_heap h' R opts'" and "opts' = filter (\<lambda>opt. opt_addr opt \<noteq> p) opts"
proof -
  have dis: "distinct (map opt_addr opts)" and inv: "heap_inv h (R \<union> opt_addr ` set opts)"
    and R: "R \<inter> opt_addr ` set opts = {}" using assms(2) by (auto simp: opts_heap_def)
  show o: "opts' = filter (\<lambda>opt. opt_addr opt \<noteq> p) opts"
    using assms(1) remove_option_eq[OF dis] by simp
  have h: "h' = (if p \<in> opt_addr ` set opts then release1 p h else h)"
    using assms(1) remove_option_eq[OF dis] by simp
  have d: "distinct (map opt_addr opts')" using dis by (simp add: o distinct_map_filter)
  have live: "heap_inv h' (R \<union> opt_addr ` set opts')"
  proof (cases "p \<in> opt_addr ` set opts")
    case True
    then have "R \<union> opt_addr ` set opts' = R \<union> opt_addr ` set opts - {p}"
      using o R by auto
    then show ?thesis using mem.rel_inv[OF inv, of p] True h by simp
  next
    case False
    then have "opt_addr ` set opts' = opt_addr ` set opts" using o by auto
    then show ?thesis using False h inv by simp
  qed
  then show "opts_heap h' R opts'" using d R o by (auto simp: opts_heap_def)
qed

end
