(* ===== verification/Options_Codec.thy ===== *)
theory Options_Codec imports Options_Facts begin

section \<open>Packed options\<close>

text \<open>
  The lemmas of the option codec: the extended fields, the size of a packed list, and the parsing
  loop on packed bytes.
\<close>

subsection \<open>Extended fields\<close>

lemma unat_ucast8: "unat v < 256 \<Longrightarrow> unat (ucast (v :: u16) :: u8) = unat v"
  by (simp add: unsigned_ucast_eq unsigned_take_bit_eq take_bit_nat_eq_self)

lemma ucast_ucast8: "unat v < 256 \<Longrightarrow> (ucast (ucast (v :: u16) :: u8) :: u16) = v"
  by (simp add: word_unat_eq_iff unsigned_ucast_eq unsigned_take_bit_eq take_bit_nat_eq_self)

lemma opt_nibble_le: "unat (opt_nibble v) \<le> 14"
proof (cases "v < 13")
  case True
  then have "unat v < 13" by (simp add: word_less_nat_alt)
  then show ?thesis using True by (simp add: opt_nibble_def unat_ucast8)
qed (simp add: opt_nibble_def)

lemma length_opt_ext: "length (opt_ext v) \<le> 2" "of_nat (length (opt_ext v)) = ext_size v"
  by (simp_all add: opt_ext_def ext_size_def)

lemma read_ext_pack:
  assumes "has_bytes src (unat offset) (opt_ext v)"
  shows "read_ext src (opt_nibble v) offset = Some (v, offset + of_nat (length (opt_ext v)))"
proof -
  consider "unat v < 13" | "13 \<le> unat v" "unat v < 269" | "269 \<le> unat v" by linarith
  then show ?thesis
  proof cases
    case 1
    then have v: "v < 13" by (simp add: word_less_nat_alt)
    have "unat (ucast v :: u8) < 13" "(ucast (ucast v :: u8) :: u16) = v"
      using 1 by (simp_all add: unat_ucast8 ucast_ucast8)
    then show ?thesis using v
      by (auto simp: read_ext_def opt_nibble_def opt_ext_def)
  next
    case 2
    then have v: "\<not> v < 13" "v < 269" by (simp_all add: word_less_nat_alt)
    have e: "(ucast v - 13 :: u8) = of_nat (unat v - 13)"
      using 2 by simp
    have "unat (ucast v - 13 :: u8) = unat v - 13" unfolding e unat_of_nat using 2 by simp
    then have "(ucast (ucast v - 13 :: u8) :: u16) = of_nat (unat v - 13)"
      by (metis of_nat_unat)
    then have "(ucast (ucast v - 13 :: u8) :: u16) + 13 = v"
      using 2 by simp
    then show ?thesis using v assms by (simp add: read_ext_def opt_nibble_def opt_ext_def)
  next
    case 3
    then have v: "\<not> v < 13" "\<not> v < 269" by (simp_all add: word_less_nat_alt)
    then show ?thesis using assms u16_of_bytes[of "v - 269"]
      by (simp add: read_ext_def opt_nibble_def opt_ext_def)
  qed
qed


subsection \<open>One packed option\<close>

lemma pack_option_Cons:
  "pack_option l opt = (push_bit 4 (opt_nibble (Number opt - l)) OR opt_nibble (Length opt)) #
     opt_ext (Number opt - l) @ opt_ext (Length opt) @ take (unat (Length opt)) (Value opt)"
  by (simp add: pack_option_def Let_def)

lemma pack_header:
  "drop_bit 4 (push_bit 4 (opt_nibble v) OR opt_nibble w) = opt_nibble v"
  "(push_bit 4 (opt_nibble v) OR opt_nibble w) AND 0x0f = opt_nibble w"
  "push_bit 4 (opt_nibble v) OR opt_nibble w \<noteq> 0xff"
proof -
  have n: "unat (opt_nibble v) < 16" "unat (opt_nibble w) < 16"
    using opt_nibble_le[of v] opt_nibble_le[of w] by simp_all
  show d: "drop_bit 4 (push_bit 4 (opt_nibble v) OR opt_nibble w) = opt_nibble v"
    and "(push_bit 4 (opt_nibble v) OR opt_nibble w) AND 0x0f = opt_nibble w"
    using nibbles[OF n] by simp_all
  show "push_bit 4 (opt_nibble v) OR opt_nibble w \<noteq> 0xff"
  proof
    assume "push_bit 4 (opt_nibble v) OR opt_nibble w = 0xff"
    then have "opt_nibble v = drop_bit 4 (0xff :: u8)" using d by simp
    then show False using opt_nibble_le[of v] by simp
  qed
qed

lemma length_pack_option:
  "opt_wf opt \<Longrightarrow> length (pack_option l opt) =
     1 + length (opt_ext (Number opt - l)) + length (opt_ext (Length opt)) + unat (Length opt)"
  by (simp add: pack_option_Cons opt_wf_def)

text \<open>The size function walks the list as the packing does.\<close>

lemma needed_mem_loop_pack:
  "list_all opt_wf opts \<Longrightarrow>
     needed_mem_loop off l opts = off + of_nat (length (pack_options_loop l opts))"
proof (induction opts arbitrary: off l)
  case Nil
  then show ?case by simp
next
  case (Cons opt opts)
  have "of_nat (length (pack_option l opt)) =
      1 + ext_size (Number opt - l) + ext_size (Length opt) + Length opt"
    using Cons.prems by (simp add: length_pack_option length_opt_ext(2))
  then show ?case using Cons by (simp add: Let_def algebra_simps)
qed

subsection \<open>The parsing loop\<close>

lemma parse_loop_end:
  "\<not> offset < srcLength \<Longrightarrow>
     parse_options_loop src srcLength offset l opts h = Some (COAP_OK, None, opts, h)"
  by (subst parse_options_loop.simps) simp

lemma parse_loop_marker:
  assumes "src (unat offset) = 0xff" "unat offset + 2 \<le> unat srcLength"
  shows "parse_options_loop src srcLength offset l opts h =
    Some (COAP_OK, Some (unat offset + 1), opts, h)"
proof -
  have "offset < srcLength" using assms(2) by (simp add: word_less_nat_alt)
  moreover have "\<not> int (unat srcLength) - int (unat offset) < 2" using assms(2) by linarith
  ultimately show ?thesis using assms(1) by (subst parse_options_loop.simps) simp
qed

lemma unat_add_nat:
  "unat (w :: u16) + n < 65536 \<Longrightarrow> unat (w + of_nat n) = unat w + n"
  by (simp add: unat_word_ariths unat_of_nat)

text \<open>One packed option in front of the loop's offset is one iteration.\<close>

lemma parse_loop_step:
  assumes b: "has_bytes src (unat offset) (pack_option l opt)" and wf: "opt_wf opt"
    and len: "unat (Length opt) \<le> MAX_OPTION_VALUE_SIZE"
    and bnd: "unat offset + length (pack_option l opt) \<le> unat srcLength"
  shows "parse_options_loop src srcLength offset l opts h =
    (case CoAP_AppendOptionToList opts (Number opt) (Value opt) (Length opt) h of
       (res, opts', h') \<Rightarrow>
         if res \<noteq> COAP_OK then Some (res, None, opts', h')
         else parse_options_loop src srcLength (offset + of_nat (length (pack_option l opt)))
                (Number opt) opts' h')"
proof -
  let ?d = "Number opt - l" and ?n = "Length opt"
  let ?hd = "push_bit 4 (opt_nibble ?d) OR opt_nibble ?n"
  define o1 o2 where "o1 = offset + 1 + of_nat (length (opt_ext ?d))"
    and "o2 = o1 + of_nat (length (opt_ext ?n))"
  note lp = length_pack_option[OF wf, of l]
  have bl: "unat offset + 1 + length (opt_ext ?d) + length (opt_ext ?n) + unat ?n < 65536"
    using bnd lp u16_less[of srcLength] by linarith
  have u0: "unat (offset + 1) = unat offset + 1"
    using unat_add_nat[of offset 1] bl by simp
  have u1: "unat o1 = unat offset + 1 + length (opt_ext ?d)"
    unfolding o1_def using unat_add_nat[of "offset + 1" "length (opt_ext ?d)"] u0 bl by simp
  have u2: "unat o2 = unat offset + 1 + length (opt_ext ?d) + length (opt_ext ?n)"
    unfolding o2_def using unat_add_nat[of o1 "length (opt_ext ?n)"] u1 bl by simp
  have v: "take (unat ?n) (Value opt) = Value opt" using wf by (simp add: opt_wf_def)
  have hb: "src (unat offset) = ?hd" "has_bytes src (unat (offset + 1)) (opt_ext ?d)"
    "has_bytes src (unat o1) (opt_ext ?n)" "has_bytes src (unat o2) (Value opt)"
    using b u0 u1 u2 v by (simp_all add: pack_option_Cons add.assoc)
  have rd: "read_ext src (opt_nibble ?d) (offset + 1) = Some (?d, o1)"
    using read_ext_pack[OF hb(2)] by (simp add: o1_def)
  have rn: "read_ext src (opt_nibble ?n) o1 = Some (?n, o2)"
    using read_ext_pack[OF hb(3)] by (simp add: o2_def)
  have val: "read_bytes (mem_at src (unat o2)) (unat ?n) = Value opt"
    using read_bytes_has[OF hb(4)] wf by (simp add: opt_wf_def)
  have lt: "offset < srcLength" using bnd lp by (simp add: word_less_nat_alt)
  have fits: "\<not> int (unat srcLength) - int (unat o2) < int (unat ?n)"
    using u2 bnd lp by linarith
  have o': "o2 + ?n = offset + of_nat (length (pack_option l opt))"
    by (simp add: o2_def o1_def lp algebra_simps)
  show ?thesis
    using lt hb(1) pack_header[of ?d ?n] rd rn len fits val o'
    by (subst parse_options_loop.simps) (simp add: not_less split: prod.split)
qed

text \<open>
  The loop on a packed list that is followed by the end of the datagram or by a payload: it either
  runs out of memory or appends every option of the list.
\<close>

definition packable :: "u16 \<Rightarrow> options \<Rightarrow> bool" where
  "packable l opts \<longleftrightarrow> sorted (map Number opts) \<and>
     list_all (\<lambda>opt. l \<le> Number opt \<and> opt_wf opt \<and> unat (Length opt) \<le> MAX_OPTION_VALUE_SIZE) opts"

lemma packable_Cons [simp]:
  "packable l (opt # opts) \<longleftrightarrow>
     l \<le> Number opt \<and> opt_wf opt \<and> unat (Length opt) \<le> MAX_OPTION_VALUE_SIZE \<and> packable (Number opt) opts"
  by (auto simp: packable_def list_all_iff)

definition payload_tail :: "u8 list \<Rightarrow> u8 list" where
  "payload_tail payload = (if payload = [] then [] else 0xff # payload)"

definition payload_at :: "nat \<Rightarrow> u8 list \<Rightarrow> nat option" where
  "payload_at k payload = (if payload = [] then None else Some (k + 1))"

lemma mk_option_content:
  "opt_wf opt \<Longrightarrow> content (mk_option p (Number opt) (Value opt) (Length opt)) = content opt"
  by (simp add: content_def opt_wf_def)

lemma parse_loop_packed:
  assumes "packable l opts" "\<forall>a \<in> set acc. Number a \<le> l"
    and "has_bytes src (unat offset) (pack_options_loop l opts @ payload_tail payload)"
    and "unat offset + length (pack_options_loop l opts) + length (payload_tail payload) = unat srcLength"
    and "heap_inv h L" "0 \<le> d"
  shows "\<exists>res pb opts' h'. parse_options_loop src srcLength offset l acc h = Some (res, pb, opts', h') \<and>
    (res = COAP_ERR_OUT_OF_MEMORY \<and> \<not> room h (opts_room opts + d) \<or>
     res = COAP_OK \<and> pb = payload_at (unat offset + length (pack_options_loop l opts)) payload \<and>
     map content opts' = map content acc @ map content opts \<and>
     (room h (opts_room opts + d) \<longrightarrow> room h' (13 + d)))"
  using assms
proof (induction opts arbitrary: l acc offset h L)
  case Nil
  show ?case
  proof (cases "payload = []")
    case True
    then have "\<not> offset < srcLength" using Nil by (simp add: payload_tail_def word_less_nat_alt)
    then show ?thesis using True by (simp add: parse_loop_end payload_at_def)
  next
    case False
    then have "src (unat offset) = 0xff" "unat offset + 2 \<le> unat srcLength"
      using Nil by (cases payload; simp add: payload_tail_def)+
    then show ?thesis using False by (simp add: parse_loop_marker payload_at_def)
  qed
next
  case (Cons opt opts)
  have p: "l \<le> Number opt" "opt_wf opt" "unat (Length opt) \<le> MAX_OPTION_VALUE_SIZE"
    "packable (Number opt) opts" using Cons.prems(1) by auto
  have b: "has_bytes src (unat offset) (pack_option l opt)"
    "has_bytes src (unat offset + length (pack_option l opt))
       (pack_options_loop (Number opt) opts @ payload_tail payload)"
    using Cons.prems(3) by (auto simp: add.assoc)
  have bnd: "unat offset + length (pack_option l opt) \<le> unat srcLength" using Cons.prems(4) by simp
  let ?o = "offset + of_nat (length (pack_option l opt))" and ?n = "option_request (Length opt)"
  have uo: "unat ?o = unat offset + length (pack_option l opt)"
    using unat_add_nat bnd u16_less[of srcLength] by (simp add: le_less_trans)
  have len: "unat (Length opt) \<le> 32740" using p(3) by (simp add: MAX_OPTION_VALUE_SIZE_def)
  obtain res acc' h' where ap:
    "CoAP_AppendOptionToList acc (Number opt) (Value opt) (Length opt) h = (res, acc', h')"
    by (cases "CoAP_AppendOptionToList acc (Number opt) (Value opt) (Length opt) h")
  note step = parse_loop_step[OF b(1) p(2,3) bnd, of acc h, unfolded ap prod.case]
  have rm: "res = COAP_OK" "room h' (opts_room opts + d)" if "room h (opts_room (opt # opts) + d)"
  proof -
    have le: "?n + 28 \<le> opts_room (opt # opts) + d" using opts_room_ge[of opts] Cons.prems(6) by simp
    show "res = COAP_OK" "room h' (opts_room opts + d)"
      using append_option_room(1,2)[OF ap Cons.prems(5) that le len] by (simp_all add: algebra_simps)
  qed
  show ?case
  proof (cases "res = COAP_OK")
    case False
    then have "res = COAP_ERR_OUT_OF_MEMORY" using append_option_cases[OF ap] by auto
    then show ?thesis using step rm(1) by auto
  next
    case True
    then obtain q where q: "coap_mem_get ?n h = (Some q, h')"
      "acc' = insert_option (mk_option q (Number opt) (Value opt) (Length opt)) acc"
      using append_option_OK ap by blast
    have "\<forall>a \<in> set acc. Number a \<le> Number opt" using Cons.prems(2) p(1) by fastforce
    then have app: "acc' = acc @ [mk_option q (Number opt) (Value opt) (Length opt)]"
      and le': "\<forall>a \<in> set acc'. Number a \<le> Number opt"
      using q(2) insert_option_last by auto
    have inv': "heap_inv h' (insert q L)" using mem.get_inv[OF q(1) Cons.prems(5) option_request_fits[OF len]] .
    have "unat ?o + length (pack_options_loop (Number opt) opts) + length (payload_tail payload) = unat srcLength"
      using uo Cons.prems(4) by simp
    from Cons.IH[OF p(4) le' _ this inv' Cons.prems(6)] show ?thesis
      using step True app mk_option_content[OF p(2)] uo b(2) rm(2) by (auto simp: add.assoc)
  qed
qed


subsection \<open>Any input\<close>

text \<open>What the loop returns, whatever the bytes: an invariant by the induction rule of the loop.\<close>

definition loop_ok :: "addr set \<Rightarrow> CoAP_Result_t \<Rightarrow> options \<Rightarrow> bget_state \<Rightarrow> bool" where
  "loop_ok R res opts h \<longleftrightarrow> sorted (map Number opts) \<and>
     list_all (\<lambda>opt. opt_wf opt \<and> unat (Length opt) \<le> MAX_OPTION_VALUE_SIZE) opts \<and>
     (opts_heap h R opts \<or> res = COAP_ERR_OUT_OF_MEMORY \<and> opts = [])"

lemma loop_ok_append:
  assumes "CoAP_AppendOptionToList opts num buf len h = (res, opts', h')"
    and "loop_ok R COAP_OK opts h" and "unat len \<le> MAX_OPTION_VALUE_SIZE" and "length buf = unat len"
  shows "loop_ok R res opts' h'"
proof (cases "res = COAP_OK")
  case True
  then obtain p where "opts' = insert_option (mk_option p num buf len) opts"
    using append_option_OK assms(1) by blast
  moreover have "opts_heap h' R opts'"
    using append_option_heap[of opts num buf len h opts' h' R] assms True
    by (auto simp: loop_ok_def MAX_OPTION_VALUE_SIZE_def)
  ultimately show ?thesis using assms(2,3,4) insert_option_sorted
    by (auto simp: loop_ok_def list_all_iff opt_wf_def)
next
  case False
  then show ?thesis using append_option_cases[OF assms(1)] assms(2)
    by (auto simp: loop_ok_def split: if_splits)
qed

lemma parse_loop_ok:
  assumes "parse_options_loop src srcLength offset l opts h = Some r" "loop_ok R COAP_OK opts h"
  shows "loop_ok R (fst r) (fst (snd (snd r))) (snd (snd (snd r)))"
  using assms
proof (induction src srcLength offset l opts h r
    rule: parse_options_loop.raw_induct[rotated, consumes 1, case_names 1])
  case (1 f src srcLength offset l opts h r)
  have err: "loop_ok R res opts h" for res using "1.prems" by (auto simp: loop_ok_def)
  show ?case
  proof (cases "offset < srcLength \<and> src (unat offset) \<noteq> 0xff")
    case False
    then show ?thesis using "1.hyps" err by (auto split: if_splits)
  next
    case True
    show ?thesis
    proof (cases "\<exists>d o1 n o2. read_ext src (drop_bit 4 (src (unat offset))) (offset + 1) = Some (d, o1) \<and>
        read_ext src (src (unat offset) AND 0x0f) o1 = Some (n, o2) \<and> unat n \<le> MAX_OPTION_VALUE_SIZE \<and>
        int (unat n) \<le> int (unat srcLength) - int (unat o2)")
      case False
      then show ?thesis using "1.hyps" err True
        by (auto split: option.splits if_splits prod.splits)
    next
      case ext: True
      then obtain d o1 n o2 where
        rd: "read_ext src (drop_bit 4 (src (unat offset))) (offset + 1) = Some (d, o1)"
        and rn: "read_ext src (src (unat offset) AND 0x0f) o1 = Some (n, o2)"
        and n: "unat n \<le> MAX_OPTION_VALUE_SIZE" "int (unat n) \<le> int (unat srcLength) - int (unat o2)"
        by blast
      obtain res opts' h' where ap: "CoAP_AppendOptionToList opts (d + l)
          (read_bytes (mem_at src (unat o2)) (unat n)) n h = (res, opts', h')"
        by (cases "CoAP_AppendOptionToList opts (d + l)
          (read_bytes (mem_at src (unat o2)) (unat n)) n h")
      have ok: "loop_ok R res opts' h'" using loop_ok_append[OF ap "1.prems" n(1)] by simp
      show ?thesis
      proof (cases "res = COAP_OK")
        case True
        then have "f src srcLength (o2 + n) (d + l) opts' h' = Some r"
          using "1.hyps" \<open>offset < srcLength \<and> _\<close> rd rn n ap by (simp add: not_less)
        then show ?thesis using "1.IH" ok True by blast
      next
        case False
        then have "r = (res, None, opts', h')"
          using "1.hyps" \<open>offset < srcLength \<and> _\<close> rd rn n ap by (simp add: not_less)
        then show ?thesis using ok by simp
      qed
    qed
  qed
qed

text \<open>
  Progress: for a length that leaves room for the extension bytes below the wrap-around of the
  16 bit offset, an accepted option moves the offset forward and not past the end.
\<close>

lemma read_ext_offset:
  assumes "read_ext src field offset = Some (v, o1)" "unat offset + 2 < 65536"
  shows "unat offset \<le> unat o1" "unat o1 \<le> unat offset + 2"
  using assms unat_add_nat[of offset 1] unat_add_nat[of offset 2]
  by (auto simp: read_ext_def split: if_splits)

lemma parse_loop_progress:
  assumes "unat srcLength \<le> 65530" "offset < srcLength"
    and "read_ext src f (offset + 1) = Some (d, o1)" "read_ext src g o1 = Some (n, o2)"
    and "int (unat n) \<le> int (unat srcLength) - int (unat o2)"
  shows "unat offset < unat (o2 + n)" "unat (o2 + n) \<le> unat srcLength" "unat (o2 + n) = unat o2 + unat n"
proof -
  have lt: "unat offset < unat srcLength" using assms(2) by (simp add: word_less_nat_alt)
  then have u: "unat (offset + 1) = unat offset + 1" using unat_add_nat[of offset 1] assms(1) by simp
  have 1: "unat offset + 1 \<le> unat o1" "unat o1 \<le> unat offset + 3"
    using read_ext_offset[OF assms(3)] u lt assms(1) by simp_all
  have 2: "unat o1 \<le> unat o2"
    using read_ext_offset[OF assms(4)] 1 lt assms(1) by simp
  have "unat o2 + unat n \<le> unat srcLength" using assms(5) by linarith
  moreover from this show "unat (o2 + n) = unat o2 + unat n"
    using unat_add_nat[of o2 "unat n"] assms(1) by simp
  ultimately show "unat offset < unat (o2 + n)" "unat (o2 + n) \<le> unat srcLength" using 1 2 by simp_all
qed

lemma parse_loop_terminates:
  assumes "unat srcLength \<le> 65530"
  shows "parse_options_loop src srcLength offset l opts h \<noteq> None"
proof (induction "unat srcLength - unat offset" arbitrary: offset l opts h rule: less_induct)
  case less
  have rec: "parse_options_loop src srcLength (o2 + n) l' opts' h' \<noteq> None"
    if "offset < srcLength" "read_ext src f (offset + 1) = Some (d, o1)" "read_ext src g o1 = Some (n, o2)"
      "uint n \<le> uint srcLength - uint o2" for f d o1 g n o2 l' opts' h'
  proof -
    have "int (unat n) \<le> int (unat srcLength) - int (unat o2)" using that(4) by simp
    from parse_loop_progress[OF assms that(1,2,3) this] show ?thesis by (intro less) linarith
  qed
  show ?case
    by (subst parse_options_loop.simps)
       (simp add: not_less rec del: not_None_eq split: option.split prod.split)
qed

text \<open>The bytes past \<open>srcLength\<close> that the extended fields may read never show in the result.\<close>

lemma read_ext_agree:
  assumes "agree_below n src src'" "unat offset + 2 < 65536"
    and "read_ext src field offset = Some (v, o1)" "unat o1 \<le> n"
  shows "read_ext src' field offset = Some (v, o1)"
proof -
  have "field = 13 \<Longrightarrow> unat offset < n" "field = 14 \<Longrightarrow> unat offset + 1 < n"
    using assms(2,3,4) unat_add_nat[of offset 1] unat_add_nat[of offset 2]
    by (auto simp: read_ext_def)
  then show ?thesis using assms(1,3) by (auto simp: read_ext_def agree_below_def split: if_splits)
qed

lemma read_ext_same_offset:
  "read_ext src field offset = None \<and> read_ext src' field offset = None \<or>
   (\<exists>v v' o1. read_ext src field offset = Some (v, o1) \<and> read_ext src' field offset = Some (v', o1))"
  by (simp add: read_ext_def)

lemma parse_loop_agree:
  assumes bnd: "unat srcLength \<le> 65530" and ag: "agree_below (unat srcLength) src src'"
  shows "parse_options_loop src srcLength offset l opts h = parse_options_loop src' srcLength offset l opts h"
proof (induction "unat srcLength - unat offset" arbitrary: offset l opts h rule: less_induct)
  case less
  show ?case
  proof (cases "offset < srcLength \<and> src (unat offset) \<noteq> 0xff")
    case False
    then show ?thesis
      using ag by (subst (1 2) parse_options_loop.simps) (auto simp: agree_below_def word_less_nat_alt)
  next
    case True
    then have lt: "unat offset < unat srcLength" by (simp add: word_less_nat_alt)
    then have same: "src' (unat offset) = src (unat offset)" using ag by (simp add: agree_below_def)
    have u: "unat (offset + 1) = unat offset + 1" using unat_add_nat[of offset 1] lt bnd by simp
    let ?f = "drop_bit 4 (src (unat offset))" and ?g = "src (unat offset) AND 0x0f"
    let ?bad = "Some (COAP_PARSE_MESSAGE_FORMAT_ERROR, None, opts, h)"
    consider (none) "read_ext src ?f (offset + 1) = None" "read_ext src' ?f (offset + 1) = None"
      | (some) d d' o1 where "read_ext src ?f (offset + 1) = Some (d, o1)"
          "read_ext src' ?f (offset + 1) = Some (d', o1)"
      using read_ext_same_offset[of src ?f "offset + 1" src'] by (elim disjE conjE exE) auto
    then show ?thesis
    proof cases
      case none
      then show ?thesis using True same by (subst (1 2) parse_options_loop.simps) simp
    next
      case some
      have o1: "unat (offset + 1) \<le> unat o1" "unat o1 \<le> unat offset + 3"
        using read_ext_offset[OF some(1)] u lt bnd by simp_all
      consider (none) "read_ext src ?g o1 = None" "read_ext src' ?g o1 = None"
        | (some) n n' o2 where "read_ext src ?g o1 = Some (n, o2)" "read_ext src' ?g o1 = Some (n', o2)"
        using read_ext_same_offset[of src ?g o1 src'] by (elim disjE conjE exE) auto
      then show ?thesis
      proof cases
        case none
        then show ?thesis using True same some by (subst (1 2) parse_options_loop.simps) simp
      next
        case n: some
        have o2: "unat o1 \<le> unat o2" using read_ext_offset[OF n(1)] o1 lt bnd by simp
        show ?thesis
        proof (cases "unat o2 \<le> unat srcLength")
          case False
          then have "int (unat srcLength) - int (unat o2) < int (unat k)" for k :: u16 by linarith
          then show ?thesis using True same some n by (subst (1 2) parse_options_loop.simps) simp
        next
          case le: True
          have d: "d' = d" using read_ext_agree[OF ag _ some(1)] some(2) o1 o2 le u lt bnd by simp
          have n': "n' = n" using read_ext_agree[OF ag _ n(1)] n(2) o1 o2 le u lt bnd by simp
          show ?thesis
          proof (cases "MAX_OPTION_VALUE_SIZE < unat n \<or>
              int (unat srcLength) - int (unat o2) < int (unat n)")
            case True
            then show ?thesis using \<open>offset < srcLength \<and> _\<close> same some n d n'
              by (subst (1 2) parse_options_loop.simps) auto
          next
            case ok: False
            then have fit: "int (unat n) \<le> int (unat srcLength) - int (unat o2)" by simp
            have "read_bytes (mem_at src (unat o2)) (unat n) = read_bytes (mem_at src' (unat o2)) (unat n)"
              by (rule read_bytes_agree[OF ag]) (use fit in linarith)
            moreover have "parse_options_loop src srcLength (o2 + n) l' opts' h' =
                parse_options_loop src' srcLength (o2 + n) l' opts' h'" for l' opts' h'
              by (rule less)
                 (use parse_loop_progress[OF bnd _ some(1) n(1) fit] True in linarith)
            ultimately show ?thesis using ok True same some n d n'
              by (subst (1 2) parse_options_loop.simps) (simp split: prod.split)
          qed
        qed
      qed
    qed
  qed
qed


subsection \<open>Properties of the options\<close>

text \<open>The list of the concrete instances: two path segments and a query between ETag and a block.\<close>

definition demo_options :: options where
  "demo_options =
    [\<lparr>opt_addr = 100, Number = OPT_NUM_URI_PATH, Length = 2, Value = [97, 98]\<rparr>,
     \<lparr>opt_addr = 200, Number = OPT_NUM_URI_PATH, Length = 1, Value = [99]\<rparr>,
     \<lparr>opt_addr = 300, Number = OPT_NUM_LOBARO_TOKEN_SAVE, Length = 0, Value = []\<rparr>]"

lemma append_option_correct_core:
  assumes "opts_heap h R opts" "sorted (map Number opts)" "unat len \<le> 32740"
    and ap: "CoAP_AppendOptionToList opts num buf len h = (res, opts', h')" and ok: "res = COAP_OK"
  shows "opts_heap h' R opts' \<and> sorted (map Number opts') \<and>
    (\<forall>k. map content (filter (\<lambda>opt. Number opt = k) opts') =
         map content (filter (\<lambda>opt. Number opt = k) opts) @
         (if num = k then [(num, take (unat len) buf)] else []))"
proof -
  obtain p where "opts' = insert_option (mk_option p num buf len) opts"
    using append_option_OK ap ok by blast
  then show ?thesis
    using append_option_heap[of opts num buf len h opts' h' R] assms insert_option_sorted[OF assms(2)]
      insert_option_filter[OF assms(2)] by (simp add: content_def)
qed

text \<open>
  C14: appending to an ordered list keeps it ordered by option number, adds exactly the new option
  behind the options of the same number (so repeated options keep their order) and gives the list one
  more live buffer; the only other outcome is running out of memory, which leaves the heap as it was
  but, when the new option would have become the head, hands back an empty list.
\<close>

theorem append_option_correct:
  assumes "opts_heap h R opts" "sorted (map Number opts)" "unat len \<le> 32740"
    and "CoAP_AppendOptionToList opts num buf len h = (res, opts', h')"
  shows "if res = COAP_OK
    then opts_heap h' R opts' \<and> sorted (map Number opts') \<and>
      (\<forall>k. map content (filter (\<lambda>opt. Number opt = k) opts') =
           map content (filter (\<lambda>opt. Number opt = k) opts) @
           (if num = k then [(num, take (unat len) buf)] else []))
    else res = COAP_ERR_OUT_OF_MEMORY \<and> h' = h \<and>
      fst (coap_mem_get (option_request len) h) = None \<and>
      opts' = (if opts \<noteq> [] \<and> num < Number (hd opts) then [] else opts)"
proof (cases "res = COAP_OK")
  case True
  then show ?thesis using append_option_correct_core[OF assms(1-4)] by simp
next
  case False
  then show ?thesis using append_option_cases[OF assms(4)] by auto
qed

theorem append_option_correct_witness:
  "\<exists>opts' h'. CoAP_AppendOptionToList [] OPT_NUM_ETAG [7, 8] 2 demo_heap = (COAP_OK, opts', h') \<and>
     map content (filter (\<lambda>opt. Number opt = 4) opts') = [(4, [7, 8])]"
proof -
  have e: "CoAP_AppendOptionToList [] OPT_NUM_ETAG [7, 8] 2 demo_heap =
     append_OptionToListEnd [] OPT_NUM_ETAG [7, 8] 2 demo_heap" by (simp add: CoAP_AppendOptionToList_def)
  obtain opts' h' where
    a: "CoAP_AppendOptionToList [] OPT_NUM_ETAG [7, 8] 2 demo_heap = (COAP_OK, opts', h')"
    unfolding e
    by (simp add: append_OptionToListEnd_def demo_heap_def coap_mem_init_def bpool_def heap_ops
        bget_init_def bget_def bget_split_def round_request_def ESent_def coap_mem_get_def
        option_request_def sizeof_option_def)
  have "opts_heap demo_heap {} []" by (simp add: demo_heap_inv)
  from append_option_correct[OF this _ _ a] a show ?thesis by (simp add: OPT_NUM_ETAG_def)
qed

text \<open>
  Releasing an option list, or removing one option from it, gives back exactly the buffers of
  those options: after \<open>CoAP_FreeOptionList\<close> only the other live buffers are left, and after a removal
  the list holds the other options in their order and still owns their buffers.
\<close>

theorem free_and_remove_options:
  assumes "opts_heap h R opts"
  shows "heap_inv (CoAP_FreeOptionList opts h) R \<and>
    (case CoAP_RemoveOptionFromList opts p h of
       (opts', h') \<Rightarrow> opts' = filter (\<lambda>opt. opt_addr opt \<noteq> p) opts \<and> opts_heap h' R opts')"
  using FreeOptionList_heap[OF assms] remove_option_heap[OF _ assms] by (auto split: prod.split)

theorem free_and_remove_options_witness:
  "heap_inv (CoAP_FreeOptionList [] demo_heap) {}"
  using free_and_remove_options[of demo_heap "{}" "[]" 0] by (simp add: demo_heap_inv)

text \<open>
  The size that \<open>CoAP_NeededMem4PackOptions\<close> announces and the byte count that
  \<open>pack_OptionsFromList\<close> returns are both the number of bytes it writes, modulo the 16 bits of their
  type; below 65536 bytes they are exact.
\<close>

theorem needed_mem_is_packed_size:
  assumes "list_all opt_wf opts"
  shows "CoAP_NeededMem4PackOptions opts = snd (pack_OptionsFromList opts) \<and>
    unat (CoAP_NeededMem4PackOptions opts) = length (fst (pack_OptionsFromList opts)) mod 65536"
  using needed_mem_loop_pack[OF assms, of 0 0]
  by (simp add: CoAP_NeededMem4PackOptions_def pack_OptionsFromList_def Let_def unat_of_nat)

theorem needed_mem_is_packed_size_witness:
  "CoAP_NeededMem4PackOptions demo_options = 8 \<and> length (fst (pack_OptionsFromList demo_options)) mod 65536 = 8"
proof -
  have "list_all opt_wf demo_options" by (simp add: demo_options_def opt_wf_def)
  moreover have "CoAP_NeededMem4PackOptions demo_options = 8"
    by (simp add: CoAP_NeededMem4PackOptions_def demo_options_def option_numbers ext_size_def)
  moreover from this have "unat (CoAP_NeededMem4PackOptions demo_options) = 8" by simp
  ultimately show ?thesis using needed_mem_is_packed_size[of demo_options] by linarith
qed

lemma parse_packed:
  assumes "packable 0 opts" "opts \<noteq> []"
    and "has_bytes src 0 (fst (pack_OptionsFromList opts) @ payload_tail payload)"
    and "unat srcLength = length (fst (pack_OptionsFromList opts)) + length (payload_tail payload)"
    and "heap_inv h L" "0 \<le> d"
  shows "\<exists>res pb opts' h'. parse_OptionsFromRaw src srcLength [] h = Some (res, pb, opts', h') \<and>
    (res = COAP_ERR_OUT_OF_MEMORY \<and> \<not> room h (opts_room opts + d) \<or>
     res = COAP_OK \<and> map content opts' = map content opts \<and>
     pb = payload_at (length (fst (pack_OptionsFromList opts))) payload \<and>
     (room h (opts_room opts + d) \<longrightarrow> room h' (13 + d)))"
proof -
  obtain opt os where o: "opts = opt # os" using assms(2) by (cases opts) auto
  have ne: "pack_options_loop 0 opts \<noteq> []" "hd (pack_options_loop 0 opts) \<noteq> 0xff"
    using pack_header(3) by (simp_all add: o pack_option_Cons)
  then have "src 0 = hd (pack_options_loop 0 opts)"
    using assms(3) by (cases "pack_options_loop 0 opts") (auto simp: pack_OptionsFromList_def Let_def)
  moreover have "srcLength \<noteq> 0" using assms(4) ne by (auto simp: pack_OptionsFromList_def Let_def)
  ultimately have "parse_OptionsFromRaw src srcLength [] h = parse_options_loop src srcLength 0 0 [] h"
    using ne by (simp add: parse_OptionsFromRaw_def)
  then show ?thesis
    using parse_loop_packed[of 0 opts "[]" src 0 payload srcLength h L d] assms
    by (auto simp: pack_OptionsFromList_def Let_def)
qed

text \<open>
  C12: packing and parsing are inverse. From any memory that holds the packed bytes of an ordered,
  non-empty list of options that fit their length limit, followed by the end of the datagram or by
  the marker and a payload, \<open>parse_OptionsFromRaw\<close> returns the same option numbers and values in the
  same order and the position of the payload. It can only run out of memory when no free block has
  room for the nodes of the list.
\<close>

theorem pack_parse_roundtrip:
  assumes "packable 0 opts" "opts \<noteq> []" "heap_inv h L"
    and "has_bytes src 0 (fst (pack_OptionsFromList opts) @ payload_tail payload)"
    and "unat srcLength = length (fst (pack_OptionsFromList opts)) + length (payload_tail payload)"
  shows "\<exists>res pb opts' h'. parse_OptionsFromRaw src srcLength [] h = Some (res, pb, opts', h') \<and>
    (res = COAP_ERR_OUT_OF_MEMORY \<and> \<not> room h (opts_room opts) \<or>
     res = COAP_OK \<and> map content opts' = map content opts \<and>
     pb = payload_at (length (fst (pack_OptionsFromList opts))) payload)"
  using parse_packed[OF assms(1,2,4,5,3), of 0] by auto

lemma demo_heap_room: "room demo_heap 4000"
  by (simp add: room_def demo_heap_def coap_mem_init_def bpool_def heap_ops bget_init_def ESent_def)

theorem pack_parse_roundtrip_witness:
  "\<exists>pb opts' h'. parse_OptionsFromRaw (mem_of [178, 97, 98, 1, 99, 224, 0, 70, 255, 1]) 10 [] demo_heap =
      Some (COAP_OK, pb, opts', h') \<and>
     map content opts' = [(11, [97, 98]), (11, [99]), (350, [])] \<and> pb = Some 9"
proof -
  let ?bs = "[178, 97, 98, 1, 99, 224, 0, 70] :: u8 list"
  have p: "packable 0 demo_options" "demo_options \<noteq> []"
    by (simp_all add: packable_def demo_options_def opt_wf_def option_numbers MAX_OPTION_VALUE_SIZE_def)
  have b: "fst (pack_OptionsFromList demo_options) = ?bs"
    by (simp add: pack_OptionsFromList_def demo_options_def pack_option_def opt_nibble_def opt_ext_def
        option_numbers Let_def)
  have c: "map content demo_options = [(11, [97, 98]), (11, [99]), (350, [])]"
    by (simp add: demo_options_def content_def option_numbers)
  have "opts_room demo_options = 97" by (simp add: demo_options_def option_request_def sizeof_option_def)
  then have r: "room demo_heap (opts_room demo_options)" using room_mono[OF demo_heap_room] by simp
  have "has_bytes (mem_of [178, 97, 98, 1, 99, 224, 0, 70, 255, 1]) 0 (?bs @ payload_tail [1])"
    using has_bytes_mem_of[of "[178, 97, 98, 1, 99, 224, 0, 70, 255, 1]"] by (simp add: payload_tail_def)
  moreover have "length ?bs = 8" by simp
  ultimately show ?thesis
    using r pack_parse_roundtrip[OF p demo_heap_inv, unfolded b c, of "mem_of [178, 97, 98, 1, 99, 224, 0, 70, 255, 1]" "[1]" 10]
    by (simp only: payload_tail_def payload_at_def) auto
qed

lemma parse_OptionsFromRaw_robust_core:
  assumes "unat srcLength \<le> 65530" "heap_inv h R"
  shows "\<exists>res pb opts h'. parse_OptionsFromRaw src srcLength [] h = Some (res, pb, opts, h') \<and>
    loop_ok R res opts h'"
proof -
  have ok: "loop_ok R COAP_OK [] h" using assms(2) by (simp add: loop_ok_def)
  then have ok': "loop_ok R res [] h" for res by (simp add: loop_ok_def)
  obtain r where r: "parse_options_loop src srcLength 0 0 [] h = Some r"
    using parse_loop_terminates[OF assms(1)] by blast
  show ?thesis using parse_loop_ok[OF r ok] ok' r
    by (cases r) (auto simp: parse_OptionsFromRaw_def)
qed

lemma parse_OptionsFromRaw_agree:
  assumes "unat srcLength \<le> 65530" "agree_below (unat srcLength) src src'"
  shows "parse_OptionsFromRaw src' srcLength opts h = parse_OptionsFromRaw src srcLength opts h"
proof (cases "srcLength = 0")
  case False
  then have "0 < unat srcLength" by (simp add: unat_gt_0)
  then have "src' 0 = src 0" using assms(2) by (simp add: agree_below_def)
  then show ?thesis using parse_loop_agree[OF assms] by (simp add: parse_OptionsFromRaw_def)
qed (simp add: parse_OptionsFromRaw_def)

text \<open>
  C13: parsing is robust. For every content of the datagram (up to 65530 bytes, below the wrap-around
  of the 16 bit offset) the loop ends; the options it leaves in the list, in the error cases too, are
  ordered, carry exactly the announced number of value bytes within the length limit, and own their
  buffers, so that releasing the list loses nothing; only after running out of memory may the list be
  empty with its buffers still allocated. The result does not depend on any byte behind the datagram,
  although the extended fields may read two bytes there.
\<close>

theorem parse_options_robust:
  assumes "unat srcLength \<le> 65530" "heap_inv h R" "agree_below (unat srcLength) src src'"
  shows "\<exists>res pb opts h'. parse_OptionsFromRaw src srcLength [] h = Some (res, pb, opts, h') \<and>
    parse_OptionsFromRaw src' srcLength [] h = Some (res, pb, opts, h') \<and>
    sorted (map Number opts) \<and>
    list_all (\<lambda>opt. length (Value opt) = unat (Length opt) \<and> unat (Length opt) \<le> 1034) opts \<and>
    (opts_heap h' R opts \<and> heap_inv (CoAP_FreeOptionList opts h') R \<or>
     res = COAP_ERR_OUT_OF_MEMORY \<and> opts = [])"
proof -
  obtain res pb opts h' where p: "parse_OptionsFromRaw src srcLength [] h = Some (res, pb, opts, h')"
    and ok: "loop_ok R res opts h'" using parse_OptionsFromRaw_robust_core[OF assms(1,2)] by blast
  show ?thesis
    using p ok parse_OptionsFromRaw_agree[OF assms(1,3), of "[]" h] FreeOptionList_heap[of h' R opts]
    by (auto simp: loop_ok_def opt_wf_def MAX_OPTION_VALUE_SIZE_def list_all_iff)
qed

theorem parse_options_robust_witness:
  "\<exists>res pb opts h'. parse_OptionsFromRaw (mem_of [0xd1]) 1 [] demo_heap = Some (res, pb, opts, h') \<and>
     parse_OptionsFromRaw (mem_of [0xd1, 9, 9]) 1 [] demo_heap = Some (res, pb, opts, h')"
  using parse_options_robust[of 1 demo_heap "{}" "mem_of [0xd1]" "mem_of [0xd1, 9, 9]"]
  by (auto simp: demo_heap_inv agree_below_def mem_of_def)

text \<open>
  \<open>CoAP_CheckForUnknownCriticalOption\<close> returns 0 exactly when every option with an odd number is
  one of the known ones; otherwise it returns the number of the first option that is critical and
  unknown. \<open>Uri-Host\<close> (3) and \<open>Uri-Port\<close> (7) are critical and not in the table, so any request that
  carries one is refused.
\<close>

theorem unknown_critical_option:
  "(CoAP_CheckForUnknownCriticalOption opts = 0 \<longleftrightarrow>
      list_all (\<lambda>opt. odd (unat (Number opt)) \<longrightarrow> Number opt \<in> set KNOWN_OPTIONS) opts) \<and>
   (\<forall>n. n \<noteq> 0 \<longrightarrow> CoAP_CheckForUnknownCriticalOption opts = n \<longrightarrow>
      (\<exists>pre opt post. opts = pre @ opt # post \<and> Number opt = n \<and> odd (unat n) \<and>
         n \<notin> set KNOWN_OPTIONS \<and> CoAP_CheckForUnknownCriticalOption pre = 0)) \<and>
   OPT_NUM_URI_HOST \<notin> set KNOWN_OPTIONS \<and> OPT_NUM_URI_PORT \<notin> set KNOWN_OPTIONS"
proof -
  have crit: "n AND OPT_FLAG_CRITICAL \<noteq> 0 \<longleftrightarrow> odd (unat n)" for n :: u16
    by (simp add: OPT_FLAG_CRITICAL_def and_one_eq odd_iff_mod_2_eq_one word_unat_eq_iff unat_mod)
  have z: "CoAP_CheckForUnknownCriticalOption os = 0 \<longleftrightarrow>
      list_all (\<lambda>opt. odd (unat (Number opt)) \<longrightarrow> Number opt \<in> set KNOWN_OPTIONS) os" for os
    by (induction os) (auto simp: crit Let_def list_ex_iff)
  have "\<exists>pre opt post. os = pre @ opt # post \<and> Number opt = n \<and> odd (unat n) \<and>
      n \<notin> set KNOWN_OPTIONS \<and> CoAP_CheckForUnknownCriticalOption pre = 0"
    if "n \<noteq> 0" "CoAP_CheckForUnknownCriticalOption os = n" for n os
    using that
  proof (induction os)
    case Nil
    then show ?case by simp
  next
    case (Cons a os)
    show ?case
    proof (cases "Number a \<notin> set KNOWN_OPTIONS \<and> odd (unat (Number a))")
      case True
      then show ?thesis using Cons.prems by (intro exI[of _ "[]"] exI[of _ a] exI[of _ os])
          (auto simp: crit list_ex_iff)
    next
      case False
      then obtain pre opt post where "os = pre @ opt # post" "Number opt = n" "odd (unat n)"
        "n \<notin> set KNOWN_OPTIONS" "CoAP_CheckForUnknownCriticalOption pre = 0"
        using Cons by (auto simp: crit list_ex_iff)
      then show ?thesis using False
        by (intro exI[of _ "a # pre"] exI[of _ opt] exI[of _ post]) (auto simp: crit list_ex_iff)
    qed
  qed
  then show ?thesis using z by (simp add: KNOWN_OPTIONS_def option_numbers)
qed

theorem unknown_critical_option_witness:
  "CoAP_CheckForUnknownCriticalOption demo_options = 0 \<and>
   list_all (\<lambda>opt. odd (unat (Number opt)) \<longrightarrow> Number opt \<in> set KNOWN_OPTIONS) demo_options"
proof -
  have "CoAP_CheckForUnknownCriticalOption demo_options = 0"
    by (simp add: demo_options_def KNOWN_OPTIONS_def option_numbers OPT_FLAG_CRITICAL_def)
  then show ?thesis using unknown_critical_option[of demo_options] by blast
qed

text \<open>
  \<open>CoAP_OptionsAreEqual\<close> decides equality of two options' numbers and values (not of their
  buffers); a null pointer equals only a null pointer.
\<close>

theorem options_equal_iff:
  assumes "opt_wf a" "opt_wf b"
  shows "(CoAP_OptionsAreEqual (Some a) (Some b) \<longleftrightarrow> content a = content b) \<and>
    CoAP_OptionsAreEqual None None \<and>
    \<not> CoAP_OptionsAreEqual None (Some b) \<and> \<not> CoAP_OptionsAreEqual (Some a) None"
proof -
  have "Value a = Value b \<longleftrightarrow> Length a = Length b \<and> (\<forall>i < unat (Length a). Value a ! i = Value b ! i)"
    using assms by (auto simp: opt_wf_def list_eq_iff_nth_eq word_unat_eq_iff)
  then show ?thesis by (auto simp: CoAP_OptionsAreEqual_def content_def list_all_iff)
qed

theorem options_equal_iff_witness:
  "CoAP_OptionsAreEqual (Some \<lparr>opt_addr = 4, Number = 11, Length = 1, Value = [97]\<rparr>)
     (Some \<lparr>opt_addr = 8, Number = 11, Length = 1, Value = [97]\<rparr>)"
  using options_equal_iff[of "\<lparr>opt_addr = 4, Number = 11, Length = 1, Value = [97]\<rparr>"
      "\<lparr>opt_addr = 8, Number = 11, Length = 1, Value = [97]\<rparr>"]
  by (simp add: opt_wf_def content_def)

end
