(* ===== verification/Coap_Net.thy ===== *)
theory Coap_Net imports Options_Codec begin

section \<open>Endpoints, packets and sockets (\<open>interface/_common\<close>)\<close>

text \<open>
  The network types of the stack. An address is the union \<open>NetAddr_t\<close>, seen as its 16 bytes; an
  IPv4 address uses the first four. A packet carries the memory behind \<open>pData\<close>. A socket's driver
  functions are function pointers (numbers here); what the transmit function of a driver answers is
  a parameter of the model (\<open>driver\<close>), and the packets it was handed are logged in the state.
  The record \<open>hal\<close> is the part of the machine the message layer works on: the allocator, the
  one hertz clock, the socket table and the two counters of \<open>coap_message.c\<close>.
\<close>

datatype NetInterfaceType_t = IPV6 | IPV4 | BTLE | UART

definition NetAddr_MAX_LENGTH :: nat where
  "NetAddr_MAX_LENGTH = 16"

record NetEp =
  NetType :: NetInterfaceType_t
  NetAddr :: "u8 list"
  NetPort :: u16

datatype MetaInfoType_t = META_INFO_NONE | META_INFO_RF_PATH

record MetaInfo =
  MetaType :: MetaInfoType_t
  HopCount :: u8
  RSSI :: int

record NetPacket =
  pData :: memory
  pkt_size :: u16
  Sender :: NetEp
  Receiver :: NetEp
  PktMetaInfo :: MetaInfo

record NetSocket =
  Handle :: addr
  sock_ifID :: u8
  EpLocal :: NetEp
  EpRemote :: NetEp
  RxCB :: "fnptr option"
  Tx :: "fnptr option"
  Alive :: bool

definition MAX_ACTIVE_SOCKETS :: nat where
  "MAX_ACTIVE_SOCKETS = 5"

record NetSocketCtrl =
  SocketMemory :: "NetSocket list"
  initDone :: bool

type_synonym driver = "fnptr \<Rightarrow> u8 \<Rightarrow> NetPacket \<Rightarrow> (u8 \<times> NetPacket) list \<Rightarrow> bool"

record hal =
  heap :: bget_state
  rtc_1Hz :: u32
  SocketCtrl :: NetSocketCtrl
  sent :: "(u8 \<times> NetPacket) list"
  lastMId :: u16
  lastToken :: u64

subsection \<open>Endpoints\<close>

definition addr_wf :: "NetEp \<Rightarrow> bool" where
  "addr_wf ep \<longleftrightarrow> length (NetAddr ep) = NetAddr_MAX_LENGTH"

text \<open>
  \<open>u32_at\<close>: the word the union shows at index \<open>i\<close> (little endian on the target; only equality of
  such words is used).
\<close>

definition u32_at :: "u8 list \<Rightarrow> nat \<Rightarrow> u32" where
  "u32_at bs i = ucast (bs ! (4 * i)) OR push_bit 8 (ucast (bs ! (4 * i + 1)))
     OR push_bit 16 (ucast (bs ! (4 * i + 2))) OR push_bit 24 (ucast (bs ! (4 * i + 3)))"

definition EpAreEqual :: "NetEp option \<Rightarrow> NetEp option \<Rightarrow> bool" where
  "EpAreEqual ep_A ep_B =
    (case (ep_A, ep_B) of
       (Some a, Some b) \<Rightarrow>
         if NetType a \<noteq> NetType b then False
         else if NetPort a \<noteq> NetPort b then False
         else if NetType a = IPV6 then
           \<not> (u32_at (NetAddr a) 0 \<noteq> u32_at (NetAddr b) 0 \<or> u32_at (NetAddr a) 1 \<noteq> u32_at (NetAddr b) 1 \<or>
              u32_at (NetAddr a) 2 \<noteq> u32_at (NetAddr b) 2 \<or> u32_at (NetAddr a) 3 \<noteq> u32_at (NetAddr b) 3)
         else if NetType a = IPV4 then
           \<not> (NetAddr a ! 0 \<noteq> NetAddr b ! 0 \<or> NetAddr a ! 1 \<noteq> NetAddr b ! 1 \<or>
              NetAddr a ! 2 \<noteq> NetAddr b ! 2 \<or> NetAddr a ! 3 \<noteq> NetAddr b ! 3)
         else list_all (\<lambda>i. NetAddr a ! i = NetAddr b ! i) [0..<NetAddr_MAX_LENGTH]
     | _ \<Rightarrow> False)"

definition CopyEndpoints :: "NetEp \<Rightarrow> NetEp \<Rightarrow> NetEp" where
  "CopyEndpoints Destination Source = Source"

subsection \<open>Sockets\<close>

text \<open>A socket pointer is its index in the table.\<close>

fun find_socket :: "(NetSocket \<Rightarrow> bool) \<Rightarrow> nat \<Rightarrow> NetSocket list \<Rightarrow> nat option" where
  "find_socket P i [] = None"
| "find_socket P i (s # ss) = (if P s then Some i else find_socket P (Suc i) ss)"

definition AllocSocket :: "NetSocketCtrl \<Rightarrow> nat option \<times> NetSocketCtrl" where
  "AllocSocket c =
    (let c = (if \<not> initDone c
              then c\<lparr>SocketMemory := map (\<lambda>s. s\<lparr>Alive := False\<rparr>) (SocketMemory c), initDone := True\<rparr>
              else c)
     in (find_socket (\<lambda>s. Alive s = False) 0 (SocketMemory c), c))"

definition RetrieveSocket :: "addr \<Rightarrow> NetSocketCtrl \<Rightarrow> nat option" where
  "RetrieveSocket h c = find_socket (\<lambda>s. Alive s \<and> Handle s = h) 0 (SocketMemory c)"

definition RetrieveSocket2 :: "u8 \<Rightarrow> NetSocketCtrl \<Rightarrow> nat option" where
  "RetrieveSocket2 i c = find_socket (\<lambda>s. Alive s \<and> sock_ifID s = i) 0 (SocketMemory c)"

lemma find_socket_None: "find_socket P i ss = None \<longleftrightarrow> (\<forall>s \<in> set ss. \<not> P s)"
  by (induction ss arbitrary: i) auto

lemma find_socket_Some:
  "find_socket P i ss = Some k \<Longrightarrow>
     i \<le> k \<and> k - i < length ss \<and> P (ss ! (k - i)) \<and> (\<forall>j < k - i. \<not> P (ss ! j))"
proof (induction ss arbitrary: i)
  case Nil
  then show ?case by simp
next
  case (Cons s ss)
  show ?case
  proof (cases "P s")
    case True
    then show ?thesis using Cons.prems by simp
  next
    case False
    then have IH: "Suc i \<le> k" "k - Suc i < length ss" "P (ss ! (k - Suc i))"
      "\<forall>j < k - Suc i. \<not> P (ss ! j)" using Cons.IH[of "Suc i"] Cons.prems by auto
    have "k - i = Suc (k - Suc i)" using IH(1) by simp
    then show ?thesis using IH False by (auto simp: nth_Cons split: nat.splits)
  qed
qed

end
