(* ===== verification/Coap_Message.thy ===== *)
theory Coap_Message imports Coap_Net "HOL-Library.Monad_Syntax" begin

section \<open>Messages (\<open>coap_message.c\<close>)\<close>

text \<open>
  A message is the struct \<open>CoAP_Message_t\<close> with the address of its buffer (\<open>msg_addr\<close>) and the bytes
  its payload pointer shows (\<open>PayloadData\<close>). \<open>Code\<close> holds any byte, as the parser stores whatever it
  received. Functions of the source that change a message return it. Undefined behaviour of the
  source (a null pointer used, a buffer overrun) and a loop that does not end are the result \<open>None\<close>.
\<close>

datatype CoAP_MessageType_t = CON | NON | ACK | RST

type_synonym CoAP_MessageCode_t = u8

definition CODE :: "u8 \<Rightarrow> u8 \<Rightarrow> CoAP_MessageCode_t" where
  "CODE CLASS c = push_bit 5 CLASS OR c"

definition EMPTY :: u8 where "EMPTY = CODE 0 0"
definition REQ_GET :: u8 where "REQ_GET = CODE 0 1"
definition REQ_POST :: u8 where "REQ_POST = CODE 0 2"
definition REQ_PUT :: u8 where "REQ_PUT = CODE 0 3"
definition REQ_DELETE :: u8 where "REQ_DELETE = CODE 0 4"
definition RESP_SUCCESS_CREATED_2_01 :: u8 where "RESP_SUCCESS_CREATED_2_01 = CODE 2 1"
definition RESP_SUCCESS_CONTENT_2_05 :: u8 where "RESP_SUCCESS_CONTENT_2_05 = CODE 2 5"
definition RESP_ERROR_BAD_REQUEST_4_00 :: u8 where "RESP_ERROR_BAD_REQUEST_4_00 = CODE 4 0"
definition RESP_BAD_OPTION_4_02 :: u8 where "RESP_BAD_OPTION_4_02 = CODE 4 2"
definition RESP_NOT_FOUND_4_04 :: u8 where "RESP_NOT_FOUND_4_04 = CODE 4 4"
definition RESP_METHOD_NOT_ALLOWED_4_05 :: u8 where "RESP_METHOD_NOT_ALLOWED_4_05 = CODE 4 5"
definition RESP_INTERNAL_SERVER_ERROR_5_00 :: u8 where "RESP_INTERNAL_SERVER_ERROR_5_00 = CODE 5 0"
definition RESP_SERVICE_UNAVAILABLE_5_03 :: u8 where "RESP_SERVICE_UNAVAILABLE_5_03 = CODE 5 3"

lemmas message_codes = EMPTY_def REQ_GET_def REQ_POST_def REQ_PUT_def REQ_DELETE_def
  RESP_SUCCESS_CREATED_2_01_def RESP_SUCCESS_CONTENT_2_05_def RESP_ERROR_BAD_REQUEST_4_00_def
  RESP_BAD_OPTION_4_02_def RESP_NOT_FOUND_4_04_def RESP_METHOD_NOT_ALLOWED_4_05_def
  RESP_INTERNAL_SERVER_ERROR_5_00_def RESP_SERVICE_UNAVAILABLE_5_03_def CODE_def

record CoAP_Message =
  msg_addr :: addr
  Timestamp :: u32
  Type :: CoAP_MessageType_t
  Code :: CoAP_MessageCode_t
  MessageID :: u16
  PayloadLength :: u16
  PayloadBufSize :: u16
  Token64 :: u64
  pOptionsList :: options
  Payload :: "addr option"
  PayloadData :: memory

text \<open>\<open>sizeof(CoAP_Message_t)\<close> on the 32 bit target, the token being aligned to eight bytes.\<close>

definition sizeof_CoAP_Message :: int where
  "sizeof_CoAP_Message = 40"

definition memcpy :: "memory \<Rightarrow> memory \<Rightarrow> nat \<Rightarrow> memory" where
  "memcpy dst src n = (\<lambda>i. if i < n then src i else dst i)"

subsection \<open>Small helpers\<close>

definition getTokenByteCount :: "u64 \<Rightarrow> nat" where
  "getTokenByteCount Token =
    (if Token = 0 then 0
     else if Token \<le> 0xff then 1
     else if Token \<le> 0xffff then 2
     else if Token \<le> 0xffffff then 3
     else if Token \<le> 0xffffffff then 4
     else if Token \<le> 0xffffffffff then 5
     else if Token \<le> 0xffffffffffff then 6
     else if Token \<le> 0xffffffffffffff then 7
     else 8)"

definition CoAP_InitToEmptyResetMsg :: "addr \<Rightarrow> CoAP_Message" where
  "CoAP_InitToEmptyResetMsg p =
    \<lparr>msg_addr = p, Timestamp = 0, Type = RST, Code = EMPTY, MessageID = 0, PayloadLength = 0,
     PayloadBufSize = 0, Token64 = 0, pOptionsList = [], Payload = None, PayloadData = (\<lambda>_. 0)\<rparr>"

definition bufferIsPartOfMsg :: "addr \<Rightarrow> CoAP_Message \<Rightarrow> bget_state \<Rightarrow> bool" where
  "bufferIsPartOfMsg buf pMsg h =
    (if buf < msg_addr pMsg \<or> buf > msg_addr pMsg + bsize (Some (msg_addr pMsg)) h then False else True)"

definition CoAP_free_MsgPayload :: "CoAP_Message \<Rightarrow> bget_state \<Rightarrow> CoAP_Message \<times> bget_state" where
  "CoAP_free_MsgPayload Msg h =
    (case Payload Msg of
       None \<Rightarrow> (Msg, h)
     | Some p \<Rightarrow>
         if p > coap_mem_buf_highEnd h \<or> p < coap_mem_buf_lowEnd h then (Msg, h)
         else if bufferIsPartOfMsg p Msg h = False
         then (Msg\<lparr>Payload := None, PayloadBufSize := 0\<rparr>, coap_mem_release (Some p) h)
         else (Msg, h))"

definition CoAP_MsgIsRequest :: "CoAP_Message \<Rightarrow> bool" where
  "CoAP_MsgIsRequest pMsg = (if Code pMsg \<noteq> EMPTY \<and> Code pMsg \<le> REQ_DELETE then True else False)"

definition CoAP_MsgIsResponse :: "CoAP_Message \<Rightarrow> bool" where
  "CoAP_MsgIsResponse pMsg =
    (if Code pMsg \<noteq> EMPTY \<and> Code pMsg \<ge> RESP_SUCCESS_CREATED_2_01 then True else False)"

definition CoAP_MsgIsOlderThan :: "CoAP_Message \<Rightarrow> u32 \<Rightarrow> 'a hal_scheme \<Rightarrow> bool" where
  "CoAP_MsgIsOlderThan pMsg timespan w =
    (if rtc_1Hz w - Timestamp pMsg > timespan then True else False)"

definition CoAP_free_Message :: "CoAP_Message option \<Rightarrow> bget_state \<Rightarrow> bget_state" where
  "CoAP_free_Message Msg h =
    (case Msg of
       None \<Rightarrow> h
     | Some m \<Rightarrow>
         (let h = CoAP_FreeOptionList (pOptionsList m) h;
              (m, h) = CoAP_free_MsgPayload m h
          in coap_mem_release (Some (msg_addr m)) h))"

definition CoAP_GetNextMid :: "'a hal_scheme \<Rightarrow> u16 \<times> 'a hal_scheme" where
  "CoAP_GetNextMid w = (lastMId w + 1, w\<lparr>lastMId := lastMId w + 1\<rparr>)"

definition CoAP_GenerateToken :: "'a hal_scheme \<Rightarrow> u64 \<times> 'a hal_scheme" where
  "CoAP_GenerateToken w = (lastToken w + 1, w\<lparr>lastToken := lastToken w + 1\<rparr>)"

subsection \<open>Creating messages\<close>

text \<open>
  The buffer is allocated before the sizes are compared, so a refused request keeps it. A null
  \<open>pPayloadInitialContent\<close> is \<open>None\<close>.
\<close>

definition CoAP_CreateMessage ::
  "CoAP_MessageType_t \<Rightarrow> CoAP_MessageCode_t \<Rightarrow> u16 \<Rightarrow> memory option \<Rightarrow> u16 \<Rightarrow> u16 \<Rightarrow> u64 \<Rightarrow>
     bget_state \<Rightarrow> CoAP_Message option \<times> bget_state" where
  "CoAP_CreateMessage T C mid pContent contentLength PayloadMaxSize Token h =
    (case coap_mem_get0 (sizeof_CoAP_Message + int (unat PayloadMaxSize)) h of
       (None, h) \<Rightarrow> (None, h)
     | (Some p, h) \<Rightarrow>
         if contentLength > PayloadMaxSize then (None, h)
         else
           let m = (CoAP_InitToEmptyResetMsg p)\<lparr>Type := T, Code := C, MessageID := mid,
                     Token64 := Token, Timestamp := 0, PayloadLength := contentLength\<rparr>;
               m = (if PayloadMaxSize \<noteq> 0
                    then let m = m\<lparr>PayloadBufSize := PayloadMaxSize,
                                   Payload := Some (p + sizeof_CoAP_Message)\<rparr>
                         in (case pContent of
                               None \<Rightarrow> m
                             | Some c \<Rightarrow> m\<lparr>PayloadData := memcpy (PayloadData m) c (unat contentLength)\<rparr>)
                    else m)
           in (Some m, h))"

definition CoAP_getRespMsgType :: "CoAP_Message \<Rightarrow> CoAP_MessageType_t" where
  "CoAP_getRespMsgType ReqMsg = (if Type ReqMsg = CON then ACK else NON)"

definition CoAP_getRespMsgID :: "CoAP_Message \<Rightarrow> 'a hal_scheme \<Rightarrow> u16 \<times> 'a hal_scheme" where
  "CoAP_getRespMsgID ReqMsg w =
    (if Type ReqMsg = CON then (MessageID ReqMsg, w) else CoAP_GetNextMid w)"

definition CoAP_AllocRespMsg ::
  "CoAP_Message \<Rightarrow> u8 \<Rightarrow> u16 \<Rightarrow> 'a hal_scheme \<Rightarrow> CoAP_Message option \<times> 'a hal_scheme" where
  "CoAP_AllocRespMsg ReqMsg C PayloadMaxSize w =
    (let (mid, w) = CoAP_getRespMsgID ReqMsg w;
         (m, h) = CoAP_CreateMessage (CoAP_getRespMsgType ReqMsg) C mid None 0 PayloadMaxSize
                    (Token64 ReqMsg) (heap w)
     in (m, w\<lparr>heap := h\<rparr>))"

subsection \<open>Parsing a datagram\<close>

definition msg_type :: "u8 \<Rightarrow> CoAP_MessageType_t" where
  "msg_type t = (if t = 0 then CON else if t = 1 then NON else if t = 2 then ACK else RST)"

fun read_token :: "memory \<Rightarrow> nat \<Rightarrow> nat \<Rightarrow> u64" where
  "read_token src offset 0 = 0"
| "read_token src offset (Suc i) =
     read_token src offset i OR push_bit (8 * i) (ucast (src (offset + i)))"

text \<open>
  \<open>parse_copy\<close> is the code from the label \<open>START_MSG_COPY_LABEL\<close> on: \<open>Msg\<close> is the static local, \<open>begin\<close>
  the offset of the payload in the datagram.
\<close>

definition parse_copy ::
  "memory \<Rightarrow> nat \<Rightarrow> CoAP_Message \<Rightarrow> 'a hal_scheme \<Rightarrow> CoAP_Result_t \<times> CoAP_Message option \<times> 'a hal_scheme" where
  "parse_copy src payload Msg w =
    (case coap_mem_get (sizeof_CoAP_Message + int (unat (PayloadLength Msg))) (heap w) of
       (None, h) \<Rightarrow>
         (COAP_ERR_OUT_OF_MEMORY, None, w\<lparr>heap := CoAP_FreeOptionList (pOptionsList Msg) h\<rparr>)
     | (Some p, h) \<Rightarrow>
         (let m = Msg\<lparr>msg_addr := p\<rparr>;
              m = (if PayloadLength Msg \<noteq> 0
                   then m\<lparr>Payload := Some (p + sizeof_CoAP_Message),
                          PayloadData := memcpy (PayloadData m) (mem_at src payload) (unat (PayloadLength Msg))\<rparr>
                   else m);
              m = m\<lparr>Timestamp := rtc_1Hz w\<rparr>
          in (COAP_OK, Some m, w\<lparr>heap := h\<rparr>)))"

definition CoAP_ParseMessageFromDatagram ::
  "memory \<Rightarrow> u16 \<Rightarrow> 'a hal_scheme \<Rightarrow>
     (CoAP_Result_t \<times> CoAP_Message option \<times> 'a hal_scheme) option" where
  "CoAP_ParseMessageFromDatagram src srcArrLength w =
    (if srcArrLength < 4 then Some (COAP_PARSE_DATAGRAM_TOO_SHORT, None, w)
     else if drop_bit 6 (src 0) \<noteq> COAP_VERSION then Some (COAP_PARSE_UNKOWN_COAP_VERSION, None, w)
     else
       let TokenLength = unat (src 0 AND 0b1111);
           codeClass = drop_bit 5 (src 1);
           Msg = (CoAP_InitToEmptyResetMsg 0)
                   \<lparr>Type := msg_type (drop_bit 4 (src 0 AND 0b110000)), Code := src 1,
                    MessageID := push_bit 8 (ucast (src 2)) OR ucast (src 3)\<rparr>
       in if TokenLength > 8 then Some (COAP_PARSE_MESSAGE_FORMAT_ERROR, None, w)
          else if codeClass = 1 \<or> codeClass = 6 \<or> codeClass = 7
          then Some (COAP_PARSE_MESSAGE_FORMAT_ERROR, None, w)
          else if srcArrLength = 4 then Some (parse_copy src 0 Msg w)
          else
            let Msg = Msg\<lparr>Token64 := read_token src 4 TokenLength\<rparr>;
                offset = 4 + of_nat TokenLength
            in if srcArrLength = offset then Some (parse_copy src 0 Msg w)
               else
                 (case parse_OptionsFromRaw (mem_at src (unat offset)) (srcArrLength - offset) [] (heap w) of
                    None \<Rightarrow> None
                  | Some (res, pPayloadBegin, opts, h) \<Rightarrow>
                      if res \<noteq> COAP_OK
                      then Some (res, None, w\<lparr>heap := CoAP_FreeOptionList opts h\<rparr>)
                      else
                        (case pPayloadBegin of
                           None \<Rightarrow>
                             Some (parse_copy src 0
                               (Msg\<lparr>pOptionsList := opts, PayloadLength := 0, PayloadBufSize := 0\<rparr>)
                               (w\<lparr>heap := h\<rparr>))
                         | Some k \<Rightarrow>
                             (let plen = srcArrLength - of_nat (unat offset + k)
                              in if MAX_PAYLOAD_SIZE < unat plen
                                 then Some (COAP_PARSE_TOO_MUCH_PAYLOAD, None,
                                            w\<lparr>heap := CoAP_FreeOptionList opts h\<rparr>)
                                 else Some (parse_copy src (unat offset + k)
                                        (Msg\<lparr>pOptionsList := opts, PayloadLength := plen,
                                             PayloadBufSize := plen\<rparr>)
                                        (w\<lparr>heap := h\<rparr>))))))"

subsection \<open>Building a datagram\<close>

definition CoAP_GetRawSizeOfMessage :: "CoAP_Message \<Rightarrow> nat" where
  "CoAP_GetRawSizeOfMessage Msg =
    4 + unat (CoAP_NeededMem4PackOptions (pOptionsList Msg)) +
    (if Code Msg \<noteq> EMPTY
     then (if PayloadLength Msg \<noteq> 0 then unat (PayloadLength Msg) + 1 else 0)
          + getTokenByteCount (Token64 Msg)
     else 0)"

fun type_num :: "CoAP_MessageType_t \<Rightarrow> u8" where
  "type_num CON = 0"
| "type_num NON = 1"
| "type_num ACK = 2"
| "type_num RST = 3"

definition token_bytes :: "u64 \<Rightarrow> nat \<Rightarrow> u8 list" where
  "token_bytes t n = map (\<lambda>i. ucast (drop_bit (8 * i) t) AND 0xff) [0..<n]"

text \<open>The bytes written to \<open>destArr\<close> and the message, whose payload an empty message loses.\<close>

definition CoAP_BuildDatagram :: "CoAP_Message \<Rightarrow> u8 list \<times> CoAP_Message" where
  "CoAP_BuildDatagram Msg =
    (let (Msg, TokenLength) =
           (if Code Msg = EMPTY then (Msg\<lparr>PayloadLength := 0\<rparr>, 0)
            else (Msg, getTokenByteCount (Token64 Msg)));
         header = [push_bit 6 (COAP_VERSION AND 3) OR push_bit 4 (type_num (Type Msg) AND 3)
                     OR (of_nat TokenLength AND 15),
                   Code Msg, ucast (drop_bit 8 (MessageID Msg)), ucast (MessageID Msg AND 0xff)];
         options = (if pOptionsList Msg \<noteq> [] then fst (pack_OptionsFromList (pOptionsList Msg)) else []);
         payload = (if PayloadLength Msg \<noteq> 0
                    then 0xff # read_bytes (PayloadData Msg) (unat (PayloadLength Msg)) else [])
     in (header @ token_bytes (Token64 Msg) TokenLength @ options @ payload, Msg))"

subsection \<open>Sending\<close>

text \<open>
  \<open>CoAP_SendMsg\<close>. \<open>drv\<close> answers for the transmit function of the socket; the packet it is handed is
  logged. An unknown \<open>ifID\<close> makes the source read through a null pointer.
\<close>

definition CoAP_SendMsg ::
  "driver \<Rightarrow> CoAP_Message \<Rightarrow> u8 \<Rightarrow> NetEp \<Rightarrow> 'a hal_scheme \<Rightarrow>
     (CoAP_Result_t \<times> CoAP_Message \<times> 'a hal_scheme) option" where
  "CoAP_SendMsg drv Msg ifID ep w =
    (case RetrieveSocket2 ifID (SocketCtrl w) of
       None \<Rightarrow> None
     | Some i \<Rightarrow>
         let pSocket = SocketMemory (SocketCtrl w) ! i
         in (case Tx pSocket of
               None \<Rightarrow> Some (COAP_NOT_FOUND, Msg, w)
             | Some SendPacket \<Rightarrow>
                 let n = (of_nat (CoAP_GetRawSizeOfMessage Msg) :: u16);
                     (buf, h) = (if n \<le> 16 then (None, heap w) else coap_mem_get (int (unat n)) (heap w));
                     w = w\<lparr>heap := h\<rparr>
                 in if \<not> n \<le> 16 \<and> buf = None then Some (COAP_ERR_OUT_OF_MEMORY, Msg, w)
                    else
                      let (bytes, Msg) = CoAP_BuildDatagram Msg;
                          pked = \<lparr>pData = mem_of bytes, pkt_size = n, Sender = EpLocal pSocket,
                                  Receiver = ep,
                                  PktMetaInfo = \<lparr>MetaType = META_INFO_NONE, HopCount = 0, RSSI = 0\<rparr>\<rparr>
                      in if unat n < length bytes then None
                         else
                           let ok = drv SendPacket ifID pked (sent w);
                               w = w\<lparr>sent := sent w @ [(ifID, pked)],
                                     heap := coap_mem_release buf (heap w)\<rparr>
                           in if ok then Some (COAP_OK, Msg\<lparr>Timestamp := rtc_1Hz w\<rparr>, w)
                              else Some (COAP_ERR_NETWORK, Msg, w)))"

definition CoAP_SendEmptyAck ::
  "driver \<Rightarrow> u16 \<Rightarrow> u8 \<Rightarrow> NetEp \<Rightarrow> 'a hal_scheme \<Rightarrow> (CoAP_Result_t \<times> 'a hal_scheme) option" where
  "CoAP_SendEmptyAck drv mid ifID ep w =
    (let Msg = (CoAP_InitToEmptyResetMsg 0)\<lparr>Type := ACK, MessageID := mid\<rparr>
     in map_option (\<lambda>(res, _, w). (res, w)) (CoAP_SendMsg drv Msg ifID ep w))"

definition CoAP_SendShortResp ::
  "driver \<Rightarrow> CoAP_MessageType_t \<Rightarrow> CoAP_MessageCode_t \<Rightarrow> u16 \<Rightarrow> u64 \<Rightarrow> u8 \<Rightarrow> NetEp \<Rightarrow> 'a hal_scheme \<Rightarrow>
     (CoAP_Result_t \<times> 'a hal_scheme) option" where
  "CoAP_SendShortResp drv T C mid token ifID ep w =
    (let Msg = (CoAP_InitToEmptyResetMsg 0)\<lparr>Type := T, MessageID := mid, Code := C, Token64 := token\<rparr>
     in map_option (\<lambda>(res, _, w). (res, w)) (CoAP_SendMsg drv Msg ifID ep w))"

definition CoAP_SendEmptyRST ::
  "driver \<Rightarrow> u16 \<Rightarrow> u8 \<Rightarrow> NetEp \<Rightarrow> 'a hal_scheme \<Rightarrow> (CoAP_Result_t \<times> 'a hal_scheme) option" where
  "CoAP_SendEmptyRST drv mid ifID ep w =
    (let Msg = (CoAP_InitToEmptyResetMsg 0)\<lparr>MessageID := mid\<rparr>
     in map_option (\<lambda>(res, _, w). (res, w)) (CoAP_SendMsg drv Msg ifID ep w))"

subsection \<open>Payload\<close>

text \<open>The result of the request for a new buffer is not checked before it is written to.\<close>

definition CoAP_addNewPayloadToMessage ::
  "CoAP_Message \<Rightarrow> memory \<Rightarrow> u16 \<Rightarrow> bget_state \<Rightarrow> (CoAP_Result_t \<times> CoAP_Message \<times> bget_state) option" where
  "CoAP_addNewPayloadToMessage Msg data n h =
    (if MAX_PAYLOAD_SIZE < unat n then Some (COAP_ERR_OUT_OF_MEMORY, Msg, h)
     else if n \<noteq> 0 then
       (if PayloadBufSize Msg \<ge> n
        then Some (COAP_OK, Msg\<lparr>PayloadData := memcpy (PayloadData Msg) data (unat n), PayloadLength := n\<rparr>, h)
        else
          let (Msg, h) = CoAP_free_MsgPayload Msg h
          in (case coap_mem_get (int (unat n)) h of
                (None, h) \<Rightarrow> None
              | (Some p, h) \<Rightarrow>
                  Some (COAP_OK, Msg\<lparr>Payload := Some p, PayloadBufSize := n,
                          PayloadData := memcpy (\<lambda>_. 0) data (unat n), PayloadLength := n\<rparr>, h)))
     else
       let (Msg, h) = CoAP_free_MsgPayload Msg h
       in Some (COAP_OK, Msg\<lparr>PayloadLength := n\<rparr>, h))"

definition CoAP_addTextPayload ::
  "CoAP_Message \<Rightarrow> u8 list \<Rightarrow> bget_state \<Rightarrow> (CoAP_Result_t \<times> CoAP_Message \<times> bget_state) option" where
  "CoAP_addTextPayload Msg str h = CoAP_addNewPayloadToMessage Msg (mem_of str) (of_nat (length str)) h"

end
