(* ===== verification/Message_Facts.thy ===== *)
theory Message_Facts imports Coap_Message begin

section \<open>Facts on messages\<close>

text \<open>
  The message codec (header, token, size, round trip), what parsing, creating and sending do to the
  heap, and the properties of \<open>coap_message.c\<close>.
\<close>

subsection \<open>Token\<close>

lemma byte_of_token:
  fixes t :: u64
  shows "take_bit (8 * k) t OR push_bit (8 * k) (ucast (ucast (drop_bit (8 * k) t) AND 0xff :: u8)) =
    take_bit (8 * Suc k) t"
proof -
  have m: "(0xff :: u8) = mask 8" by (simp add: mask_eq_exp_minus_1)
  show ?thesis unfolding m by (rule bit_word_eqI) (auto simp: bit_simps)
qed

lemma token_bytes_nth: "i < n \<Longrightarrow> token_bytes t n ! i = ucast (drop_bit (8 * i) t) AND 0xff"
  by (simp add: token_bytes_def)

lemma length_token_bytes [simp]: "length (token_bytes t n) = n"
  by (simp add: token_bytes_def)

lemma read_token_bytes:
  assumes "has_bytes src off (token_bytes t n)" "k \<le> n"
  shows "read_token src off k = take_bit (8 * k) t"
  using assms(2)
proof (induction k)
  case 0
  then show ?case by simp
next
  case (Suc k)
  then have "src (off + k) = ucast (drop_bit (8 * k) t) AND 0xff"
    using assms(1) by (simp add: has_bytes_def token_bytes_nth)
  then show ?case using Suc byte_of_token[of k t] by simp
qed

lemma getTokenByteCount_le: "getTokenByteCount t \<le> 8"
  by (simp add: getTokenByteCount_def)

lemma getTokenByteCount_bound: "unat t < 2 ^ (8 * getTokenByteCount t)"
  using unat_less[of t] by (auto simp: getTokenByteCount_def word_le_nat_alt)

lemma getTokenByteCount_least: "n < getTokenByteCount t \<Longrightarrow> 2 ^ (8 * n) \<le> unat t"
proof -
  assume n: "n < getTokenByteCount t"
  then have "n \<in> {0, 1, 2, 3, 4, 5, 6, 7}" using getTokenByteCount_le[of t] by auto
  then show ?thesis using n
    by (elim insertE emptyE)
       (auto simp: getTokenByteCount_def word_le_nat_alt not_le unat_gt_0 Suc_le_eq split: if_splits)
qed

lemma read_token_all:
  assumes "has_bytes src off (token_bytes t (getTokenByteCount t))"
  shows "read_token src off (getTokenByteCount t) = t"
proof -
  have "take_bit (8 * getTokenByteCount t) t = t"
    using getTokenByteCount_bound[of t] by (simp add: word_unat_eq_iff unsigned_take_bit_eq take_bit_nat_eq_self)
  then show ?thesis using read_token_bytes[OF assms order_refl] by simp
qed

subsection \<open>Header\<close>

lemma header_byte:
  fixes t :: CoAP_MessageType_t
  assumes "n \<le> 8"
  defines "b \<equiv> push_bit 6 (COAP_VERSION AND 3) OR push_bit 4 (type_num t AND 3) OR (of_nat n AND 15 :: u8)"
  shows "drop_bit 6 b = COAP_VERSION" "unat (b AND 15) = n" "msg_type (drop_bit 4 (b AND 48)) = t"
proof -
  have "n \<in> {0, 1, 2, 3, 4, 5, 6, 7, 8}" using assms(1) by auto
  then show "drop_bit 6 b = COAP_VERSION" "unat (b AND 15) = n" "msg_type (drop_bit 4 (b AND 48)) = t"
    unfolding b_def by (cases t; auto simp: COAP_VERSION_def msg_type_def)+
qed


subsection \<open>Size\<close>

lemma raw_size_built:
  assumes "list_all opt_wf (pOptionsList m)" "length (pack_options_loop 0 (pOptionsList m)) < 65536"
  shows "CoAP_GetRawSizeOfMessage m = length (fst (CoAP_BuildDatagram m))"
proof -
  have "unat (CoAP_NeededMem4PackOptions (pOptionsList m)) = length (pack_options_loop 0 (pOptionsList m))"
    using needed_mem_loop_pack[OF assms(1), of 0 0] assms(2)
    by (simp add: CoAP_NeededMem4PackOptions_def unat_of_nat)
  then show ?thesis
    by (simp add: CoAP_GetRawSizeOfMessage_def CoAP_BuildDatagram_def pack_OptionsFromList_def Let_def)
qed

lemma length_built_ge:
  "length (fst (CoAP_BuildDatagram m)) \<ge> length (pack_options_loop 0 (pOptionsList m))"
  by (simp add: CoAP_BuildDatagram_def pack_OptionsFromList_def Let_def)

lemma unat_of_nat_u16: "k < 65536 \<Longrightarrow> unat (of_nat k :: u16) = k"
  by (simp add: unat_of_nat)

lemma unat_diff_nat: "k \<le> unat n \<Longrightarrow> unat ((n :: u16) - of_nat k) = unat n - k"
proof -
  assume k: "k \<le> unat n"
  then have "unat (of_nat k :: u16) = k" using u16_less[of n] by (intro unat_of_nat_u16) linarith
  then show ?thesis using k by (simp add: unat_sub word_le_nat_alt)
qed

subsection \<open>Round trip\<close>

text \<open>The messages whose datagram the parser accepts, up to memory.\<close>

definition valid_code :: "u8 \<Rightarrow> bool" where
  "valid_code c \<longleftrightarrow> drop_bit 5 c \<notin> {1, 6, 7}"

definition wire_msg :: "CoAP_Message \<Rightarrow> bool" where
  "wire_msg m \<longleftrightarrow> Code m \<noteq> EMPTY \<and> valid_code (Code m) \<and> packable 0 (pOptionsList m) \<and>
     (PayloadLength m \<noteq> 0 \<longrightarrow> pOptionsList m \<noteq> []) \<and> unat (PayloadLength m) \<le> MAX_PAYLOAD_SIZE \<and>
     length (fst (CoAP_BuildDatagram m)) < 65536"

definition payload_bytes :: "CoAP_Message \<Rightarrow> u8 list" where
  "payload_bytes m = read_bytes (PayloadData m) (unat (PayloadLength m))"

lemma length_payload_bytes [simp]: "length (payload_bytes m) = unat (PayloadLength m)"
  by (simp add: payload_bytes_def)

lemma payload_bytes_Nil [simp]: "payload_bytes m = [] \<longleftrightarrow> PayloadLength m = 0"
  by (metis length_payload_bytes length_0_conv unat_eq_0)

text \<open>A datagram is the header, the token, the options and the payload behind its marker.\<close>

lemma built_layout:
  assumes "Code m \<noteq> EMPTY"
  shows "fst (CoAP_BuildDatagram m) =
    [push_bit 6 (COAP_VERSION AND 3) OR push_bit 4 (type_num (Type m) AND 3)
       OR (of_nat (getTokenByteCount (Token64 m)) AND 15),
     Code m, ucast (drop_bit 8 (MessageID m)), ucast (MessageID m AND 0xff)] @
    token_bytes (Token64 m) (getTokenByteCount (Token64 m)) @
    pack_options_loop 0 (pOptionsList m) @ payload_tail (payload_bytes m)"
  using assms
  by (simp add: CoAP_BuildDatagram_def pack_OptionsFromList_def payload_tail_def payload_bytes_def Let_def
      flip: payload_bytes_def)

text \<open>The free bytes in one block that parsing the message needs, and what the copied message shows.\<close>

definition msg_room :: "CoAP_Message \<Rightarrow> int" where
  "msg_room m = opts_room (pOptionsList m) + 43 + int (unat (PayloadLength m))"

definition same_message :: "CoAP_Message \<Rightarrow> CoAP_Message \<Rightarrow> bool" where
  "same_message m m' \<longleftrightarrow> Type m' = Type m \<and> Code m' = Code m \<and> MessageID m' = MessageID m \<and>
     Token64 m' = Token64 m \<and> map content (pOptionsList m') = map content (pOptionsList m) \<and>
     payload_bytes m' = payload_bytes m"

lemma parse_copy_result:
  obtains h' where "parse_copy src k Msg w = (COAP_ERR_OUT_OF_MEMORY, None, w\<lparr>heap := h'\<rparr>)"
      "fst (coap_mem_get (sizeof_CoAP_Message + int (unat (PayloadLength Msg))) (heap w)) = None"
  | p h' where "parse_copy src k Msg w = (COAP_OK,
      Some (if PayloadLength Msg \<noteq> 0
        then Msg\<lparr>msg_addr := p, Payload := Some (p + sizeof_CoAP_Message),
               PayloadData := memcpy (PayloadData Msg) (mem_at src k) (unat (PayloadLength Msg)),
               Timestamp := rtc_1Hz w\<rparr>
        else Msg\<lparr>msg_addr := p, Timestamp := rtc_1Hz w\<rparr>), w\<lparr>heap := h'\<rparr>)"
      "coap_mem_get (sizeof_CoAP_Message + int (unat (PayloadLength Msg))) (heap w) = (Some p, h')"
proof (cases "coap_mem_get (sizeof_CoAP_Message + int (unat (PayloadLength Msg))) (heap w)")
  case (Pair q h')
  show ?thesis
  proof (cases q)
    case None
    then show ?thesis using that(1) Pair by (simp add: parse_copy_def)
  next
    case (Some p)
    then show ?thesis using that(2) Pair by (simp add: parse_copy_def Let_def)
  qed
qed

lemma payload_copy:
  assumes "has_bytes src k bs" "length bs = unat n"
  shows "read_bytes (memcpy d (mem_at src k) (unat n)) (unat n) = bs"
proof -
  have "read_bytes (memcpy d (mem_at src k) (unat n)) (unat n) = read_bytes (mem_at src k) (length bs)"
    using assms(2) by (simp add: read_bytes_def memcpy_def)
  then show ?thesis using read_bytes_has[OF assms(1)] by simp
qed

text \<open>
  The part of the parser behind the token, for a message \<open>M\<close> whose header has been read and options
  that start at \<open>off\<close>.
\<close>

definition parse_rest ::
  "memory \<Rightarrow> u16 \<Rightarrow> u16 \<Rightarrow> CoAP_Message \<Rightarrow> 'a hal_scheme \<Rightarrow>
     (CoAP_Result_t \<times> CoAP_Message option \<times> 'a hal_scheme) option" where
  "parse_rest src n off M w =
    (case parse_OptionsFromRaw (mem_at src (unat off)) (n - off) [] (heap w) of
       None \<Rightarrow> None
     | Some (res, pPayloadBegin, opts, h) \<Rightarrow>
         if res \<noteq> COAP_OK then Some (res, None, w\<lparr>heap := CoAP_FreeOptionList opts h\<rparr>)
         else (case pPayloadBegin of
              None \<Rightarrow> Some (parse_copy src 0
                  (M\<lparr>pOptionsList := opts, PayloadLength := 0, PayloadBufSize := 0\<rparr>) (w\<lparr>heap := h\<rparr>))
            | Some k \<Rightarrow>
                (let plen = n - of_nat (unat off + k)
                 in if MAX_PAYLOAD_SIZE < unat plen
                    then Some (COAP_PARSE_TOO_MUCH_PAYLOAD, None, w\<lparr>heap := CoAP_FreeOptionList opts h\<rparr>)
                    else Some (parse_copy src (unat off + k)
                       (M\<lparr>pOptionsList := opts, PayloadLength := plen, PayloadBufSize := plen\<rparr>)
                       (w\<lparr>heap := h\<rparr>)))))"

definition header_msg :: "CoAP_MessageType_t \<Rightarrow> u8 \<Rightarrow> u16 \<Rightarrow> u64 \<Rightarrow> CoAP_Message" where
  "header_msg T C mid tok = (CoAP_InitToEmptyResetMsg 0)\<lparr>Type := T, Code := C, MessageID := mid, Token64 := tok\<rparr>"

lemma header_msg_sel [simp]:
  "Type (header_msg T C mid tok) = T" "Code (header_msg T C mid tok) = C"
  "MessageID (header_msg T C mid tok) = mid" "Token64 (header_msg T C mid tok) = tok"
  "pOptionsList (header_msg T C mid tok) = []" "PayloadLength (header_msg T C mid tok) = 0"
  "PayloadBufSize (header_msg T C mid tok) = 0" "Payload (header_msg T C mid tok) = None"
  by (simp_all add: header_msg_def CoAP_InitToEmptyResetMsg_def)

lemma parse_header:
  fixes src :: memory
  defines "tk \<equiv> unat (src 0 AND 15)" and "off \<equiv> 4 + of_nat (unat (src 0 AND 15)) :: u16"
  defines "M \<equiv> header_msg (msg_type (drop_bit 4 (src 0 AND 48))) (src 1)
                 (push_bit 8 (ucast (src 2)) OR ucast (src 3))"
  assumes "\<not> n < 4" "drop_bit 6 (src 0) = COAP_VERSION" "\<not> tk > 8" "valid_code (src 1)"
  shows "CoAP_ParseMessageFromDatagram src n w =
    (if n = 4 then Some (parse_copy src 0 (M 0) w)
     else if n = off then Some (parse_copy src 0 (M (read_token src 4 tk)) w)
     else parse_rest src n off (M (read_token src 4 tk)) w)"
proof -
  have 0: "(CoAP_InitToEmptyResetMsg 0)\<lparr>Type := T, Code := C, MessageID := mid\<rparr> = header_msg T C mid 0"
    for T C mid by (simp add: header_msg_def CoAP_InitToEmptyResetMsg_def)
  have t: "(header_msg T C mid 0)\<lparr>Token64 := tok\<rparr> = header_msg T C mid tok" for T C mid tok
    by (simp add: header_msg_def)
  show ?thesis using assms(4-7)
    unfolding CoAP_ParseMessageFromDatagram_def Let_def parse_rest_def 0 t M_def tk_def off_def
    by (simp add: valid_code_def)
qed

text \<open>The header of a built datagram reads back as the message's own.\<close>

lemma parse_built:
  assumes code: "Code m \<noteq> EMPTY" "valid_code (Code m)"
    and src: "has_bytes src 0 (fst (CoAP_BuildDatagram m))"
    and len: "unat n = length (fst (CoAP_BuildDatagram m))"
  defines "M \<equiv> header_msg (Type m) (Code m) (MessageID m) (Token64 m)"
    and "tk \<equiv> getTokenByteCount (Token64 m)"
  shows "CoAP_ParseMessageFromDatagram src n w =
      (if pOptionsList m = [] \<and> PayloadLength m = 0 then Some (parse_copy src 0 M w)
       else parse_rest src n (4 + of_nat tk) M w)"
    and "unat (4 + of_nat tk :: u16) = 4 + tk"
    and "unat n = 4 + tk + length (pack_options_loop 0 (pOptionsList m)) + length (payload_tail (payload_bytes m))"
    and "has_bytes src (4 + tk) (pack_options_loop 0 (pOptionsList m) @ payload_tail (payload_bytes m))"
proof -
  note lay = built_layout[OF code(1)]
  have tk8: "tk \<le> 8" unfolding tk_def by (rule getTokenByteCount_le)
  note hb = header_byte[OF tk8, of "Type m"]
  have b: "src 0 = push_bit 6 (COAP_VERSION AND 3) OR push_bit 4 (type_num (Type m) AND 3) OR (of_nat tk AND 15)"
    "src (Suc 0) = Code m" "src (Suc (Suc 0)) = ucast (drop_bit 8 (MessageID m))"
    "src (Suc (Suc (Suc 0))) = ucast (MessageID m AND 0xff)" "has_bytes src 4 (token_bytes (Token64 m) tk)"
    using src unfolding lay by (simp_all add: eval_nat_numeral tk_def)
  show rest: "has_bytes src (4 + tk) (pack_options_loop 0 (pOptionsList m) @ payload_tail (payload_bytes m))"
    using src unfolding lay by (simp add: eval_nat_numeral tk_def)
  show n: "unat n = 4 + tk + length (pack_options_loop 0 (pOptionsList m)) + length (payload_tail (payload_bytes m))"
    using len unfolding lay by (simp add: tk_def)
  show uoff: "unat (4 + of_nat tk :: u16) = 4 + tk" using unat_add_nat[of 4 tk] tk8 by simp
  have tk: "unat (src 0 AND 15) = tk" and ty: "msg_type (drop_bit 4 (src 0 AND 48)) = Type m"
    and ver: "drop_bit 6 (src 0) = COAP_VERSION" unfolding b(1) using hb by auto
  have mid: "push_bit 8 (ucast (src 2)) OR ucast (src 3) = MessageID m"
    using b(3,4) u16_of_bytes[of "MessageID m"] by (simp add: eval_nat_numeral)
  have tok: "read_token src 4 tk = Token64 m" using read_token_all b(5) by (simp add: tk_def)
  have c1: "src 1 = Code m" using b(2) by simp
  have "\<not> n < 4" using n by (simp add: word_less_nat_alt)
  note ph = parse_header[of n src w, unfolded tk c1 ty mid tok, OF this ver _ code(2)]
  have tok0: "Token64 m = 0" if "tk = 0"
    using getTokenByteCount_bound[of "Token64 m"] that by (simp add: tk_def unat_eq_0)
  have plain: "pOptionsList m = [] \<and> PayloadLength m = 0 \<longleftrightarrow> n = 4 + of_nat tk"
  proof
    assume "pOptionsList m = [] \<and> PayloadLength m = 0"
    then have "unat n = unat (4 + of_nat tk :: u16)" using n uoff by (simp add: payload_tail_def)
    then show "n = 4 + of_nat tk" by (simp add: word_unat_eq_iff)
  next
    assume "n = 4 + of_nat tk"
    then have "unat n = 4 + tk" using uoff by simp
    then have "pack_options_loop 0 (pOptionsList m) = []" "payload_bytes m = []"
      using n by (auto simp: payload_tail_def split: if_splits)
    then show "pOptionsList m = [] \<and> PayloadLength m = 0"
      by (cases "pOptionsList m") (simp_all add: pack_option_Cons)
  qed
  show "CoAP_ParseMessageFromDatagram src n w =
      (if pOptionsList m = [] \<and> PayloadLength m = 0 then Some (parse_copy src 0 M w)
       else parse_rest src n (4 + of_nat tk) M w)"
  proof (cases "n = 4")
    case True
    then have "tk = 0" using n by simp
    then show ?thesis using ph tk8 True plain tok0 by (simp add: M_def)
  next
    case False
    then show ?thesis using ph tk8 plain by (simp add: M_def)
  qed
qed

lemma parse_copy_same:
  assumes "Type M = Type m" "Code M = Code m" "MessageID M = MessageID m" "Token64 M = Token64 m"
    "map content (pOptionsList M) = map content (pOptionsList m)" "PayloadLength M = PayloadLength m"
    "PayloadLength m \<noteq> 0 \<longrightarrow> has_bytes src k (payload_bytes m)" "unat (PayloadLength m) \<le> MAX_PAYLOAD_SIZE"
  shows "\<exists>res r w'. parse_copy src k M w = (res, r, w') \<and>
    (res = COAP_ERR_OUT_OF_MEMORY \<and> r = None \<and> \<not> room (heap w) (56 + int (unat (PayloadLength m))) \<or>
     res = COAP_OK \<and> (\<exists>m'. r = Some m' \<and> same_message m m' \<and> Timestamp m' = rtc_1Hz w))"
proof -
  let ?n = "sizeof_CoAP_Message + int (unat (PayloadLength m))"
  have "int (unat (PayloadLength m)) \<le> 256" using assms(8) unfolding MAX_PAYLOAD_SIZE_def by linarith
  then have f: "fits ?n" unfolding fits_def sizeof_CoAP_Message_def by linarith
  have le: "?n + 16 \<le> 56 + int (unat (PayloadLength m))" by (simp add: sizeof_CoAP_Message_def)
  then have r: "\<not> room (heap w) (56 + int (unat (PayloadLength m)))" if "fst (coap_mem_get ?n (heap w)) = None"
    using room_get_some[OF f _ le, of "heap w"] that by auto
  show ?thesis
    by (rule parse_copy_result[of src k M w])
       (use assms(1-7) r payload_copy[of src k "payload_bytes m" "PayloadLength m"] in
         \<open>auto simp: same_message_def payload_bytes_def read_bytes_def\<close>)
qed

lemma build_parse:
  assumes wm: "wire_msg m" and src: "has_bytes src 0 (fst (CoAP_BuildDatagram m))"
    and len: "unat n = length (fst (CoAP_BuildDatagram m))" and inv: "heap_inv (heap w) L"
  shows "\<exists>res r w'. CoAP_ParseMessageFromDatagram src n w = Some (res, r, w') \<and>
    (res = COAP_ERR_OUT_OF_MEMORY \<and> r = None \<and> \<not> room (heap w) (msg_room m) \<or>
     res = COAP_OK \<and> (\<exists>m'. r = Some m' \<and> same_message m m' \<and> Timestamp m' = rtc_1Hz w))"
proof -
  have pl: "unat (PayloadLength m) \<le> MAX_PAYLOAD_SIZE" using wm by (simp add: wire_msg_def)
  let ?tk = "getTokenByteCount (Token64 m)" and ?opts = "pack_options_loop 0 (pOptionsList m)"
    and ?tail = "payload_tail (payload_bytes m)" and ?off = "4 + of_nat (getTokenByteCount (Token64 m)) :: u16"
    and ?M = "header_msg (Type m) (Code m) (MessageID m) (Token64 m)"
  have code: "Code m \<noteq> EMPTY" "valid_code (Code m)" using wm by (auto simp: wire_msg_def)
  note pb = parse_built[OF code src len]
  show ?thesis
  proof (cases "pOptionsList m = []")
    case True
    then have "PayloadLength m = 0" using wm by (auto simp: wire_msg_def)
    then show ?thesis using parse_copy_same[of ?M m src 0 w] pb(1)[of w] True pl by (simp add: msg_room_def)
  next
    case ne: False
    have u: "unat (n - ?off) = length ?opts + length ?tail"
      using pb(2,3) by (simp add: unat_sub_if_size word_size)
    have pk: "packable 0 (pOptionsList m)" using wm by (simp add: wire_msg_def)
    have "has_bytes (mem_at src (unat ?off)) 0 (fst (pack_OptionsFromList (pOptionsList m)) @ ?tail)"
      using pb(2,4) by (simp add: pack_OptionsFromList_def Let_def)
    from parse_packed[OF pk ne this _ inv, of "n - ?off" "43 + int (unat (PayloadLength m))"] obtain res pbeg opts' h' where
      po: "parse_OptionsFromRaw (mem_at src (unat ?off)) (n - ?off) [] (heap w) = Some (res, pbeg, opts', h')"
      and r: "res = COAP_ERR_OUT_OF_MEMORY \<and> \<not> room (heap w) (msg_room m) \<or> res = COAP_OK \<and>
        (room (heap w) (msg_room m) \<longrightarrow> room h' (56 + int (unat (PayloadLength m)))) \<and>
        map content opts' = map content (pOptionsList m) \<and> pbeg = payload_at (length ?opts) (payload_bytes m)"
      using u by (auto simp: pack_OptionsFromList_def Let_def msg_room_def add.assoc)
    note parse = pb(1)[of w] parse_rest_def po
    have copy: "map content opts' = map content (pOptionsList m) \<Longrightarrow>
      PayloadLength m \<noteq> 0 \<longrightarrow> has_bytes src k (payload_bytes m) \<Longrightarrow>
      \<exists>res r w'. parse_copy src k
        (?M\<lparr>pOptionsList := opts', PayloadLength := PayloadLength m, PayloadBufSize := PayloadLength m\<rparr>)
        (w\<lparr>heap := h'\<rparr>) = (res, r, w') \<and> (res = COAP_ERR_OUT_OF_MEMORY \<and> r = None \<and> \<not> room h' (56 + int (unat (PayloadLength m))) \<or>
       res = COAP_OK \<and> (\<exists>m'. r = Some m' \<and> same_message m m' \<and> Timestamp m' = rtc_1Hz w))" for k
      using parse_copy_same[of "?M\<lparr>pOptionsList := opts', PayloadLength := PayloadLength m,
        PayloadBufSize := PayloadLength m\<rparr>" m src k "w\<lparr>heap := h'\<rparr>"] pl by simp
    consider "res = COAP_ERR_OUT_OF_MEMORY" "\<not> room (heap w) (msg_room m)" | "res = COAP_OK" "PayloadLength m = 0"
      | "res = COAP_OK" "PayloadLength m \<noteq> 0" using r by blast
    then show ?thesis
    proof cases
      case 1
      then show ?thesis using ne by (simp add: parse)
    next
      case 2
      then show ?thesis using copy[of 0] r ne by (auto simp: parse payload_at_def)
    next
      case 3
      let ?k = "unat ?off + (length ?opts + 1)"
      have n: "unat n = ?k + unat (PayloadLength m)" using pb(2,3) 3 by (simp add: payload_tail_def)
      then have "unat (n - of_nat ?k) = unat (PayloadLength m)" using unat_diff_nat[of ?k n] by linarith
      then have plen: "n - of_nat ?k = PayloadLength m" by (simp only: word_unat_eq_iff)
      have "has_bytes src ?k (payload_bytes m)" using pb(2,4) 3 by (simp add: payload_tail_def add.assoc)
      moreover have "\<not> MAX_PAYLOAD_SIZE < unat (PayloadLength m)" using wm by (simp add: wire_msg_def)
      ultimately show ?thesis using copy[of ?k] r ne 3 plen
        by (auto simp: parse payload_at_def Let_def simp del: of_nat_add of_nat_Suc)
    qed
  qed
qed

subsection \<open>Ownership\<close>

text \<open>
  The buffers of a message: its own, those of its options, and that of its payload when the payload
  pointer leads into the pool but not into the message's own buffer. \<open>R\<close> is what else is live.
\<close>

definition payload_ext :: "CoAP_Message \<Rightarrow> bget_state \<Rightarrow> addr set" where
  "payload_ext m h =
    (case Payload m of
       None \<Rightarrow> {}
     | Some p \<Rightarrow> if p > coap_mem_buf_highEnd h \<or> p < coap_mem_buf_lowEnd h \<or> bufferIsPartOfMsg p m h
                 then {} else {p})"

definition msg_heap :: "bget_state \<Rightarrow> addr set \<Rightarrow> CoAP_Message \<Rightarrow> bool" where
  "msg_heap h R m \<longleftrightarrow> opts_heap h (insert (msg_addr m) (R \<union> payload_ext m h)) (pOptionsList m) \<and>
     msg_addr m \<notin> R \<and> payload_ext m h \<inter> insert (msg_addr m) R = {}"

lemma brel_area [simp]: "pMemArea (brel p h) = pMemArea h" "TotalBufBytes (brel p h) = TotalBufBytes h"
  by (auto simp: brel_def brel_merge_prev_def brel_merge_next_def heap_ops)

lemma release_area [simp]:
  "pMemArea (coap_mem_release q h) = pMemArea h" "TotalBufBytes (coap_mem_release q h) = TotalBufBytes h"
  by (auto simp: coap_mem_release_def split: option.splits)

lemma release_ends [simp]:
  "coap_mem_buf_lowEnd (coap_mem_release q h) = coap_mem_buf_lowEnd h"
  "coap_mem_buf_highEnd (coap_mem_release q h) = coap_mem_buf_highEnd h"
  by (simp_all add: coap_mem_buf_lowEnd_def coap_mem_buf_highEnd_def)

lemma releases_keep:
  "heap_inv h (R \<union> set ps) \<Longrightarrow> distinct ps \<Longrightarrow> R \<inter> set ps = {} \<Longrightarrow> q \<in> R \<Longrightarrow>
     bsize (Some q) (fold release1 ps h) = bsize (Some q) h \<and>
     coap_mem_buf_lowEnd (fold release1 ps h) = coap_mem_buf_lowEnd h \<and>
     coap_mem_buf_highEnd (fold release1 ps h) = coap_mem_buf_highEnd h"
proof (induction ps arbitrary: h)
  case Nil
  then show ?case by simp
next
  case (Cons p ps)
  have e: "R \<union> set (p # ps) - {p} = R \<union> set ps" using Cons.prems(2,3) by auto
  have "heap_inv (release1 p h) (R \<union> set ps)"
    using mem.rel_inv[OF Cons.prems(1), of p] unfolding e by simp
  moreover have "bsize (Some q) (release1 p h) = bsize (Some q) h"
    using brel_bsize[OF Cons.prems(1), of p q] Cons.prems by auto
  ultimately show ?case using Cons.IH[of "release1 p h"] Cons.prems by simp
qed

lemma FreeOptionList_fold_all:
  "opts \<noteq> [] \<Longrightarrow> CoAP_FreeOptionList opts h =
     fold release1 (map opt_addr (tl opts) @ [opt_addr (hd opts)]) h"
  by (simp add: FreeOptionList_fold)

lemma FreeOptionList_keep:
  assumes "opts_heap h R opts" "q \<in> R"
  shows "bsize (Some q) (CoAP_FreeOptionList opts h) = bsize (Some q) h"
    and "coap_mem_buf_lowEnd (CoAP_FreeOptionList opts h) = coap_mem_buf_lowEnd h"
    and "coap_mem_buf_highEnd (CoAP_FreeOptionList opts h) = coap_mem_buf_highEnd h"
proof -
  have "bsize (Some q) (CoAP_FreeOptionList opts h) = bsize (Some q) h \<and>
    coap_mem_buf_lowEnd (CoAP_FreeOptionList opts h) = coap_mem_buf_lowEnd h \<and>
    coap_mem_buf_highEnd (CoAP_FreeOptionList opts h) = coap_mem_buf_highEnd h"
  proof (cases opts)
    case Nil
    then show ?thesis by (simp add: CoAP_FreeOptionList_def)
  next
    case (Cons a os)
    let ?ps = "map opt_addr os @ [opt_addr a]"
    have "set ?ps = opt_addr ` set opts" "distinct ?ps"
      using assms(1) Cons by (auto simp: opts_heap_def)
    then have "heap_inv h (R \<union> set ?ps)" "distinct ?ps" "R \<inter> set ?ps = {}"
      using assms(1) by (simp_all add: opts_heap_def)
    from releases_keep[OF this assms(2)] show ?thesis using Cons by (simp add: FreeOptionList_fold)
  qed
  then show "bsize (Some q) (CoAP_FreeOptionList opts h) = bsize (Some q) h"
    and "coap_mem_buf_lowEnd (CoAP_FreeOptionList opts h) = coap_mem_buf_lowEnd h"
    and "coap_mem_buf_highEnd (CoAP_FreeOptionList opts h) = coap_mem_buf_highEnd h" by auto
qed

lemma payload_ext_cong:
  assumes "coap_mem_buf_lowEnd h' = coap_mem_buf_lowEnd h" "coap_mem_buf_highEnd h' = coap_mem_buf_highEnd h"
    "bsize (Some (msg_addr m)) h' = bsize (Some (msg_addr m)) h"
  shows "payload_ext m h' = payload_ext m h"
  using assms by (cases "Payload m") (simp_all add: payload_ext_def bufferIsPartOfMsg_def)

lemma free_MsgPayload_cases:
  assumes "CoAP_free_MsgPayload m h = (m', h')"
  obtains "payload_ext m h = {}" "m' = m" "h' = h"
    | p where "payload_ext m h = {p}" "m' = m\<lparr>Payload := None, PayloadBufSize := 0\<rparr>" "h' = release1 p h"
proof (cases "Payload m")
  case None
  then show ?thesis using that(1) assms by (simp add: CoAP_free_MsgPayload_def payload_ext_def)
next
  case (Some p)
  show ?thesis
  proof (cases "p > coap_mem_buf_highEnd h \<or> p < coap_mem_buf_lowEnd h \<or> bufferIsPartOfMsg p m h")
    case True
    then show ?thesis using that(1) assms Some
      by (simp add: CoAP_free_MsgPayload_def payload_ext_def split: if_splits)
  next
    case False
    then show ?thesis using that(2)[of p] assms Some
      by (simp add: CoAP_free_MsgPayload_def payload_ext_def)
  qed
qed

lemma free_MsgPayload_heap:
  assumes "heap_inv h (insert (msg_addr m) (R \<union> payload_ext m h))" "msg_addr m \<notin> R"
    "payload_ext m h \<inter> insert (msg_addr m) R = {}" "CoAP_free_MsgPayload m h = (m', h')"
  shows "heap_inv h' (insert (msg_addr m) R) \<and> msg_addr m' = msg_addr m \<and> payload_ext m' h' = {} \<and>
    pOptionsList m' = pOptionsList m"
  using assms(4)
proof (rule free_MsgPayload_cases)
  assume "payload_ext m h = {}" "m' = m" "h' = h"
  then show ?thesis using assms by simp
next
  fix p
  assume p: "payload_ext m h = {p}" "m' = m\<lparr>Payload := None, PayloadBufSize := 0\<rparr>" "h' = release1 p h"
  have "insert (msg_addr m) (R \<union> {p}) - {p} = insert (msg_addr m) R" using assms(3) p(1) by auto
  then have "heap_inv h' (insert (msg_addr m) R)" using mem.rel_inv[OF assms(1), of p] p by simp
  then show ?thesis using p by (simp add: payload_ext_def)
qed

lemma free_Message_heap:
  assumes "msg_heap h R m"
  shows "heap_inv (CoAP_free_Message (Some m) h) R"
proof -
  let ?h1 = "CoAP_FreeOptionList (pOptionsList m) h"
  have o: "opts_heap h (insert (msg_addr m) (R \<union> payload_ext m h)) (pOptionsList m)"
    using assms by (simp add: msg_heap_def)
  have x: "payload_ext m ?h1 = payload_ext m h"
    using FreeOptionList_keep[OF o, of "msg_addr m"] by (intro payload_ext_cong) simp_all
  have i1: "heap_inv ?h1 (insert (msg_addr m) (R \<union> payload_ext m ?h1))"
    using FreeOptionList_heap[OF o] x by simp
  obtain m' h' where f: "CoAP_free_MsgPayload m ?h1 = (m', h')" by (cases "CoAP_free_MsgPayload m ?h1")
  have "heap_inv h' (insert (msg_addr m) R)" "msg_addr m' = msg_addr m"
    using free_MsgPayload_heap[OF i1 _ _ f] assms x by (auto simp: msg_heap_def)
  then have "heap_inv (release1 (msg_addr m') h') (insert (msg_addr m) R - {msg_addr m})"
    using mem.rel_inv[of h' "insert (msg_addr m) R" "msg_addr m"] by simp
  then show ?thesis using f assms by (simp add: CoAP_free_Message_def msg_heap_def)
qed

lemma free_Message_None [simp]: "CoAP_free_Message None h = h"
  by (simp add: CoAP_free_Message_def)


subsection \<open>Buffers of new messages\<close>

text \<open>A buffer of a message with its payload behind the struct.\<close>

lemma bufferIsPartOfMsg_inside:
  assumes "msg_addr m = a" "k + 40 \<le> bsize (Some a) h" "0 \<le> k"
  shows "bufferIsPartOfMsg (a + sizeof_CoAP_Message) m h"
  using assms by (simp add: bufferIsPartOfMsg_def sizeof_CoAP_Message_def)

lemma payload_ext_inside:
  assumes "Payload m = None \<or> Payload m = Some (msg_addr m + sizeof_CoAP_Message)"
    "40 \<le> bsize (Some (msg_addr m)) h"
  shows "payload_ext m h = {}"
  using assms bufferIsPartOfMsg_inside[of m "msg_addr m" 0 h] by (auto simp: payload_ext_def)

lemma new_msg_heap:
  assumes g: "coap_mem_get (sizeof_CoAP_Message + k) h = (Some a, h')" and k: "0 \<le> k" "k \<le> 32000"
    and o: "opts_heap h R (pOptionsList m)" and m: "msg_addr m = a"
    and p: "Payload m = None \<or> Payload m = Some (a + sizeof_CoAP_Message)"
  shows "msg_heap h' R m" "40 + k \<le> bsize (Some a) h'"
proof -
  let ?L = "R \<union> opt_addr ` set (pOptionsList m)"
  have f: "fits (sizeof_CoAP_Message + k)" using k by (simp add: fits_def sizeof_CoAP_Message_def)
  have i: "heap_inv h ?L" using o by (simp add: opts_heap_def)
  have "heap_inv h' (insert a ?L)" "a \<notin> ?L" using mem.get_inv[OF g i f] mem.get_fresh[OF g i f] by auto
  moreover show b: "40 + k \<le> bsize (Some a) h'"
    using bget_bsize(1)[OF _ i f] g f by (simp add: sizeof_CoAP_Message_def)
  moreover have "payload_ext m h' = {}" using payload_ext_inside[of m h'] p m b k by simp
  ultimately show "msg_heap h' R m" using o m by (auto simp: msg_heap_def opts_heap_def)
qed

lemma CreateMessage_result:
  assumes "CoAP_CreateMessage T C mid cont clen maxs Tok h = (r, h')" "heap_inv h R" "unat maxs \<le> 32000"
    "unat clen \<le> unat maxs"
  shows "(r = None \<and> h' = h) \<or>
    (\<exists>m. r = Some m \<and> msg_heap h' R m \<and> Type m = T \<and> Code m = C \<and> MessageID m = mid \<and> Token64 m = Tok \<and>
       pOptionsList m = [] \<and> PayloadLength m = clen \<and> PayloadBufSize m = maxs \<and> Timestamp m = 0 \<and>
       40 + int (unat maxs) \<le> bsize (Some (msg_addr m)) h' \<and>
       (Payload m = (if maxs = 0 then None else Some (msg_addr m + sizeof_CoAP_Message))))"
proof (cases "coap_mem_get (sizeof_CoAP_Message + int (unat maxs)) h")
  case (Pair q h1)
  show ?thesis
  proof (cases q)
    case None
    then show ?thesis using assms(1) Pair mem.get_None[of _ h h1] by (auto simp: CoAP_CreateMessage_def)
  next
    case (Some a)
    have le: "\<not> maxs < clen" using assms(4) by (simp add: word_less_nat_alt)
    have k: "0 \<le> int (unat maxs)" "int (unat maxs) \<le> 32000" using assms(3) by linarith+
    note new = new_msg_heap[OF Pair[unfolded Some] k, of R]
    obtain m where m: "r = Some m" "h' = h1" "msg_addr m = a" "Type m = T" "Code m = C" "MessageID m = mid"
      "Token64 m = Tok" "pOptionsList m = []" "PayloadLength m = clen" "PayloadBufSize m = maxs"
      "Timestamp m = 0" "Payload m = (if maxs = 0 then None else Some (a + sizeof_CoAP_Message))"
      using assms(1) Pair Some le
      by (auto simp: CoAP_CreateMessage_def CoAP_InitToEmptyResetMsg_def Let_def split: option.splits if_splits)
    have "msg_heap h1 R m" "40 + int (unat maxs) \<le> bsize (Some a) h1"
      using new[of m] m assms(2,3) by auto
    then show ?thesis using m by auto
  qed
qed

subsection \<open>Parsing and the heap\<close>

text \<open>
  The outcome of a parse: a message that owns its buffers, or nothing with the heap as before; only
  running out of memory may lose buffers.
\<close>

definition parse_outcome ::
  "bget_state \<Rightarrow> addr set \<Rightarrow> u32 \<Rightarrow> CoAP_Result_t \<Rightarrow> CoAP_Message option \<Rightarrow> bool" where
  "parse_outcome h R now res r \<longleftrightarrow>
    (case r of
       None \<Rightarrow> res \<noteq> COAP_OK \<and> (heap_inv h R \<or> res = COAP_ERR_OUT_OF_MEMORY)
     | Some m \<Rightarrow> res = COAP_OK \<and> msg_heap h R m \<and> sorted (map Number (pOptionsList m)) \<and>
         list_all opt_wf (pOptionsList m) \<and> unat (PayloadLength m) \<le> MAX_PAYLOAD_SIZE \<and>
         PayloadBufSize m = PayloadLength m \<and> Timestamp m = now)"

lemma parse_copy_outcome:
  assumes "opts_heap (heap w) R (pOptionsList M)" "sorted (map Number (pOptionsList M))"
    "list_all opt_wf (pOptionsList M)" "unat (PayloadLength M) \<le> MAX_PAYLOAD_SIZE"
    "PayloadBufSize M = PayloadLength M" "Payload M = None"
    "parse_copy src k M w = (res, r, w')"
  shows "parse_outcome (heap w') R (rtc_1Hz w) res r \<and> w' = w\<lparr>heap := heap w'\<rparr>"
proof (cases "coap_mem_get (sizeof_CoAP_Message + int (unat (PayloadLength M))) (heap w)")
  case (Pair q h')
  show ?thesis
  proof (cases q)
    case None
    then have "h' = heap w" using Pair mem.get_None by blast
    then show ?thesis using Pair None assms(7) FreeOptionList_heap[OF assms(1)]
      by (auto simp: parse_copy_def parse_outcome_def)
  next
    case (Some a)
    have le: "0 \<le> int (unat (PayloadLength M))" "int (unat (PayloadLength M)) \<le> 32000"
      using assms(4) unfolding MAX_PAYLOAD_SIZE_def by linarith+
    note new = new_msg_heap[OF Pair[unfolded Some] le, of R]
    obtain m where m: "r = Some m" "res = COAP_OK" "w' = w\<lparr>heap := h'\<rparr>" "msg_addr m = a"
      "pOptionsList m = pOptionsList M" "PayloadLength m = PayloadLength M"
      "PayloadBufSize m = PayloadBufSize M" "Timestamp m = rtc_1Hz w"
      "Payload m = None \<or> Payload m = Some (a + sizeof_CoAP_Message)"
      using assms(6,7) Pair Some by (cases "PayloadLength M = 0") (auto simp: parse_copy_def Let_def)
    have "msg_heap h' R m" using new(1)[of m] m assms(1) by auto
    then show ?thesis using m assms by (auto simp: parse_outcome_def)
  qed
qed

lemma parse_rest_outcome:
  assumes "heap_inv (heap w) R" "unat (n - off) \<le> 65530"
    "pOptionsList M = []" "Payload M = None"
  shows "\<exists>res r w'. parse_rest src n off M w = Some (res, r, w') \<and>
    parse_outcome (heap w') R (rtc_1Hz w) res r \<and> w' = w\<lparr>heap := heap w'\<rparr>"
proof -
  obtain res pb opts h' where po: "parse_OptionsFromRaw (mem_at src (unat off)) (n - off) [] (heap w) =
      Some (res, pb, opts, h')" and ok: "loop_ok R res opts h'"
    using parse_OptionsFromRaw_robust_core[OF assms(2,1)] by blast
  have fr: "parse_outcome (CoAP_FreeOptionList opts h') R (rtc_1Hz w) res' None"
    if "res' \<noteq> COAP_OK" "res' = res \<or> res = COAP_OK" for res'
    using that ok FreeOptionList_heap[of h' R opts] by (auto simp: parse_outcome_def loop_ok_def)
  have copy: "\<exists>res r w'. parse_copy src k N (w\<lparr>heap := h'\<rparr>) = (res, r, w') \<and>
      parse_outcome (heap w') R (rtc_1Hz w) res r \<and> w' = w\<lparr>heap := heap w'\<rparr>"
    if "pOptionsList N = opts" "unat (PayloadLength N) \<le> MAX_PAYLOAD_SIZE"
      "PayloadBufSize N = PayloadLength N" "Payload N = None" "res = COAP_OK" for N k
  proof -
    obtain res r w' where p: "parse_copy src k N (w\<lparr>heap := h'\<rparr>) = (res, r, w')"
      by (cases "parse_copy src k N (w\<lparr>heap := h'\<rparr>)")
    show ?thesis using parse_copy_outcome[of "w\<lparr>heap := h'\<rparr>" R N src k res r w'] p that ok
      by (auto simp: loop_ok_def list_all_iff)
  qed
  show ?thesis
  proof (cases pb)
    case None
    then show ?thesis using po fr[of res] copy[of "M\<lparr>pOptionsList := opts, PayloadLength := 0, PayloadBufSize := 0\<rparr>" 0]
        assms(4) by (cases "res = COAP_OK") (auto simp: parse_rest_def)
  next
    case (Some k)
    let ?p = "n - of_nat (unat off + k)"
    show ?thesis
      using Some po fr[of res] fr[of COAP_PARSE_TOO_MUCH_PAYLOAD]
        copy[of "M\<lparr>pOptionsList := opts, PayloadLength := ?p, PayloadBufSize := ?p\<rparr>" "unat off + k"] assms(4)
      by (cases "res = COAP_OK"; cases "MAX_PAYLOAD_SIZE < unat ?p")
         (auto simp: parse_rest_def Let_def simp del: of_nat_add)
  qed
qed

lemma parse_heap:
  assumes inv: "heap_inv (heap w) R" and n: "unat n \<le> 65530"
    and tkl: "4 \<le> unat n \<Longrightarrow> 4 + unat (src 0 AND 15) \<le> unat n"
  shows "\<exists>res r w'. CoAP_ParseMessageFromDatagram src n w = Some (res, r, w') \<and>
    parse_outcome (heap w') R (rtc_1Hz w) res r \<and> w' = w\<lparr>heap := heap w'\<rparr>"
proof (cases "n < 4 \<or> drop_bit 6 (src 0) \<noteq> COAP_VERSION \<or> unat (src 0 AND 15) > 8 \<or> \<not> valid_code (src 1)")
  case True
  then show ?thesis using inv
    by (auto simp: CoAP_ParseMessageFromDatagram_def Let_def parse_outcome_def valid_code_def)
next
  case False
  let ?tk = "unat (src 0 AND 15)"
  have n4: "4 \<le> unat n" using False by (simp add: word_less_nat_alt)
  have uoff: "unat (4 + of_nat ?tk :: u16) = 4 + ?tk" using unat_add_nat[of 4 ?tk] False by simp
  have copy: "\<exists>res r w'. parse_copy src 0 (header_msg T C mid tok) w = (res, r, w') \<and>
      parse_outcome (heap w') R (rtc_1Hz w) res r \<and> w' = w\<lparr>heap := heap w'\<rparr>" for T C mid tok
  proof -
    obtain res r w' where p: "parse_copy src 0 (header_msg T C mid tok) w = (res, r, w')"
      by (cases "parse_copy src 0 (header_msg T C mid tok) w")
    show ?thesis using parse_copy_outcome[of w R "header_msg T C mid tok" src 0 res r w'] p inv by simp
  qed
  have "unat (n - (4 + of_nat ?tk)) = unat n - (4 + ?tk)"
    using tkl[OF n4] uoff by (simp only: unat_sub word_le_nat_alt)
  then have le: "unat (n - (4 + of_nat ?tk)) \<le> 65530" using n by linarith
  show ?thesis
    using parse_header[of n src w] False copy parse_rest_outcome[OF inv le] by auto
qed

subsection \<open>Sending\<close>

text \<open>
  \<open>same_live L h h'\<close>: the live buffers \<open>L\<close> of \<open>h\<close> are the live buffers of \<open>h'\<close>, with their sizes, and the
  pool is the same. It is what a transient buffer leaves behind.
\<close>

definition same_live :: "addr set \<Rightarrow> bget_state \<Rightarrow> bget_state \<Rightarrow> bool" where
  "same_live L h h' \<longleftrightarrow> heap_inv h L \<and> heap_inv h' L \<and> (\<forall>q \<in> L. bsize (Some q) h' = bsize (Some q) h) \<and>
     coap_mem_buf_lowEnd h' = coap_mem_buf_lowEnd h \<and> coap_mem_buf_highEnd h' = coap_mem_buf_highEnd h"

lemma same_live_refl: "heap_inv h L \<Longrightarrow> same_live L h h"
  by (simp add: same_live_def)

lemma same_live_trans: "same_live L h h' \<Longrightarrow> same_live L h' h'' \<Longrightarrow> same_live L h h''"
  by (simp add: same_live_def)

lemma bget_area:
  "coap_mem_get n h = (q, h') \<Longrightarrow> pMemArea h' = pMemArea h \<and> TotalBufBytes h' = TotalBufBytes h"
  by (auto simp: coap_mem_get_def bget_def bget_split_def bget_whole_def heap_ops
           split: option.splits if_splits)

lemma bget_ends:
  "coap_mem_get n h = (q, h') \<Longrightarrow> coap_mem_buf_lowEnd h' = coap_mem_buf_lowEnd h \<and>
     coap_mem_buf_highEnd h' = coap_mem_buf_highEnd h"
  using bget_area by (simp add: coap_mem_buf_lowEnd_def coap_mem_buf_highEnd_def)

lemma get_release_same:
  assumes "coap_mem_get n h = (Some p, h')" "heap_inv h L" "fits n"
  shows "same_live L h (release1 p h')"
proof -
  have i: "heap_inv h' (insert p L)" and f: "p \<notin> L"
    using mem.get_inv[OF assms] mem.get_fresh[OF assms] by auto
  have "bsize (Some q) (release1 p h') = bsize (Some q) h" if "q \<in> L" for q
    using brel_bsize[OF i, of p q] bget_bsize(2)[of n h p h' L] assms that f by auto
  then show ?thesis using mem.get_rel_inv[OF assms] bget_ends[OF assms(1)] assms(2)
    by (simp add: same_live_def)
qed

lemma same_live_msg:
  assumes "msg_heap h R m" "same_live (insert (msg_addr m) (R \<union> payload_ext m h) \<union> opt_addr ` set (pOptionsList m)) h h'"
  shows "msg_heap h' R m"
proof -
  have "payload_ext m h' = payload_ext m h"
    using assms(2) by (intro payload_ext_cong) (auto simp: same_live_def)
  then show ?thesis using assms by (auto simp: msg_heap_def opts_heap_def same_live_def)
qed

text \<open>The packet that goes out for a message, and the outcome of sending it.\<close>

definition packet_of :: "CoAP_Message \<Rightarrow> NetSocket \<Rightarrow> NetEp \<Rightarrow> NetPacket" where
  "packet_of m sock ep =
    \<lparr>pData = mem_of (fst (CoAP_BuildDatagram m)), pkt_size = of_nat (length (fst (CoAP_BuildDatagram m))),
     Sender = EpLocal sock, Receiver = ep,
     PktMetaInfo = \<lparr>MetaType = META_INFO_NONE, HopCount = 0, RSSI = 0\<rparr>\<rparr>"

definition sendable :: "CoAP_Message \<Rightarrow> bool" where
  "sendable m \<longleftrightarrow> list_all opt_wf (pOptionsList m) \<and> length (fst (CoAP_BuildDatagram m)) \<le> 32752"

lemma SendMsg_cases:
  assumes "sendable m" "heap_inv (heap w) L" "CoAP_SendMsg drv m ifID ep w = Some (res, m', w')"
  obtains (quiet) "res = COAP_NOT_FOUND \<or> res = COAP_ERR_OUT_OF_MEMORY" "m' = m" "w' = w"
  | (sent) i f h' where "RetrieveSocket2 ifID (SocketCtrl w) = Some i"
      "Tx (SocketMemory (SocketCtrl w) ! i) = Some f"
      "res = (if drv f ifID (packet_of m (SocketMemory (SocketCtrl w) ! i) ep) (sent w)
              then COAP_OK else COAP_ERR_NETWORK)"
      "m' = (snd (CoAP_BuildDatagram m))\<lparr>Timestamp := if res = COAP_OK then rtc_1Hz w else Timestamp m\<rparr>"
      "w' = w\<lparr>sent := sent w @ [(ifID, packet_of m (SocketMemory (SocketCtrl w) ! i) ep)], heap := h'\<rparr>"
      "same_live L (heap w) h'"
proof -
  let ?n = "CoAP_GetRawSizeOfMessage m" and ?D = "fst (CoAP_BuildDatagram m)"
  have len: "length ?D \<le> 32752" using assms(1) by (simp add: sendable_def)
  have raw: "?n = length ?D"
    using raw_size_built[of m] length_built_ge[of m] assms(1) by (simp add: sendable_def)
  have un: "unat (of_nat (length ?D) :: u16) = length ?D" using len by (intro unat_of_nat_u16) simp
  have ts: "Timestamp (snd (CoAP_BuildDatagram m)) = Timestamp m"
    by (simp add: CoAP_BuildDatagram_def Let_def)
  obtain i where i: "RetrieveSocket2 ifID (SocketCtrl w) = Some i"
    using assms(3) by (cases "RetrieveSocket2 ifID (SocketCtrl w)") (auto simp: CoAP_SendMsg_def)
  let ?s = "SocketMemory (SocketCtrl w) ! i"
  let ?ok = "\<lambda>f. drv f ifID (packet_of m ?s ep) (sent w)"
  show thesis
  proof (cases "Tx ?s")
    case None
    then show ?thesis using quiet assms(3) i by (simp add: CoAP_SendMsg_def)
  next
    case (Some f)
    have main: "thesis" if "coap_mem_release buf h1 = h2" "same_live L (heap w) h2"
      and "CoAP_SendMsg drv m ifID ep w = (let (bytes, Msg) = CoAP_BuildDatagram m;
             w2 = w\<lparr>heap := h1\<rparr>\<lparr>sent := sent w @ [(ifID, packet_of m ?s ep)], heap := coap_mem_release buf h1\<rparr>
           in if ?ok f then Some (COAP_OK, Msg\<lparr>Timestamp := rtc_1Hz w2\<rparr>, w2) else Some (COAP_ERR_NETWORK, Msg, w2))"
      for buf h1 h2
      using that assms(3) ts by (intro sent[OF i Some _ _ _ that(2)]) (auto simp: Let_def split: prod.splits if_splits)
    show ?thesis
    proof (cases "(of_nat (length ?D) :: u16) \<le> 16")
      case True
      show ?thesis
        by (rule main[of None "heap w" "heap w"])
           (use i Some True raw un assms(2) in
             \<open>auto simp: CoAP_SendMsg_def packet_of_def Let_def same_live_refl split: prod.split\<close>)
    next
      case False
      have f: "fits (int (length ?D))" using False len raw by (auto simp: fits_def word_le_nat_alt)
      show ?thesis
      proof (cases "coap_mem_get (int (length ?D)) (heap w)")
        case (Pair q h1)
        show ?thesis
        proof (cases q)
          case None
          then have "h1 = heap w" using Pair mem.get_None by blast
          then show ?thesis using quiet assms(3) i Some False raw un Pair None
            by (simp add: CoAP_SendMsg_def Let_def split: prod.splits)
        next
          case p: (Some p)
          show ?thesis
            by (rule main[of "Some p" h1 "release1 p h1"])
               (use i Some False raw un Pair p get_release_same[OF Pair[unfolded p] assms(2) f] in
                 \<open>auto simp: CoAP_SendMsg_def packet_of_def Let_def split: prod.split\<close>)
        qed
      qed
    qed
  qed
qed


lemma sendable_size:
  assumes "sendable m"
  shows "CoAP_GetRawSizeOfMessage m = length (fst (CoAP_BuildDatagram m))"
    and "unat (of_nat (length (fst (CoAP_BuildDatagram m))) :: u16) = length (fst (CoAP_BuildDatagram m))"
  using raw_size_built[of m] length_built_ge[of m] assms unat_of_nat_u16[of "length (fst (CoAP_BuildDatagram m))"]
  by (simp_all add: sendable_def)

lemma SendMsg_defined:
  assumes "sendable m"
  shows "CoAP_SendMsg drv m ifID ep w \<noteq> None \<longleftrightarrow> RetrieveSocket2 ifID (SocketCtrl w) \<noteq> None"
  using sendable_size[OF assms]
  by (auto simp: CoAP_SendMsg_def Let_def split: option.splits prod.splits)

text \<open>Short messages: no options and no payload.\<close>

lemma header_only_sendable: "pOptionsList m = [] \<Longrightarrow> PayloadLength m = 0 \<Longrightarrow> sendable m"
  using getTokenByteCount_le[of "Token64 m"]
  by (auto simp: sendable_def CoAP_BuildDatagram_def Let_def)

subsection \<open>Tokens on the wire\<close>

lemma read_token_bit:
  "k \<le> 8 \<Longrightarrow> bit (read_token src off k) j \<longleftrightarrow> j < 8 * k \<and> bit (src (off + j div 8)) (j mod 8)"
proof (induction k)
  case 0
  then show ?case by simp
next
  case (Suc k)
  have b: "bit (push_bit (8 * k) (ucast (src (off + k)) :: u64)) j \<longleftrightarrow>
      8 * k \<le> j \<and> j < 8 * Suc k \<and> bit (src (off + j div 8)) (j mod 8)"
  proof (cases "8 * k \<le> j \<and> j < 8 * Suc k")
    case True
    then have d: "j div 8 = k" and "j < 64" using Suc.prems by auto
    have "j mod 8 = j - 8 * k" using d by (simp add: minus_div_mult_eq_mod[symmetric] mult.commute)
    note d this \<open>j < 64\<close>
    then show ?thesis using True by (simp add: bit_simps less_imp_diff_less)
  next
    case False
    then show ?thesis by (auto simp: bit_simps dest: bit_imp_le_length)
  qed
  show ?case using Suc b by (auto simp: bit_or_iff)
qed

lemma token_bytes_read:
  assumes "k \<le> 8" "has_bytes src off bs" "length bs = k"
  shows "token_bytes (read_token src off k) k = bs"
proof (rule nth_equalityI)
  fix i assume "i < length (token_bytes (read_token src off k) k)"
  then have i: "i < k" by simp
  have m: "(0xff :: u8) = mask 8" by (simp add: mask_eq_exp_minus_1)
  have "bs ! i = src (off + i)" using assms i by (simp add: has_bytes_def)
  moreover have "(ucast (drop_bit (8 * i) (read_token src off k)) AND 0xff :: u8) = src (off + i)"
    unfolding m
  proof (rule bit_word_eqI)
    fix n assume "n < LENGTH(8)"
    then have "n < 8" "(8 * i + n) div 8 = i" "(8 * i + n) mod 8 = n" "8 * i + n < 8 * k" using i by auto
    then show "bit (ucast (drop_bit (8 * i) (read_token src off k)) AND mask 8 :: u8) n = bit (src (off + i)) n"
      using assms(1) by (simp add: bit_simps read_token_bit)
  qed
  ultimately show "token_bytes (read_token src off k) k ! i = bs ! i" using i by (simp add: token_bytes_nth)
qed (use assms in simp)

lemma read_token_bound:
  assumes "k \<le> 8"
  shows "unat (read_token src off k) < 2 ^ (8 * k)"
proof -
  have "take_bit (8 * k) (read_token src off k) = read_token src off k"
    using assms by (intro bit_word_eqI) (auto simp: bit_take_bit_iff read_token_bit)
  then have "unat (read_token src off k) = take_bit (8 * k) (unat (read_token src off k))"
    by (metis unsigned_take_bit_eq)
  then show ?thesis by (metis take_bit_nat_less_exp)
qed

lemma unat_drop_bit: "unat (drop_bit k (t :: u64)) = unat t div 2 ^ k"
  by (subst unat_drop_bit_eq) (rule drop_bit_eq_div)

lemma token_byte_zero:
  "unat t < 2 ^ (8 * n) \<Longrightarrow> n \<le> i \<Longrightarrow> (ucast (drop_bit (8 * i) (t :: u64)) AND 0xff :: u8) = 0"
proof -
  assume a: "unat t < 2 ^ (8 * n)" "n \<le> i"
  then have "(2 :: nat) ^ (8 * n) \<le> 2 ^ (8 * i)" by (intro power_increasing) auto
  then have "unat t div 2 ^ (8 * i) = 0" using a(1) by (intro div_less) linarith
  then have "unat (drop_bit (8 * i) t) = 0" by (simp add: unat_drop_bit)
  then show ?thesis by (simp add: unat_eq_0)
qed

lemma token_byte_nonzero:
  assumes "2 ^ (8 * i) \<le> unat t" "unat t < 2 ^ (8 * Suc i)"
  shows "(ucast (drop_bit (8 * i) (t :: u64)) AND 0xff :: u8) \<noteq> 0"
proof -
  have "unat (drop_bit (8 * i) t) = unat t div 2 ^ (8 * i)" by (rule unat_drop_bit)
  moreover have "0 < unat t div 2 ^ (8 * i)" using assms(1) by (simp add: div_greater_zero_iff)
  moreover have "unat t div 2 ^ (8 * i) < 256"
    using assms(2) by (simp add: less_mult_imp_div_less power_add mult.commute)
  ultimately have u: "0 < unat (drop_bit (8 * i) t)" "unat (drop_bit (8 * i) t) < 256" by auto
  then have "unat (ucast (drop_bit (8 * i) t) :: u8) = unat (drop_bit (8 * i) t)"
    by (simp add: unsigned_ucast_eq unsigned_take_bit_eq take_bit_nat_eq_self)
  moreover have "(x :: u8) AND 0xff = x" for x
  proof -
    have m: "(0xff :: u8) = mask 8" by (simp add: mask_eq_exp_minus_1)
    show ?thesis unfolding m by (rule bit_word_eqI) (simp add: bit_simps)
  qed
  ultimately show ?thesis using u(1) by (metis unsigned_0 less_irrefl)
qed

end
