(* ===== verification/Option_Types.thy ===== *)
theory Option_Types imports Message_Facts begin

section \<open>Option types (\<open>option-types/\<close>)\<close>

text \<open>
  The options with an integer or string meaning: Observe, Block1/Block2 with the blockwise payload
  function \<open>CoAP_SetPayload\<close>, ETag, Content-Format, Uri-Path and Uri-Query. A function that changes a
  message returns its result code, the message and the heap. Strings are their bytes without the
  terminating zero.
\<close>

definition append_msg_option ::
  "CoAP_Message \<Rightarrow> u16 \<Rightarrow> u8 list \<Rightarrow> u16 \<Rightarrow> bget_state \<Rightarrow> CoAP_Result_t \<times> CoAP_Message \<times> bget_state" where
  "append_msg_option msg num buf len h =
    (let (res, opts, h) = CoAP_AppendOptionToList (pOptionsList msg) num buf len h
     in (res, msg\<lparr>pOptionsList := opts\<rparr>, h))"

subsection \<open>Observe (\<open>coap_option_observe.c\<close>)\<close>

definition OBSERVE_OPT_REGISTER :: u32 where "OBSERVE_OPT_REGISTER = 0"
definition OBSERVE_OPT_DEREGISTER :: u32 where "OBSERVE_OPT_DEREGISTER = 1"

definition AddObserveOptionToMsg ::
  "CoAP_Message \<Rightarrow> u32 \<Rightarrow> bget_state \<Rightarrow> CoAP_Result_t \<times> CoAP_Message \<times> bget_state" where
  "AddObserveOptionToMsg msg val h =
    (if val > 0xffff then
       append_msg_option msg OPT_NUM_OBSERVE
         [ucast (drop_bit 16 val AND 0xff), ucast (drop_bit 8 val AND 0xff), ucast (val AND 0xff)] 3 h
     else if val > 0xff then
       append_msg_option msg OPT_NUM_OBSERVE [ucast (drop_bit 8 val AND 0xff), ucast (val AND 0xff)] 2 h
     else if val > 0 then append_msg_option msg OPT_NUM_OBSERVE [ucast (val AND 0xff)] 1 h
     else append_msg_option msg OPT_NUM_OBSERVE [] 0 h)"

definition RemoveObserveOptionFromMsg ::
  "CoAP_Message \<Rightarrow> bget_state \<Rightarrow> CoAP_Result_t \<times> CoAP_Message \<times> bget_state" where
  "RemoveObserveOptionFromMsg msg h =
    (case find (\<lambda>opt. Number opt = OPT_NUM_OBSERVE) (pOptionsList msg) of
       None \<Rightarrow> (COAP_NOT_FOUND, msg, h)
     | Some opt \<Rightarrow>
         (let (opts, h) = CoAP_RemoveOptionFromList (pOptionsList msg) (opt_addr opt) h
          in (COAP_OK, msg\<lparr>pOptionsList := opts\<rparr>, h)))"

definition UpdateObserveOptionInMsg ::
  "CoAP_Message \<Rightarrow> u32 \<Rightarrow> bget_state \<Rightarrow> CoAP_Result_t \<times> CoAP_Message \<times> bget_state" where
  "UpdateObserveOptionInMsg msg val h =
    (let (_, msg, h) = RemoveObserveOptionFromMsg msg h in AddObserveOptionToMsg msg val h)"

text \<open>The result code and the value left in \<open>*val\<close>.\<close>

definition observe_value :: "CoAP_option \<Rightarrow> CoAP_Result_t \<times> u32" where
  "observe_value opt =
    (let V = Value opt in
     if Length opt = 0 then (COAP_OK, 0)
     else if Length opt = 1 then (COAP_OK, ucast (V ! 0))
     else if Length opt = 2 then (COAP_OK, push_bit 8 (ucast (V ! 0)) OR ucast (V ! 1))
     else if Length opt = 3 then
       (COAP_OK, push_bit 16 (ucast (V ! 0)) OR push_bit 8 (ucast (V ! 1)) OR ucast (V ! 2))
     else (COAP_BAD_OPTION_VAL, 0))"

definition GetObserveOptionFromMsg :: "CoAP_Message \<Rightarrow> CoAP_Result_t \<times> u32" where
  "GetObserveOptionFromMsg msg =
    (case find (\<lambda>opt. Number opt = OPT_NUM_OBSERVE) (pOptionsList msg) of
       None \<Rightarrow> (COAP_NOT_FOUND, 0)
     | Some opt \<Rightarrow> observe_value opt)"

text \<open>Observers: an entry of a resource's list, with the address of its buffer.\<close>

record CoAP_Observer =
  obs_addr :: addr
  Ep :: NetEp
  IfID :: u8
  FailCount :: u8
  Token :: u64
  pOptList :: options

definition sizeof_CoAP_Observer :: int where
  "sizeof_CoAP_Observer = 48"

definition null_ep :: NetEp where
  "null_ep = \<lparr>NetType = IPV6, NetAddr = replicate 16 0, NetPort = 0\<rparr>"

definition CoAP_AllocNewObserver :: "bget_state \<Rightarrow> CoAP_Observer option \<times> bget_state" where
  "CoAP_AllocNewObserver h =
    (case coap_mem_get0 sizeof_CoAP_Observer h of
       (None, h) \<Rightarrow> (None, h)
     | (Some p, h) \<Rightarrow>
         (Some \<lparr>obs_addr = p, Ep = null_ep, IfID = 0, FailCount = 0, Token = 0, pOptList = []\<rparr>, h))"

definition CoAP_FreeObserver :: "CoAP_Observer \<Rightarrow> bget_state \<Rightarrow> bget_state" where
  "CoAP_FreeObserver pObserver h =
     coap_mem_release (Some (obs_addr pObserver)) (CoAP_FreeOptionList (pOptList pObserver) h)"

definition CoAP_AppendObserverToList ::
  "CoAP_Observer list \<Rightarrow> CoAP_Observer option \<Rightarrow> CoAP_Result_t \<times> CoAP_Observer list" where
  "CoAP_AppendObserverToList pListStart pObserverToAdd =
    (case pObserverToAdd of
       None \<Rightarrow> (COAP_ERR_ARGUMENT, pListStart)
     | Some ob \<Rightarrow> (if pListStart = [] then (COAP_OK, [ob]) else (COAP_OK, pListStart @ [ob])))"

fun CoAP_UnlinkObserverFromList ::
  "CoAP_Observer list \<Rightarrow> addr \<Rightarrow> bool \<Rightarrow> bget_state \<Rightarrow> CoAP_Observer list \<times> bget_state" where
  "CoAP_UnlinkObserverFromList [] p FreeUnlinked h = ([], h)"
| "CoAP_UnlinkObserverFromList (ob # obs) p FreeUnlinked h =
    (if obs_addr ob = p then (obs, if FreeUnlinked then CoAP_FreeObserver ob h else h)
     else let (obs', h') = CoAP_UnlinkObserverFromList obs p FreeUnlinked h in (ob # obs', h'))"

subsection \<open>Block1 and Block2 (\<open>coap_option_blockwise.c\<close>)\<close>

text \<open>The enums of block types and sizes are kept as numbers, since the size is computed.\<close>

definition BLOCK_1 :: u16 where "BLOCK_1 = 27"
definition BLOCK_2 :: u16 where "BLOCK_2 = 23"
definition BLOCK_SIZE_16 :: u32 where "BLOCK_SIZE_16 = 16"

record CoAP_blockwise_option =
  BlkType :: u16
  BlockSize :: u32
  MoreFlag :: bool
  BlockNum :: u32

text \<open>The search for the highest bit of the size divided by 16, from 6 downwards.\<close>

definition szx_of :: "u8 \<Rightarrow> u32" where
  "szx_of szxCalc =
    (case find (\<lambda>i. szxCalc AND push_bit i 1 \<noteq> 0) [6, 5, 4, 3, 2, 1, 0] of None \<Rightarrow> 0 | Some i \<Rightarrow> of_nat i)"

definition block_value :: "CoAP_blockwise_option \<Rightarrow> u32" where
  "block_value blk =
     szx_of (ucast (drop_bit 4 (BlockSize blk))) OR (if MoreFlag blk then 8 else 0)
       OR push_bit 4 (BlockNum blk)"

definition AddBlkOptionToMsg ::
  "CoAP_Message \<Rightarrow> CoAP_blockwise_option \<Rightarrow> bget_state \<Rightarrow> CoAP_Result_t \<times> CoAP_Message \<times> bget_state" where
  "AddBlkOptionToMsg msg blk h =
    (if BlkType blk \<noteq> BLOCK_1 \<and> BlkType blk \<noteq> BLOCK_2 then (COAP_ERR_WRONG_OPTION, msg, h)
     else if BlockNum blk = 0 \<and> BlockSize blk = BLOCK_SIZE_16 \<and> MoreFlag blk = False
     then append_msg_option msg (BlkType blk) [] 0 h
     else
       let v = block_value blk in
       if BlockNum blk < 16 then append_msg_option msg (BlkType blk) [ucast v] 1 h
       else if BlockNum blk < 4096 then
         append_msg_option msg (BlkType blk) [ucast (drop_bit 8 v), ucast (v AND 0xff)] 2 h
       else
         append_msg_option msg (BlkType blk)
           [ucast (drop_bit 16 v), ucast (drop_bit 8 v), ucast (v AND 0xff)] 3 h)"

definition decode_block :: "u16 \<Rightarrow> CoAP_option \<Rightarrow> CoAP_blockwise_option \<Rightarrow> CoAP_Result_t \<times> CoAP_blockwise_option" where
  "decode_block T opt blk =
    (let blk = blk\<lparr>BlkType := T\<rparr>; V = Value opt in
     if Length opt > 3 then (COAP_PARSE_MESSAGE_FORMAT_ERROR, blk)
     else if Length opt = 0 then (COAP_OK, blk\<lparr>BlockNum := 0, BlockSize := BLOCK_SIZE_16, MoreFlag := False\<rparr>)
     else
       let v = (if Length opt = 1 then ucast (V ! 0)
                else if Length opt = 2 then push_bit 8 (ucast (V ! 0)) OR ucast (V ! 1)
                else push_bit 16 (ucast (V ! 0)) OR push_bit 8 (ucast (V ! 1)) OR ucast (V ! 2)) :: u32;
           SZX = v AND 7
       in if SZX = 7 then (COAP_PARSE_MESSAGE_FORMAT_ERROR, blk)
          else (COAP_OK, blk\<lparr>BlockSize := push_bit (unat SZX + 4) 1, MoreFlag := (v AND 8 \<noteq> 0),
                             BlockNum := drop_bit 4 v\<rparr>))"

definition GetBlockOptionFromMsg ::
  "CoAP_Message \<Rightarrow> u16 \<Rightarrow> CoAP_blockwise_option \<Rightarrow> CoAP_Result_t \<times> CoAP_blockwise_option" where
  "GetBlockOptionFromMsg msg T blk =
    (case find (\<lambda>opt. Number opt = T) (pOptionsList msg) of
       None \<Rightarrow> (COAP_ERR_NOT_FOUND, blk)
     | Some opt \<Rightarrow> decode_block T opt blk)"

definition GetBlock1OptionFromMsg ::
  "CoAP_Message \<Rightarrow> CoAP_blockwise_option \<Rightarrow> CoAP_Result_t \<times> CoAP_blockwise_option" where
  "GetBlock1OptionFromMsg msg blk = GetBlockOptionFromMsg msg BLOCK_1 blk"

definition GetBlock2OptionFromMsg ::
  "CoAP_Message \<Rightarrow> CoAP_blockwise_option \<Rightarrow> CoAP_Result_t \<times> CoAP_blockwise_option" where
  "GetBlock2OptionFromMsg msg blk = GetBlockOptionFromMsg msg BLOCK_2 blk"

lemma remove_option_length:
  "find P opts = Some opt \<Longrightarrow> length (fst (CoAP_RemoveOptionFromList opts (opt_addr opt) h)) < length opts"
  by (induction opts arbitrary: h) (auto simp: split_beta split: if_splits)

text \<open>The search restarts at the head after every removal.\<close>

function remove_number_loop :: "u16 \<Rightarrow> bool \<Rightarrow> options \<Rightarrow> bget_state \<Rightarrow> bool \<times> options \<times> bget_state" where
  "remove_number_loop T found opts h =
    (case find (\<lambda>opt. Number opt = T) opts of
       None \<Rightarrow> (found, opts, h)
     | Some opt \<Rightarrow>
         remove_number_loop T True (fst (CoAP_RemoveOptionFromList opts (opt_addr opt) h))
           (snd (CoAP_RemoveOptionFromList opts (opt_addr opt) h)))"
  by pat_completeness auto
termination
  by (relation "measure (\<lambda>(T, found, opts, h). length opts)") (auto simp: remove_option_length split_beta)

declare remove_number_loop.simps [simp del]

definition RemoveAllBlockOptionsFromMsg ::
  "CoAP_Message \<Rightarrow> u16 \<Rightarrow> bget_state \<Rightarrow> CoAP_Result_t \<times> CoAP_Message \<times> bget_state" where
  "RemoveAllBlockOptionsFromMsg msg T h =
    (let (found, opts, h) = remove_number_loop T False (pOptionsList msg) h
     in (if found then COAP_OK else COAP_NOT_FOUND, msg\<lparr>pOptionsList := opts\<rparr>, h))"

text \<open>
  \<open>put_payload\<close> is the code at the end of both branches of \<open>CoAP_SetPayload\<close>: the payload starts \<open>off\<close>
  bytes behind the given pointer \<open>pp\<close> (whose memory is \<open>data\<close>). A failed request for a bigger buffer
  is not checked before the copy.
\<close>

definition put_payload ::
  "CoAP_Message \<Rightarrow> addr \<Rightarrow> memory \<Rightarrow> nat \<Rightarrow> nat \<Rightarrow> bool \<Rightarrow> bget_state \<Rightarrow> (CoAP_Message \<times> bget_state) option" where
  "put_payload resp pp data off BytesToSend payloadIsVolatile h =
    (if payloadIsVolatile then
       (if unat (PayloadBufSize resp) < BytesToSend then
          let (resp, h) = CoAP_free_MsgPayload resp h
          in (case coap_mem_get (int BytesToSend) h of
                (None, h) \<Rightarrow> None
              | (Some p, h) \<Rightarrow>
                  Some (resp\<lparr>Payload := Some p, PayloadBufSize := of_nat BytesToSend,
                             PayloadData := memcpy (\<lambda>_. 0) (mem_at data off) BytesToSend\<rparr>, h))
        else Some (resp\<lparr>PayloadData := memcpy (PayloadData resp) (mem_at data off) BytesToSend,
                        PayloadBufSize := of_nat BytesToSend\<rparr>, h))
     else Some (resp\<lparr>Payload := Some (pp + int off), PayloadData := mem_at data off,
                     PayloadBufSize := 0\<rparr>, h))"

definition block_not_existing :: "u8 list" where
  "block_not_existing = [98, 108, 111, 99, 107, 32, 110, 111, 116, 32, 101, 120, 105, 115, 116, 105, 110, 103]"

definition CoAP_SetPayload ::
  "CoAP_Message option \<Rightarrow> CoAP_Message \<Rightarrow> addr \<Rightarrow> memory \<Rightarrow> u16 \<Rightarrow> bool \<Rightarrow> bget_state \<Rightarrow>
     (CoAP_Result_t \<times> CoAP_Message \<times> bget_state) option" where
  "CoAP_SetPayload req resp pp data payloadTotalSize payloadIsVolatile h =
    (let total_n = unat payloadTotalSize;
         B2opt = \<lparr>BlkType = BLOCK_2, BlockSize = 0, MoreFlag = False, BlockNum = 0\<rparr>;
         (found, B2opt) = (case req of
             None \<Rightarrow> (COAP_NOT_FOUND, B2opt)
           | Some r \<Rightarrow> GetBlock2OptionFromMsg r B2opt)
     in if payloadTotalSize = 0 then Some (COAP_OK, resp\<lparr>PayloadLength := 0\<rparr>, h)
        else if found = COAP_OK then
          let B2opt = (if unat (BlockSize B2opt) > MAX_PAYLOAD_SIZE
                       then B2opt\<lparr>BlockSize := of_nat MAX_PAYLOAD_SIZE\<rparr> else B2opt);
              off = BlockSize B2opt * BlockNum B2opt;
              TotalBytesLeft = int total_n - sint off
          in if TotalBytesLeft \<le> 0 then
               (case CoAP_addTextPayload resp block_not_existing h of
                  None \<Rightarrow> None
                | Some (_, resp, h) \<Rightarrow> Some (COAP_ERR_WRONG_OPTION, resp\<lparr>Code := RESP_BAD_OPTION_4_02\<rparr>, h))
             else
               let (BytesToSend, B2opt) =
                     (if TotalBytesLeft > int (unat (BlockSize B2opt))
                      then (unat (BlockSize B2opt), B2opt\<lparr>MoreFlag := True\<rparr>)
                      else (nat TotalBytesLeft, B2opt));
                   (_, resp, h) = RemoveAllBlockOptionsFromMsg resp BLOCK_2 h;
                   (_, resp, h) = AddBlkOptionToMsg resp B2opt h
               in map_option (\<lambda>(resp, h). (COAP_OK, resp\<lparr>PayloadLength := of_nat BytesToSend\<rparr>, h))
                    (if Some pp = Payload resp
                     then Some (resp\<lparr>PayloadData := memcpy (PayloadData resp)
                                       (mem_at (PayloadData resp) (unat off)) BytesToSend\<rparr>, h)
                     else put_payload resp pp data (unat off) BytesToSend payloadIsVolatile h)
        else
          let (BytesToSend, resp, h) =
                (if total_n > MAX_PAYLOAD_SIZE
                 then let (_, resp, h) = AddBlkOptionToMsg resp
                            (B2opt\<lparr>BlockSize := of_nat MAX_PAYLOAD_SIZE, BlockNum := 0, MoreFlag := True\<rparr>) h
                      in (MAX_PAYLOAD_SIZE, resp, h)
                 else (total_n, resp, h))
          in map_option (\<lambda>(resp, h). (COAP_OK, resp\<lparr>PayloadLength := of_nat BytesToSend\<rparr>, h))
               (if Some pp \<noteq> Payload resp then put_payload resp pp data 0 BytesToSend payloadIsVolatile h
                else Some (resp, h)))"

subsection \<open>ETag and Content-Format (\<open>coap_option_ETag.c\<close>, \<open>coap_option_cf.c\<close>)\<close>

text \<open>The hash over the data is computed but the constant bytes 1 to 4 are what is added.\<close>

definition AddETagOptionToMsg ::
  "CoAP_Message \<Rightarrow> memory \<Rightarrow> u32 \<Rightarrow> bget_state \<Rightarrow> CoAP_Result_t \<times> CoAP_Message \<times> bget_state" where
  "AddETagOptionToMsg msg data n h = append_msg_option msg OPT_NUM_ETAG [1, 2, 3, 4] 4 h"

text \<open>The result code, the bytes copied to \<open>val\<close> and the length.\<close>

definition GetETagOptionFromMsg :: "CoAP_Message \<Rightarrow> CoAP_Result_t \<times> u8 list \<times> u8" where
  "GetETagOptionFromMsg msg =
    (case find (\<lambda>opt. Number opt = OPT_NUM_ETAG) (pOptionsList msg) of
       None \<Rightarrow> (COAP_NOT_FOUND, [0], 0)
     | Some opt \<Rightarrow>
         if Length opt = 0 \<or> Length opt > 8 then (COAP_BAD_OPTION_LEN, [0], 0)
         else (COAP_OK, map (\<lambda>i. Value opt ! i) [0..<unat (Length opt)], ucast (Length opt)))"

text \<open>The loop stops when no higher byte is left, after eight bytes at the latest.\<close>

fun etag_bytes :: "nat \<Rightarrow> u64 \<Rightarrow> u8 list" where
  "etag_bytes 0 val = []"
| "etag_bytes (Suc n) val =
    ucast (val AND 0xff) # (if drop_bit 8 val = 0 then [] else etag_bytes n (drop_bit 8 val))"

definition Add64BitETagOptionToMsg ::
  "CoAP_Message \<Rightarrow> u64 \<Rightarrow> bget_state \<Rightarrow> CoAP_Result_t \<times> CoAP_Message \<times> bget_state" where
  "Add64BitETagOptionToMsg msg val h =
    (let wBuf = etag_bytes 8 val in append_msg_option msg OPT_NUM_ETAG wBuf (of_nat (length wBuf)) h)"

definition Get64BitETagOptionFromMsg :: "CoAP_Message \<Rightarrow> CoAP_Result_t \<times> u64" where
  "Get64BitETagOptionFromMsg msg =
    (case GetETagOptionFromMsg msg of
       (res, wBuf, pLen) \<Rightarrow>
         if res \<noteq> COAP_OK then (res, 0)
         else (COAP_OK, read_token (mem_of wBuf) 0 (unat pLen)))"

text \<open>The result of the append is ignored.\<close>

definition AddCfOptionToMsg ::
  "CoAP_Message \<Rightarrow> u16 \<Rightarrow> bget_state \<Rightarrow> CoAP_Result_t \<times> CoAP_Message \<times> bget_state" where
  "AddCfOptionToMsg msg cf h =
    (let (_, msg, h) =
           (if cf = 0 then append_msg_option msg OPT_NUM_CONTENT_FORMAT [] 0 h
            else if cf \<le> 0xff then append_msg_option msg OPT_NUM_CONTENT_FORMAT [ucast cf] 1 h
            else append_msg_option msg OPT_NUM_CONTENT_FORMAT
                   [ucast (cf AND 0xff), ucast (drop_bit 8 cf)] 2 h)
     in (COAP_OK, msg, h))"

subsection \<open>Uri-Path and Uri-Query (\<open>coap_option_uri.c\<close>)\<close>

text \<open>
  The scanning loops keep the start of the current part and its length \<open>cnt\<close>; here \<open>part\<close> is that
  part. The results of the appends are ignored. The delimiters are \<open>/\<close> (47), space (32), \<open>?\<close> (63) and
  \<open>&\<close> (38).
\<close>

definition append_part :: "u16 \<Rightarrow> u8 list \<Rightarrow> options \<Rightarrow> bget_state \<Rightarrow> options \<times> bget_state" where
  "append_part num part opts h =
     snd (CoAP_AppendOptionToList opts num part (of_nat (length part)) h)"

fun ParseUriQueryFromStringToOption ::
  "u8 list \<Rightarrow> u8 list \<Rightarrow> options \<Rightarrow> bget_state \<Rightarrow> options \<times> bget_state" where
  "ParseUriQueryFromStringToOption part [] opts h =
    (if part \<noteq> [] then append_part OPT_NUM_URI_QUERY part opts h else (opts, h))"
| "ParseUriQueryFromStringToOption part (c # cs) opts h =
    (if c = 38 then
       (if part = [] then ParseUriQueryFromStringToOption [] cs opts h
        else let (opts, h) = append_part OPT_NUM_URI_QUERY part opts h
             in ParseUriQueryFromStringToOption [] cs opts h)
     else ParseUriQueryFromStringToOption (part @ [c]) cs opts h)"

fun parse_uri_path :: "u8 list \<Rightarrow> u8 list \<Rightarrow> options \<Rightarrow> bget_state \<Rightarrow> options \<times> bget_state" where
  "parse_uri_path part [] opts h =
    (if part \<noteq> [] then append_part OPT_NUM_URI_PATH part opts h else (opts, h))"
| "parse_uri_path part (c # cs) opts h =
    (if c = 47 \<or> c = 32 \<or> c = 63 then
       (if part = [] then
          (if c = 63 then ParseUriQueryFromStringToOption [] cs opts h
           else parse_uri_path [] cs opts h)
        else
          let (opts, h) = append_part OPT_NUM_URI_PATH part opts h
          in if c = 63 then ParseUriQueryFromStringToOption [] cs opts h
             else parse_uri_path [] cs opts h)
     else parse_uri_path (part @ [c]) cs opts h)"

definition CoAP_AppendUriOptionsFromString ::
  "options \<Rightarrow> u8 list option \<Rightarrow> bget_state \<Rightarrow> CoAP_Result_t \<times> options \<times> bget_state" where
  "CoAP_AppendUriOptionsFromString opts UriStr h =
    (case UriStr of
       None \<Rightarrow> (COAP_ERR_ARGUMENT, opts, h)
     | Some s \<Rightarrow> (let (opts, h) = parse_uri_path [] s opts h in (COAP_OK, opts, h)))"

definition CoAP_AddUriOptionsToMsgFromString ::
  "CoAP_Message \<Rightarrow> u8 list option \<Rightarrow> bget_state \<Rightarrow> CoAP_Result_t \<times> CoAP_Message \<times> bget_state" where
  "CoAP_AddUriOptionsToMsgFromString msg UriStr h =
    (let (res, opts, h) = CoAP_AppendUriOptionsFromString (pOptionsList msg) UriStr h
     in (res, msg\<lparr>pOptionsList := opts\<rparr>, h))"

definition head_option :: "options \<Rightarrow> CoAP_option option" where
  "head_option opts = (case opts of [] \<Rightarrow> None | opt # _ \<Rightarrow> Some opt)"

definition to_path :: "options \<Rightarrow> options" where
  "to_path opts = dropWhile (\<lambda>opt. Number opt \<noteq> OPT_NUM_URI_PATH) opts"

lemma to_path_length: "length (to_path opts) \<le> length opts"
  by (simp add: to_path_def length_dropWhile_le)

function CoAP_UriOptionsAreEqual :: "options \<Rightarrow> options \<Rightarrow> bool" where
  "CoAP_UriOptionsAreEqual A B =
    (if A = [] \<and> B = [] then True
     else if \<not> CoAP_OptionsAreEqual (head_option (to_path A)) (head_option (to_path B)) then False
     else CoAP_UriOptionsAreEqual (tl (to_path A)) (tl (to_path B)))"
  by pat_completeness auto
termination
proof (relation "measure (\<lambda>(A, B). length A + length B)")
  fix A B :: options
  assume "\<not> (A = [] \<and> B = [])"
  then show "((tl (to_path A), tl (to_path B)), A, B) \<in> measure (\<lambda>(A, B). length A + length B)"
    using to_path_length[of A] to_path_length[of B] by (cases A; cases B) auto
qed simp

declare CoAP_UriOptionsAreEqual.simps [simp del]

text \<open>The value behind a prefix, and the length given back, which is truncated to a byte.\<close>

definition CoAP_GetUriQueryVal :: "CoAP_option option \<Rightarrow> u8 list \<Rightarrow> (u8 list \<times> u8) option" where
  "CoAP_GetUriQueryVal pUriOpt prefixStr =
    (case pUriOpt of
       None \<Rightarrow> None
     | Some opt \<Rightarrow>
         if Number opt \<noteq> OPT_NUM_URI_QUERY then None
         else if Length opt = 0 \<or> Length opt > 255 then None
         else if length prefixStr \<ge> unat (Length opt) then None
         else if list_ex (\<lambda>i. Value opt ! i \<noteq> prefixStr ! i) [0..<length prefixStr] then None
         else Some (drop (length prefixStr) (Value opt), of_nat (unat (Length opt) - length prefixStr)))"

fun find_match :: "nat \<Rightarrow> u8 list \<Rightarrow> u8 \<Rightarrow> u8 list list \<Rightarrow> nat" where
  "find_match i v n [] = 0"
| "find_match i v n (s # ss) =
    (if length s = unat n \<and> list_all (\<lambda>j. s ! j = v ! j) [0..<unat n] then i
     else find_match (Suc i) v n ss)"

definition CoAP_FindUriQueryVal :: "CoAP_option option \<Rightarrow> u8 list \<Rightarrow> u8 list list \<Rightarrow> nat" where
  "CoAP_FindUriQueryVal pUriOpt prefixStr strs =
    (case CoAP_GetUriQueryVal pUriOpt prefixStr of
       None \<Rightarrow> 0
     | Some (v, n) \<Rightarrow> find_match 1 v n strs)"

end
