(* ===== verification/Message_Props.thy ===== *)
theory Message_Props imports Message_Facts begin

section \<open>Properties of the message layer\<close>

text \<open>
  The properties of \<open>coap_message.c\<close>, each a few steps over the facts of \<open>Message_Facts\<close>, with the
  concrete machine and messages their instances use.
\<close>

definition demo_ep :: "u8 \<Rightarrow> NetEp" where
  "demo_ep n = \<lparr>NetType = IPV4, NetAddr = [10, 0, 0, n] @ replicate 12 0, NetPort = 5683\<rparr>"

definition demo_socket :: NetSocket where
  "demo_socket = \<lparr>Handle = 7, sock_ifID = 1, EpLocal = demo_ep 1, EpRemote = demo_ep 0, RxCB = None,
     Tx = Some 1, Alive = True\<rparr>"

definition demo_hal :: hal where
  "demo_hal = \<lparr>heap = demo_heap, rtc_1Hz = 100,
     SocketCtrl = \<lparr>SocketMemory = demo_socket # replicate 4 (demo_socket\<lparr>Alive := False\<rparr>), initDone = True\<rparr>,
     sent = [], lastMId = 0, lastToken = 0xfa\<rparr>"

definition demo_msg :: CoAP_Message where
  "demo_msg = \<lparr>msg_addr = 9000, Timestamp = 0, Type = CON, Code = REQ_GET, MessageID = 0x1234, PayloadLength = 2,
     PayloadBufSize = 2, Token64 = 0x0102, pOptionsList = demo_options, Payload = Some 9040,
     PayloadData = mem_of [104, 105]\<rparr>"

lemma demo_options_packed: "pack_options_loop 0 demo_options = [178, 97, 98, 1, 99, 224, 0, 70]"
  by (simp add: demo_options_def pack_option_def opt_nibble_def opt_ext_def option_numbers Let_def)

lemma demo_options_packable: "packable 0 demo_options" "demo_options \<noteq> []" "list_all opt_wf demo_options"
  by (simp_all add: packable_def demo_options_def opt_wf_def option_numbers MAX_OPTION_VALUE_SIZE_def)

lemma demo_datagram:
  "fst (CoAP_BuildDatagram demo_msg) =
     [0x42, 1, 0x12, 0x34, 2, 1, 178, 97, 98, 1, 99, 224, 0, 70, 255, 104, 105]"
  by (simp add: CoAP_BuildDatagram_def demo_msg_def demo_options_packable(2) pack_OptionsFromList_def
      demo_options_packed getTokenByteCount_def token_bytes_def message_codes COAP_VERSION_def read_bytes_def
      mem_of_def upt_rec)

lemma demo_wire_msg: "wire_msg demo_msg"
  unfolding wire_msg_def demo_datagram
  by (simp add: valid_code_def demo_msg_def message_codes demo_options_packable MAX_PAYLOAD_SIZE_def)

text \<open>
  C1: building and parsing are inverse. Every message with a non-empty valid code, ordered options
  within their limits, at least one option when it has a payload, and a payload of at most 256 bytes
  comes back from its own datagram with the same type, code, message id, token, options and payload
  and with the time of arrival. The parser can only run out of memory when no free block has room for
  the message and its options.
\<close>

theorem build_parse_roundtrip:
  assumes "wire_msg m" "heap_inv (heap w) L" "has_bytes src 0 (fst (CoAP_BuildDatagram m))"
    and "unat n = length (fst (CoAP_BuildDatagram m))"
  shows "\<exists>res r w'. CoAP_ParseMessageFromDatagram src n w = Some (res, r, w') \<and>
    (res = COAP_ERR_OUT_OF_MEMORY \<and> r = None \<and> \<not> room (heap w) (msg_room m) \<or>
     res = COAP_OK \<and> (\<exists>m'. r = Some m' \<and> same_message m m' \<and> Timestamp m' = rtc_1Hz w))"
  using assms(1,3,4,2) by (rule build_parse)

theorem build_parse_roundtrip_witness:
  "\<exists>m' w'. CoAP_ParseMessageFromDatagram
      (mem_of [0x42, 1, 0x12, 0x34, 2, 1, 178, 97, 98, 1, 99, 224, 0, 70, 255, 104, 105]) 17 demo_hal =
      Some (COAP_OK, Some m', w') \<and> same_message demo_msg m' \<and> Timestamp m' = 100"
proof -
  have c: "rtc_1Hz demo_hal = 100" "heap demo_hal = demo_heap" by (simp_all add: demo_hal_def)
  have "heap_inv (heap demo_hal) {}" using c(2) demo_heap_inv by simp
  note rt = build_parse_roundtrip[OF demo_wire_msg this, unfolded demo_datagram, OF has_bytes_mem_of, of 17]
  have "msg_room demo_msg = 142"
    by (simp add: msg_room_def demo_msg_def demo_options_def option_request_def sizeof_option_def)
  then have "room (heap demo_hal) (msg_room demo_msg)" using room_mono[OF demo_heap_room] c(2) by simp
  then show ?thesis using rt c by auto
qed

text \<open>
  C15: a message that carries a payload but no option is built into a datagram that the stack's own
  parser refuses: the options parser takes a marker in the first place for a format error.
\<close>

theorem payload_without_options_refused:
  assumes "Code m \<noteq> EMPTY" "valid_code (Code m)" "pOptionsList m = []" "PayloadLength m \<noteq> 0"
    and "has_bytes src 0 (fst (CoAP_BuildDatagram m))" "unat n = length (fst (CoAP_BuildDatagram m))"
  shows "CoAP_ParseMessageFromDatagram src n w = Some (COAP_PARSE_MESSAGE_FORMAT_ERROR, None, w)"
proof -
  note pb = parse_built[OF assms(1,2,5,6)]
  let ?off = "4 + of_nat (getTokenByteCount (Token64 m)) :: u16"
  have "src (unat ?off) = 0xff" using pb(2,4) assms(3,4) by (simp add: payload_tail_def)
  moreover have "n - ?off \<noteq> 0" using pb(2,3) assms(4) by (auto simp: payload_tail_def)
  ultimately have "parse_rest src n ?off M w = Some (COAP_PARSE_MESSAGE_FORMAT_ERROR, None, w)" for M
    by (simp add: parse_rest_def parse_OptionsFromRaw_def mem_at_def CoAP_FreeOptionList_def)
  then show ?thesis using pb(1)[of w] assms(4) by simp
qed

theorem payload_without_options_refused_witness:
  "CoAP_ParseMessageFromDatagram (mem_of [0x42, 1, 0x12, 0x34, 2, 1, 255, 104, 105]) 9 demo_hal =
     Some (COAP_PARSE_MESSAGE_FORMAT_ERROR, None, demo_hal)"
proof -
  let ?m = "demo_msg\<lparr>pOptionsList := []\<rparr>"
  have d: "fst (CoAP_BuildDatagram ?m) = [0x42, 1, 0x12, 0x34, 2, 1, 255, 104, 105]"
    by (simp add: CoAP_BuildDatagram_def demo_msg_def getTokenByteCount_def token_bytes_def message_codes
        COAP_VERSION_def read_bytes_def mem_of_def upt_rec)
  have "has_bytes (mem_of [0x42, 1, 0x12, 0x34, 2, 1, 255, 104, 105]) 0 (fst (CoAP_BuildDatagram ?m))"
    unfolding d by (rule has_bytes_mem_of)
  moreover have "unat (9 :: u16) = length (fst (CoAP_BuildDatagram ?m))" unfolding d by simp
  moreover have "Code ?m \<noteq> EMPTY" "valid_code (Code ?m)" "pOptionsList ?m = []" "PayloadLength ?m \<noteq> 0"
    by (simp_all add: demo_msg_def message_codes valid_code_def)
  ultimately show ?thesis by (intro payload_without_options_refused)
qed

text \<open>
  C11: parsing is total, memory safe in its bookkeeping and loses nothing. For every datagram whose
  token is complete (whatever follows), the parser returns; on success the message owns its own buffer
  and one buffer per option, its options are ordered, its payload is at most 256 bytes and it carries
  the time of arrival; on failure the live buffers are those from before, except that running out of
  memory may leave options allocated. Nothing but the heap changes.
\<close>

theorem parse_total_and_owned:
  assumes "heap_inv (heap w) R" "unat n \<le> 65530" "4 \<le> unat n \<longrightarrow> 4 + unat (src 0 AND 15) \<le> unat n"
  shows "\<exists>res r w'. CoAP_ParseMessageFromDatagram src n w = Some (res, r, w') \<and> w' = w\<lparr>heap := heap w'\<rparr> \<and>
    (case r of
       None \<Rightarrow> res \<noteq> COAP_OK \<and> (heap_inv (heap w') R \<or> res = COAP_ERR_OUT_OF_MEMORY)
     | Some m \<Rightarrow> res = COAP_OK \<and> msg_heap (heap w') R m \<and> sorted (map Number (pOptionsList m)) \<and>
         unat (PayloadLength m) \<le> 256 \<and> Timestamp m = rtc_1Hz w)"
  using parse_heap[OF assms(1,2), of src] assms(3)
  by (fastforce simp: parse_outcome_def MAX_PAYLOAD_SIZE_def split: option.splits)

theorem parse_total_and_owned_witness:
  "\<exists>res r w'. CoAP_ParseMessageFromDatagram (mem_of [0x40, 0, 0, 1]) 4 demo_hal = Some (res, r, w') \<and>
     w' = demo_hal\<lparr>heap := heap w'\<rparr>"
proof -
  have "heap_inv (heap demo_hal) {}" by (simp add: demo_hal_def demo_heap_inv)
  from parse_total_and_owned[OF this, of 4 "mem_of [0x40, 0, 0, 1]"] show ?thesis
    by (auto simp: mem_of_def)
qed

text \<open>A length that has wrapped: the number of missing bytes is small.\<close>

lemma wrapped_rest:
  assumes "unat (n :: u16) < m" "m \<le> unat n + 9" "m < 65536"
  shows "unat (n - of_nat m) = 65536 + unat n - m" "65527 \<le> unat (n - of_nat m)"
proof -
  have "unat (of_nat m :: u16) = m" using assms(3) by (simp add: unat_of_nat)
  then have "unat (n - of_nat m) = (65536 + unat n - m) mod 65536"
    using assms by (simp add: unat_sub_if' word_le_nat_alt)
  then show "unat (n - of_nat m) = 65536 + unat n - m" using assms(1) by simp
  then show "65527 \<le> unat (n - of_nat m)" using assms(2) by simp
qed

text \<open>What the options parser makes of the two memories: a marker first, or an empty option and then the marker.\<close>

lemma parse_empty_option:
  assumes "mem 0 = 0x10" "mem 1 = 0xff" "65527 \<le> unat s"
  shows "\<exists>res pb opts h'. parse_OptionsFromRaw mem s [] h = Some (res, pb, opts, h') \<and>
    (res = COAP_ERR_OUT_OF_MEMORY \<or> res = COAP_OK \<and> pb = Some 2)"
proof -
  have "uint s = int (unat s)" by simp
  then have "65527 \<le> uint s" using assms(3) by linarith
  then have s: "0 < s" "1 < s" "s \<noteq> 0" "\<not> uint s - 1 < 2" "\<not> uint s - 1 < 0" using assms(3) by (auto simp: word_less_nat_alt)
  obtain res opts h' where ap: "CoAP_AppendOptionToList [] 1 [] 0 h = (res, opts, h')" "res = COAP_OK \<or> res = COAP_ERR_OUT_OF_MEMORY"
    by (cases "coap_mem_get (option_request 0) h"; cases "fst (coap_mem_get (option_request 0) h)")
      (auto simp: CoAP_AppendOptionToList_def append_OptionToListEnd_def)
  have "parse_OptionsFromRaw mem s [] h = (if res \<noteq> COAP_OK then Some (res, None, opts, h') else Some (COAP_OK, Some 2, opts, h'))"
    using assms(1,2) s ap
    by (simp add: parse_OptionsFromRaw_def parse_options_loop.simps[of _ _ 0] parse_options_loop.simps[of _ _ 1]
        read_ext_def read_bytes_def MAX_OPTION_VALUE_SIZE_def)
  then show ?thesis using ap(2) by auto
qed

text \<open>
  C16: every datagram that ends inside its token is read past its end. Whatever the header (of version 1, with a valid code
  and a token of up to eight bytes), when the datagram is longer than the header and shorter than header and token, the
  number of bytes that remain for the options wraps to nearly 65536, and the option parser starts behind the datagram.
  So what lies there decides the answer: with a payload marker as the first byte behind the announced token the
  datagram is malformed; with an empty option and a marker it has too much payload (or there is no memory for the option).
\<close>

theorem truncated_token_overread:
  fixes src :: memory and n :: u16
  defines "k \<equiv> unat (src 0 AND 15)"
  assumes "drop_bit 6 (src 0) = COAP_VERSION" "k \<le> 8" "valid_code (src 1)" "4 < unat n" "unat n < 4 + k"
  shows "agree_below (unat n) src (src(4 + k := 0xff)) \<and> agree_below (unat n) src (src(4 + k := 0x10, 5 + k := 0xff)) \<and>
    map_option fst (CoAP_ParseMessageFromDatagram (src(4 + k := 0xff)) n w) = Some COAP_PARSE_MESSAGE_FORMAT_ERROR \<and>
    map_option fst (CoAP_ParseMessageFromDatagram (src(4 + k := 0x10, 5 + k := 0xff)) n w) \<in>
      {Some COAP_PARSE_TOO_MUCH_PAYLOAD, Some COAP_ERR_OUT_OF_MEMORY}"
proof -
  let ?a = "src(4 + k := 0xff)" and ?b = "src(4 + k := 0x10, 5 + k := 0xff)"
  define off :: u16 where "off = 4 + of_nat k"
  have off: "off = of_nat (4 + k)" "unat off = 4 + k" using assms(3) unat_add_nat[of 4 k] by (simp_all add: off_def)
  note rest = wrapped_rest[OF assms(6), folded off(1)]
  have r: "65527 \<le> unat (n - off)" using rest(2) assms(3,5) by simp
  have nz: "n - off \<noteq> 0" "\<not> n < 4" "n \<noteq> 4" "n \<noteq> off" using r assms(5,6) off(2) by (auto simp: word_less_nat_alt)
  have hdr: "\<exists>M. CoAP_ParseMessageFromDatagram m n w = parse_rest m n off M w" if "m 0 = src 0" "m 1 = src 1" for m
    using parse_header[of n m w] that assms(2-4) nz by (auto simp: off_def k_def)
  have A: "map_option fst (parse_rest ?a n off M w) = Some COAP_PARSE_MESSAGE_FORMAT_ERROR" for M
    using nz by (simp add: parse_rest_def parse_OptionsFromRaw_def mem_at_def off(2))
  have m: "mem_at ?b (unat off) 0 = 0x10" "mem_at ?b (unat off) 1 = 0xff" by (simp_all add: mem_at_def off(2))
  have "unat off + 2 = 6 + k" using off(2) by simp
  moreover have "65527 \<le> unat (n - of_nat (6 + k))" using assms(3,5,6) by (intro wrapped_rest(2)) simp_all
  ultimately have pl: "MAX_PAYLOAD_SIZE < unat (n - of_nat (unat off + 2))" unfolding MAX_PAYLOAD_SIZE_def by simp
  have "map_option fst (parse_rest b n off M w) \<in> {Some COAP_PARSE_TOO_MUCH_PAYLOAD, Some COAP_ERR_OUT_OF_MEMORY}"
    if "mem_at b (unat off) 0 = 0x10" "mem_at b (unat off) 1 = 0xff" for b M
    using parse_empty_option[OF that r, of "heap w"] nz(4) pl unfolding parse_rest_def by (auto simp: Let_def simp del: of_nat_add)
  note B = this[OF m]
  obtain M M' where "CoAP_ParseMessageFromDatagram ?a n w = parse_rest ?a n off M w"
    "CoAP_ParseMessageFromDatagram ?b n w = parse_rest ?b n off M' w" using hdr[of ?a] hdr[of ?b] by auto
  moreover have "agree_below (unat n) src ?a" "agree_below (unat n) src ?b" using assms(6) by (auto simp: agree_below_def)
  ultimately show ?thesis using A[of M] B[of M'] by simp
qed

lemma truncated_token_overread_witness:
  "map_option fst (CoAP_ParseMessageFromDatagram (mem_of [0x42, 1, 0, 0, 9, 0, 0xff]) 5 demo_hal) \<noteq>
   map_option fst (CoAP_ParseMessageFromDatagram (mem_of [0x42, 1, 0, 0, 9, 0, 0x10, 0xff]) 5 demo_hal)"
proof -
  let ?m = "mem_of [0x42, 1, 0, 0, 9]"
  have h: "drop_bit 6 (?m 0) = COAP_VERSION" "unat (?m 0 AND 15) \<le> 8" "valid_code (?m 1)" "4 < unat (5 :: u16)"
    "unat (5 :: u16) < 4 + unat (?m 0 AND 15)" "unat (?m 0 AND 15) = 2"
    by (simp_all add: mem_of_def COAP_VERSION_def valid_code_def)
  have e: "?m(6 := 0xff) = mem_of [0x42, 1, 0, 0, 9, 0, 0xff]" "?m(6 := 0x10, 7 := 0xff) = mem_of [0x42, 1, 0, 0, 9, 0, 0x10, 0xff]"
    by (auto simp: fun_eq_iff mem_of_def nth_Cons')
  from truncated_token_overread[OF h(1-5), of demo_hal] show ?thesis unfolding h(6) by (auto simp: e[symmetric])
qed

text \<open>
  C17: the token is sent in as few bytes as its value needs, and a received token is kept as a number:
  what the stack sends back for the token bytes \<open>bs\<close> of a request is \<open>bs\<close> without its trailing zero
  bytes. A client whose token ends in a zero byte does not get its own token back.
\<close>

theorem token_echo_strips_zeros:
  assumes "k \<le> 8" "has_bytes src off bs" "length bs = k" "t = read_token src off k"
  shows "token_bytes t (getTokenByteCount t) = rev (dropWhile (\<lambda>b. b = 0) (rev bs)) \<and>
    (\<forall>n. unat t < 2 ^ (8 * n) \<longrightarrow> getTokenByteCount t \<le> n)"
proof -
  let ?n = "getTokenByteCount t"
  have least: "?n \<le> n" if "unat t < 2 ^ (8 * n)" for n
    using getTokenByteCount_least[of n t] that by (meson not_le)
  have nk: "?n \<le> k" using least read_token_bound[OF assms(1), of src off] assms(4) by simp
  have all: "token_bytes t k = bs" using token_bytes_read[OF assms(1-3)] assms(4) by simp
  let ?pre = "token_bytes t ?n" and ?z = "map (\<lambda>i. ucast (drop_bit (8 * i) t) AND 0xff :: u8) [?n..<k]"
  have "[0..<k] = [0..<?n] @ [?n..<k]" using nk by (metis le_add_diff_inverse upt_add_eq_append zero_le)
  then have split: "bs = ?pre @ ?z" using all by (simp add: token_bytes_def)
  have "\<forall>b \<in> set ?z. b = 0" using token_byte_zero[OF getTokenByteCount_bound[of t]] by auto
  then have "dropWhile (\<lambda>b. b = 0) (rev bs) = dropWhile (\<lambda>b. b = 0) (rev ?pre)"
    unfolding split rev_append by (intro dropWhile_append2) auto
  also have "\<dots> = rev ?pre"
  proof (cases ?n)
    case 0
    then show ?thesis by (simp add: token_bytes_def)
  next
    case (Suc i)
    have "(ucast (drop_bit (8 * i) t) AND 0xff :: u8) \<noteq> 0"
      using token_byte_nonzero[of i t] getTokenByteCount_least[of i t] getTokenByteCount_bound[of t] Suc by simp
    then show ?thesis using Suc by (simp add: token_bytes_def)
  qed
  finally show ?thesis using least by simp
qed

theorem token_echo_strips_zeros_witness:
  "token_bytes 5 1 = rev (dropWhile (\<lambda>b. b = 0) (rev [5, 0 :: u8]))"
proof -
  have "read_token (mem_of [5, 0]) 0 (Suc (Suc 0)) = 5" by (simp add: mem_of_def)
  then have r: "5 = read_token (mem_of [5, 0]) 0 2" by (simp only: numeral_2_eq_2)
  have g: "getTokenByteCount 5 = 1" by (simp add: getTokenByteCount_def)
  have "(2 :: nat) \<le> 8" "length [5, 0 :: u8] = 2" by simp_all
  from token_echo_strips_zeros[OF this(1) has_bytes_mem_of this(2) r] g show ?thesis by simp
qed

text \<open>
  C18: sending. On a known interface \<open>CoAP_SendMsg\<close> always returns (on an unknown one the source reads
  through a null pointer). The driver is called at most once; the packet it gets holds exactly the
  built datagram, its length is the announced raw size, and it goes to the receiver from the socket's
  own endpoint. The result is the driver's answer. The transient buffer is given back: the live
  buffers and their sizes are those from before, and nothing but the heap and the log changes.
\<close>

theorem send_contract:
  assumes "sendable m" "heap_inv (heap w) L" "RetrieveSocket2 ifID (SocketCtrl w) = Some i"
  shows "\<exists>res m' w'. CoAP_SendMsg drv m ifID ep w = Some (res, m', w') \<and> same_live L (heap w) (heap w') \<and>
    w' = w\<lparr>heap := heap w', sent := sent w'\<rparr> \<and>
    unat (pkt_size (packet_of m (SocketMemory (SocketCtrl w) ! i) ep)) = CoAP_GetRawSizeOfMessage m \<and>
    has_bytes (pData (packet_of m (SocketMemory (SocketCtrl w) ! i) ep)) 0 (fst (CoAP_BuildDatagram m)) \<and>
    (case Tx (SocketMemory (SocketCtrl w) ! i) of
       None \<Rightarrow> res = COAP_NOT_FOUND \<and> sent w' = sent w
     | Some f \<Rightarrow>
         res = COAP_ERR_OUT_OF_MEMORY \<and> sent w' = sent w \<or>
         sent w' = sent w @ [(ifID, packet_of m (SocketMemory (SocketCtrl w) ! i) ep)] \<and>
         res = (if drv f ifID (packet_of m (SocketMemory (SocketCtrl w) ! i) ep) (sent w)
                then COAP_OK else COAP_ERR_NETWORK))"
proof -
  obtain res m' w' where s: "CoAP_SendMsg drv m ifID ep w = Some (res, m', w')"
    using SendMsg_defined[OF assms(1), of drv ifID ep w] assms(3) by auto
  have "unat (pkt_size (packet_of m sk ep)) = CoAP_GetRawSizeOfMessage m"
    "has_bytes (pData (packet_of m sk ep)) 0 (fst (CoAP_BuildDatagram m))" for sk
    using sendable_size[OF assms(1)] by (simp_all add: packet_of_def has_bytes_mem_of)
  moreover have "res = COAP_NOT_FOUND \<longleftrightarrow> Tx (SocketMemory (SocketCtrl w) ! i) = None"
    using s assms(3) by (auto simp: CoAP_SendMsg_def Let_def split: option.splits prod.splits if_splits)
  moreover have "same_live L (heap w) (heap w)" using assms(2) by (rule same_live_refl)
  ultimately show ?thesis
    by (rule_tac SendMsg_cases[OF assms(1,2) s]) (use s assms(3) in \<open>auto split: option.split\<close>)
qed

lemma demo_socket_found: "RetrieveSocket2 1 (SocketCtrl demo_hal) = Some 0"
  by (simp add: RetrieveSocket2_def demo_hal_def demo_socket_def)

lemma demo_msg_sendable: "sendable demo_msg"
  unfolding sendable_def demo_datagram by (simp add: demo_msg_def demo_options_packable)

theorem send_contract_witness:
  "\<exists>res m' w'. CoAP_SendMsg (\<lambda>_ _ _ _. True) demo_msg 1 (demo_ep 2) demo_hal = Some (res, m', w') \<and>
     same_live {} demo_heap (heap w')"
proof -
  have h: "heap demo_hal = demo_heap" by (simp add: demo_hal_def)
  show ?thesis
    using send_contract[OF demo_msg_sendable, of demo_hal "{}" 1 0 "\<lambda>_ _ _ _. True" "demo_ep 2"]
      demo_socket_found demo_heap_inv h by auto
qed

text \<open>
  The age of a message is computed across the wrap-around of the 32 bit clock: for a message
  stamped \<open>d\<close> seconds ago (less than \<open>2^32\<close>), \<open>CoAP_MsgIsOlderThan\<close> holds exactly when \<open>d\<close> exceeds the
  timespan, whatever the clock shows.
\<close>

theorem older_than_wraps:
  assumes "d < 2 ^ 32" "rtc_1Hz w = Timestamp m + of_nat d"
  shows "CoAP_MsgIsOlderThan m timespan w \<longleftrightarrow> unat timespan < d"
proof -
  have "unat (of_nat d :: u32) = d" using assms(1) by (simp add: unat_of_nat)
  then show ?thesis using assms(2) by (simp add: CoAP_MsgIsOlderThan_def word_less_nat_alt)
qed

theorem older_than_wraps_witness:
  "CoAP_MsgIsOlderThan (demo_msg\<lparr>Timestamp := - 10\<rparr>) 45 demo_hal"
  using older_than_wraps[of 110 demo_hal "demo_msg\<lparr>Timestamp := - 10\<rparr>" 45] by (simp add: demo_hal_def)

text \<open>
  Creating and releasing messages. \<open>CoAP_CreateMessage\<close> hands out a message with the given fields
  whose payload buffer of the requested size lies inside its own block, or nothing with the heap as it
  was; releasing a message gives back its block, its options and, if it has one, its separate payload
  buffer, and nothing else. When the initial content is longer than the buffer the request is refused
  after the block was allocated, and the block stays allocated.
\<close>

theorem create_and_free_message:
  assumes "heap_inv h R" "unat PayloadMaxSize \<le> 32000"
  shows "case CoAP_CreateMessage T C mid init len PayloadMaxSize tok h of
      (None, h') \<Rightarrow> h' = h \<or> PayloadMaxSize < len \<and> (\<exists>p. p \<notin> R \<and> heap_inv h' (insert p R))
    | (Some m, h') \<Rightarrow> len \<le> PayloadMaxSize \<and> msg_heap h' R m \<and> heap_inv (CoAP_free_Message (Some m) h') R \<and>
        Type m = T \<and> Code m = C \<and> MessageID m = mid \<and> Token64 m = tok \<and> pOptionsList m = [] \<and>
        PayloadLength m = len \<and> PayloadBufSize m = PayloadMaxSize \<and>
        40 + int (unat PayloadMaxSize) \<le> bsize (Some (msg_addr m)) h'"
proof (cases "CoAP_CreateMessage T C mid init len PayloadMaxSize tok h")
  case (Pair r h')
  show ?thesis
  proof (cases "len \<le> PayloadMaxSize")
    case True
    then show ?thesis
      using CreateMessage_result[OF Pair assms] Pair free_Message_heap
      by (auto simp: word_le_nat_alt)
  next
    case False
    have f: "fits (sizeof_CoAP_Message + int (unat PayloadMaxSize))"
      using assms(2) unfolding fits_def sizeof_CoAP_Message_def by linarith
    obtain q h1 where g: "coap_mem_get (sizeof_CoAP_Message + int (unat PayloadMaxSize)) h = (q, h1)" by force
    have "PayloadMaxSize < len" using False by simp
    then have "r = None" "h' = h1" using Pair g
      by (auto simp: CoAP_CreateMessage_def simp del: of_nat_unat split: option.splits)
    moreover have "h1 = h" if "q = None" using g that mem.get_None by blast
    moreover have "p \<notin> R \<and> heap_inv h1 (insert p R)" if "q = Some p" for p
      using mem.get_fresh mem.get_inv g that assms(1) f by blast
    ultimately show ?thesis using Pair False by (cases q) auto
  qed
qed

theorem create_and_free_message_witness:
  "case CoAP_CreateMessage CON REQ_GET 5 None 0 64 9 demo_heap of
      (None, h') \<Rightarrow> h' = demo_heap
    | (Some m, h') \<Rightarrow> heap_inv (CoAP_free_Message (Some m) h') {}"
  using create_and_free_message[OF demo_heap_inv, where PayloadMaxSize = 64 and T = CON and C = REQ_GET and
      mid = 5 and init = None and len = 0 and tok = 9]
  by (auto split: prod.splits option.splits)

end
