(* ===== verification/Option_Types_Props.thy ===== *)
theory Option_Types_Props imports Option_Types Message_Props begin

section \<open>Properties of the option types\<close>

text \<open>
  Round trips of the integer options, the slices of a blockwise transfer, and what the Uri functions
  compute, with the lemmas they rest on.
\<close>

subsection \<open>Appending to a message\<close>

lemma append_msg_option_OK:
  assumes "append_msg_option msg num buf len h = (COAP_OK, msg', h')"
  shows "\<exists>p. msg' = msg\<lparr>pOptionsList := insert_option (mk_option p num buf len) (pOptionsList msg)\<rparr>"
  using assms append_option_OK by (fastforce simp: append_msg_option_def split: prod.splits)

lemma find_insert_option:
  assumes "\<forall>opt \<in> set opts. Number opt \<noteq> Number new"
  shows "find (\<lambda>opt. Number opt = Number new) (insert_option new opts) = Some new"
proof -
  have "find (\<lambda>opt. Number opt = Number new) (xs @ new # ys) = Some new"
    if "\<forall>opt \<in> set xs. Number opt \<noteq> Number new" for xs ys
    using that by (induction xs) auto
  then show ?thesis using assms unfolding insert_option_def by (meson set_takeWhileD)
qed

lemma find_after_append:
  assumes "append_msg_option msg num buf len h = (COAP_OK, msg', h')"
    and "\<forall>opt \<in> set (pOptionsList msg). Number opt \<noteq> num"
  obtains p where "find (\<lambda>opt. Number opt = num) (pOptionsList msg') = Some (mk_option p num buf len)"
proof -
  obtain p where "pOptionsList msg' = insert_option (mk_option p num buf len) (pOptionsList msg)"
    using append_msg_option_OK[OF assms(1)] by auto
  then show ?thesis using that find_insert_option[of "pOptionsList msg" "mk_option p num buf len"] assms(2)
    by simp
qed

subsection \<open>Integers of up to three bytes\<close>

lemma bytes1: "(ucast (ucast (v :: u32) :: u8) :: u32) = take_bit 8 v"
  by (rule bit_word_eqI) (auto simp: bit_simps)

lemma bytes2:
  "push_bit 8 (ucast (ucast (drop_bit 8 (v :: u32)) :: u8)) OR ucast (ucast v :: u8) = take_bit 16 v"
  by (rule bit_word_eqI) (auto simp: bit_simps)

lemma bytes3:
  "push_bit 16 (ucast (ucast (drop_bit 16 (v :: u32)) :: u8)) OR push_bit 8 (ucast (ucast (drop_bit 8 v) :: u8))
     OR ucast (ucast v :: u8) = take_bit 24 v"
  by (rule bit_word_eqI) (auto simp: bit_simps not_less less_diff_conv2, metis le_add_diff_inverse linorder_not_less)

lemma ucast_and_ff: "(ucast ((v :: u32) AND 0xff) :: u8) = ucast v"
proof -
  have m: "(0xff :: u32) = mask 8" by (simp add: mask_eq_exp_minus_1)
  show ?thesis unfolding m by (rule bit_word_eqI) (auto simp: bit_simps)
qed

lemma take_bit_small: "unat (v :: u32) < 2 ^ n \<Longrightarrow> take_bit n v = v"
  by (simp add: word_unat_eq_iff unsigned_take_bit_eq take_bit_nat_eq_self)

subsection \<open>Observe\<close>

lemma observe_value_bytes:
  "observe_value (mk_option p num [] 0) = (COAP_OK, 0)"
  "observe_value (mk_option p num [ucast (v :: u32)] 1) = (COAP_OK, take_bit 8 v)"
  "observe_value (mk_option p num [ucast (drop_bit 8 v), ucast v] 2) = (COAP_OK, take_bit 16 v)"
  "observe_value (mk_option p num [ucast (drop_bit 16 v), ucast (drop_bit 8 v), ucast v] 3) = (COAP_OK, take_bit 24 v)"
  using bytes1[of v] bytes2[of v] bytes3[of v]
  by (simp_all add: observe_value_def Let_def)

lemma observe_roundtrip_core:
  assumes "\<forall>opt \<in> set (pOptionsList msg). Number opt \<noteq> OPT_NUM_OBSERVE"
    and add: "AddObserveOptionToMsg msg val h = (COAP_OK, msg', h')"
  shows "GetObserveOptionFromMsg msg' = (COAP_OK, take_bit 24 val)"
proof -
  have get: "GetObserveOptionFromMsg msg' = (COAP_OK, take_bit 24 val)"
    if "append_msg_option msg OPT_NUM_OBSERVE buf len h = (COAP_OK, msg', h')"
      "\<And>p. observe_value (mk_option p OPT_NUM_OBSERVE buf len) = (COAP_OK, take_bit 24 val)" for buf len
    using find_after_append[OF that(1) assms(1)] that(2) by (metis GetObserveOptionFromMsg_def option.simps(5))
  have sm: "take_bit 24 val = take_bit n val" if "unat val < 2 ^ n" "n \<le> 24" for n
  proof -
    have "(2 :: nat) ^ n \<le> 2 ^ 24" using that(2) by (intro power_increasing) auto
    then show ?thesis using take_bit_small[of val n] take_bit_small[of val 24] that(1) by simp
  qed
  consider "val > 0xffff" | "\<not> val > 0xffff" "val > 0xff" | "\<not> val > 0xff" "val > 0" | "val = 0"
    by (meson word_neq_0_conv)
  then show ?thesis
  proof cases
    case 1
    then show ?thesis using add get by (simp add: AddObserveOptionToMsg_def ucast_and_ff observe_value_bytes)
  next
    case 2
    then have "take_bit 24 val = take_bit 16 val" by (intro sm) (simp_all add: word_less_nat_alt)
    then show ?thesis using add get 2
      by (simp add: AddObserveOptionToMsg_def ucast_and_ff observe_value_bytes)
  next
    case 3
    then have "\<not> val > 0xffff" by (simp add: word_less_nat_alt)
    moreover have "take_bit 24 val = take_bit 8 val" using 3 by (intro sm) (simp_all add: word_less_nat_alt)
    ultimately show ?thesis using add get 3
      by (simp add: AddObserveOptionToMsg_def ucast_and_ff observe_value_bytes)
  next
    case 4
    then show ?thesis using add get by (simp add: AddObserveOptionToMsg_def observe_value_bytes)
  qed
qed

text \<open>
  C19: the Observe option carries the lower 24 bits. After a successful \<open>AddObserveOptionToMsg\<close> on a
  message without the option, \<open>GetObserveOptionFromMsg\<close> reads the value modulo \<open>2^24\<close> back; a sequence
  number of \<open>2^24\<close> or more is truncated.
\<close>

theorem observe_roundtrip:
  assumes "\<forall>opt \<in> set (pOptionsList msg). Number opt \<noteq> OPT_NUM_OBSERVE"
    and "AddObserveOptionToMsg msg val h = (COAP_OK, msg', h')"
  shows "GetObserveOptionFromMsg msg' = (COAP_OK, take_bit 24 val) \<and>
    unat (snd (GetObserveOptionFromMsg msg')) = unat val mod 2 ^ 24"
  using observe_roundtrip_core[OF assms] by (simp add: unsigned_take_bit_eq take_bit_eq_mod unat_mod)

text \<open>The append of the concrete instances succeeds.\<close>

lemma demo_append:
  assumes "unat len \<le> 100"
  shows "\<exists>msg' h'. append_msg_option (demo_msg\<lparr>pOptionsList := []\<rparr>) num buf len demo_heap = (COAP_OK, msg', h')"
proof -
  obtain res opts h' where ap: "CoAP_AppendOptionToList [] num buf len demo_heap = (res, opts, h')"
    by (cases "CoAP_AppendOptionToList [] num buf len demo_heap")
  have "option_request len + 28 \<le> 4000" using assms unfolding option_request_def sizeof_option_def by linarith
  then have "res = COAP_OK" using append_option_room(1)[OF ap demo_heap_inv demo_heap_room] assms by simp
  then show ?thesis using ap by (simp add: append_msg_option_def)
qed

theorem observe_roundtrip_witness:
  "\<exists>msg' h'. AddObserveOptionToMsg (demo_msg\<lparr>pOptionsList := []\<rparr>) 0x1000005 demo_heap = (COAP_OK, msg', h') \<and>
     GetObserveOptionFromMsg msg' = (COAP_OK, 5)"
proof -
  let ?m = "demo_msg\<lparr>pOptionsList := []\<rparr>"
  have e: "AddObserveOptionToMsg ?m 0x1000005 demo_heap = append_msg_option ?m OPT_NUM_OBSERVE [0, 0, 5] 3 demo_heap"
    by (simp add: AddObserveOptionToMsg_def)
  obtain msg' h' where a: "AddObserveOptionToMsg ?m 0x1000005 demo_heap = (COAP_OK, msg', h')"
    using demo_append[of 3 OPT_NUM_OBSERVE "[0, 0, 5]"] e by auto
  have "\<forall>opt \<in> set (pOptionsList ?m). Number opt \<noteq> OPT_NUM_OBSERVE" by simp
  from observe_roundtrip[OF this a] a show ?thesis by (simp add: take_bit_eq_mask mask_eq_exp_minus_1)
qed


subsection \<open>Block options\<close>

text \<open>The block options a peer can name: a size of \<open>2^(s+4)\<close> bytes and a block number below \<open>2^20\<close>.\<close>

definition valid_block :: "nat \<Rightarrow> CoAP_blockwise_option \<Rightarrow> bool" where
  "valid_block s blk \<longleftrightarrow> BlkType blk \<in> {BLOCK_1, BLOCK_2} \<and> s \<le> 6 \<and> BlockSize blk = push_bit (s + 4) 1 \<and>
     unat (BlockNum blk) < 2 ^ 20"

lemma szx_of_size: "s \<le> 6 \<Longrightarrow> szx_of (ucast (drop_bit 4 (push_bit (s + 4) (1 :: u32)))) = of_nat s"
proof -
  assume "s \<le> 6"
  then have "s \<in> {0, 1, 2, 3, 4, 5, 6}" by auto
  then show ?thesis by (elim insertE emptyE) (simp_all add: szx_of_def)
qed

lemma nat_le_6: "s \<le> 6 \<Longrightarrow> s \<in> {0, 1, 2, 3, 4, 5, 6 :: nat}"
  by auto

lemma low_bits: "s \<le> 6 \<Longrightarrow> bit (of_nat s :: u32) n \<Longrightarrow> n < 3"
  using bit_small[of "of_nat s :: u32" 3 n] by (simp add: unat_of_nat)

lemma block_fields:
  fixes num :: u32 and mf :: bool
  assumes s: "s \<le> 6"
  defines "v \<equiv> of_nat s OR (if mf then 8 else 0) OR push_bit 4 num"
  shows "unat num < 2 ^ 20 \<Longrightarrow> drop_bit 4 v = num" "v AND 7 = of_nat s" "v AND 8 \<noteq> 0 \<longleftrightarrow> mf"
    "unat num < 16 \<Longrightarrow> take_bit 8 v = v" "unat num < 4096 \<Longrightarrow> take_bit 16 v = v"
    "unat num < 2 ^ 20 \<Longrightarrow> take_bit 24 v = v"
proof -
  note lo = low_bits[OF s]
  have b8: "bit (if mf then 8 else 0 :: u32) n \<longleftrightarrow> mf \<and> n = 3" for n
    using bit_exp_iff[where 'a = "32 word", of 3 n] by auto
  have small: "bit num n \<Longrightarrow> n < k" if "unat num < 2 ^ k" for n k using bit_small that by blast
  have bv: "bit v n \<longleftrightarrow> bit (of_nat s :: u32) n \<or> mf \<and> n = 3 \<or> 4 \<le> n \<and> n < 32 \<and> bit num (n - 4)" for n
    unfolding v_def by (auto simp: bit_or_iff b8 bit_push_bit_iff)
  show "drop_bit 4 v = num" if "unat num < 2 ^ 20"
  proof (rule bit_word_eqI)
    fix n assume "n < LENGTH(32)"
    show "bit (drop_bit 4 v) n = bit num n"
      using lo[of "4 + n"] small[OF that, of n] by (auto simp: bit_drop_bit_eq bv)
  qed
  have m7: "(7 :: u32) = mask 3" by (simp add: mask_eq_exp_minus_1)
  show "v AND 7 = of_nat s"
    unfolding m7 by (rule bit_word_eqI) (use lo in \<open>auto simp: bit_and_iff bit_mask_iff bv\<close>)
  show "v AND 8 \<noteq> 0 \<longleftrightarrow> mf"
  proof -
    have e8: "bit (8 :: u32) n \<longleftrightarrow> n = 3" for n
      using bit_exp_iff[where 'a = "32 word", of 3 n] by auto
    have "v AND 8 = (if mf then 8 else 0)"
    proof (rule bit_word_eqI)
      fix n assume "n < LENGTH(32)"
      show "bit (v AND 8) n = bit (if mf then 8 else 0 :: u32) n"
        unfolding bit_and_iff bv b8 e8 using lo[of n] by auto
    qed
    then show ?thesis by simp
  qed
  have tk: "take_bit (k + 4) v = v" if "unat num < 2 ^ k" for k
    by (rule bit_word_eqI) (use lo small[OF that] in \<open>fastforce simp: bit_take_bit_iff bv\<close>)
  show "unat num < 16 \<Longrightarrow> take_bit 8 v = v" "unat num < 4096 \<Longrightarrow> take_bit 16 v = v"
    "unat num < 2 ^ 20 \<Longrightarrow> take_bit 24 v = v" using tk[of 4] tk[of 12] tk[of 20] by simp_all
qed

lemma decode_block_bytes:
  fixes v :: u32
  assumes "Length opt = of_nat k" "k \<in> {1, 2, 3}"
    and "k = 1 \<Longrightarrow> Value opt = [ucast v] \<and> take_bit 8 v = v"
    and "k = 2 \<Longrightarrow> Value opt = [ucast (drop_bit 8 v), ucast v] \<and> take_bit 16 v = v"
    and "k = 3 \<Longrightarrow> Value opt = [ucast (drop_bit 16 v), ucast (drop_bit 8 v), ucast v] \<and> take_bit 24 v = v"
    and "v AND 7 \<noteq> 7"
  shows "decode_block T opt blk = (COAP_OK, blk\<lparr>BlkType := T, BlockSize := push_bit (unat (v AND 7) + 4) 1,
    MoreFlag := (v AND 8 \<noteq> 0), BlockNum := drop_bit 4 v\<rparr>)"
  using assms bytes1[of v] bytes2[of v] bytes3[of v]
  by (elim insertE emptyE) (simp_all add: decode_block_def Let_def)

lemma block_roundtrip_core:
  assumes "valid_block s blk" "\<forall>opt \<in> set (pOptionsList msg). Number opt \<noteq> BlkType blk"
    and add: "AddBlkOptionToMsg msg blk h = (COAP_OK, msg', h')"
  shows "GetBlockOptionFromMsg msg' (BlkType blk) blk0 = (COAP_OK, blk)"
proof -
  have s: "s \<le> 6" and sz: "BlockSize blk = push_bit (s + 4) 1" and num: "unat (BlockNum blk) < 2 ^ 20"
    and ty: "BlkType blk = BLOCK_1 \<or> BlkType blk = BLOCK_2" using assms(1) by (auto simp: valid_block_def)
  have v: "block_value blk = of_nat s OR (if MoreFlag blk then 8 else 0) OR push_bit 4 (BlockNum blk)"
    by (simp only: block_value_def sz szx_of_size[OF s])
  note bf = block_fields[OF s, where mf = "MoreFlag blk" and num = "BlockNum blk", folded v]
  have us: "unat (of_nat s :: u32) = s" using s by (simp add: unat_of_nat)
  have n7: "block_value blk AND 7 \<noteq> 7"
    using nat_le_6[OF s] unfolding bf(2) by auto
  have read: "GetBlockOptionFromMsg msg' (BlkType blk) blk0 = (COAP_OK, blk)"
    if "append_msg_option msg (BlkType blk) buf len h = (COAP_OK, msg', h')"
      "\<And>p. decode_block (BlkType blk) (mk_option p (BlkType blk) buf len) blk0 = (COAP_OK, blk)" for buf len
    using find_after_append[OF that(1) assms(2)] that(2) by (metis GetBlockOptionFromMsg_def option.simps(5))
  have eq: "blk0\<lparr>BlkType := BlkType blk, BlockSize := push_bit (unat (block_value blk AND 7) + 4) 1,
      MoreFlag := (block_value blk AND 8 \<noteq> 0), BlockNum := drop_bit 4 (block_value blk)\<rparr> = blk"
    using bf(1)[OF num] bf(2,3) us sz by (cases blk; cases blk0) simp
  consider "BlockNum blk = 0 \<and> BlockSize blk = BLOCK_SIZE_16 \<and> MoreFlag blk = False"
    | "\<not> (BlockNum blk = 0 \<and> BlockSize blk = BLOCK_SIZE_16 \<and> MoreFlag blk = False)" "BlockNum blk < 16"
    | "\<not> (BlockNum blk = 0 \<and> BlockSize blk = BLOCK_SIZE_16 \<and> MoreFlag blk = False)" "\<not> BlockNum blk < 16" "BlockNum blk < 4096"
    | "\<not> (BlockNum blk = 0 \<and> BlockSize blk = BLOCK_SIZE_16 \<and> MoreFlag blk = False)" "\<not> BlockNum blk < 16" "\<not> BlockNum blk < 4096"
    by blast
  then show ?thesis
  proof cases
    case 1
    then have "decode_block (BlkType blk) (mk_option p (BlkType blk) [] 0) blk0 = (COAP_OK, blk)" for p
      by (cases blk; cases blk0) (simp add: decode_block_def Let_def)
    moreover have "append_msg_option msg (BlkType blk) [] 0 h = (COAP_OK, msg', h')"
      using add ty 1 by (auto simp: AddBlkOptionToMsg_def)
    ultimately show ?thesis using read by blast
  next
    case 2
    then have "take_bit 8 (block_value blk) = block_value blk" using bf(4) by (simp add: word_less_nat_alt)
    then have "decode_block (BlkType blk) (mk_option p (BlkType blk) [ucast (block_value blk)] 1) blk0 = (COAP_OK, blk)" for p
      using decode_block_bytes[of "mk_option p (BlkType blk) [ucast (block_value blk)] 1" 1 "block_value blk" "BlkType blk" blk0] n7 eq
      by simp
    then show ?thesis using read add ty 2 by (simp add: AddBlkOptionToMsg_def Let_def split: if_splits)
  next
    case 3
    then have "take_bit 16 (block_value blk) = block_value blk" using bf(5) by (simp add: word_less_nat_alt)
    then have "decode_block (BlkType blk) (mk_option p (BlkType blk)
        [ucast (drop_bit 8 (block_value blk)), ucast (block_value blk)] 2) blk0 = (COAP_OK, blk)" for p
      using decode_block_bytes[of "mk_option p (BlkType blk)
        [ucast (drop_bit 8 (block_value blk)), ucast (block_value blk)] 2" 2 "block_value blk" "BlkType blk" blk0] n7 eq
      by simp
    then show ?thesis using read add ty 3
      by (simp add: AddBlkOptionToMsg_def Let_def ucast_and_ff split: if_splits)
  next
    case 4
    have "take_bit 24 (block_value blk) = block_value blk" using bf(6) num by simp
    then have "decode_block (BlkType blk) (mk_option p (BlkType blk)
        [ucast (drop_bit 16 (block_value blk)), ucast (drop_bit 8 (block_value blk)), ucast (block_value blk)] 3) blk0 = (COAP_OK, blk)" for p
      using decode_block_bytes[of "mk_option p (BlkType blk) [ucast (drop_bit 16 (block_value blk)),
        ucast (drop_bit 8 (block_value blk)), ucast (block_value blk)] 3" 3 "block_value blk" "BlkType blk" blk0] n7 eq
      by simp
    then show ?thesis using read add ty 4
      by (simp add: AddBlkOptionToMsg_def Let_def ucast_and_ff split: if_splits)
  qed
qed

text \<open>
  C20: a Block1 or Block2 option with any of the seven sizes, either flag and a number below \<open>2^20\<close>
  reads back exactly as it was added, whatever the record it is read into held before.
\<close>

theorem block_roundtrip:
  assumes "valid_block s blk" "\<forall>opt \<in> set (pOptionsList msg). Number opt \<noteq> BlkType blk"
    and "AddBlkOptionToMsg msg blk h = (COAP_OK, msg', h')"
  shows "GetBlockOptionFromMsg msg' (BlkType blk) blk0 = (COAP_OK, blk)"
  using assms by (rule block_roundtrip_core)

theorem block_roundtrip_witness:
  "\<exists>msg' h'. AddBlkOptionToMsg (demo_msg\<lparr>pOptionsList := []\<rparr>)
      \<lparr>BlkType = BLOCK_2, BlockSize = 64, MoreFlag = True, BlockNum = 300\<rparr> demo_heap = (COAP_OK, msg', h') \<and>
     GetBlockOptionFromMsg msg' BLOCK_2 \<lparr>BlkType = BLOCK_1, BlockSize = 0, MoreFlag = False, BlockNum = 0\<rparr> =
       (COAP_OK, \<lparr>BlkType = BLOCK_2, BlockSize = 64, MoreFlag = True, BlockNum = 300\<rparr>)"
proof -
  let ?m = "demo_msg\<lparr>pOptionsList := []\<rparr>" and ?b = "\<lparr>BlkType = BLOCK_2, BlockSize = 64, MoreFlag = True, BlockNum = 300\<rparr>"
  have v: "valid_block 2 ?b" by (simp add: valid_block_def)
  have e: "AddBlkOptionToMsg ?m ?b demo_heap = append_msg_option ?m BLOCK_2 [18, 202] 2 demo_heap"
    by (simp add: AddBlkOptionToMsg_def Let_def block_value_def szx_of_def)
  obtain msg' h' where a: "AddBlkOptionToMsg ?m ?b demo_heap = (COAP_OK, msg', h')"
    using demo_append[of 2 BLOCK_2 "[18, 202]"] e by auto
  show ?thesis using block_roundtrip[OF v _ a] a by simp
qed

end
