(* ===== verification/Coap_Resource.thy ===== *)
theory Coap_Resource imports Option_Types begin

section \<open>Resources and the stack's state (\<open>coap_resource.c\<close>, \<open>coap_interaction.h\<close>)\<close>

text \<open>
  The records of a resource and of an interaction, the state of the whole stack, and the resource
  functions. A resource and an interaction are named by the address of their buffer; \<open>get_res\<close> and
  \<open>get_ia\<close> read through such a pointer, and a pointer that names nothing (a dangling or null pointer)
  gives \<open>None\<close>. Each message is owned by one interaction, so an interaction holds its messages by
  value. Handlers, notifiers and callbacks are function pointers (numbers); the record \<open>env\<close> says what
  a call of each does, and is a parameter of the model.
\<close>

subsection \<open>Data\<close>

datatype CoAP_HandlerResult_t = HANDLER_OK | HANDLER_POSTPONE | HANDLER_ERROR

fun handler_code :: "CoAP_HandlerResult_t \<Rightarrow> nat" where
  "handler_code HANDLER_OK = 0"
| "handler_code HANDLER_POSTPONE = 1"
| "handler_code HANDLER_ERROR = 2"

definition RES_OPT_GET :: u16 where "RES_OPT_GET = push_bit 1 1"
definition RES_OPT_POST :: u16 where "RES_OPT_POST = push_bit 2 1"
definition RES_OPT_PUT :: u16 where "RES_OPT_PUT = push_bit 3 1"
definition RES_OPT_DELETE :: u16 where "RES_OPT_DELETE = push_bit 4 1"

definition COAP_CF_TEXT_PLAIN :: u16 where "COAP_CF_TEXT_PLAIN = 0"
definition COAP_CF_LINK_FORMAT :: u16 where "COAP_CF_LINK_FORMAT = 40"

record CoAP_ResOpts =
  Cf :: u16
  Flags :: u16
  ETag :: u16

text \<open>\<open>pDescription\<close> is the address of the copied string and the string.\<close>

record CoAP_Res =
  res_addr :: addr
  pDescription :: "(addr \<times> u8 list) option"
  UpdateCnt :: u32
  Options :: CoAP_ResOpts
  pUri :: options
  pListObservers :: "CoAP_Observer list"
  Handler :: "fnptr option"
  Notifier :: "fnptr option"

definition sizeof_CoAP_Res :: int where
  "sizeof_CoAP_Res = 36"

datatype CoAP_InteractionRole_t =
  COAP_ROLE_NOT_SET | COAP_ROLE_SERVER | COAP_ROLE_NOTIFICATION | COAP_ROLE_CLIENT

datatype CoAP_InteractionState_t =
    COAP_STATE_NOT_SET
  | COAP_STATE_HANDLE_REQUEST
  | COAP_STATE_RESOURCE_POSTPONE_EMPTY_ACK_SENT
  | COAP_STATE_RESPONSE_SENT
  | COAP_STATE_READY_TO_NOTIFY
  | COAP_STATE_NOTIFICATION_SENT
  | COAP_STATE_READY_TO_REQUEST
  | COAP_STATE_WAITING_RESPONSE
  | COAP_STATE_HANDLE_RESPONSE
  | COAP_STATE_FINISHED

datatype CoAP_ReliabilityState_t = NOT_SET | ACK_SET | RST_SET

record CoAP_Interaction =
  ia_addr :: addr
  Role :: CoAP_InteractionRole_t
  State :: CoAP_InteractionState_t
  pRes :: "addr option"
  pObserver :: "addr option"
  RemoteEp :: NetEp
  ia_ifID :: u8
  UpdatePendingNotification :: bool
  RetransCounter :: u8
  AckTimeout :: u32
  SleepUntil :: u32
  pReqMsg :: "CoAP_Message option"
  ReqReliabilityState :: CoAP_ReliabilityState_t
  ReqMetaInfo :: MetaInfo
  pRespMsg :: "CoAP_Message option"
  RespReliabilityState :: CoAP_ReliabilityState_t
  RespMetaInfo :: MetaInfo
  RespCB :: "fnptr option"

text \<open>
  The stack: the machine of the message layer, the list of interactions (\<open>CoAP.pInteractions\<close>), the
  resource list with its counter, and in \<open>app\<close> the state of the application's resources.
\<close>

record 'x coap = hal +
  pInteractions :: "CoAP_Interaction list"
  pResList :: "CoAP_Res list"
  ResListMembers :: u32
  app :: 'x

text \<open>
  A handler gets the request and the prepared response and may change the whole stack (the LED
  resource starts notifications from its handler); a notifier fills in the response and uses the
  allocator; a callback gets the response and the sender. \<open>None\<close> is undefined behaviour.
\<close>

record 'x env =
  drv :: driver
  call_handler :: "fnptr \<Rightarrow> CoAP_Message \<Rightarrow> CoAP_Message \<Rightarrow> 'x coap \<Rightarrow>
    (CoAP_HandlerResult_t \<times> CoAP_Message \<times> 'x coap) option"
  call_notifier :: "fnptr \<Rightarrow> addr option \<Rightarrow> CoAP_Message \<Rightarrow> 'x coap \<Rightarrow>
    (CoAP_HandlerResult_t \<times> CoAP_Message \<times> bget_state) option"
  call_callback :: "fnptr \<Rightarrow> CoAP_Message option \<Rightarrow> NetEp \<Rightarrow> 'x coap \<Rightarrow> 'x coap option"

subsection \<open>Pointers\<close>

definition get_res :: "addr \<Rightarrow> 'x coap \<Rightarrow> CoAP_Res option" where
  "get_res p w = find (\<lambda>r. res_addr r = p) (pResList w)"

definition upd_res :: "addr \<Rightarrow> (CoAP_Res \<Rightarrow> CoAP_Res) \<Rightarrow> 'x coap \<Rightarrow> 'x coap" where
  "upd_res p f w = w\<lparr>pResList := map (\<lambda>r. if res_addr r = p then f r else r) (pResList w)\<rparr>"

definition get_ia :: "addr \<Rightarrow> 'x coap \<Rightarrow> CoAP_Interaction option" where
  "get_ia p w = find (\<lambda>i. ia_addr i = p) (pInteractions w)"

definition upd_ia :: "addr \<Rightarrow> (CoAP_Interaction \<Rightarrow> CoAP_Interaction) \<Rightarrow> 'x coap \<Rightarrow> 'x coap" where
  "upd_ia p f w = w\<lparr>pInteractions := map (\<lambda>i. if ia_addr i = p then f i else i) (pInteractions w)\<rparr>"

subsection \<open>The resource list\<close>

definition CoAP_AppendResourceToList ::
  "CoAP_Res list \<Rightarrow> CoAP_Res option \<Rightarrow> CoAP_Result_t \<times> CoAP_Res list" where
  "CoAP_AppendResourceToList pListStart pResToAdd =
    (case pResToAdd of
       None \<Rightarrow> (COAP_ERR_ARGUMENT, pListStart)
     | Some r \<Rightarrow> (if pListStart = [] then (COAP_OK, [r]) else (COAP_OK, pListStart @ [r])))"

definition CoAP_FreeResource :: "CoAP_Res \<Rightarrow> bget_state \<Rightarrow> bget_state" where
  "CoAP_FreeResource pResource h =
    (let h = CoAP_FreeOptionList (pUri pResource) h;
         h = coap_mem_release (map_option fst (pDescription pResource)) h
     in coap_mem_release (Some (res_addr pResource)) h)"

text \<open>A null search list means the stack's own list; an empty list is the null pointer.\<close>

definition CoAP_FindResourceByUri :: "CoAP_Res list \<Rightarrow> options \<Rightarrow> 'x coap \<Rightarrow> CoAP_Res option" where
  "CoAP_FindResourceByUri pResListToSearchIn pUriToMatch w =
    find (\<lambda>r. CoAP_UriOptionsAreEqual (pUri r) pUriToMatch)
      (if pResListToSearchIn \<noteq> [] then pResListToSearchIn else pResList w)"

text \<open>The copy of the description is made without a check of the allocation.\<close>

definition CoAP_CreateResource ::
  "u8 list option \<Rightarrow> u8 list \<Rightarrow> CoAP_ResOpts \<Rightarrow> fnptr option \<Rightarrow> fnptr option \<Rightarrow> 'x coap \<Rightarrow>
     (addr option \<times> 'x coap) option" where
  "CoAP_CreateResource Uri Descr opts pHandlerFkt pNotifierFkt w =
    (case coap_mem_get0 sizeof_CoAP_Res (heap w) of
       (None, h) \<Rightarrow> Some (None, w\<lparr>heap := h\<rparr>)
     | (Some p, h) \<Rightarrow>
         do {
           (descr, h) \<leftarrow>
             (if Descr \<noteq> [] then
                (case coap_mem_get (int (length Descr) + 1) h of
                   (None, h) \<Rightarrow> None
                 | (Some d, h) \<Rightarrow> Some (Some (d, Descr), h))
              else Some (None, h));
           let (_, uri, h) = CoAP_AppendUriOptionsFromString [] Uri h;
           let r = \<lparr>res_addr = p, pDescription = descr, UpdateCnt = 0, Options = opts, pUri = uri,
                    pListObservers = [], Handler = pHandlerFkt, Notifier = pNotifierFkt\<rparr>;
           let (_, rs) = CoAP_AppendResourceToList (pResList w) (Some r);
           Some (Some p, w\<lparr>heap := h, pResList := rs, ResListMembers := ResListMembers w + 1\<rparr>)
         })"

subsection \<open>Observers of a resource\<close>

definition observer_matches :: "u8 \<Rightarrow> NetEp \<Rightarrow> u64 \<Rightarrow> CoAP_Observer \<Rightarrow> bool" where
  "observer_matches IfId ep token ob \<longleftrightarrow>
     token = Token ob \<and> IfId = IfID ob \<and> EpAreEqual (Some ep) (Some (Ep ob))"

definition CoAP_RemoveObserverFromResource ::
  "CoAP_Observer list \<Rightarrow> u8 \<Rightarrow> NetEp \<Rightarrow> u64 \<Rightarrow> bget_state \<Rightarrow>
     CoAP_Result_t \<times> CoAP_Observer list \<times> bget_state" where
  "CoAP_RemoveObserverFromResource obs IfId ep token h =
    (case find (observer_matches IfId ep token) obs of
       None \<Rightarrow> (COAP_ERR_NOT_FOUND, obs, h)
     | Some ob \<Rightarrow>
         (let (obs, h) = CoAP_UnlinkObserverFromList obs (obs_addr ob) True h
          in (COAP_REMOVED, obs, h)))"

subsection \<open>The resource directory \<open>/.well-known/core\<close>\<close>

text \<open>
  \<open>res_link\<close> is the text one resource adds: the Uri options, each followed by a slash, in angle
  brackets, then title, content format and \<open>;obs\<close>. A null title handed to \<open>%s\<close> is undefined. The buffer
  has 64 bytes per resource and 64 more; writing past it is undefined.
\<close>

fun digits :: "nat \<Rightarrow> u8 list" where
  "digits n = (if n < 10 then [48 + of_nat n] else digits (n div 10) @ [48 + of_nat (n mod 10)])"

declare digits.simps [simp del]

definition str_title :: "u8 list" where "str_title = [62, 59, 116, 105, 116, 108, 101, 61, 34]"
definition str_cf :: "u8 list" where "str_cf = [34, 59, 99, 102, 61]"
definition str_obs :: "u8 list" where "str_obs = [59, 111, 98, 115, 44]"

definition res_link :: "CoAP_Res \<Rightarrow> u8 list option" where
  "res_link r =
    (let uri = concat (map (\<lambda>opt. Value opt @ [47]) (pUri r))
     in if Cf (Options r) = COAP_CF_LINK_FORMAT then Some ([60] @ uri @ [62, 44])
        else (case pDescription r of
                None \<Rightarrow> None
              | Some (_, d) \<Rightarrow>
                  Some ([60] @ uri @ str_title @ d @ str_cf @ digits (unat (Cf (Options r))) @
                        (if Notifier r \<noteq> None then str_obs else [44]))))"

fun res_links :: "CoAP_Res list \<Rightarrow> u8 list option" where
  "res_links [] = Some []"
| "res_links (r # rs) = do { a \<leftarrow> res_link r; b \<leftarrow> res_links rs; Some (a @ b) }"

definition get_only :: "u8 list" where
  "get_only = [67, 111, 65, 80, 32, 71, 69, 84, 32, 111, 110, 108, 121, 33]"

text \<open>
  \<open>err_addr\<close> stands for the address of the error text on the stack, which is no buffer of the heap.
\<close>

definition WellKnown_GetHandler ::
  "addr \<Rightarrow> CoAP_Message \<Rightarrow> CoAP_Message \<Rightarrow> 'x coap \<Rightarrow> (CoAP_HandlerResult_t \<times> CoAP_Message \<times> 'x coap) option" where
  "WellKnown_GetHandler err_addr pReq pResp w =
    (if Code pReq \<noteq> REQ_GET then
       do {
         (_, pResp, h) \<leftarrow> CoAP_SetPayload (Some pReq) (pResp\<lparr>Code := RESP_ERROR_BAD_REQUEST_4_00\<rparr>) err_addr
           (mem_of get_only) (of_nat (length get_only)) True (heap w);
         Some (HANDLER_ERROR, pResp, w\<lparr>heap := h\<rparr>)
       }
     else
       let size = int (unat ((ResListMembers w + 1) * 64))
       in (case coap_mem_get0 size (heap w) of
             (None, h) \<Rightarrow> Some (HANDLER_ERROR, pResp, w\<lparr>heap := h\<rparr>)
           | (Some pStr, h) \<Rightarrow>
               do {
                 links \<leftarrow> res_links (pResList w);
                 (if int (length links) + 1 > size then None else Some ());
                 let links = takeWhile (\<lambda>c. c \<noteq> 0) links;
                 (_, pResp, h) \<leftarrow> CoAP_SetPayload (Some pReq) pResp pStr (mem_of links)
                   (of_nat (length links)) True h;
                 let h = coap_mem_release (Some pStr) h;
                 let (_, pResp, h) = AddCfOptionToMsg pResp COAP_CF_LINK_FORMAT h;
                 Some (HANDLER_OK, pResp, w\<lparr>heap := h\<rparr>)
               }))"

definition well_known_core :: "u8 list" where
  "well_known_core = [47, 46, 119, 101, 108, 108, 45, 107, 110, 111, 119, 110, 47, 99, 111, 114, 101]"

text \<open>\<open>WELL_KNOWN\<close> is the number of the function pointer to \<open>WellKnown_GetHandler\<close>.\<close>

definition WELL_KNOWN :: fnptr where
  "WELL_KNOWN = 0"

definition CoAP_InitResources :: "'x coap \<Rightarrow> (addr option \<times> 'x coap) option" where
  "CoAP_InitResources w =
     CoAP_CreateResource (Some well_known_core) [] \<lparr>Cf = COAP_CF_LINK_FORMAT, Flags = RES_OPT_GET, ETag = 0\<rparr>
       (Some WELL_KNOWN) None w"

end
