(* ===== verification/Coap_Interaction.thy ===== *)
theory Coap_Interaction imports Coap_Resource begin

section \<open>Interactions (\<open>coap_interaction.c\<close>)\<close>

text \<open>
  The list of interactions and the functions that start, move, acknowledge and delete them. The list
  functions work on the list and the address of a node. A node that is moved to the end has to be in
  the list: all callers move nodes of the list.
\<close>

definition sizeof_CoAP_Interaction :: int where
  "sizeof_CoAP_Interaction = 100"

definition no_meta :: MetaInfo where
  "no_meta = \<lparr>MetaType = META_INFO_NONE, HopCount = 0, RSSI = 0\<rparr>"

text \<open>Fields the function does not assign keep the zeros of \<open>coap_mem_get0\<close>.\<close>

definition new_interaction :: "addr \<Rightarrow> CoAP_Interaction" where
  "new_interaction p =
    \<lparr>ia_addr = p, Role = COAP_ROLE_NOT_SET, State = COAP_STATE_NOT_SET, pRes = None, pObserver = None,
     RemoteEp = null_ep, ia_ifID = 0, UpdatePendingNotification = False, RetransCounter = 0, AckTimeout = 0,
     SleepUntil = 0, pReqMsg = None, ReqReliabilityState = NOT_SET, ReqMetaInfo = no_meta, pRespMsg = None,
     RespReliabilityState = NOT_SET, RespMetaInfo = no_meta, RespCB = None\<rparr>"

definition CoAP_AllocNewInteraction :: "bget_state \<Rightarrow> CoAP_Interaction option \<times> bget_state" where
  "CoAP_AllocNewInteraction h =
    (case coap_mem_get0 sizeof_CoAP_Interaction h of
       (None, h) \<Rightarrow> (None, h)
     | (Some p, h) \<Rightarrow> (Some (new_interaction p), h))"

definition CoAP_FreeInteraction :: "CoAP_Interaction \<Rightarrow> bget_state \<Rightarrow> bget_state" where
  "CoAP_FreeInteraction ia h =
    (let h = CoAP_free_Message (pReqMsg ia) h;
         h = CoAP_free_Message (pRespMsg ia) h
     in coap_mem_release (Some (ia_addr ia)) h)"

subsection \<open>List functions\<close>

fun CoAP_UnlinkInteractionFromList ::
  "CoAP_Interaction list \<Rightarrow> addr \<Rightarrow> bool \<Rightarrow> bget_state \<Rightarrow> CoAP_Interaction list \<times> bget_state" where
  "CoAP_UnlinkInteractionFromList [] p FreeUnlinked h = ([], h)"
| "CoAP_UnlinkInteractionFromList (ia # ias) p FreeUnlinked h =
    (if ia_addr ia = p then (ias, if FreeUnlinked then CoAP_FreeInteraction ia h else h)
     else let (ias', h') = CoAP_UnlinkInteractionFromList ias p FreeUnlinked h in (ia # ias', h'))"

definition has_message_id :: "u16 \<Rightarrow> CoAP_Message option \<Rightarrow> bool" where
  "has_message_id mid m = (case m of None \<Rightarrow> False | Some m \<Rightarrow> MessageID m = mid)"

definition matches_id :: "u16 \<Rightarrow> u8 \<Rightarrow> NetEp \<Rightarrow> CoAP_Interaction \<Rightarrow> bool" where
  "matches_id MsgID ifID RstEp ia \<longleftrightarrow>
     ia_ifID ia = ifID \<and> (has_message_id MsgID (pReqMsg ia) \<or> has_message_id MsgID (pRespMsg ia)) \<and>
     EpAreEqual (Some (RemoteEp ia)) (Some RstEp)"

fun CoAP_UnlinkInteractionFromListByID ::
  "CoAP_Interaction list \<Rightarrow> u16 \<Rightarrow> u8 \<Rightarrow> NetEp \<Rightarrow> bool \<Rightarrow> bget_state \<Rightarrow>
     CoAP_Result_t \<times> CoAP_Interaction list \<times> bget_state" where
  "CoAP_UnlinkInteractionFromListByID [] MsgID ifID RstEp FreeUnlinked h = (COAP_NOT_FOUND, [], h)"
| "CoAP_UnlinkInteractionFromListByID (ia # ias) MsgID ifID RstEp FreeUnlinked h =
    (if matches_id MsgID ifID RstEp ia
     then (COAP_OK, ias, if FreeUnlinked then CoAP_FreeInteraction ia h else h)
     else let (res, ias', h') = CoAP_UnlinkInteractionFromListByID ias MsgID ifID RstEp FreeUnlinked h
          in (res, ia # ias', h'))"

definition CoAP_AppendInteractionToList ::
  "CoAP_Interaction list \<Rightarrow> CoAP_Interaction option \<Rightarrow> CoAP_Result_t \<times> CoAP_Interaction list" where
  "CoAP_AppendInteractionToList pListStart pInteractionToAdd =
    (case pInteractionToAdd of
       None \<Rightarrow> (COAP_ERR_ARGUMENT, pListStart)
     | Some ia \<Rightarrow> (if pListStart = [] then (COAP_OK, [ia]) else (COAP_OK, pListStart @ [ia])))"

definition CoAP_MoveInteractionToListEnd ::
  "CoAP_Interaction list \<Rightarrow> addr \<Rightarrow> CoAP_Interaction list option" where
  "CoAP_MoveInteractionToListEnd ias p =
    (case find (\<lambda>i. ia_addr i = p) ias of
       None \<Rightarrow> None
     | Some ia \<Rightarrow>
         Some (snd (CoAP_AppendInteractionToList (filter (\<lambda>i. ia_addr i \<noteq> p) ias) (Some ia))))"

subsection \<open>Timers and access\<close>

definition ACK_TIMEOUT :: u32 where "ACK_TIMEOUT = 2"

definition CoAP_SetSleepInteraction :: "addr \<Rightarrow> u32 \<Rightarrow> 'x coap \<Rightarrow> 'x coap" where
  "CoAP_SetSleepInteraction p seconds w = upd_ia p (\<lambda>i. i\<lparr>SleepUntil := rtc_1Hz w + seconds\<rparr>) w"

fun wait_time :: "nat \<Rightarrow> u32" where
  "wait_time 0 = ACK_TIMEOUT"
| "wait_time (Suc n) = wait_time n * ACK_TIMEOUT"

definition CoAP_EnableAckTimeout :: "addr \<Rightarrow> u8 \<Rightarrow> 'x coap \<Rightarrow> 'x coap" where
  "CoAP_EnableAckTimeout p retryNum w =
     upd_ia p (\<lambda>i. i\<lparr>AckTimeout := rtc_1Hz w + wait_time (unat retryNum)\<rparr>) w"

definition CoAP_GetLongestPendingInteraction :: "'x coap \<Rightarrow> CoAP_Interaction option" where
  "CoAP_GetLongestPendingInteraction w = (case pInteractions w of [] \<Rightarrow> None | ia # _ \<Rightarrow> Some ia)"

text \<open>The loop ends at the last node without looking at it; the head is looked at before the loop.\<close>

fun search_mid :: "u16 \<Rightarrow> CoAP_Interaction list \<Rightarrow> CoAP_Interaction option" where
  "search_mid mId (ia # ia' # ias) =
    (if has_message_id mId (pReqMsg ia) then Some ia else search_mid mId (ia' # ias))"
| "search_mid mId _ = None"

definition CoAP_GetInteractionByMessageID :: "u16 \<Rightarrow> 'x coap \<Rightarrow> CoAP_Interaction option" where
  "CoAP_GetInteractionByMessageID mId w =
    (case pInteractions w of
       [] \<Rightarrow> None
     | ia # ias \<Rightarrow>
         if has_message_id mId (pReqMsg ia) then Some ia else search_mid mId (ia # ias))"

definition CoAP_DeleteInteraction :: "addr \<Rightarrow> 'x coap \<Rightarrow> 'x coap" where
  "CoAP_DeleteInteraction p w =
    (let (ias, h) = CoAP_UnlinkInteractionFromList (pInteractions w) p True (heap w)
     in w\<lparr>pInteractions := ias, heap := h\<rparr>)"

definition CoAP_ResetInteractionByID :: "u16 \<Rightarrow> u8 \<Rightarrow> NetEp \<Rightarrow> 'x coap \<Rightarrow> CoAP_Result_t \<times> 'x coap" where
  "CoAP_ResetInteractionByID MsgID ifID RstEp w =
    (let (res, ias, h) = CoAP_UnlinkInteractionFromListByID (pInteractions w) MsgID ifID RstEp True (heap w)
     in (res, w\<lparr>pInteractions := ias, heap := h\<rparr>))"

definition CoAP_AckInteractionByID :: "u16 \<Rightarrow> u8 \<Rightarrow> NetEp \<Rightarrow> CoAP_Result_t" where
  "CoAP_AckInteractionByID MsgID ifID fromEp = COAP_NOT_FOUND"

definition CoAP_EnqueueLastInteraction :: "addr \<Rightarrow> 'x coap \<Rightarrow> 'x coap option" where
  "CoAP_EnqueueLastInteraction p w =
     map_option (\<lambda>ias. w\<lparr>pInteractions := ias\<rparr>) (CoAP_MoveInteractionToListEnd (pInteractions w) p)"

subsection \<open>Acknowledgements and resets\<close>

definition rel_matches :: "u16 \<Rightarrow> NetEp \<Rightarrow> CoAP_Interaction \<Rightarrow> bool" where
  "rel_matches mID fromEp ia =
    (if Role ia = COAP_ROLE_SERVER \<or> Role ia = COAP_ROLE_NOTIFICATION
     then has_message_id mID (pRespMsg ia) \<and> EpAreEqual (Some fromEp) (Some (RemoteEp ia))
     else if Role ia = COAP_ROLE_CLIENT
     then has_message_id mID (pReqMsg ia) \<and> EpAreEqual (Some fromEp) (Some (RemoteEp ia))
     else False)"

definition set_reliability :: "CoAP_ReliabilityState_t \<Rightarrow> CoAP_Interaction \<Rightarrow> CoAP_Interaction" where
  "set_reliability st ia =
    (if Role ia = COAP_ROLE_CLIENT then ia\<lparr>ReqReliabilityState := st\<rparr> else ia\<lparr>RespReliabilityState := st\<rparr>)"

definition CoAP_ApplyReliabilityStateToInteraction ::
  "CoAP_ReliabilityState_t \<Rightarrow> u16 \<Rightarrow> u8 \<Rightarrow> NetEp \<Rightarrow> 'x coap \<Rightarrow> addr option \<times> 'x coap" where
  "CoAP_ApplyReliabilityStateToInteraction stateToAdd mID ifID fromEp w =
    (case find (rel_matches mID fromEp) (pInteractions w) of
       None \<Rightarrow> (None, w)
     | Some ia \<Rightarrow> (Some (ia_addr ia), upd_ia (ia_addr ia) (set_reliability stateToAdd) w))"

subsection \<open>Starting interactions\<close>

text \<open>
  The message belongs to the interaction when the function succeeds, and still to the caller when
  it fails.
\<close>

definition CoAP_StartNewClientInteraction ::
  "CoAP_Message option \<Rightarrow> u8 \<Rightarrow> NetEp \<Rightarrow> fnptr option \<Rightarrow> 'x coap \<Rightarrow> CoAP_Result_t \<times> 'x coap" where
  "CoAP_StartNewClientInteraction pMsgReq ifID ServerEp cb w =
    (case pMsgReq of
       None \<Rightarrow> (COAP_ERR_ARGUMENT, w)
     | Some req \<Rightarrow>
         if CoAP_MsgIsRequest req = False then (COAP_ERR_ARGUMENT, w)
         else
           (case CoAP_AllocNewInteraction (heap w) of
              (None, h) \<Rightarrow> (COAP_ERR_OUT_OF_MEMORY, w\<lparr>heap := h\<rparr>)
            | (Some newIA, h) \<Rightarrow>
                (let newIA = newIA\<lparr>pReqMsg := Some req, ia_ifID := ifID,
                       RemoteEp := CopyEndpoints (RemoteEp newIA) ServerEp, RespCB := cb,
                       Role := COAP_ROLE_CLIENT, State := COAP_STATE_READY_TO_REQUEST\<rparr>;
                     (_, ias) = CoAP_AppendInteractionToList (pInteractions w) (Some newIA)
                 in (COAP_OK, w\<lparr>heap := h, pInteractions := ias\<rparr>))))"

definition CoAP_StartNewGetRequest ::
  "u8 list option \<Rightarrow> u8 \<Rightarrow> NetEp \<Rightarrow> fnptr option \<Rightarrow> 'x coap \<Rightarrow> CoAP_Result_t \<times> 'x coap" where
  "CoAP_StartNewGetRequest UriString ifID ServerEp cb w =
    (let (tok, w) = CoAP_GenerateToken w;
         (mid, w) = CoAP_GetNextMid w
     in (case CoAP_CreateMessage CON REQ_GET mid None 0 0 tok (heap w) of
           (None, h) \<Rightarrow> (COAP_ERR_OUT_OF_MEMORY, w\<lparr>heap := h\<rparr>)
         | (Some req, h) \<Rightarrow>
             (let (_, opts, h) = CoAP_AppendUriOptionsFromString (pOptionsList req) UriString h
              in CoAP_StartNewClientInteraction (Some (req\<lparr>pOptionsList := opts\<rparr>)) ifID ServerEp cb
                   (w\<lparr>heap := h\<rparr>))))"

text \<open>The loop for a duplicate: \<open>None\<close> when a server interaction without a request is met.\<close>

fun find_duplicate ::
  "u16 \<Rightarrow> u8 \<Rightarrow> NetEp \<Rightarrow> CoAP_Interaction list \<Rightarrow> CoAP_Interaction option option" where
  "find_duplicate mid ifID ep [] = Some None"
| "find_duplicate mid ifID ep (ia # ias) =
    (if Role ia = COAP_ROLE_SERVER \<and> ia_ifID ia = ifID then
       (case pReqMsg ia of
          None \<Rightarrow> None
        | Some req \<Rightarrow>
            if MessageID req = mid \<and> EpAreEqual (Some (RemoteEp ia)) (Some ep) then Some (Some ia)
            else find_duplicate mid ifID ep ias)
     else find_duplicate mid ifID ep ias)"

definition CoAP_StartNewServerInteraction ::
  "driver \<Rightarrow> CoAP_Message \<Rightarrow> addr option \<Rightarrow> u8 \<Rightarrow> NetPacket \<Rightarrow> 'x coap \<Rightarrow> (CoAP_Result_t \<times> 'x coap) option" where
  "CoAP_StartNewServerInteraction d pMsgReq res ifID pRawPckt w =
    (if \<not> CoAP_MsgIsRequest pMsgReq then Some (COAP_ERR_ARGUMENT, w)
     else
       (case find_duplicate (MessageID pMsgReq) ifID (Sender pRawPckt) (pInteractions w) of
          None \<Rightarrow> None
        | Some (Some ia) \<Rightarrow>
            do {
              req \<leftarrow> pReqMsg ia;
              w \<leftarrow> (if Type req = CON \<and> State ia = COAP_STATE_RESOURCE_POSTPONE_EMPTY_ACK_SENT
                   then map_option snd (CoAP_SendEmptyAck d (MessageID req) (ia_ifID ia) (RemoteEp ia) w)
                   else Some w);
              Some (COAP_ERR_EXISTING, w)
            }
        | Some None \<Rightarrow>
            (case CoAP_AllocNewInteraction (heap w) of
               (None, h) \<Rightarrow> Some (COAP_ERR_OUT_OF_MEMORY, w\<lparr>heap := h\<rparr>)
             | (Some newIA, h) \<Rightarrow>
                 (let newIA = newIA\<lparr>ia_ifID := ifID, RespReliabilityState := NOT_SET, RespCB := None,
                        pRes := res, Role := COAP_ROLE_SERVER, State := COAP_STATE_HANDLE_REQUEST,
                        ReqMetaInfo := PktMetaInfo pRawPckt, ReqReliabilityState := NOT_SET,
                        pReqMsg := Some pMsgReq,
                        RemoteEp := CopyEndpoints (RemoteEp newIA) (Sender pRawPckt)\<rparr>;
                      (_, ias) = CoAP_AppendInteractionToList (pInteractions w) (Some newIA)
                  in Some (COAP_OK, w\<lparr>heap := h, pInteractions := ias\<rparr>)))))"

subsection \<open>Observers\<close>

definition CoAP_RemoveInteractionsObserver ::
  "CoAP_Interaction \<Rightarrow> u64 \<Rightarrow> 'x coap \<Rightarrow> (CoAP_Result_t \<times> 'x coap) option" where
  "CoAP_RemoveInteractionsObserver ia token w =
    do {
      rp \<leftarrow> pRes ia;
      r \<leftarrow> get_res rp w;
      let (res, obs, h) = CoAP_RemoveObserverFromResource (pListObservers r) (ia_ifID ia) (RemoteEp ia) token (heap w);
      Some (res, upd_res rp (\<lambda>r. r\<lparr>pListObservers := obs\<rparr>) (w\<lparr>heap := h\<rparr>))
    }"

text \<open>The options a new observer keeps; \<open>False\<close> when a copy failed.\<close>

fun copy_observer_options :: "options \<Rightarrow> options \<Rightarrow> bget_state \<Rightarrow> bool \<times> options \<times> bget_state" where
  "copy_observer_options [] dst h = (True, dst, h)"
| "copy_observer_options (opt # opts) dst h =
    (if Number opt = OPT_NUM_URI_QUERY \<or> Number opt = OPT_NUM_OBSERVE then
       (case CoAP_AppendOptionToList dst (Number opt) (Value opt) (Length opt) h of
          (res, dst, h) \<Rightarrow> if res \<noteq> COAP_OK then (False, dst, h) else copy_observer_options opts dst h)
     else copy_observer_options opts dst h)"

definition is_pending_notification :: "u64 \<Rightarrow> u8 \<Rightarrow> NetEp \<Rightarrow> CoAP_Interaction \<Rightarrow> bool option" where
  "is_pending_notification token ifID ep ia =
    (if Role ia = COAP_ROLE_NOTIFICATION then
       map_option (\<lambda>m. Token64 m = token \<and> ia_ifID ia = ifID \<and> EpAreEqual (Some (RemoteEp ia)) (Some ep))
         (pRespMsg ia)
     else Some False)"

fun find_pending :: "u64 \<Rightarrow> u8 \<Rightarrow> NetEp \<Rightarrow> CoAP_Interaction list \<Rightarrow> addr option option" where
  "find_pending token ifID ep [] = Some None"
| "find_pending token ifID ep (ia # ias) =
    (case is_pending_notification token ifID ep ia of
       None \<Rightarrow> None
     | Some b \<Rightarrow> if b then Some (Some (ia_addr ia)) else find_pending token ifID ep ias)"

text \<open>\<open>register_observer\<close> is the branch for the option value 0.\<close>

definition register_observer ::
  "CoAP_Interaction \<Rightarrow> CoAP_Message \<Rightarrow> addr \<Rightarrow> CoAP_Res \<Rightarrow> 'x coap \<Rightarrow> CoAP_Result_t \<times> 'x coap" where
  "register_observer ia req rp r w =
    (case CoAP_AllocNewObserver (heap w) of
       (None, h) \<Rightarrow> (COAP_ERR_OUT_OF_MEMORY, w\<lparr>heap := h\<rparr>)
     | (Some ob, h) \<Rightarrow>
         let ob = ob\<lparr>Ep := RemoteEp ia, IfID := ia_ifID ia, Token := Token64 req\<rparr>;
             (ok, opts, h) = copy_observer_options (pOptionsList req) (pOptList ob) h;
             ob = ob\<lparr>pOptList := opts\<rparr>
         in if \<not> ok then (COAP_ERR_OUT_OF_MEMORY, w\<lparr>heap := CoAP_FreeObserver ob h\<rparr>)
            else
              let (obs, h) =
                    (case find (observer_matches (ia_ifID ia) (RemoteEp ia) (Token64 req)) (pListObservers r) of
                       None \<Rightarrow> (pListObservers r, h)
                     | Some old \<Rightarrow> CoAP_UnlinkObserverFromList (pListObservers r) (obs_addr old) True h);
                  (res, obs) = CoAP_AppendObserverToList obs (Some ob)
              in (res, upd_res rp (\<lambda>r. r\<lparr>pListObservers := obs\<rparr>) (w\<lparr>heap := h\<rparr>)))"

definition CoAP_HandleObservationInReq :: "addr \<Rightarrow> 'x coap \<Rightarrow> (CoAP_Result_t \<times> 'x coap) option" where
  "CoAP_HandleObservationInReq p w =
    do {
      ia \<leftarrow> get_ia p w;
      rp \<leftarrow> pRes ia;
      r \<leftarrow> get_res rp w;
      (if Notifier r = None then Some (COAP_ERR_NOT_FOUND, w)
       else
         (case pReqMsg ia of
            None \<Rightarrow> Some (COAP_ERR_ARGUMENT, w)
          | Some req \<Rightarrow>
              let (res, obsVal) = GetObserveOptionFromMsg req
              in if res \<noteq> COAP_OK then Some (res, w)
                 else if obsVal = OBSERVE_OPT_REGISTER then Some (register_observer ia req rp r w)
                 else if obsVal = OBSERVE_OPT_DEREGISTER then
                   do {
                     (_, w) \<leftarrow> CoAP_RemoveInteractionsObserver ia (Token64 req) w;
                     pending \<leftarrow> find_pending (Token64 req) (ia_ifID ia) (RemoteEp ia) (pInteractions w);
                     Some (COAP_ERR_NOT_FOUND,
                           case pending of None \<Rightarrow> w | Some q \<Rightarrow> CoAP_DeleteInteraction q w)
                   }
                 else Some (COAP_BAD_OPTION_VAL, w)))
    }"

subsection \<open>Notifications\<close>

definition ongoing :: "addr \<Rightarrow> CoAP_Observer \<Rightarrow> CoAP_Interaction \<Rightarrow> bool" where
  "ongoing rp ob ia \<longleftrightarrow> Role ia = COAP_ROLE_NOTIFICATION \<and> pRes ia = Some rp \<and> ia_ifID ia = IfID ob \<and>
     EpAreEqual (Some (RemoteEp ia)) (Some (Ep ob))"

text \<open>
  \<open>notify_observer\<close> is the body of the loop for an observer without an ongoing notification. \<open>False\<close>
  stops the loop: no memory for an interaction. When the notifier leaves an error code, the observer
  is removed and the loop goes on without appending or releasing the new interaction. A notifier's
  result is compared with \<open>COAP_OK\<close>, which is \<open>HANDLER_OK\<close> as a number.
\<close>

definition notify_observer ::
  "'x env \<Rightarrow> addr \<Rightarrow> CoAP_Observer \<Rightarrow> 'x coap \<Rightarrow> (bool \<times> 'x coap) option" where
  "notify_observer env rp ob w =
    (case CoAP_AllocNewInteraction (heap w) of
       (None, h) \<Rightarrow> Some (False, w\<lparr>heap := h\<rparr>)
     | (Some newIA, h) \<Rightarrow>
         do {
           let (mid, w) = CoAP_GetNextMid (w\<lparr>heap := h\<rparr>);
           let (m, h) = CoAP_CreateMessage CON RESP_SUCCESS_CONTENT_2_05 mid None 0 PREFERED_PAYLOAD_SIZE
                          (Token ob) (heap w);
           let w = w\<lparr>heap := h\<rparr>;
           r \<leftarrow> get_res rp w;
           (ok, m, h) \<leftarrow>
             (case (m, Notifier r) of
                (Some resp, Some f) \<Rightarrow>
                  map_option (\<lambda>(n, resp, h). (handler_code n = 0, Some resp, h))
                    (call_notifier env f (Some (obs_addr ob)) resp w)
              | _ \<Rightarrow> Some (False, m, heap w));
           let w = w\<lparr>heap := h\<rparr>;
           (case (ok, m) of
              (True, Some resp) \<Rightarrow>
                let newIA = newIA\<lparr>Role := COAP_ROLE_NOTIFICATION, State := COAP_STATE_READY_TO_NOTIFY,
                      RemoteEp := Ep ob, ia_ifID := IfID ob, pRes := Some rp,
                      pObserver := Some (obs_addr ob), pRespMsg := Some resp\<rparr>
                in if Code resp \<ge> RESP_ERROR_BAD_REQUEST_4_00 then
                     map_option (\<lambda>(_, w). (True, w)) (CoAP_RemoveInteractionsObserver newIA (Token64 resp) w)
                   else
                     let (_, resp, h) = AddObserveOptionToMsg resp (UpdateCnt r) (heap w);
                         resp = (if Type resp = NON \<and> UpdateCnt r mod 20 = 0 then resp\<lparr>Type := CON\<rparr> else resp);
                         (_, ias) = CoAP_AppendInteractionToList (pInteractions w)
                                      (Some (newIA\<lparr>pRespMsg := Some resp\<rparr>))
                     in Some (True, w\<lparr>heap := h, pInteractions := ias\<rparr>)
            | _ \<Rightarrow> Some (True, w\<lparr>heap := CoAP_FreeInteraction (newIA\<lparr>pRespMsg := m\<rparr>) (heap w)\<rparr>))
         })"

fun notify_loop :: "'x env \<Rightarrow> addr \<Rightarrow> CoAP_Observer list \<Rightarrow> 'x coap \<Rightarrow> (CoAP_Result_t \<times> 'x coap) option" where
  "notify_loop env rp [] w = Some (COAP_OK, w)"
| "notify_loop env rp (ob # obs) w =
    (case find (ongoing rp ob) (pInteractions w) of
       Some ia \<Rightarrow> notify_loop env rp obs (upd_ia (ia_addr ia) (\<lambda>i. i\<lparr>UpdatePendingNotification := True\<rparr>) w)
     | None \<Rightarrow>
         (case notify_observer env rp ob w of
            None \<Rightarrow> None
          | Some (goon, w) \<Rightarrow>
              if goon then notify_loop env rp obs w else Some (COAP_ERR_OUT_OF_MEMORY, w)))"

definition CoAP_StartNotifyInteractions :: "'x env \<Rightarrow> addr \<Rightarrow> 'x coap \<Rightarrow> (CoAP_Result_t \<times> 'x coap) option" where
  "CoAP_StartNotifyInteractions env rp w =
    do { r \<leftarrow> get_res rp w; notify_loop env rp (pListObservers r) w }"

text \<open>\<open>coap_resource.c\<close>: the count is increased before the notifications start; their result is ignored.\<close>

definition CoAP_NotifyResourceObservers :: "'x env \<Rightarrow> addr \<Rightarrow> 'x coap \<Rightarrow> (CoAP_Result_t \<times> 'x coap) option" where
  "CoAP_NotifyResourceObservers env rp w =
    do {
      r \<leftarrow> get_res rp w;
      (_, w) \<leftarrow> CoAP_StartNotifyInteractions env rp (upd_res rp (\<lambda>r. r\<lparr>UpdateCnt := UpdateCnt r + 1\<rparr>) w);
      Some (COAP_OK, w)
    }"

end
