(* ===== verification/Coap_Main.thy ===== *)
theory Coap_Main imports Coap_Interaction begin

section \<open>The state machines (\<open>coap_main.c\<close>)\<close>

text \<open>
  Reception of a datagram, and the work loop that drives the interaction at the head of the list. Both
  return the new state of the stack, or \<open>None\<close> for undefined behaviour (a null or dangling pointer used).
  Printing is left out, but not the reads it makes: the text of a failed send reads the message id of
  the request, which a notification does not have.
\<close>

definition HOLDTIME_AFTER_NON_TRANSACTION_END :: u32 where "HOLDTIME_AFTER_NON_TRANSACTION_END = 0"
definition POSTPONE_WAIT_TIME_SEK :: u32 where "POSTPONE_WAIT_TIME_SEK = 3"
definition POSTPONE_MAX_WAIT_TIME :: u32 where "POSTPONE_MAX_WAIT_TIME = 30"
definition CLIENT_MAX_RESP_WAIT_TIME :: u32 where "CLIENT_MAX_RESP_WAIT_TIME = 45"
definition MAX_RETRANSMIT :: nat where "MAX_RETRANSMIT = 4"

definition CoAP_Init :: "addr option \<Rightarrow> int \<Rightarrow> 'x coap \<Rightarrow> (CoAP_Result_t \<times> 'x coap) option" where
  "CoAP_Init pMemory MemorySize w =
     map_option (\<lambda>(_, w). (COAP_OK, w)) (CoAP_InitResources (w\<lparr>heap := coap_mem_init pMemory MemorySize (heap w)\<rparr>))"

subsection \<open>Reception\<close>

text \<open>\<open>finish\<close> is the label \<open>END\<close>: the message has not become part of an interaction.\<close>

definition finish :: "CoAP_Message \<Rightarrow> 'x coap \<Rightarrow> 'x coap" where
  "finish pMsg w = w\<lparr>heap := CoAP_free_Message (Some pMsg) (heap w)\<rparr>"

definition attach_response :: "addr \<Rightarrow> CoAP_Message \<Rightarrow> 'x coap \<Rightarrow> 'x coap option" where
  "attach_response p pMsg w =
    do {
      ia \<leftarrow> get_ia p w;
      let w = w\<lparr>heap := CoAP_free_Message (pRespMsg ia) (heap w)\<rparr>;
      Some (upd_ia p (\<lambda>i. i\<lparr>pRespMsg := Some pMsg, State := COAP_STATE_HANDLE_RESPONSE\<rparr>) w)
    }"

fun find_client :: "u64 \<Rightarrow> NetEp \<Rightarrow> CoAP_Interaction list \<Rightarrow> CoAP_Interaction option option" where
  "find_client token ep [] = Some None"
| "find_client token ep (ia # ias) =
    (if Role ia = COAP_ROLE_CLIENT then
       (case pReqMsg ia of
          None \<Rightarrow> None
        | Some req \<Rightarrow>
            if Token64 req = token \<and> EpAreEqual (Some ep) (Some (RemoteEp ia)) then Some (Some ia)
            else find_client token ep ias)
     else find_client token ep ias)"

definition on_ack :: "u8 \<Rightarrow> NetEp \<Rightarrow> CoAP_Message \<Rightarrow> 'x coap \<Rightarrow> 'x coap option" where
  "on_ack ifID ep pMsg w =
    (case CoAP_ApplyReliabilityStateToInteraction ACK_SET (MessageID pMsg) ifID ep w of
       (None, w) \<Rightarrow> Some (finish pMsg w)
     | (Some p, w) \<Rightarrow>
         if Code pMsg \<noteq> EMPTY then
           do {
             ia \<leftarrow> get_ia p w;
             (if Role ia = COAP_ROLE_CLIENT then
                do {
                  req \<leftarrow> pReqMsg ia;
                  (if Token64 req = Token64 pMsg \<and> State ia = COAP_STATE_WAITING_RESPONSE
                   then attach_response p pMsg w else Some (finish pMsg w))
                }
              else Some (finish pMsg w))
           }
         else Some (finish pMsg w))"

definition on_request ::
  "'x env \<Rightarrow> u8 \<Rightarrow> NetPacket \<Rightarrow> addr option \<Rightarrow> CoAP_Message \<Rightarrow> 'x coap \<Rightarrow> 'x coap option" where
  "on_request env ifID pckt res pMsg w =
    do {
      (r, w) \<leftarrow> CoAP_StartNewServerInteraction (drv env) pMsg res ifID pckt w;
      (if r = COAP_OK then Some w
       else if r = COAP_ERR_EXISTING then Some (finish pMsg w)
       else if r = COAP_ERR_OUT_OF_MEMORY then
         do {
           w \<leftarrow> (if Type pMsg = CON then
                  map_option snd (CoAP_SendShortResp (drv env) ACK RESP_INTERNAL_SERVER_ERROR_5_00
                    (MessageID pMsg) (Token64 pMsg) ifID (Sender pckt) w)
                else Some w);
           Some (finish pMsg w)
         }
       else Some (finish pMsg w))
    }"

text \<open>A response to an interaction in another state is neither kept nor released.\<close>

definition on_separate_response ::
  "'x env \<Rightarrow> u8 \<Rightarrow> NetEp \<Rightarrow> CoAP_Message \<Rightarrow> 'x coap \<Rightarrow> 'x coap option" where
  "on_separate_response env ifID ep pMsg w =
    do {
      m \<leftarrow> find_client (Token64 pMsg) ep (pInteractions w);
      (case m of
         None \<Rightarrow>
           do {
             (_, w) \<leftarrow> CoAP_SendShortResp (drv env) RST EMPTY (MessageID pMsg) (Token64 pMsg) ifID ep w;
             Some (finish pMsg w)
           }
       | Some ia \<Rightarrow>
           do {
             w \<leftarrow> (if State ia = COAP_STATE_WAITING_RESPONSE \<or> State ia = COAP_STATE_HANDLE_RESPONSE
                  then attach_response (ia_addr ia) pMsg w else Some w);
             (if Type pMsg = CON then
                do {
                  (r, w) \<leftarrow> CoAP_SendShortResp (drv env) ACK EMPTY (MessageID pMsg) (Token64 pMsg) ifID ep w;
                  Some (if r = COAP_OK
                        then upd_ia (ia_addr ia) (\<lambda>i. i\<lparr>RespReliabilityState := ACK_SET\<rparr>) w else w)
                }
              else Some w)
           })
    }"

text \<open>\<open>dispatch\<close> is the switch over the type after the checks.\<close>

definition dispatch ::
  "'x env \<Rightarrow> u8 \<Rightarrow> NetPacket \<Rightarrow> addr option \<Rightarrow> CoAP_Message \<Rightarrow> 'x coap \<Rightarrow> 'x coap option" where
  "dispatch env ifID pckt res pMsg w =
    (case Type pMsg of
       RST \<Rightarrow> Some (finish pMsg (snd (CoAP_ApplyReliabilityStateToInteraction RST_SET (MessageID pMsg) ifID (Sender pckt) w)))
     | ACK \<Rightarrow> on_ack ifID (Sender pckt) pMsg w
     | _ \<Rightarrow> if CoAP_MsgIsRequest pMsg then on_request env ifID pckt res pMsg w
           else on_separate_response env ifID (Sender pckt) pMsg w)"

definition critical_reply ::
  "'x env \<Rightarrow> u8 \<Rightarrow> NetEp \<Rightarrow> CoAP_Message \<Rightarrow> 'x coap \<Rightarrow> 'x coap option" where
  "critical_reply env ifID ep pMsg w =
    (if Type pMsg = NON \<or> Type pMsg = ACK then Some (finish pMsg w)
     else if Type pMsg = CON then
       do {
         (_, w) \<leftarrow> (if CoAP_MsgIsRequest pMsg
                    then CoAP_SendShortResp (drv env) ACK RESP_BAD_OPTION_4_02 (MessageID pMsg) (Token64 pMsg) ifID ep w
                    else CoAP_SendEmptyRST (drv env) (MessageID pMsg) ifID ep w);
         Some (finish pMsg w)
       }
     else Some (finish pMsg w))"

definition not_found_reply ::
  "'x env \<Rightarrow> u8 \<Rightarrow> NetEp \<Rightarrow> CoAP_Message \<Rightarrow> 'x coap \<Rightarrow> 'x coap option" where
  "not_found_reply env ifID ep pMsg w =
    do {
      (_, w) \<leftarrow> (if Type pMsg = CON
                 then CoAP_SendShortResp (drv env) ACK RESP_NOT_FOUND_4_04 (MessageID pMsg) (Token64 pMsg) ifID ep w
                 else (let (mid, w) = CoAP_GetNextMid w
                       in CoAP_SendShortResp (drv env) NON RESP_NOT_FOUND_4_04 mid (Token64 pMsg) ifID ep w));
      Some (finish pMsg w)
    }"

definition handle_message :: "'x env \<Rightarrow> u8 \<Rightarrow> NetPacket \<Rightarrow> CoAP_Message \<Rightarrow> 'x coap \<Rightarrow> 'x coap option" where
  "handle_message env ifID pckt pMsg w =
    (let isRequest = CoAP_MsgIsRequest pMsg;
         res = CoAP_FindResourceByUri [] (pOptionsList pMsg) w
     in if Type pMsg = CON \<and> Code pMsg = EMPTY then
          do {
            (_, w) \<leftarrow> CoAP_SendEmptyRST (drv env) (MessageID pMsg) ifID (Sender pckt) w;
            Some (finish pMsg w)
          }
        else if Type pMsg = ACK \<and> isRequest then Some (finish pMsg w)
        else if Type pMsg = RST \<and> Code pMsg \<noteq> EMPTY then Some (finish pMsg w)
        else if isRequest \<and> (case res of None \<Rightarrow> True | Some r \<Rightarrow> Handler r = None)
        then not_found_reply env ifID (Sender pckt) pMsg w
        else if CoAP_CheckForUnknownCriticalOption (pOptionsList pMsg) \<noteq> 0
        then critical_reply env ifID (Sender pckt) pMsg w
        else dispatch env ifID pckt (if isRequest then map_option res_addr res else None) pMsg w)"

definition CoAP_onNewPacketHandler :: "'x env \<Rightarrow> u8 \<Rightarrow> NetPacket \<Rightarrow> 'x coap \<Rightarrow> 'x coap option" where
  "CoAP_onNewPacketHandler env ifID pckt w =
    (case CoAP_ParseMessageFromDatagram (pData pckt) (pkt_size pckt) w of
       None \<Rightarrow> None
     | Some (res, m, w) \<Rightarrow>
         if res = COAP_OK then do { pMsg \<leftarrow> m; handle_message env ifID pckt pMsg w } else Some w)"

subsection \<open>Sending the messages of an interaction\<close>

text \<open>A null message is read before the driver is called, unless the socket has no transmit function.\<close>

definition send_opt ::
  "driver \<Rightarrow> CoAP_Message option \<Rightarrow> u8 \<Rightarrow> NetEp \<Rightarrow> 'x coap \<Rightarrow>
     (CoAP_Result_t \<times> CoAP_Message option \<times> 'x coap) option" where
  "send_opt d m ifID ep w =
    (case m of
       Some m \<Rightarrow> map_option (\<lambda>(r, m, w). (r, Some m, w)) (CoAP_SendMsg d m ifID ep w)
     | None \<Rightarrow>
         do {
           i \<leftarrow> RetrieveSocket2 ifID (SocketCtrl w);
           (if Tx (SocketMemory (SocketCtrl w) ! i) = None then Some (COAP_NOT_FOUND, None, w) else None)
         })"

text \<open>The error path of every send: the request's message id is read for the text.\<close>

definition send_failed :: "CoAP_Interaction \<Rightarrow> 'x coap \<Rightarrow> 'x coap option" where
  "send_failed ia w = (case pReqMsg ia of None \<Rightarrow> None | Some _ \<Rightarrow> Some (CoAP_DeleteInteraction (ia_addr ia) w))"

definition SendResp ::
  "'x env \<Rightarrow> CoAP_Interaction \<Rightarrow> CoAP_InteractionState_t \<Rightarrow> 'x coap \<Rightarrow> (CoAP_Result_t \<times> 'x coap) option" where
  "SendResp env ia nextIAState w =
    do {
      (r, m, w) \<leftarrow> send_opt (drv env) (pRespMsg ia) (ia_ifID ia) (RemoteEp ia) w;
      let w = upd_ia (ia_addr ia) (\<lambda>i. i\<lparr>pRespMsg := m\<rparr>) w;
      (if r = COAP_OK then
         do {
           resp \<leftarrow> m;
           let w = (if Type resp = ACK then upd_ia (ia_addr ia) (\<lambda>i. i\<lparr>ReqReliabilityState := ACK_SET\<rparr>) w
                    else if Type resp = CON then CoAP_EnableAckTimeout (ia_addr ia) (RetransCounter ia) w
                    else w);
           let w = upd_ia (ia_addr ia) (\<lambda>i. i\<lparr>State := nextIAState\<rparr>) w;
           w \<leftarrow> CoAP_EnqueueLastInteraction (ia_addr ia) w;
           Some (COAP_OK, w)
         }
       else do { w \<leftarrow> send_failed ia w; Some (COAP_ERR_SOCKET, w) })
    }"

definition SendReq ::
  "'x env \<Rightarrow> CoAP_Interaction \<Rightarrow> CoAP_InteractionState_t \<Rightarrow> 'x coap \<Rightarrow> (CoAP_Result_t \<times> 'x coap) option" where
  "SendReq env ia nextIAState w =
    do {
      (r, m, w) \<leftarrow> send_opt (drv env) (pReqMsg ia) (ia_ifID ia) (RemoteEp ia) w;
      let w = upd_ia (ia_addr ia) (\<lambda>i. i\<lparr>pReqMsg := m\<rparr>) w;
      (if r = COAP_OK then
         do {
           req \<leftarrow> m;
           let w = (if Type req = CON then CoAP_EnableAckTimeout (ia_addr ia) (RetransCounter ia) w else w);
           let w = upd_ia (ia_addr ia) (\<lambda>i. i\<lparr>State := nextIAState\<rparr>) w;
           w \<leftarrow> CoAP_EnqueueLastInteraction (ia_addr ia) w;
           Some (COAP_OK, w)
         }
       else do { w \<leftarrow> send_failed ia w; Some (COAP_ERR_SOCKET, w) })
    }"

subsection \<open>Progress of an exchange\<close>

definition CheckRespStatus :: "CoAP_Interaction \<Rightarrow> 'x coap \<Rightarrow> CoAP_Result_t option" where
  "CheckRespStatus ia w =
    (if RespReliabilityState ia = RST_SET then Some COAP_ERR_REMOTE_RST
     else
       do {
         resp \<leftarrow> pRespMsg ia;
         (if Type resp = NON \<or> Type resp = ACK then
            (if CoAP_MsgIsOlderThan resp HOLDTIME_AFTER_NON_TRANSACTION_END w then Some COAP_OK
             else Some COAP_HOLDING_BACK)
          else if Type resp = CON then
            (if RespReliabilityState ia = ACK_SET then Some COAP_OK
             else if rtc_1Hz w > AckTimeout ia then
               (if unat (RetransCounter ia) + 1 > MAX_RETRANSMIT then Some COAP_ERR_OUT_OF_ATTEMPTS
                else Some COAP_RETRY)
             else Some COAP_WAITING)
          else Some COAP_ERR_ARGUMENT)
       })"

definition CheckReqStatus :: "CoAP_Interaction \<Rightarrow> 'x coap \<Rightarrow> CoAP_Result_t option" where
  "CheckReqStatus ia w =
    (if ReqReliabilityState ia = RST_SET then Some COAP_ERR_REMOTE_RST
     else
       do {
         req \<leftarrow> pReqMsg ia;
         (if Type req = CON then
            (if ReqReliabilityState ia = ACK_SET then
               (if CoAP_MsgIsOlderThan req CLIENT_MAX_RESP_WAIT_TIME w then Some COAP_ERR_TIMEOUT
                else Some COAP_WAITING)
             else if rtc_1Hz w > AckTimeout ia then
               (if unat (RetransCounter ia) + 1 > MAX_RETRANSMIT then Some COAP_ERR_OUT_OF_ATTEMPTS
                else Some COAP_RETRY)
             else Some COAP_WAITING)
          else if CoAP_MsgIsOlderThan req CLIENT_MAX_RESP_WAIT_TIME w then Some COAP_ERR_TIMEOUT
          else Some COAP_WAITING)
       })"

subsection \<open>The work loop: server\<close>

definition method_forbidden :: "u8 \<Rightarrow> u16 \<Rightarrow> bool" where
  "method_forbidden c fl \<longleftrightarrow>
     c = REQ_GET \<and> fl AND RES_OPT_GET = 0 \<or> c = REQ_POST \<and> fl AND RES_OPT_POST = 0 \<or>
     c = REQ_PUT \<and> fl AND RES_OPT_PUT = 0 \<or> c = REQ_DELETE \<and> fl AND RES_OPT_DELETE = 0"

text \<open>
  \<open>finish_response\<close> is the code behind the evaluation of the handler's result: the type of the response,
  the option with the path information, the observe option, and the sending.
\<close>

definition response_type :: "CoAP_Interaction \<Rightarrow> CoAP_Message \<Rightarrow> CoAP_Message \<Rightarrow> 'x coap \<Rightarrow> CoAP_Message \<times> 'x coap" where
  "response_type ia req resp w =
    (if Type req = CON then
       (if ReqReliabilityState ia = ACK_SET then
          let (mid, w) = CoAP_GetNextMid w in (resp\<lparr>Type := CON, MessageID := mid\<rparr>, w)
        else (resp\<lparr>Type := ACK\<rparr>, w))
     else (resp, w))"

definition add_path_info :: "CoAP_Interaction \<Rightarrow> CoAP_Message \<Rightarrow> 'x coap \<Rightarrow> CoAP_Message \<times> 'x coap" where
  "add_path_info ia resp w =
    (if MetaType (ReqMetaInfo ia) = META_INFO_RF_PATH then
       let (_, resp, h) = append_msg_option resp 10000
             [HopCount (ReqMetaInfo ia), of_int (RSSI (ReqMetaInfo ia) * -1)] 2 (heap w)
       in (resp, w\<lparr>heap := h\<rparr>)
     else (resp, w))"

definition set_resp :: "addr \<Rightarrow> CoAP_Message \<Rightarrow> 'x coap \<Rightarrow> 'x coap" where
  "set_resp p m w = upd_ia p (\<lambda>i. i\<lparr>pRespMsg := Some m\<rparr>) w"

definition finish_response :: "'x env \<Rightarrow> addr \<Rightarrow> 'x coap \<Rightarrow> 'x coap option" where
  "finish_response env p w =
    do {
      ia \<leftarrow> get_ia p w;
      req \<leftarrow> pReqMsg ia;
      resp \<leftarrow> pRespMsg ia;
      let (resp, w) = response_type ia req resp w;
      let (resp, w) = add_path_info ia resp w;
      let w = set_resp p resp w;
      w \<leftarrow> (if Code req = REQ_GET \<and> Code resp = RESP_SUCCESS_CONTENT_2_05 then
             do {
               (r, w) \<leftarrow> CoAP_HandleObservationInReq p w;
               (if r = COAP_OK then
                  let (_, resp, h) = AddObserveOptionToMsg resp 0 (heap w)
                  in Some (set_resp p resp (w\<lparr>heap := h\<rparr>))
                else Some w)
             }
           else Some w);
      ia \<leftarrow> get_ia p w;
      (_, w) \<leftarrow> SendResp env ia COAP_STATE_RESPONSE_SENT w;
      Some w
    }"

definition postpone :: "'x env \<Rightarrow> addr \<Rightarrow> 'x coap \<Rightarrow> 'x coap option" where
  "postpone env p w =
    do {
      ia \<leftarrow> get_ia p w;
      req \<leftarrow> pReqMsg ia;
      resp \<leftarrow> pRespMsg ia;
      (if Type req = CON \<and> ReqReliabilityState ia \<noteq> ACK_SET then
         do {
           (r, w) \<leftarrow> CoAP_SendEmptyAck (drv env) (MessageID req) (ia_ifID ia) (RemoteEp ia) w;
           (if r = COAP_OK then
              CoAP_EnqueueLastInteraction p
                (upd_ia p (\<lambda>i. i\<lparr>ReqReliabilityState := ACK_SET,
                                 State := COAP_STATE_RESOURCE_POSTPONE_EMPTY_ACK_SENT,
                                 SleepUntil := rtc_1Hz w + POSTPONE_WAIT_TIME_SEK\<rparr>) w)
            else Some (CoAP_DeleteInteraction p w))
         }
       else if CoAP_MsgIsOlderThan req POSTPONE_MAX_WAIT_TIME w
       then finish_response env p (set_resp p (resp\<lparr>Code := RESP_SERVICE_UNAVAILABLE_5_03\<rparr>) w)
       else CoAP_EnqueueLastInteraction p (CoAP_SetSleepInteraction p POSTPONE_WAIT_TIME_SEK w))
    }"

text \<open>A failed allocation of the response is not checked: the handler would get a null pointer.\<close>

definition server_handle_request :: "'x env \<Rightarrow> addr \<Rightarrow> 'x coap \<Rightarrow> 'x coap option" where
  "server_handle_request env p w =
    do {
      ia \<leftarrow> get_ia p w;
      req \<leftarrow> pReqMsg ia;
      rp \<leftarrow> pRes ia;
      r \<leftarrow> get_res rp w;
      (if method_forbidden (Code req) (Flags (Options r)) then
         do {
           let (m, w) = CoAP_AllocRespMsg req RESP_METHOD_NOT_ALLOWED_4_05 0 w;
           let w = upd_ia p (\<lambda>i. i\<lparr>pRespMsg := m\<rparr>) w;
           ia \<leftarrow> get_ia p w;
           (_, w) \<leftarrow> SendResp env ia COAP_STATE_RESPONSE_SENT w;
           Some w
         }
       else
         do {
           let w = (if pRespMsg ia = None
                    then let (m, w) = CoAP_AllocRespMsg req EMPTY PREFERED_PAYLOAD_SIZE w
                         in upd_ia p (\<lambda>i. i\<lparr>pRespMsg := m\<rparr>) w
                    else w);
           ia \<leftarrow> get_ia p w;
           f \<leftarrow> Handler r;
           resp \<leftarrow> pRespMsg ia;
           (Res, resp, w) \<leftarrow> call_handler env f req resp w;
           let w = set_resp p resp w;
           (if Res = HANDLER_OK \<and> Code resp = EMPTY
            then finish_response env p (set_resp p (resp\<lparr>Code := RESP_SUCCESS_CONTENT_2_05\<rparr>) w)
            else if Res = HANDLER_ERROR \<and> Code resp = EMPTY
            then finish_response env p (set_resp p (resp\<lparr>Code := RESP_INTERNAL_SERVER_ERROR_5_00\<rparr>) w)
            else if Res = HANDLER_POSTPONE then postpone env p w
            else finish_response env p w)
         })
    }"

definition retry_response :: "'x env \<Rightarrow> CoAP_Interaction \<Rightarrow> 'x coap \<Rightarrow> 'x coap option" where
  "retry_response env ia w =
    do {
      (r, m, w) \<leftarrow> send_opt (drv env) (pRespMsg ia) (ia_ifID ia) (RemoteEp ia) w;
      let w = upd_ia (ia_addr ia) (\<lambda>i. i\<lparr>pRespMsg := m\<rparr>) w;
      (if r = COAP_OK then
         Some (CoAP_EnableAckTimeout (ia_addr ia) (RetransCounter ia + 1)
                 (upd_ia (ia_addr ia) (\<lambda>i. i\<lparr>RetransCounter := RetransCounter ia + 1\<rparr>) w))
       else send_failed ia w)
    }"

definition server_response_sent :: "'x env \<Rightarrow> CoAP_Interaction \<Rightarrow> 'x coap \<Rightarrow> 'x coap option" where
  "server_response_sent env ia w =
    do {
      s \<leftarrow> CheckRespStatus ia w;
      (if s = COAP_WAITING \<or> s = COAP_HOLDING_BACK then CoAP_EnqueueLastInteraction (ia_addr ia) w
       else if s = COAP_RETRY then retry_response env ia w
       else Some (CoAP_DeleteInteraction (ia_addr ia) w))
    }"

subsection \<open>The work loop: notificator\<close>

text \<open>
  \<open>call_update\<close> calls the notifier on the pending message, which has got a new message id. The
  comparison of the notifier's result with a message code is kept; it cannot be true.
\<close>

definition call_update :: "'x env \<Rightarrow> addr \<Rightarrow> 'x coap \<Rightarrow> 'x coap option" where
  "call_update env p w =
    do {
      ia \<leftarrow> get_ia p w;
      resp \<leftarrow> pRespMsg ia;
      let (mid, w) = CoAP_GetNextMid w;
      let resp = resp\<lparr>MessageID := mid\<rparr>;
      rp \<leftarrow> pRes ia;
      r \<leftarrow> get_res rp w;
      f \<leftarrow> Notifier r;
      (n, resp, h) \<leftarrow> call_notifier env f (pObserver ia) resp w;
      let w = w\<lparr>heap := h\<rparr>;
      (if handler_code n \<ge> unat RESP_ERROR_BAD_REQUEST_4_00 then
         do {
           let (_, resp, h) = RemoveObserveOptionFromMsg resp (heap w);
           (_, w) \<leftarrow> CoAP_RemoveInteractionsObserver ia (Token64 resp) (set_resp p resp (w\<lparr>heap := h\<rparr>));
           Some w
         }
       else
         let (_, resp, h) = UpdateObserveOptionInMsg resp (UpdateCnt r) (heap w)
         in Some (set_resp p resp (w\<lparr>heap := h\<rparr>)))
    }"

definition notification_retry :: "'x env \<Rightarrow> CoAP_Interaction \<Rightarrow> 'x coap \<Rightarrow> 'x coap option" where
  "notification_retry env ia w =
    do {
      w \<leftarrow> (if UpdatePendingNotification ia then
             do {
               old \<leftarrow> pRespMsg ia;
               w \<leftarrow> call_update env (ia_addr ia)
                     (upd_ia (ia_addr ia) (\<lambda>i. i\<lparr>UpdatePendingNotification := False\<rparr>) w);
               Some (upd_ia (ia_addr ia)
                 (\<lambda>i. i\<lparr>pRespMsg := map_option (\<lambda>m. m\<lparr>Type := Type old\<rparr>) (pRespMsg i)\<rparr>) w)
             }
           else Some w);
      ia \<leftarrow> get_ia (ia_addr ia) w;
      retry_response env ia w
    }"

definition notification_done :: "'x env \<Rightarrow> CoAP_Interaction \<Rightarrow> 'x coap \<Rightarrow> 'x coap option" where
  "notification_done env ia w =
    (if UpdatePendingNotification ia then
       do {
         w \<leftarrow> call_update env (ia_addr ia)
               (upd_ia (ia_addr ia) (\<lambda>i. i\<lparr>State := COAP_STATE_READY_TO_NOTIFY, RetransCounter := 0,
                  UpdatePendingNotification := False, RespReliabilityState := NOT_SET\<rparr>) w);
         CoAP_EnqueueLastInteraction (ia_addr ia) w
       }
     else Some (CoAP_DeleteInteraction (ia_addr ia) w))"

definition notification_sent :: "'x env \<Rightarrow> CoAP_Interaction \<Rightarrow> 'x coap \<Rightarrow> 'x coap option" where
  "notification_sent env ia w =
    do {
      s \<leftarrow> CheckRespStatus ia w;
      (if s = COAP_WAITING \<or> s = COAP_HOLDING_BACK then CoAP_EnqueueLastInteraction (ia_addr ia) w
       else if s = COAP_RETRY then notification_retry env ia w
       else if s = COAP_OK then notification_done env ia w
       else if s = COAP_ERR_OUT_OF_ATTEMPTS \<or> s = COAP_ERR_REMOTE_RST then
         do {
           resp \<leftarrow> pRespMsg ia;
           (_, w) \<leftarrow> CoAP_RemoveInteractionsObserver ia (Token64 resp) w;
           Some (CoAP_DeleteInteraction (ia_addr ia) w)
         }
       else Some (CoAP_DeleteInteraction (ia_addr ia) w))
    }"

subsection \<open>The work loop: client\<close>

definition retry_request :: "'x env \<Rightarrow> CoAP_Interaction \<Rightarrow> 'x coap \<Rightarrow> 'x coap option" where
  "retry_request env ia w =
    do {
      (r, m, w) \<leftarrow> send_opt (drv env) (pReqMsg ia) (ia_ifID ia) (RemoteEp ia) w;
      let w = upd_ia (ia_addr ia) (\<lambda>i. i\<lparr>pReqMsg := m\<rparr>) w;
      (if r = COAP_OK then
         Some (CoAP_EnableAckTimeout (ia_addr ia) (RetransCounter ia + 1)
                 (upd_ia (ia_addr ia) (\<lambda>i. i\<lparr>RetransCounter := RetransCounter ia + 1\<rparr>) w))
       else send_failed ia w)
    }"

definition client_waiting :: "'x env \<Rightarrow> CoAP_Interaction \<Rightarrow> 'x coap \<Rightarrow> 'x coap option" where
  "client_waiting env ia w =
    do {
      s \<leftarrow> CheckReqStatus ia w;
      (if s = COAP_WAITING then CoAP_EnqueueLastInteraction (ia_addr ia) w
       else if s = COAP_RETRY then retry_request env ia w
       else Some (CoAP_DeleteInteraction (ia_addr ia) w))
    }"

definition client_handle_response :: "'x env \<Rightarrow> CoAP_Interaction \<Rightarrow> 'x coap \<Rightarrow> 'x coap option" where
  "client_handle_response env ia w =
    do {
      w \<leftarrow> (case RespCB ia of
             None \<Rightarrow> Some w
           | Some f \<Rightarrow> call_callback env f (pRespMsg ia) (RemoteEp ia) w);
      Some (CoAP_DeleteInteraction (ia_addr ia) w)
    }"

subsection \<open>The work loop\<close>

definition work_on :: "'x env \<Rightarrow> CoAP_Interaction \<Rightarrow> 'x coap \<Rightarrow> 'x coap option" where
  "work_on env ia w =
    (if Role ia = COAP_ROLE_SERVER then
       (if State ia = COAP_STATE_HANDLE_REQUEST \<or> State ia = COAP_STATE_RESOURCE_POSTPONE_EMPTY_ACK_SENT
        then server_handle_request env (ia_addr ia) w
        else if State ia = COAP_STATE_RESPONSE_SENT then server_response_sent env ia w
        else Some w)
     else if Role ia = COAP_ROLE_NOTIFICATION then
       (if State ia = COAP_STATE_READY_TO_NOTIFY
        then map_option snd (SendResp env ia COAP_STATE_NOTIFICATION_SENT w)
        else if State ia = COAP_STATE_NOTIFICATION_SENT then notification_sent env ia w
        else Some w)
     else if Role ia = COAP_ROLE_CLIENT then
       (if State ia = COAP_STATE_READY_TO_REQUEST
        then map_option snd (SendReq env ia COAP_STATE_WAITING_RESPONSE w)
        else if State ia = COAP_STATE_WAITING_RESPONSE then client_waiting env ia w
        else if State ia = COAP_STATE_HANDLE_RESPONSE then client_handle_response env ia w
        else Some (CoAP_DeleteInteraction (ia_addr ia) w))
     else Some w)"

definition CoAP_doWork :: "'x env \<Rightarrow> 'x coap \<Rightarrow> 'x coap option" where
  "CoAP_doWork env w =
    (case CoAP_GetLongestPendingInteraction w of
       None \<Rightarrow> Some w
     | Some ia \<Rightarrow>
         if SleepUntil ia > rtc_1Hz w then CoAP_EnqueueLastInteraction (ia_addr ia) w
         else work_on env ia w)"

end
