(* ===== verification/Stack_Facts.thy ===== *)
theory Stack_Facts imports Coap_Main Message_Props begin

section \<open>Facts on the stack's state\<close>

text \<open>
  What reading and updating through pointers does to the list of interactions, and which parts of the
  state each operation leaves alone.
\<close>

subsection \<open>Pointers into the list\<close>

definition ia_addrs :: "'x coap \<Rightarrow> addr list" where
  "ia_addrs w = map ia_addr (pInteractions w)"

lemma get_ia_head [simp]: "pInteractions w = ia # ias \<Longrightarrow> get_ia (ia_addr ia) w = Some ia"
  by (simp add: get_ia_def)

lemma get_ia_Some: "get_ia p w = Some ia \<Longrightarrow> ia \<in> set (pInteractions w) \<and> ia_addr ia = p"
  by (auto simp: get_ia_def find_Some_iff)

lemma upd_ia_frame [simp]:
  "heap (upd_ia p f w) = heap w" "rtc_1Hz (upd_ia p f w) = rtc_1Hz w" "SocketCtrl (upd_ia p f w) = SocketCtrl w"
  "sent (upd_ia p f w) = sent w" "pResList (upd_ia p f w) = pResList w" "lastMId (upd_ia p f w) = lastMId w"
  "ResListMembers (upd_ia p f w) = ResListMembers w" "app (upd_ia p f w) = app w"
  by (simp_all add: upd_ia_def)

lemma upd_ias [simp]:
  "pInteractions (upd_ia p f w) = map (\<lambda>i. if ia_addr i = p then f i else i) (pInteractions w)"
  by (simp add: upd_ia_def)

lemma upd_ia_commute [simp]:
  "(upd_ia p f w)\<lparr>sent := s\<rparr> = upd_ia p f (w\<lparr>sent := s\<rparr>)" "(upd_ia p f w)\<lparr>heap := h\<rparr> = upd_ia p f (w\<lparr>heap := h\<rparr>)"
  by (simp_all add: upd_ia_def)

lemma upd_ia_twice:
  "(\<And>i. ia_addr (g i) = ia_addr i) \<Longrightarrow> upd_ia p f (upd_ia p g w) = upd_ia p (\<lambda>i. f (g i)) w"
  by (simp add: upd_ia_def comp_def)

lemma upd_ia_id [simp]: "upd_ia p (\<lambda>i. i) w = w"
  by (simp add: upd_ia_def cong: if_cong)

lemma same_address:
  "distinct (map ia_addr ias) \<Longrightarrow> i \<in> set ias \<Longrightarrow> j \<in> set ias \<Longrightarrow> ia_addr i = ia_addr j \<Longrightarrow> i = j"
  by (auto simp: distinct_map dest: inj_onD)

lemma upd_ia_cong:
  assumes "distinct (ia_addrs w)" "ia \<in> set (pInteractions w)" "f ia = g ia"
  shows "upd_ia (ia_addr ia) f w = upd_ia (ia_addr ia) g w"
proof -
  have "map (\<lambda>i. if ia_addr i = ia_addr ia then f i else i) (pInteractions w) =
      map (\<lambda>i. if ia_addr i = ia_addr ia then g i else i) (pInteractions w)"
    using same_address[of "pInteractions w" _ ia] assms by (auto simp: ia_addrs_def)
  then show ?thesis by (simp add: upd_ia_def)
qed

lemma get_ia_member:
  assumes "distinct (ia_addrs w)" "ia \<in> set (pInteractions w)"
  shows "get_ia (ia_addr ia) w = Some ia"
proof (cases "get_ia (ia_addr ia) w")
  case None
  then show ?thesis using assms(2) by (auto simp: get_ia_def find_None_iff)
next
  case (Some i)
  then have "i \<in> set (pInteractions w)" "ia_addr i = ia_addr ia" by (auto simp: get_ia_def find_Some_iff)
  then show ?thesis using same_address[OF _ _ assms(2), of i] assms(1) Some by (simp add: ia_addrs_def)
qed

lemma upd_res_frame [simp]:
  "heap (upd_res p f w) = heap w" "rtc_1Hz (upd_res p f w) = rtc_1Hz w" "SocketCtrl (upd_res p f w) = SocketCtrl w"
  "sent (upd_res p f w) = sent w" "pInteractions (upd_res p f w) = pInteractions w"
  "pResList (upd_res p f w) = map (\<lambda>r. if res_addr r = p then f r else r) (pResList w)"
  by (simp_all add: upd_res_def)

lemma append_lists [simp]:
  "CoAP_AppendInteractionToList ias (Some ia) = (COAP_OK, ias @ [ia])"
  "CoAP_AppendObserverToList obs (Some ob) = (COAP_OK, obs @ [ob])"
  "CoAP_AppendResourceToList rs (Some r) = (COAP_OK, rs @ [r])"
  by (simp_all add: CoAP_AppendInteractionToList_def CoAP_AppendObserverToList_def CoAP_AppendResourceToList_def)

text \<open>An update of a node whose address no other node has.\<close>

lemma upd_others [simp]:
  "p \<notin> ia_addr ` set ias \<Longrightarrow> map (\<lambda>i. if ia_addr i = p then f i else i) ias = ias"
  by (induction ias) auto

lemma upd_head:
  "pInteractions w = ia # ias \<Longrightarrow> ia_addr ia = p \<Longrightarrow> p \<notin> ia_addr ` set ias \<Longrightarrow>
     upd_ia p f w = w\<lparr>pInteractions := f ia # ias\<rparr>"
  by (simp add: upd_ia_def)

lemma filter_others [simp]: "p \<notin> ia_addr ` set ias \<Longrightarrow> filter (\<lambda>i. ia_addr i \<noteq> p) ias = ias"
  by (induction ias) auto

lemma find_none_addr [simp]: "p \<notin> ia_addr ` set ias \<Longrightarrow> find (\<lambda>i. ia_addr i = p) ias = None"
  by (induction ias) auto

lemma find_addr [simp]:
  "ia_addr ia = p \<Longrightarrow> p \<notin> ia_addr ` set xs \<Longrightarrow> find (\<lambda>i. ia_addr i = p) (xs @ ia # ys) = Some ia"
  by (induction xs) auto

lemma move_to_end:
  "ia_addr ia = p \<Longrightarrow> p \<notin> ia_addr ` set xs \<Longrightarrow> p \<notin> ia_addr ` set ys \<Longrightarrow>
     CoAP_MoveInteractionToListEnd (xs @ ia # ys) p = Some (xs @ ys @ [ia])"
  by (simp add: CoAP_MoveInteractionToListEnd_def)

lemma move_head [simp]:
  "ia_addr ia = p \<Longrightarrow> p \<notin> ia_addr ` set ys \<Longrightarrow> CoAP_MoveInteractionToListEnd (ia # ys) p = Some (ys @ [ia])"
  using move_to_end[of ia p "[]" ys] by simp

lemma enqueue_head [simp]:
  "pInteractions w = ia # ias \<Longrightarrow> ia_addr ia = p \<Longrightarrow> p \<notin> ia_addr ` set ias \<Longrightarrow>
     CoAP_EnqueueLastInteraction p w = Some (w\<lparr>pInteractions := ias @ [ia]\<rparr>)"
  by (simp add: CoAP_EnqueueLastInteraction_def)

lemma delete_head [simp]:
  "pInteractions w = ia # ias \<Longrightarrow> ia_addr ia = p \<Longrightarrow>
     CoAP_DeleteInteraction p w = w\<lparr>pInteractions := ias, heap := CoAP_FreeInteraction ia (heap w)\<rparr>"
  by (simp add: CoAP_DeleteInteraction_def)

lemma enable_timeout_frame [simp]:
  "heap (CoAP_EnableAckTimeout p n w) = heap w" "sent (CoAP_EnableAckTimeout p n w) = sent w"
  "rtc_1Hz (CoAP_EnableAckTimeout p n w) = rtc_1Hz w" "SocketCtrl (CoAP_EnableAckTimeout p n w) = SocketCtrl w"
  "pResList (CoAP_EnableAckTimeout p n w) = pResList w"
  by (simp_all add: CoAP_EnableAckTimeout_def)

subsection \<open>Sending changes only the heap and the log\<close>

lemma SendMsg_frame:
  assumes "CoAP_SendMsg d m ifID ep w = Some (res, m', w')"
  shows "w' = w\<lparr>heap := heap w', sent := sent w'\<rparr>" "sent w' = sent w \<or> (\<exists>x. sent w' = sent w @ [x])"
    "m' = m\<lparr>Timestamp := Timestamp m', PayloadLength := PayloadLength m'\<rparr>"
    "PayloadLength m' = PayloadLength m \<or> PayloadLength m' = 0"
    "sent w' = sent w \<longrightarrow> res \<noteq> COAP_OK"
proof -
  obtain bytes M where M: "CoAP_BuildDatagram m = (bytes, M)" by force
  have "\<exists>k. M = m\<lparr>PayloadLength := k\<rparr> \<and> (k = PayloadLength m \<or> k = 0)"
    using M by (cases m) (auto simp: CoAP_BuildDatagram_def Let_def split: if_splits)
  then obtain k where k: "M = m\<lparr>PayloadLength := k\<rparr>" "k = PayloadLength m \<or> k = 0" by auto
  have "w' = w\<lparr>heap := heap w', sent := sent w'\<rparr> \<and> (sent w' = sent w \<and> res \<noteq> COAP_OK \<or> (\<exists>x. sent w' = sent w @ [x])) \<and>
    m' = m\<lparr>Timestamp := Timestamp m', PayloadLength := PayloadLength m'\<rparr> \<and>
    (PayloadLength m' = PayloadLength m \<or> PayloadLength m' = 0)"
    using assms k(2)
    by (simp add: CoAP_SendMsg_def M k(1) Let_def split: option.splits prod.splits if_splits) (elim conjE; clarsimp)+
  then show "w' = w\<lparr>heap := heap w', sent := sent w'\<rparr>" "sent w' = sent w \<or> (\<exists>x. sent w' = sent w @ [x])"
    "m' = m\<lparr>Timestamp := Timestamp m', PayloadLength := PayloadLength m'\<rparr>"
    "PayloadLength m' = PayloadLength m \<or> PayloadLength m' = 0"
    "sent w' = sent w \<longrightarrow> res \<noteq> COAP_OK" by auto
qed

lemma SendMsg_frame_fields [simp]:
  assumes "CoAP_SendMsg d m ifID ep w = Some (res, m', w')"
  shows "pInteractions w' = pInteractions w" "pResList w' = pResList w" "rtc_1Hz w' = rtc_1Hz w"
    "SocketCtrl w' = SocketCtrl w" "app w' = app w" "lastMId w' = lastMId w" "Type m' = Type m"
    "msg_addr m' = msg_addr m" "pOptionsList m' = pOptionsList m" "Code m' = Code m" "MessageID m' = MessageID m"
  by (subst SendMsg_frame[OF assms], simp)+

lemma sendable_again:
  assumes "sendable m" "m' = m\<lparr>Timestamp := t, PayloadLength := k\<rparr>" "k = PayloadLength m \<or> k = 0"
  shows "sendable m'"
  using assms by (auto simp: sendable_def CoAP_BuildDatagram_def Let_def)

lemma SendMsg_sendable:
  "CoAP_SendMsg d m ifID ep w = Some (res, m', w') \<Longrightarrow> sendable m \<Longrightarrow> sendable m'"
  using SendMsg_frame(3,4)[of d m ifID ep w res m' w'] sendable_again by metis

subsection \<open>Timeouts\<close>

lemma wait_time_eq: "n \<le> 30 \<Longrightarrow> unat (wait_time n) = 2 ^ (n + 1)"
proof (induction n)
  case 0
  then show ?case by (simp add: ACK_TIMEOUT_def)
next
  case (Suc n)
  then have u: "unat (wait_time n) = 2 ^ (n + 1)" by simp
  have "(2 :: nat) ^ (n + 1) < 2 ^ 31" using Suc.prems by (intro power_strict_increasing) auto
  then show ?case using u by (simp add: ACK_TIMEOUT_def unat_word_ariths)
qed

end
