(* ===== verification/Exchange_Props.thy ===== *)
theory Exchange_Props imports Stack_Facts begin

section \<open>Confirmable exchanges\<close>

text \<open>
  The retransmission machine. \<open>unacked ia m\<close>: the client or server interaction \<open>ia\<close> waits for an
  acknowledgement of its confirmable message \<open>m\<close>. One turn of the work loop on such an interaction is
  described by \<open>con_turn\<close>, a step of an abstract machine on the number of retransmissions and the deadline.
\<close>

definition unacked :: "CoAP_Interaction \<Rightarrow> CoAP_Message \<Rightarrow> bool" where
  "unacked ia m \<longleftrightarrow> Type m = CON \<and> sendable m \<and>
    (Role ia = COAP_ROLE_CLIENT \<and> State ia = COAP_STATE_WAITING_RESPONSE \<and> pReqMsg ia = Some m \<and>
       ReqReliabilityState ia = NOT_SET \<or>
     Role ia = COAP_ROLE_SERVER \<and> State ia = COAP_STATE_RESPONSE_SENT \<and> pRespMsg ia = Some m \<and>
       RespReliabilityState ia = NOT_SET \<and> pReqMsg ia \<noteq> None)"

datatype turn = Idle | Resend "nat \<times> u32" | Give_up

fun con_turn :: "u32 \<Rightarrow> nat \<times> u32 \<Rightarrow> turn" where
  "con_turn now (n, deadline) =
    (if now \<le> deadline then Idle
     else if n < MAX_RETRANSMIT then Resend (n + 1, now + 2 ^ (n + 2))
     else Give_up)"

declare con_turn.simps [simp del]

lemma con_turn_cases:
  "t \<le> d \<Longrightarrow> con_turn t (k, d) = Idle"
  "\<not> t \<le> d \<Longrightarrow> k < MAX_RETRANSMIT \<Longrightarrow> con_turn t (k, d) = Resend (Suc k, t + 2 ^ (k + 2))"
  "\<not> t \<le> d \<Longrightarrow> \<not> k < MAX_RETRANSMIT \<Longrightarrow> con_turn t (k, d) = Give_up"
  by (simp_all add: con_turn.simps)

definition timer :: "CoAP_Interaction \<Rightarrow> nat \<times> u32" where
  "timer ia = (unat (RetransCounter ia), AckTimeout ia)"

definition touch :: "CoAP_Interaction \<Rightarrow> CoAP_Message \<Rightarrow> CoAP_Interaction" where
  "touch ia m = (if Role ia = COAP_ROLE_CLIENT then ia\<lparr>pReqMsg := Some m\<rparr> else ia\<lparr>pRespMsg := Some m\<rparr>)"

lemma unacked_touch:
  "unacked ia m \<Longrightarrow> Type m' = CON \<Longrightarrow> sendable m' \<Longrightarrow> unacked (touch ia m'\<lparr>RetransCounter := n, AckTimeout := t\<rparr>) m'"
  by (auto simp: unacked_def touch_def)

lemma turn_status:
  assumes "unacked ia m"
  shows "(if Role ia = COAP_ROLE_CLIENT then CheckReqStatus ia w else CheckRespStatus ia w) =
    (case con_turn (rtc_1Hz w) (timer ia) of Idle \<Rightarrow> Some COAP_WAITING | Resend _ \<Rightarrow> Some COAP_RETRY
     | Give_up \<Rightarrow> Some COAP_ERR_OUT_OF_ATTEMPTS)"
proof (cases "Role ia = COAP_ROLE_CLIENT")
  case True
  then have "pReqMsg ia = Some m" "Type m = CON" "ReqReliabilityState ia = NOT_SET"
    using assms by (auto simp: unacked_def)
  then show ?thesis using True by (simp add: CheckReqStatus_def timer_def con_turn.simps MAX_RETRANSMIT_def not_less)
next
  case False
  then have "pRespMsg ia = Some m" "Type m = CON" "RespReliabilityState ia = NOT_SET"
    using assms by (auto simp: unacked_def)
  then show ?thesis using False by (simp add: CheckRespStatus_def timer_def con_turn.simps MAX_RETRANSMIT_def not_less)
qed

lemma wait_time_pow: "wait_time n = 2 ^ (n + 1)"
  by (induction n) (simp_all add: ACK_TIMEOUT_def)

lemma retry_cases:
  assumes u: "unacked ia m" and l: "pInteractions w = ia # ias" and d: "ia_addr ia \<notin> ia_addr ` set ias"
    and c: "unat (RetransCounter ia) < MAX_RETRANSMIT"
    and s: "CoAP_SendMsg (drv env) m (ia_ifID ia) (RemoteEp ia) w = Some (res, m', w1)"
  defines "ia' \<equiv> touch ia m'\<lparr>RetransCounter := RetransCounter ia + 1,
    AckTimeout := rtc_1Hz w + 2 ^ (unat (RetransCounter ia) + 2)\<rparr>"
  shows "(if Role ia = COAP_ROLE_CLIENT then retry_request env ia w else retry_response env ia w) =
    Some (if res = COAP_OK then w1\<lparr>pInteractions := ia' # ias\<rparr>
          else w1\<lparr>pInteractions := ias, heap := CoAP_FreeInteraction (touch ia m') (heap w1)\<rparr>)"
proof -
  have "unat (RetransCounter ia + 1) = unat (RetransCounter ia) + 1"
    using c by (simp add: MAX_RETRANSMIT_def unat_word_ariths)
  then have wt: "wait_time (unat (RetransCounter ia + 1)) = 2 ^ (unat (RetransCounter ia) + 2)"
    by (simp only: wait_time_pow)  simp
  have l1: "pInteractions w1 = ia # ias" and t: "rtc_1Hz w1 = rtc_1Hz w"
    using SendMsg_frame_fields(1,3)[OF s] l by simp_all
  have so: "send_opt (drv env) (Some m) (ia_ifID ia) (RemoteEp ia) w = Some (res, Some m', w1)"
    by (simp add: send_opt_def s)
  show ?thesis
  proof (cases "Role ia = COAP_ROLE_CLIENT")
    case True
    then have "pReqMsg ia = Some m" using u by (auto simp: unacked_def)
    then show ?thesis using True l1 t so d wt
      by (simp add: retry_request_def CoAP_EnableAckTimeout_def upd_head touch_def send_failed_def ia'_def)
  next
    case False
    then have "pRespMsg ia = Some m" "pReqMsg ia \<noteq> None" using u by (auto simp: unacked_def)
    then show ?thesis using False l1 t so d wt
      by (auto simp: retry_response_def CoAP_EnableAckTimeout_def upd_head touch_def send_failed_def ia'_def)
  qed
qed

subsection \<open>One turn\<close>

definition retried :: "CoAP_Interaction \<Rightarrow> CoAP_Message \<Rightarrow> u32 \<Rightarrow> CoAP_Interaction" where
  "retried ia m' now = touch ia m'\<lparr>RetransCounter := RetransCounter ia + 1,
    AckTimeout := now + 2 ^ (unat (RetransCounter ia) + 2)\<rparr>"

lemma retried_timer:
  assumes "unat (RetransCounter ia) < MAX_RETRANSMIT"
  shows "timer (retried ia m' now) = (unat (RetransCounter ia) + 1, now + 2 ^ (unat (RetransCounter ia) + 2))"
  using assms by (simp add: timer_def retried_def MAX_RETRANSMIT_def unat_word_ariths)

lemma retried_sel [simp]:
  "ia_addr (retried ia m' now) = ia_addr ia" "ia_ifID (retried ia m' now) = ia_ifID ia"
  "SleepUntil (retried ia m' now) = SleepUntil ia" "Role (retried ia m' now) = Role ia"
  "RemoteEp (retried ia m' now) = RemoteEp ia"
  by (simp_all add: retried_def touch_def)

lemma work_status:
  assumes "unacked ia m"
  shows "work_on env ia w = Option.bind (if Role ia = COAP_ROLE_CLIENT then CheckReqStatus ia w else CheckRespStatus ia w)
    (\<lambda>s. if s = COAP_WAITING then CoAP_EnqueueLastInteraction (ia_addr ia) w
         else if s = COAP_HOLDING_BACK \<and> Role ia = COAP_ROLE_SERVER then CoAP_EnqueueLastInteraction (ia_addr ia) w
         else if s = COAP_RETRY
         then (if Role ia = COAP_ROLE_CLIENT then retry_request env ia w else retry_response env ia w)
         else Some (CoAP_DeleteInteraction (ia_addr ia) w))"
  using assms
  by (auto simp: unacked_def work_on_def client_waiting_def server_response_sent_def intro!: Option.bind_cong)

lemma exchange_turn:
  assumes u: "unacked ia m" and l: "pInteractions w = ia # ias" and d: "ia_addr ia \<notin> ia_addr ` set ias"
    and sock: "RetrieveSocket2 (ia_ifID ia) (SocketCtrl w) \<noteq> None"
  shows "case (if SleepUntil ia > rtc_1Hz w then Idle else con_turn (rtc_1Hz w) (timer ia)) of
      Idle \<Rightarrow> CoAP_doWork env w = Some (w\<lparr>pInteractions := ias @ [ia]\<rparr>)
    | Give_up \<Rightarrow> CoAP_doWork env w = Some (w\<lparr>pInteractions := ias, heap := CoAP_FreeInteraction ia (heap w)\<rparr>)
    | Resend tm \<Rightarrow>
        \<exists>res m' w1. CoAP_SendMsg (drv env) m (ia_ifID ia) (RemoteEp ia) w = Some (res, m', w1) \<and>
          timer (retried ia m' (rtc_1Hz w)) = tm \<and> unacked (retried ia m' (rtc_1Hz w)) m' \<and>
          CoAP_doWork env w =
            Some (if res = COAP_OK then w1\<lparr>pInteractions := retried ia m' (rtc_1Hz w) # ias\<rparr>
                  else w1\<lparr>pInteractions := ias, heap := CoAP_FreeInteraction (touch ia m') (heap w1)\<rparr>)"
proof (cases "SleepUntil ia > rtc_1Hz w")
  case True
  then show ?thesis using l d by (simp add: CoAP_doWork_def CoAP_GetLongestPendingInteraction_def)
next
  case False
  then have dw: "CoAP_doWork env w = work_on env ia w"
    using l by (simp add: CoAP_doWork_def CoAP_GetLongestPendingInteraction_def)
  note st = turn_status[OF u, of w]
  show ?thesis
  proof (cases "con_turn (rtc_1Hz w) (timer ia)")
    case Idle
    then show ?thesis using False st dw l d by (simp add: work_status[OF u])
  next
    case Give_up
    then show ?thesis using False st dw l d by (simp add: work_status[OF u])
  next
    case (Resend tm)
    then have c: "unat (RetransCounter ia) < MAX_RETRANSMIT"
      and tm: "tm = (unat (RetransCounter ia) + 1, rtc_1Hz w + 2 ^ (unat (RetransCounter ia) + 2))"
      by (auto simp: timer_def con_turn.simps split: if_splits)
    have "sendable m" "Type m = CON" using u by (simp_all add: unacked_def)
    then obtain res m' w1 where s: "CoAP_SendMsg (drv env) m (ia_ifID ia) (RemoteEp ia) w = Some (res, m', w1)"
      using SendMsg_defined[of m "drv env" "ia_ifID ia" "RemoteEp ia" w] sock by auto
    have "unacked (retried ia m' (rtc_1Hz w)) m'"
      using unacked_touch[OF u, of m'] SendMsg_sendable[OF s \<open>sendable m\<close>] SendMsg_frame_fields(7)[OF s]
        \<open>Type m = CON\<close> by (simp add: retried_def)
    then show ?thesis
      using False Resend s retried_timer[OF c] tm dw st retry_cases[OF u l d c s]
      by (auto simp: work_status[OF u] retried_def)
  qed
qed

subsection \<open>Runs\<close>

text \<open>\<open>work_at\<close>: one turn of the work loop at each of the given clock values.\<close>

fun work_at :: "'x env \<Rightarrow> u32 list \<Rightarrow> 'x coap \<Rightarrow> 'x coap option" where
  "work_at env [] w = Some w"
| "work_at env (t # ts) w =
    (case CoAP_doWork env (w\<lparr>rtc_1Hz := t\<rparr>) of None \<Rightarrow> None | Some w \<Rightarrow> work_at env ts w)"

text \<open>A stack whose only interaction is an unacknowledged exchange, after \<open>k\<close> retransmissions.\<close>

definition exchanging :: "nat \<Rightarrow> u32 \<Rightarrow> 'x coap \<Rightarrow> bool" where
  "exchanging k d w \<longleftrightarrow> (\<exists>ia m. pInteractions w = [ia] \<and> unacked ia m \<and> timer ia = (k, d) \<and>
     RetrieveSocket2 (ia_ifID ia) (SocketCtrl w) \<noteq> None \<and> SleepUntil ia = 0)"

lemma exchanging_turn:
  assumes "exchanging k d w"
  shows "\<exists>w'. CoAP_doWork env (w\<lparr>rtc_1Hz := t\<rparr>) = Some w' \<and>
    (case con_turn t (k, d) of
       Idle \<Rightarrow> exchanging k d w' \<and> sent w' = sent w
     | Resend (k', d') \<Rightarrow> (exchanging k' d' w' \<or> pInteractions w' = []) \<and> length (sent w') \<le> length (sent w) + 1
     | Give_up \<Rightarrow> pInteractions w' = [] \<and> sent w' = sent w)"
proof -
  obtain ia m where ia: "pInteractions w = [ia]" "unacked ia m" "timer ia = (k, d)" "SleepUntil ia = 0"
    and sock: "RetrieveSocket2 (ia_ifID ia) (SocketCtrl w) \<noteq> None"
    using assms by (auto simp: exchanging_def)
  let ?w = "w\<lparr>rtc_1Hz := t\<rparr>"
  have rt: "rtc_1Hz ?w = t" by simp
  have awake: "\<not> SleepUntil ia > rtc_1Hz ?w" using ia(4) by simp
  have et: "case con_turn t (k, d) of
      Idle \<Rightarrow> CoAP_doWork env ?w = Some (?w\<lparr>pInteractions := [ia]\<rparr>)
    | Give_up \<Rightarrow> CoAP_doWork env ?w = Some (?w\<lparr>pInteractions := [], heap := CoAP_FreeInteraction ia (heap ?w)\<rparr>)
    | Resend tm \<Rightarrow> \<exists>res m' w1. CoAP_SendMsg (drv env) m (ia_ifID ia) (RemoteEp ia) ?w = Some (res, m', w1) \<and>
          timer (retried ia m' t) = tm \<and> unacked (retried ia m' t) m' \<and>
          CoAP_doWork env ?w =
            Some (if res = COAP_OK then w1\<lparr>pInteractions := [retried ia m' t]\<rparr>
                  else w1\<lparr>pInteractions := [], heap := CoAP_FreeInteraction (touch ia m') (heap w1)\<rparr>)"
    using exchange_turn[OF ia(2), of ?w "[]" env] ia(1,3) sock unfolding if_not_P[OF awake] unfolding rt
    by (simp split del: if_split cong: turn.case_cong)
  show ?thesis
  proof (cases "con_turn t (k, d)")
    case Idle
    then show ?thesis using et ia sock by (auto simp: exchanging_def)
  next
    case Give_up
    then show ?thesis using et by auto
  next
    case (Resend tm)
    obtain k' d' where tm: "tm = (k', d')" by force
    obtain res m' w1 where s: "CoAP_SendMsg (drv env) m (ia_ifID ia) (RemoteEp ia) ?w = Some (res, m', w1)"
      "timer (retried ia m' t) = tm" "unacked (retried ia m' t) m'"
      "CoAP_doWork env ?w = Some (if res = COAP_OK then w1\<lparr>pInteractions := [retried ia m' t]\<rparr>
         else w1\<lparr>pInteractions := [], heap := CoAP_FreeInteraction (touch ia m') (heap w1)\<rparr>)"
      using et Resend by auto
    have "SocketCtrl w1 = SocketCtrl w" "length (sent w1) \<le> length (sent w) + 1"
      using SendMsg_frame_fields(4)[OF s(1)] SendMsg_frame(2)[OF s(1)] by auto
    then show ?thesis using s tm Resend sock ia(4) by (auto simp: exchanging_def)
  qed
qed

lemma work_at_done:
  "pInteractions w = [] \<Longrightarrow> \<exists>w'. work_at env ts w = Some w' \<and> pInteractions w' = [] \<and> sent w' = sent w"
proof (induction ts arbitrary: w)
  case (Cons t ts)
  then show ?case using Cons.IH[of "w\<lparr>rtc_1Hz := t\<rparr>"]
    by (simp add: CoAP_doWork_def CoAP_GetLongestPendingInteraction_def)
qed simp

lemma retransmissions_core:
  assumes "exchanging k d w" "k \<le> MAX_RETRANSMIT"
  shows "\<exists>w'. work_at env ts w = Some w' \<and> length (sent w') + k \<le> length (sent w) + MAX_RETRANSMIT"
  using assms
proof (induction ts arbitrary: w k d)
  case Nil
  then show ?case by simp
next
  case (Cons t ts)
  obtain w1 where w1: "CoAP_doWork env (w\<lparr>rtc_1Hz := t\<rparr>) = Some w1"
    and c: "case con_turn t (k, d) of
       Idle \<Rightarrow> exchanging k d w1 \<and> sent w1 = sent w
     | Resend (k', d') \<Rightarrow> (exchanging k' d' w1 \<or> pInteractions w1 = []) \<and> length (sent w1) \<le> length (sent w) + 1
     | Give_up \<Rightarrow> pInteractions w1 = [] \<and> sent w1 = sent w"
    using exchanging_turn[OF Cons.prems(1)] by blast
  have gone: ?case if "pInteractions w1 = []" "length (sent w1) + k \<le> length (sent w) + MAX_RETRANSMIT"
    using work_at_done[OF that(1), of env ts] that(2) w1 by auto
  show ?case
  proof (cases "con_turn t (k, d)")
    case Idle
    then show ?thesis using Cons.IH[of k d w1] Cons.prems(2) c w1 by auto
  next
    case Give_up
    then show ?thesis using c gone Cons.prems(2) by simp
  next
    case (Resend tm)
    then have k: "k < MAX_RETRANSMIT" "tm = (Suc k, t + 2 ^ (k + 2))" by (auto simp: con_turn.simps split: if_splits)
    show ?thesis
    proof (cases "pInteractions w1 = []")
      case True
      then show ?thesis using gone c Resend k by simp
    next
      case False
      then have "exchanging (Suc k) (t + 2 ^ (k + 2)) w1" "length (sent w1) \<le> length (sent w) + 1"
        using c Resend k(2) by auto
      then show ?thesis using Cons.IH[of "Suc k" _ w1] k(1) w1 by fastforce
    qed
  qed
qed

text \<open>Clock values that each lie behind the deadline the turn before has set.\<close>

fun overdue :: "u32 \<Rightarrow> nat \<Rightarrow> u32 list \<Rightarrow> bool" where
  "overdue d k [] \<longleftrightarrow> True"
| "overdue d k (t # ts) \<longleftrightarrow> d < t \<and> overdue (t + 2 ^ (k + 2)) (k + 1) ts"

lemma gives_up_core:
  assumes "exchanging k d w" "overdue d k ts" "length ts + k = MAX_RETRANSMIT + 1"
    and "k \<le> MAX_RETRANSMIT"
  shows "\<exists>w'. work_at env ts w = Some w' \<and> pInteractions w' = []"
  using assms
proof (induction ts arbitrary: w k d)
  case Nil
  then show ?case by (auto simp: exchanging_def timer_def MAX_RETRANSMIT_def)
next
  case (Cons t ts)
  obtain w1 where w1: "CoAP_doWork env (w\<lparr>rtc_1Hz := t\<rparr>) = Some w1"
    and c: "case con_turn t (k, d) of
       Idle \<Rightarrow> exchanging k d w1 \<and> sent w1 = sent w
     | Resend (k', d') \<Rightarrow> (exchanging k' d' w1 \<or> pInteractions w1 = []) \<and> length (sent w1) \<le> length (sent w) + 1
     | Give_up \<Rightarrow> pInteractions w1 = [] \<and> sent w1 = sent w"
    using exchanging_turn[OF Cons.prems(1)] by blast
  have late: "\<not> t \<le> d" using Cons.prems(2) by (simp add: not_le)
  have gone: ?case if "pInteractions w1 = []"
    using work_at_done[OF that, of env ts] w1 by auto
  show ?case
  proof (cases "k < MAX_RETRANSMIT")
    case True
    then have "exchanging (Suc k) (t + 2 ^ (k + 2)) w1 \<or> pInteractions w1 = []"
      using c con_turn_cases(2)[OF late True] by simp
    then show ?thesis using gone Cons.IH[of "Suc k" "t + 2 ^ (k + 2)" w1] Cons.prems(2,3) True w1 by auto
  next
    case False
    then show ?thesis using c late gone by (simp add: con_turn.simps)
  qed
qed

subsection \<open>Properties\<close>

definition demo_client :: CoAP_Interaction where
  "demo_client = (new_interaction 9500)\<lparr>Role := COAP_ROLE_CLIENT, State := COAP_STATE_WAITING_RESPONSE,
     RemoteEp := demo_ep 2, ia_ifID := 1, AckTimeout := 102, pReqMsg := Some demo_msg\<rparr>"

definition demo_stack :: "unit coap" where
  "demo_stack = \<lparr>heap = demo_heap, rtc_1Hz = 100, SocketCtrl = SocketCtrl demo_hal, sent = [], lastMId = 0,
     lastToken = 0xfa, pInteractions = [demo_client], pResList = [], ResListMembers = 0, app = ()\<rparr>"

definition demo_env :: "unit env" where
  "demo_env = \<lparr>drv = (\<lambda>_ _ _ _. True), call_handler = (\<lambda>f req resp w. Some (HANDLER_OK, resp, w)),
     call_notifier = (\<lambda>f ob resp w. Some (HANDLER_OK, resp, heap w)), call_callback = (\<lambda>f m ep w. Some w)\<rparr>"

lemma demo_unacked: "unacked demo_client demo_msg"
  using demo_msg_sendable by (simp add: unacked_def demo_client_def new_interaction_def demo_msg_def)

lemma demo_stack_socket: "RetrieveSocket2 1 (SocketCtrl demo_stack) = Some 0"
  using demo_socket_found by (simp add: demo_stack_def)

lemma demo_exchanging: "exchanging 0 102 demo_stack"
  unfolding exchanging_def
proof (intro exI conjI)
  show "pInteractions demo_stack = [demo_client]" by (simp add: demo_stack_def)
  show "unacked demo_client demo_msg" by (rule demo_unacked)
qed (use demo_stack_socket in \<open>simp_all add: timer_def demo_client_def new_interaction_def\<close>)

text \<open>
  C21: the work loop refines the retransmission machine \<open>con_turn\<close>. For a client request or a server
  response that waits for its acknowledgement at the head of the list: before the deadline (or while it
  sleeps) it moves to the end of the list and nothing else changes; after the deadline and fewer than
  four retransmissions the same message is handed to the driver once more, the counter grows by one and
  the new deadline lies \<open>2^(n+1)\<close> seconds ahead for the \<open>n\<close>-th retransmission, the interaction keeping its
  place (a failed send deletes it); after four retransmissions it is deleted.
\<close>

theorem con_exchange_refinement:
  assumes "unacked ia m" "pInteractions w = ia # ias" "ia_addr ia \<notin> ia_addr ` set ias"
    and "RetrieveSocket2 (ia_ifID ia) (SocketCtrl w) \<noteq> None"
  shows "case (if SleepUntil ia > rtc_1Hz w then Idle else con_turn (rtc_1Hz w) (timer ia)) of
      Idle \<Rightarrow> CoAP_doWork env w = Some (w\<lparr>pInteractions := ias @ [ia]\<rparr>)
    | Give_up \<Rightarrow> CoAP_doWork env w = Some (w\<lparr>pInteractions := ias, heap := CoAP_FreeInteraction ia (heap w)\<rparr>)
    | Resend tm \<Rightarrow>
        \<exists>res m' w1. CoAP_SendMsg (drv env) m (ia_ifID ia) (RemoteEp ia) w = Some (res, m', w1) \<and>
          timer (retried ia m' (rtc_1Hz w)) = tm \<and> unacked (retried ia m' (rtc_1Hz w)) m' \<and>
          CoAP_doWork env w =
            Some (if res = COAP_OK then w1\<lparr>pInteractions := retried ia m' (rtc_1Hz w) # ias\<rparr>
                  else w1\<lparr>pInteractions := ias, heap := CoAP_FreeInteraction (touch ia m') (heap w1)\<rparr>)"
  using assms by (rule exchange_turn)

theorem con_exchange_refinement_witness:
  "\<exists>m' w1. CoAP_doWork demo_env (demo_stack\<lparr>rtc_1Hz := 103\<rparr>) =
     Some (w1\<lparr>pInteractions := [retried demo_client m' 103]\<rparr>) \<or>
   pInteractions (the (CoAP_doWork demo_env (demo_stack\<lparr>rtc_1Hz := 103\<rparr>))) = []"
proof -
  let ?w = "demo_stack\<lparr>rtc_1Hz := 103\<rparr>"
  have l: "pInteractions ?w = demo_client # []" "ia_addr demo_client \<notin> ia_addr ` set []"
    by (simp_all add: demo_stack_def)
  have s: "RetrieveSocket2 (ia_ifID demo_client) (SocketCtrl ?w) \<noteq> None"
    using demo_stack_socket by (simp add: demo_client_def)
  have t: "(if SleepUntil demo_client > rtc_1Hz ?w then Idle else con_turn (rtc_1Hz ?w) (timer demo_client)) = Resend (1, 107)"
    by (simp add: demo_client_def new_interaction_def timer_def con_turn.simps MAX_RETRANSMIT_def)
  show ?thesis
    using con_exchange_refinement[OF demo_unacked l s, of demo_env] unfolding t
    by (auto split: if_splits)
qed

text \<open>
  C22: an unacknowledged exchange is bounded. Whatever the clock shows at the turns of the work loop and
  whatever the driver answers, the loop returns, and at most four more datagrams go out.
\<close>

theorem con_at_most_four_retransmissions:
  assumes "exchanging 0 d w"
  shows "\<exists>w'. work_at env ts w = Some w' \<and> length (sent w') \<le> length (sent w) + 4"
  using retransmissions_core[OF assms, of env ts] by (auto simp: MAX_RETRANSMIT_def)

theorem con_at_most_four_retransmissions_witness:
  "\<exists>w'. work_at demo_env [103, 108, 117, 134, 167, 300] demo_stack = Some w' \<and> length (sent w') \<le> 4"
  using con_at_most_four_retransmissions[OF demo_exchanging, of demo_env "[103, 108, 117, 134, 167, 300]"]
  by (simp add: demo_stack_def)

text \<open>
  C23: an unacknowledged exchange ends. Five turns of the work loop, each after the deadline the turn
  before has set (4, 8, 16 and 32 seconds after the retransmissions), leave no interaction behind.
\<close>

theorem con_exchange_ends:
  assumes "exchanging 0 d w" "overdue d 0 ts" "length ts = 5"
  shows "\<exists>w'. work_at env ts w = Some w' \<and> pInteractions w' = []"
  using gives_up_core[OF assms(1,2), of env] assms(3) by (simp add: MAX_RETRANSMIT_def)

theorem con_exchange_ends_witness:
  "\<exists>w'. work_at demo_env [103, 108, 117, 134, 167] demo_stack = Some w' \<and> pInteractions w' = []"
proof -
  have "overdue 102 0 [103, 108, 117, 134, 167]" by simp
  from con_exchange_ends[OF demo_exchanging this, of demo_env] show ?thesis by simp
qed

end
