(* ===== verification/Reception_Props.thy ===== *)
theory Reception_Props imports Exchange_Props begin

section \<open>Reception of datagrams\<close>

text \<open>
  What the stack does with a received message, against the table of RFC 7252 (section 4.3): which
  combinations of type and code are ignored, answered at once or given to an interaction. Then the
  treatment of acknowledgements, duplicates and responses.
\<close>

subsection \<open>The table\<close>

datatype verdict = Ignore | Answer CoAP_MessageType_t u8 bool | Process

text \<open>
  \<open>known\<close>: the request names a resource with a handler; \<open>critical\<close>: the message has an unknown critical
  option. The flag of \<open>Answer\<close> says whether the reply carries a fresh message id; \<open>pure\<close> is an empty message.
\<close>

fun verdict_of :: "CoAP_MessageType_t \<Rightarrow> bool \<Rightarrow> bool \<Rightarrow> bool \<Rightarrow> bool \<Rightarrow> verdict" where
  "verdict_of CON pure request known critical =
    (if pure then Answer RST EMPTY False
     else if request \<and> \<not> known then Answer ACK RESP_NOT_FOUND_4_04 False
     else if request \<and> critical then Answer ACK RESP_BAD_OPTION_4_02 False
     else if critical then Answer RST EMPTY False
     else Process)"
| "verdict_of NON pure request known critical =
    (if request \<and> \<not> known then Answer NON RESP_NOT_FOUND_4_04 True
     else if critical then Ignore else Process)"
| "verdict_of ACK pure request known critical = (if request \<or> critical then Ignore else Process)"
| "verdict_of RST pure request known critical = (if \<not> pure \<or> critical then Ignore else Process)"

definition known_resource :: "CoAP_Message \<Rightarrow> 'x coap \<Rightarrow> bool" where
  "known_resource m w \<longleftrightarrow>
     (case CoAP_FindResourceByUri [] (pOptionsList m) w of None \<Rightarrow> False | Some r \<Rightarrow> Handler r \<noteq> None)"

definition verdict :: "CoAP_Message \<Rightarrow> 'x coap \<Rightarrow> verdict" where
  "verdict m w = verdict_of (Type m) (Code m = EMPTY) (CoAP_MsgIsRequest m) (known_resource m w)
     (CoAP_CheckForUnknownCriticalOption (pOptionsList m) \<noteq> 0)"

text \<open>The reply: a message of a header and, unless it is empty, the token of the request.\<close>

definition reply_msg :: "CoAP_MessageType_t \<Rightarrow> u8 \<Rightarrow> u16 \<Rightarrow> u64 \<Rightarrow> CoAP_Message" where
  "reply_msg T c mid token =
     (CoAP_InitToEmptyResetMsg 0)\<lparr>Type := T, MessageID := mid, Code := c, Token64 := token\<rparr>"

lemma reply_sendable: "sendable (reply_msg T c mid token)"
  by (rule header_only_sendable) (simp_all add: reply_msg_def CoAP_InitToEmptyResetMsg_def)

lemma reply_datagram:
  "fst (CoAP_BuildDatagram (reply_msg T c mid token)) =
     (let n = (if c = EMPTY then 0 else getTokenByteCount token)
      in [push_bit 6 (COAP_VERSION AND 3) OR push_bit 4 (type_num T AND 3) OR (of_nat n AND 15), c,
          ucast (drop_bit 8 mid), ucast (mid AND 0xff)] @ token_bytes token n)"
  by (simp add: CoAP_BuildDatagram_def reply_msg_def CoAP_InitToEmptyResetMsg_def Let_def)

lemma SendShortResp_reply:
  "CoAP_SendShortResp d T c mid token ifID ep w =
     map_option (\<lambda>(res, _, w). (res, w)) (CoAP_SendMsg d (reply_msg T c mid token) ifID ep w)"
  by (simp add: CoAP_SendShortResp_def reply_msg_def)

text \<open>The empty reset has the token zero, which an empty message does not send anyway.\<close>

lemma SendEmptyRST_reply:
  "CoAP_SendEmptyRST d mid ifID ep w =
     map_option (\<lambda>(res, _, w). (res, w)) (CoAP_SendMsg d (reply_msg RST EMPTY mid 0) ifID ep w)"
  by (simp add: CoAP_SendEmptyRST_def reply_msg_def CoAP_InitToEmptyResetMsg_def)

definition answer_token :: "CoAP_Message \<Rightarrow> u8 \<Rightarrow> u64" where
  "answer_token m c = (if c = EMPTY then 0 else Token64 m)"

lemma handle_message_verdict:
  "handle_message env ifID pckt m w =
    (case verdict m w of
       Ignore \<Rightarrow> Some (finish m w)
     | Answer T c fresh \<Rightarrow>
         map_option (\<lambda>(_, _, w). finish m w)
           (CoAP_SendMsg (drv env)
             (reply_msg T c (if fresh then lastMId w + 1 else MessageID m) (answer_token m c))
             ifID (Sender pckt) (if fresh then w\<lparr>lastMId := lastMId w + 1\<rparr> else w))
     | Process \<Rightarrow>
         dispatch env ifID pckt
           (if CoAP_MsgIsRequest m then map_option res_addr (CoAP_FindResourceByUri [] (pOptionsList m) w) else None) m w)"
proof -
  have nr: "\<not> CoAP_MsgIsRequest m" if "Code m = EMPTY" using that by (simp add: CoAP_MsgIsRequest_def)
  have bind: "Option.bind (map_option (\<lambda>(res, _, w). (res, w)) x) (\<lambda>(_, w). Some (finish m w)) =
      map_option (\<lambda>(_, _, w). finish m w) x" for x :: "(CoAP_Result_t \<times> CoAP_Message \<times> 'a coap) option"
    by (cases x) auto
  have known: "(case CoAP_FindResourceByUri [] (pOptionsList m) w of None \<Rightarrow> True | Some r \<Rightarrow> Handler r = None) \<longleftrightarrow>
      \<not> known_resource m w" by (simp add: known_resource_def split: option.split)
  have codes: "EMPTY = 0" "RESP_NOT_FOUND_4_04 \<noteq> 0" "RESP_BAD_OPTION_4_02 \<noteq> 0" by (simp_all add: message_codes)
  show ?thesis
    by (cases "Type m")
       (auto simp: handle_message_def verdict_def Let_def known nr bind critical_reply_def not_found_reply_def
        SendShortResp_reply SendEmptyRST_reply answer_token_def CoAP_GetNextMid_def codes)
qed

text \<open>A datagram of up to 16 bytes needs no buffer, so sending it cannot run out of memory.\<close>

lemma SendMsg_short:
  assumes "sendable m" "length (fst (CoAP_BuildDatagram m)) \<le> 16"
    and "RetrieveSocket2 ifID (SocketCtrl w) = Some i" "Tx (SocketMemory (SocketCtrl w) ! i) = Some f"
    and "p = packet_of m (SocketMemory (SocketCtrl w) ! i) ep"
  shows "\<exists>m'. CoAP_SendMsg d m ifID ep w =
    Some (if d f ifID p (sent w) then COAP_OK else COAP_ERR_NETWORK, m', w\<lparr>sent := sent w @ [(ifID, p)]\<rparr>)"
proof -
  note raw = sendable_size[OF assms(1)]
  have "(of_nat (length (fst (CoAP_BuildDatagram m))) :: u16) \<le> 16"
    using assms(2) raw(2) by (simp add: word_le_nat_alt)
  then show ?thesis using assms(3,4) raw
    by (auto simp: CoAP_SendMsg_def assms(5) packet_of_def Let_def split: prod.split)
qed

lemma reply_short: "length (fst (CoAP_BuildDatagram (reply_msg T c mid token))) \<le> 16"
  using getTokenByteCount_le[of token] by (simp add: reply_datagram Let_def)

lemma handle_message_answer:
  assumes "verdict m w = Answer T c fresh"
    and "RetrieveSocket2 ifID (SocketCtrl w) = Some i" "Tx (SocketMemory (SocketCtrl w) ! i) = Some f"
  defines "rid \<equiv> if fresh then lastMId w + 1 else MessageID m"
  shows "handle_message env ifID pckt m w =
    Some (finish m (w\<lparr>lastMId := (if fresh then lastMId w + 1 else lastMId w),
      sent := sent w @ [(ifID, packet_of (reply_msg T c rid (answer_token m c))
                               (SocketMemory (SocketCtrl w) ! i) (Sender pckt))]\<rparr>))"
proof -
  let ?w = "if fresh then w\<lparr>lastMId := lastMId w + 1\<rparr> else w"
  let ?r = "reply_msg T c rid (answer_token m c)"
  have ws: "SocketCtrl ?w = SocketCtrl w" "sent ?w = sent w" by simp_all
  obtain m' where "CoAP_SendMsg (drv env) ?r ifID (Sender pckt) ?w =
      Some (if drv env f ifID (packet_of ?r (SocketMemory (SocketCtrl w) ! i) (Sender pckt)) (sent w)
            then COAP_OK else COAP_ERR_NETWORK, m',
            ?w\<lparr>sent := sent w @ [(ifID, packet_of ?r (SocketMemory (SocketCtrl w) ! i) (Sender pckt))]\<rparr>)"
    using SendMsg_short[OF reply_sendable reply_short _ _ refl, where w = ?w and ifID = ifID and i = i and
        f = f and ep = "Sender pckt" and d = "drv env"] assms(2,3) unfolding ws by blast
  then show ?thesis using assms(1) by (simp add: handle_message_verdict rid_def[symmetric])
qed

text \<open>
  C24: reception follows the table of RFC 7252, section 4.3. A message is dropped, answered or processed
  exactly as \<open>verdict_of\<close> says from its type, its code, whether its resource is known and whether it has an
  unknown critical option. A dropped message is released and nothing else happens. An answered one
  hands exactly one datagram to the driver, to the sender: a header with the message id of the request
  (a fresh one for a non confirmable message), the code, and the request's token when it is not empty;
  then it is released. Neither starts or touches an interaction.
\<close>

theorem reception_table:
  assumes "RetrieveSocket2 ifID (SocketCtrl w) = Some i" "Tx (SocketMemory (SocketCtrl w) ! i) = Some f"
  shows "handle_message env ifID pckt m w =
    (case verdict m w of
       Ignore \<Rightarrow> Some (finish m w)
     | Answer T c fresh \<Rightarrow>
         Some (finish m (w\<lparr>lastMId := (if fresh then lastMId w + 1 else lastMId w),
           sent := sent w @ [(ifID, packet_of
             (reply_msg T c (if fresh then lastMId w + 1 else MessageID m) (answer_token m c))
             (SocketMemory (SocketCtrl w) ! i) (Sender pckt))]\<rparr>))
     | Process \<Rightarrow>
         dispatch env ifID pckt
           (if CoAP_MsgIsRequest m then map_option res_addr (CoAP_FindResourceByUri [] (pOptionsList m) w) else None) m w) \<and>
    pInteractions (finish m w) = pInteractions w \<and> pResList (finish m w) = pResList w \<and> sent (finish m w) = sent w"
  using handle_message_answer[OF _ assms, of m _ _ _ env pckt]
  by (cases "verdict m w") (simp_all add: handle_message_verdict finish_def)

theorem reception_table_witness:
  "\<exists>w'. handle_message demo_env 1 (packet_of demo_msg demo_socket (demo_ep 1)) demo_msg demo_stack = Some w' \<and>
     sent w' = [(1, packet_of (reply_msg ACK RESP_NOT_FOUND_4_04 0x1234 0x0102) demo_socket (demo_ep 1))]"
proof -
  have s: "SocketMemory (SocketCtrl demo_stack) ! 0 = demo_socket" by (simp add: demo_stack_def demo_hal_def)
  have f: "Tx (SocketMemory (SocketCtrl demo_stack) ! 0) = Some 1" unfolding s by (simp add: demo_socket_def)
  have v: "verdict demo_msg demo_stack = Answer ACK RESP_NOT_FOUND_4_04 False"
    by (simp add: verdict_def known_resource_def CoAP_FindResourceByUri_def demo_stack_def demo_msg_def
        CoAP_MsgIsRequest_def message_codes)
  have c: "Sender (packet_of demo_msg demo_socket (demo_ep 1)) = demo_ep 1" "MessageID demo_msg = 0x1234"
    "answer_token demo_msg RESP_NOT_FOUND_4_04 = 0x0102" "sent demo_stack = []"
    by (simp_all add: packet_of_def demo_socket_def demo_msg_def answer_token_def message_codes demo_stack_def)
  show ?thesis
    using reception_table[OF demo_stack_socket f, of demo_env "packet_of demo_msg demo_socket (demo_ep 1)" demo_msg]
    unfolding v s by (simp add: c finish_def)
qed

subsection \<open>Requests\<close>

text \<open>\<open>same_request\<close>: a server interaction for the same message id, interface and endpoint.\<close>

definition same_request :: "u16 \<Rightarrow> u8 \<Rightarrow> NetEp \<Rightarrow> CoAP_Interaction \<Rightarrow> bool" where
  "same_request mid ifID ep ia \<longleftrightarrow> Role ia = COAP_ROLE_SERVER \<and> ia_ifID ia = ifID \<and>
     has_message_id mid (pReqMsg ia) \<and> EpAreEqual (Some (RemoteEp ia)) (Some ep)"

definition servers_have_requests :: "CoAP_Interaction list \<Rightarrow> bool" where
  "servers_have_requests ias \<longleftrightarrow> (\<forall>ia \<in> set ias. Role ia = COAP_ROLE_SERVER \<longrightarrow> pReqMsg ia \<noteq> None)"

lemma find_duplicate_eq:
  "servers_have_requests ias \<Longrightarrow> find_duplicate mid ifID ep ias = Some (find (same_request mid ifID ep) ias)"
  by (induction ias) (auto simp: servers_have_requests_def same_request_def has_message_id_def split: option.splits)

definition server_ia :: "addr \<Rightarrow> CoAP_Message \<Rightarrow> addr option \<Rightarrow> u8 \<Rightarrow> NetPacket \<Rightarrow> CoAP_Interaction" where
  "server_ia p m res ifID pckt = (new_interaction p)\<lparr>ia_ifID := ifID, pRes := res, Role := COAP_ROLE_SERVER,
     State := COAP_STATE_HANDLE_REQUEST, ReqMetaInfo := PktMetaInfo pckt, pReqMsg := Some m,
     RemoteEp := Sender pckt\<rparr>"

lemma StartNewServer_new:
  assumes "CoAP_MsgIsRequest m" "servers_have_requests (pInteractions w)"
    "find (same_request (MessageID m) ifID (Sender pckt)) (pInteractions w) = None"
  shows "CoAP_StartNewServerInteraction d m res ifID pckt w =
    (case coap_mem_get0 sizeof_CoAP_Interaction (heap w) of
       (None, h) \<Rightarrow> Some (COAP_ERR_OUT_OF_MEMORY, w\<lparr>heap := h\<rparr>)
     | (Some p, h) \<Rightarrow>
         Some (COAP_OK, w\<lparr>heap := h, pInteractions := pInteractions w @ [server_ia p m res ifID pckt]\<rparr>))"
  using assms
  by (simp add: CoAP_StartNewServerInteraction_def find_duplicate_eq CoAP_AllocNewInteraction_def server_ia_def
      CopyEndpoints_def new_interaction_def Let_def split: prod.split option.split)

lemma process_request:
  assumes "verdict m w = Process" "CoAP_MsgIsRequest m"
  shows "\<exists>r. CoAP_FindResourceByUri [] (pOptionsList m) w = Some r \<and> Handler r \<noteq> None \<and>
    handle_message env ifID pckt m w = on_request env ifID pckt (Some (res_addr r)) m w"
proof -
  have "(Type m = CON \<or> Type m = NON) \<and> known_resource m w"
    using assms by (cases "Type m") (auto simp: verdict_def CoAP_MsgIsRequest_def split: if_splits)
  then obtain r where r: "CoAP_FindResourceByUri [] (pOptionsList m) w = Some r" "Handler r \<noteq> None"
    and t: "Type m = CON \<or> Type m = NON" by (auto simp: known_resource_def split: option.splits)
  then show ?thesis using assms by (auto simp: handle_message_verdict dispatch_def split: CoAP_MessageType_t.split)
qed

lemma on_request_duplicate:
  assumes "CoAP_MsgIsRequest m" "servers_have_requests (pInteractions w)"
    "find (same_request (MessageID m) ifID (Sender pckt)) (pInteractions w) = Some ia"
    and sock: "RetrieveSocket2 ifID (SocketCtrl w) = Some i" "Tx (SocketMemory (SocketCtrl w) ! i) = Some f"
  shows "on_request env ifID pckt res m w = Some (finish m
    (if State ia = COAP_STATE_RESOURCE_POSTPONE_EMPTY_ACK_SENT \<and> map_option Type (pReqMsg ia) = Some CON
     then w\<lparr>sent := sent w @ [(ifID, packet_of (reply_msg ACK EMPTY (MessageID m) 0)
                                     (SocketMemory (SocketCtrl w) ! i) (RemoteEp ia))]\<rparr>
     else w))"
proof -
  have sr: "same_request (MessageID m) ifID (Sender pckt) ia" using assms(3) by (auto simp: find_Some_iff)
  then obtain req where req: "pReqMsg ia = Some req" "MessageID req = MessageID m" "ia_ifID ia = ifID"
    by (auto simp: same_request_def has_message_id_def split: option.splits)
  have ack: "CoAP_SendEmptyAck (drv env) (MessageID m) ifID (RemoteEp ia) w =
      map_option (\<lambda>(res, _, w). (res, w)) (CoAP_SendMsg (drv env) (reply_msg ACK EMPTY (MessageID m) 0) ifID (RemoteEp ia) w)"
    by (simp add: CoAP_SendEmptyAck_def reply_msg_def CoAP_InitToEmptyResetMsg_def)
  obtain m' res' where s: "CoAP_SendMsg (drv env) (reply_msg ACK EMPTY (MessageID m) 0) ifID (RemoteEp ia) w =
      Some (res', m', w\<lparr>sent := sent w @ [(ifID, packet_of (reply_msg ACK EMPTY (MessageID m) 0)
        (SocketMemory (SocketCtrl w) ! i) (RemoteEp ia))]\<rparr>)"
    using SendMsg_short[OF reply_sendable reply_short sock refl] by blast
  show ?thesis using assms(1-3) req ack s
    by (simp add: on_request_def CoAP_StartNewServerInteraction_def find_duplicate_eq)
qed

text \<open>No request is served twice: of two server interactions the later is no duplicate of the earlier.\<close>

definition requests_distinct :: "CoAP_Interaction list \<Rightarrow> bool" where
  "requests_distinct ias \<longleftrightarrow> sorted_wrt (\<lambda>a b. Role b = COAP_ROLE_SERVER \<longrightarrow>
     (\<forall>req. pReqMsg b = Some req \<longrightarrow> \<not> same_request (MessageID req) (ia_ifID b) (RemoteEp b) a)) ias"

lemma on_request_oom:
  assumes "CoAP_MsgIsRequest m" "servers_have_requests (pInteractions w)"
    "find (same_request (MessageID m) ifID (Sender pckt)) (pInteractions w) = None"
    and "coap_mem_get0 sizeof_CoAP_Interaction (heap w) = (None, h)"
    and sock: "RetrieveSocket2 ifID (SocketCtrl w) = Some i" "Tx (SocketMemory (SocketCtrl w) ! i) = Some f"
  shows "on_request env ifID pckt res m w = Some (finish m (w\<lparr>heap := h, sent := sent w @
    (if Type m = CON then [(ifID, packet_of (reply_msg ACK RESP_INTERNAL_SERVER_ERROR_5_00 (MessageID m) (Token64 m))
                                  (SocketMemory (SocketCtrl w) ! i) (Sender pckt))] else [])\<rparr>))"
proof -
  let ?r = "reply_msg ACK RESP_INTERNAL_SERVER_ERROR_5_00 (MessageID m) (Token64 m)"
  obtain m' res' where s: "CoAP_SendMsg (drv env) ?r ifID (Sender pckt) (w\<lparr>heap := h\<rparr>) =
      Some (res', m', w\<lparr>heap := h, sent := sent w @ [(ifID, packet_of ?r (SocketMemory (SocketCtrl w) ! i) (Sender pckt))]\<rparr>)"
    using SendMsg_short[OF reply_sendable reply_short _ _ refl, of ifID "w\<lparr>heap := h\<rparr>" i f] sock by fastforce
  show ?thesis using assms(1-4) s by (simp add: on_request_def StartNewServer_new SendShortResp_reply)
qed

text \<open>
  C25: every request is served once. A request that passes the table and for whose message id, interface
  and sender a server interaction exists starts nothing: it is released, and at most the empty
  acknowledgement of a postponed confirmable request is sent again. Any other starts exactly one
  interaction, at the end of the list, that owns the message and names the resource; if the allocator
  has no room it is released, and a confirmable one is answered with 5.00. Either way the server
  interactions stay free of duplicates.
\<close>

theorem request_served_once:
  assumes "verdict m w = Process" "CoAP_MsgIsRequest m" "servers_have_requests (pInteractions w)"
    and "RetrieveSocket2 ifID (SocketCtrl w) = Some i" "Tx (SocketMemory (SocketCtrl w) ! i) = Some f"
  shows "\<exists>r w'. CoAP_FindResourceByUri [] (pOptionsList m) w = Some r \<and> handle_message env ifID pckt m w = Some w' \<and>
    (case find (same_request (MessageID m) ifID (Sender pckt)) (pInteractions w) of
       Some ia \<Rightarrow> w' = finish m
         (if State ia = COAP_STATE_RESOURCE_POSTPONE_EMPTY_ACK_SENT \<and> map_option Type (pReqMsg ia) = Some CON
          then w\<lparr>sent := sent w @ [(ifID, packet_of (reply_msg ACK EMPTY (MessageID m) 0)
                                          (SocketMemory (SocketCtrl w) ! i) (RemoteEp ia))]\<rparr>
          else w)
     | None \<Rightarrow>
         (case coap_mem_get0 sizeof_CoAP_Interaction (heap w) of
            (Some p, h) \<Rightarrow>
              w' = w\<lparr>heap := h, pInteractions := pInteractions w @ [server_ia p m (Some (res_addr r)) ifID pckt]\<rparr>
          | (None, h) \<Rightarrow> w' = finish m (w\<lparr>heap := h, sent := sent w @
              (if Type m = CON
               then [(ifID, packet_of (reply_msg ACK RESP_INTERNAL_SERVER_ERROR_5_00 (MessageID m) (Token64 m))
                       (SocketMemory (SocketCtrl w) ! i) (Sender pckt))] else [])\<rparr>))) \<and>
    (requests_distinct (pInteractions w) \<longrightarrow> requests_distinct (pInteractions w'))"
proof -
  obtain r where r: "CoAP_FindResourceByUri [] (pOptionsList m) w = Some r"
    "handle_message env ifID pckt m w = on_request env ifID pckt (Some (res_addr r)) m w"
    using process_request[OF assms(1,2)] by blast
  show ?thesis
  proof (cases "find (same_request (MessageID m) ifID (Sender pckt)) (pInteractions w)")
    case (Some ia)
    then show ?thesis using on_request_duplicate[OF assms(2,3) Some assms(4,5)] r by (simp add: finish_def)
  next
    case None
    obtain q h where g: "coap_mem_get0 sizeof_CoAP_Interaction (heap w) = (q, h)" by force
    show ?thesis
    proof (cases q)
      case oom: None
      then show ?thesis using on_request_oom[OF assms(2,3) None _ assms(4,5)] r None g
        by (simp add: finish_def del: coap_mem_get0_eq)
    next
      case (Some p)
      let ?w' = "w\<lparr>heap := h, pInteractions := pInteractions w @ [server_ia p m (Some (res_addr r)) ifID pckt]\<rparr>"
      have "handle_message env ifID pckt m w = Some ?w'"
        using StartNewServer_new[OF assms(2,3) None] r(2) g Some
        by (simp add: on_request_def del: coap_mem_get0_eq)
      moreover have "requests_distinct (pInteractions ?w')" if "requests_distinct (pInteractions w)"
        using that None
        by (auto simp: requests_distinct_def sorted_wrt_append server_ia_def find_None_iff new_interaction_def)
      ultimately show ?thesis using r(1) None g Some by (simp del: coap_mem_get0_eq)
    qed
  qed
qed

text \<open>A stack with one resource that accepts every request without Uri-Path.\<close>

definition demo_res :: CoAP_Res where
  "demo_res = \<lparr>res_addr = 9600, pDescription = None, UpdateCnt = 0, Options = \<lparr>Cf = 0, Flags = RES_OPT_GET, ETag = 0\<rparr>,
     pUri = [], pListObservers = [], Handler = Some 1, Notifier = Some 2\<rparr>"

definition demo_server :: "unit coap" where
  "demo_server = demo_stack\<lparr>pInteractions := [], pResList := [demo_res]\<rparr>"

theorem request_served_once_witness:
  "\<exists>w'. handle_message demo_env 1 (packet_of demo_msg demo_socket (demo_ep 1)) (demo_msg\<lparr>pOptionsList := []\<rparr>) demo_server = Some w' \<and>
     requests_distinct (pInteractions w')"
proof -
  let ?m = "demo_msg\<lparr>pOptionsList := []\<rparr>"
  have f: "RetrieveSocket2 1 (SocketCtrl demo_server) = Some 0" "Tx (SocketMemory (SocketCtrl demo_server) ! 0) = Some 1"
    using demo_stack_socket by (simp_all add: demo_server_def demo_stack_def demo_hal_def demo_socket_def)
  have v: "verdict ?m demo_server = Process" "CoAP_MsgIsRequest ?m"
    by (simp_all add: verdict_def known_resource_def CoAP_FindResourceByUri_def demo_server_def demo_msg_def demo_res_def
        CoAP_MsgIsRequest_def message_codes CoAP_UriOptionsAreEqual.simps)
  have s: "servers_have_requests (pInteractions demo_server)" "requests_distinct (pInteractions demo_server)"
    by (simp_all add: servers_have_requests_def requests_distinct_def demo_server_def)
  show ?thesis
    using request_served_once[OF v s(1) f, of demo_env "packet_of demo_msg demo_socket (demo_ep 1)"] s(2) by blast
qed

subsection \<open>Separate responses\<close>

definition same_exchange :: "u64 \<Rightarrow> NetEp \<Rightarrow> CoAP_Interaction \<Rightarrow> bool" where
  "same_exchange token ep ia \<longleftrightarrow> Role ia = COAP_ROLE_CLIENT \<and>
     (\<exists>req. pReqMsg ia = Some req \<and> Token64 req = token) \<and> EpAreEqual (Some ep) (Some (RemoteEp ia))"

definition clients_have_requests :: "CoAP_Interaction list \<Rightarrow> bool" where
  "clients_have_requests ias \<longleftrightarrow> (\<forall>ia \<in> set ias. Role ia = COAP_ROLE_CLIENT \<longrightarrow> pReqMsg ia \<noteq> None)"

lemma find_client_eq:
  "clients_have_requests ias \<Longrightarrow> find_client token ep ias = Some (find (same_exchange token ep) ias)"
  by (induction ias) (auto simp: clients_have_requests_def same_exchange_def split: option.splits)

lemma process_separate:
  assumes "verdict m w = Process" "CoAP_MsgIsRequest m = False" "Type m = CON \<or> Type m = NON"
  shows "handle_message env ifID pckt m w = on_separate_response env ifID (Sender pckt) m w"
  using assms by (auto simp: handle_message_verdict dispatch_def split: CoAP_MessageType_t.split)

definition got_response :: "CoAP_Message \<Rightarrow> bool \<Rightarrow> CoAP_Interaction \<Rightarrow> CoAP_Interaction" where
  "got_response m acked ia =
    (let ia = (if State ia = COAP_STATE_WAITING_RESPONSE \<or> State ia = COAP_STATE_HANDLE_RESPONSE
               then ia\<lparr>pRespMsg := Some m, State := COAP_STATE_HANDLE_RESPONSE\<rparr> else ia)
     in if acked then ia\<lparr>RespReliabilityState := ACK_SET\<rparr> else ia)"

text \<open>
  C26: a separate response reaches the exchange it belongs to. The first client interaction with its token
  and endpoint takes it when it waits for a response (an older response is released first); a
  confirmable response is acknowledged with an empty message, and the acknowledgement is noted when
  the driver took it. All other interactions stay as they are. A response to an interaction in another
  state is acknowledged too but is neither kept nor released. A response that belongs to no interaction
  is rejected with a reset and released.
\<close>

theorem separate_response_matched:
  assumes "verdict m w = Process" "CoAP_MsgIsRequest m = False" "Type m = CON \<or> Type m = NON"
    and "clients_have_requests (pInteractions w)" "distinct (ia_addrs w)"
    and "RetrieveSocket2 ifID (SocketCtrl w) = Some i" "Tx (SocketMemory (SocketCtrl w) ! i) = Some f"
  shows "handle_message env ifID pckt m w = Some
    (let reply = (\<lambda>T. (ifID, packet_of (reply_msg T EMPTY (MessageID m) (Token64 m))
                               (SocketMemory (SocketCtrl w) ! i) (Sender pckt)));
         taken = drv env f ifID (snd (reply ACK)) (sent w)
     in case find (same_exchange (Token64 m) (Sender pckt)) (pInteractions w) of
          None \<Rightarrow> finish m (w\<lparr>sent := sent w @ [reply RST]\<rparr>)
        | Some ia \<Rightarrow>
            upd_ia (ia_addr ia) (got_response m (Type m = CON \<and> taken))
              (w\<lparr>heap := (if State ia = COAP_STATE_WAITING_RESPONSE \<or> State ia = COAP_STATE_HANDLE_RESPONSE
                         then CoAP_free_Message (pRespMsg ia) (heap w) else heap w),
                 sent := sent w @ (if Type m = CON then [reply ACK] else [])\<rparr>))"
proof -
  let ?p = "\<lambda>T. packet_of (reply_msg T EMPTY (MessageID m) (Token64 m)) (SocketMemory (SocketCtrl w) ! i) (Sender pckt)"
  have short: "\<exists>m'. CoAP_SendMsg (drv env) (reply_msg T EMPTY (MessageID m) (Token64 m)) ifID (Sender pckt) v =
      Some (if drv env f ifID (?p T) (sent w) then COAP_OK else COAP_ERR_NETWORK, m', v\<lparr>sent := sent w @ [(ifID, ?p T)]\<rparr>)"
    if "SocketCtrl v = SocketCtrl w" "sent v = sent w" for T and v :: "'a coap"
    using SendMsg_short[OF reply_sendable reply_short, of ifID v i f] that assms(6,7) by metis
  show ?thesis
  proof (cases "find (same_exchange (Token64 m) (Sender pckt)) (pInteractions w)")
    case None
    then show ?thesis using process_separate[OF assms(1-3)] find_client_eq[OF assms(4)] short[of w RST]
      by (auto simp: on_separate_response_def SendShortResp_reply Let_def)
  next
    case (Some ia)
    then have m: "get_ia (ia_addr ia) w = Some ia" using get_ia_member[OF assms(5)] by (auto simp: find_Some_iff)
    let ?waits = "State ia = COAP_STATE_WAITING_RESPONSE \<or> State ia = COAP_STATE_HANDLE_RESPONSE"
    let ?w1 = "if ?waits then upd_ia (ia_addr ia) (\<lambda>i. i\<lparr>pRespMsg := Some m, State := COAP_STATE_HANDLE_RESPONSE\<rparr>)
        (w\<lparr>heap := CoAP_free_Message (pRespMsg ia) (heap w)\<rparr>) else w"
    have a: "(if ?waits then attach_response (ia_addr ia) m w else Some w) = Some ?w1"
      using m by (simp add: attach_response_def)
    have ws: "SocketCtrl ?w1 = SocketCtrl w" "sent ?w1 = sent w" by simp_all
    obtain m' where s: "CoAP_SendMsg (drv env) (reply_msg ACK EMPTY (MessageID m) (Token64 m)) ifID (Sender pckt) ?w1 =
        Some (if drv env f ifID (?p ACK) (sent w) then COAP_OK else COAP_ERR_NETWORK, m', ?w1\<lparr>sent := sent w @ [(ifID, ?p ACK)]\<rparr>)"
      using short[OF ws] by blast
    have g: "upd_ia (ia_addr ia) (got_response m acked) v = upd_ia (ia_addr ia) (\<lambda>i.
        (if acked then (\<lambda>i. i\<lparr>RespReliabilityState := ACK_SET\<rparr>) else (\<lambda>i. i))
          (if ?waits then i\<lparr>pRespMsg := Some m, State := COAP_STATE_HANDLE_RESPONSE\<rparr> else i)) v"
      if "pInteractions v = pInteractions w" for acked and v :: "'a coap"
      using that Some assms(5) by (intro upd_ia_cong) (auto simp: ia_addrs_def got_response_def find_Some_iff)
    show ?thesis
      using process_separate[OF assms(1-3)] find_client_eq[OF assms(4)] Some a s assms(3)
      by (auto simp: on_separate_response_def SendShortResp_reply Let_def g upd_ia_twice)
  qed
qed

theorem separate_response_matched_witness:
  "\<exists>w'. handle_message demo_env 1 (packet_of demo_msg (demo_socket\<lparr>EpLocal := demo_ep 2\<rparr>) (demo_ep 1))
      (demo_msg\<lparr>Type := NON, Code := RESP_SUCCESS_CONTENT_2_05, pOptionsList := []\<rparr>) demo_stack = Some w' \<and>
     map State (pInteractions w') = [COAP_STATE_HANDLE_RESPONSE]"
proof -
  let ?m = "demo_msg\<lparr>Type := NON, Code := RESP_SUCCESS_CONTENT_2_05, pOptionsList := []\<rparr>"
  let ?p = "packet_of demo_msg (demo_socket\<lparr>EpLocal := demo_ep 2\<rparr>) (demo_ep 1)"
  have f: "Tx (SocketMemory (SocketCtrl demo_stack) ! 0) = Some 1"
    by (simp add: demo_stack_def demo_hal_def demo_socket_def)
  have v: "verdict ?m demo_stack = Process" "CoAP_MsgIsRequest ?m = False" "Type ?m = CON \<or> Type ?m = NON"
    by (simp_all add: verdict_def CoAP_MsgIsRequest_def message_codes)
  have c: "clients_have_requests (pInteractions demo_stack)" "distinct (ia_addrs demo_stack)"
    by (simp_all add: clients_have_requests_def ia_addrs_def demo_stack_def demo_client_def)
  have q: "find (same_exchange (Token64 ?m) (Sender ?p)) (pInteractions demo_stack) = Some demo_client"
    "pInteractions demo_stack = [demo_client]" "State demo_client = COAP_STATE_WAITING_RESPONSE" "Type ?m = NON"
    by (simp_all add: same_exchange_def demo_stack_def demo_client_def demo_msg_def packet_of_def
        EpAreEqual_def demo_ep_def)
  show ?thesis
    using separate_response_matched[OF v c demo_stack_socket f, of demo_env ?p] q
    by (simp add: got_response_def)
qed

end
