(* ===== verification/Ownership.thy ===== *)
theory Ownership imports Stack_Facts "HOL-Library.Multiset" begin

section \<open>Ownership of buffers\<close>

text \<open>
  Who owns which buffer of the pool. A \<open>claim\<close> is a buffer with the size its owner relies on; a part of
  the stack's state owns a multiset of claims. \<open>holds h K\<close>: in the well-formed heap \<open>h\<close> all claims
  of \<open>K\<close> are on different live buffers that are big enough. Buffers nobody claims may be live too: some
  paths of the source lose buffers. \<open>trades K h K' h'\<close>: going from \<open>h\<close> to \<open>h'\<close> turns the claims \<open>K\<close> into
  \<open>K'\<close> and leaves whatever else is claimed alone, so an operation's lemma speaks of its own buffers only.
\<close>

type_synonym claims = "(addr \<times> int) multiset"

definition holds :: "bget_state \<Rightarrow> claims \<Rightarrow> bool" where
  "holds h K \<longleftrightarrow> (\<exists>L. heap_inv h L \<and> fst ` set_mset K \<subseteq> L) \<and>
     (\<forall>p. count (image_mset fst K) p \<le> 1) \<and> (\<forall>(p, n) \<in># K. n \<le> bsize (Some p) h)"

definition same_pool :: "bget_state \<Rightarrow> bget_state \<Rightarrow> bool" where
  "same_pool h h' \<longleftrightarrow> pMemArea h' = pMemArea h \<and> TotalBufBytes h' = TotalBufBytes h"

definition same_sizes :: "claims \<Rightarrow> bget_state \<Rightarrow> bget_state \<Rightarrow> bool" where
  "same_sizes F h h' \<longleftrightarrow> (\<forall>q \<in> fst ` set_mset F. bsize (Some q) h' = bsize (Some q) h)"

definition trades :: "claims \<Rightarrow> bget_state \<Rightarrow> claims \<Rightarrow> bget_state \<Rightarrow> bool" where
  "trades K h K' h' \<longleftrightarrow>
     (\<forall>F. holds h (K + F) \<longrightarrow> holds h' (K' + F) \<and> same_sizes F h h' \<and> same_pool h h')"

subsection \<open>Holding\<close>

lemma count_add_le: "(\<And>p. count (A + B) p \<le> (1 :: nat)) \<Longrightarrow> count A p \<le> 1"
  by (metis add_leD1 count_union)

lemma holdsI:
  "heap_inv h L \<Longrightarrow> fst ` set_mset K \<subseteq> L \<Longrightarrow> (\<And>p. count (image_mset fst K) p \<le> 1) \<Longrightarrow>
     (\<And>p n. (p, n) \<in># K \<Longrightarrow> n \<le> bsize (Some p) h) \<Longrightarrow> holds h K"
  unfolding holds_def by blast

lemma holds_once: "holds h K \<Longrightarrow> count (image_mset fst K) p \<le> 1"
  unfolding holds_def by blast

lemma holds_part: "holds h (K + F) \<Longrightarrow> holds h K"
  using count_add_le[of "image_mset fst K" "image_mset fst F"]
  unfolding holds_def by (simp add: image_Un) blast

lemma holds_sub: "holds h K \<Longrightarrow> A \<subseteq># K \<Longrightarrow> holds h A"
  using holds_part[of h A "K - A"] by simp

lemma holds_heap: "holds h K \<Longrightarrow> \<exists>L. heap_inv h L \<and> fst ` set_mset K \<subseteq> L"
  by (simp add: holds_def)

lemma holds_size: "holds h K \<Longrightarrow> (p, n) \<in># K \<Longrightarrow> n \<le> bsize (Some p) h"
  by (auto simp: holds_def)

lemma holds_fresh: "holds h (add_mset c K) \<Longrightarrow> fst c \<notin> fst ` set_mset K"
proof
  assume a: "holds h (add_mset c K)" "fst c \<in> fst ` set_mset K"
  then have "fst c \<in># image_mset fst K" by simp
  then have "0 < count (image_mset fst K) (fst c)" by (simp only: count_greater_zero_iff)
  moreover have "count (image_mset fst (add_mset c K)) (fst c) \<le> 1" using a(1) by (rule holds_once)
  moreover have "count (image_mset fst (add_mset c K)) (fst c) = Suc (count (image_mset fst K) (fst c))" by simp
  ultimately show False by linarith
qed

lemma holds_weaken: "holds h (add_mset (p, n) K) \<Longrightarrow> m \<le> n \<Longrightarrow> holds h (add_mset (p, m) K)"
  by (auto simp: holds_def)

lemma holds_heap_inv: "heap_inv h L \<Longrightarrow> holds h {#}"
  by (auto simp: holds_def)

lemma same_sizes_add [simp]: "same_sizes (A + B) h h' \<longleftrightarrow> same_sizes A h h' \<and> same_sizes B h h'"
  by (auto simp: same_sizes_def)

lemma same_sizes_empty [simp]: "same_sizes {#} h h'"
  by (simp add: same_sizes_def)

lemma same_pool_refl [simp]: "same_pool h h"
  by (simp add: same_pool_def)

lemma same_pool_trans: "same_pool h h' \<Longrightarrow> same_pool h' h'' \<Longrightarrow> same_pool h h''"
  by (simp add: same_pool_def)

lemma same_pool_ends:
  "same_pool h h' \<Longrightarrow> coap_mem_buf_lowEnd h' = coap_mem_buf_lowEnd h \<and> coap_mem_buf_highEnd h' = coap_mem_buf_highEnd h"
  by (simp add: same_pool_def coap_mem_buf_lowEnd_def coap_mem_buf_highEnd_def)

subsection \<open>Trading\<close>

lemma tradesD:
  assumes "trades K h K' h'" "holds h (K + F)"
  shows "holds h' (K' + F)" "same_sizes F h h'" "same_pool h h'"
  using assms by (auto simp: trades_def)

lemma trades_refl [simp]: "trades K h K h"
  by (simp add: trades_def same_sizes_def)

lemma trades_trans: "trades K h K' h' \<Longrightarrow> trades K' h' K'' h'' \<Longrightarrow> trades K h K'' h''"
  unfolding trades_def same_sizes_def using same_pool_trans by fastforce

lemma trades_frame: "trades K h K' h' \<Longrightarrow> trades (K + G) h (K' + G) h'"
  unfolding trades_def by (auto simp: add.assoc)

lemma trades_frame_left: "trades K h K' h' \<Longrightarrow> trades (G + K) h (G + K') h'"
  using trades_frame by (metis add.commute)

lemma trades_drop: "trades (K + G) h K h"
  unfolding trades_def same_sizes_def by (auto intro: holds_part simp: add.assoc add.commute[of G])

lemma trades_sub: "A \<subseteq># K \<Longrightarrow> trades K h A h"
  using trades_drop[of A "K - A" h] by simp

text \<open>What is known from holding the claims may be used, before and behind.\<close>

lemma trades_pre: "(holds h K \<Longrightarrow> trades K h K' h') \<Longrightarrow> trades K h K' h'"
  unfolding trades_def using holds_part by blast

lemma trades_post: "trades K h K1 h' \<Longrightarrow> (holds h' K1 \<Longrightarrow> K1 = K') \<Longrightarrow> trades K h K' h'"
  unfolding trades_def using holds_part[of h' K1] by auto

lemma trades_eq: "trades K h K' h' \<Longrightarrow> K = A \<Longrightarrow> K' = B \<Longrightarrow> trades A h B h'"
  by simp

lemma trades_get:
  assumes "coap_mem_get n h = (Some p, h')" "fits n"
  shows "trades {#} h {#(p, n)#} h'"
  unfolding trades_def
proof (intro conjI allI impI)
  fix F assume F: "holds h ({#} + F)"
  show "same_pool h h'" using bget_area[OF assms(1)] by (simp add: same_pool_def)
  obtain L where L: "heap_inv h L" "fst ` set_mset F \<subseteq> L" using F holds_heap by force
  have i: "heap_inv h' (insert p L)" and f: "p \<notin> L"
    using mem.get_inv[OF assms(1) L(1) assms(2)] mem.get_fresh[OF assms(1) L(1) assms(2)] by auto
  have g: "bget n h = (Some p, h')" using assms by simp
  note bs = bget_bsize[OF g L(1) assms(2)]
  show s: "same_sizes F h h'" using bs(2) L(2) by (auto simp: same_sizes_def)
  have "count (image_mset fst F) p = 0" using f L(2) by (auto simp: count_image_mset' image_iff intro!: sum.neutral)
  then have "count (image_mset fst ({#(p, n)#} + F)) q \<le> 1" for q using holds_once[OF F, of q] by auto
  moreover have "n' \<le> bsize (Some q) h'" if "(q, n') \<in># {#(p, n)#} + F" for q n'
    using holds_size[OF F, of q n'] that bs L(2) by force
  ultimately show "holds h' ({#(p, n)#} + F)"
    using L(2) by (intro holdsI[OF i]) auto
qed

lemma trades_release: "trades {#(p, n)#} h {#} (release1 p h)"
  unfolding trades_def
proof (intro conjI allI impI)
  fix F assume F: "holds h ({#(p, n)#} + F)"
  show "same_pool h (release1 p h)" by (simp add: same_pool_def)
  obtain L where L: "heap_inv h L" "p \<in> L" "fst ` set_mset F \<subseteq> L" using F holds_heap by force
  have np: "p \<notin> fst ` set_mset F" using holds_fresh[of h "(p, n)" F] F by simp
  have bs: "bsize (Some q) (release1 p h) = bsize (Some q) h" if "q \<in> fst ` set_mset F" for q
    using brel_bsize[OF L(1,2), of q] that L(3) np by auto
  then show "same_sizes F h (release1 p h)" by (simp add: same_sizes_def)
  have "heap_inv (release1 p h) (L - {p})" using mem.rel_inv[OF L(1,2)] .
  moreover have "n' \<le> bsize (Some q) (release1 p h)" if "(q, n') \<in># F" for q n'
    using holds_size[of h "add_mset (p, n) F" q n'] F that bs[of q] by force
  moreover have "holds h F" using holds_part[of h F "{#(p, n)#}"] F by (simp add: add.commute)
  ultimately show "holds (release1 p h) ({#} + F)"
    using holds_once L(3) np by (intro holdsI[of _ "L - {p}"]) auto
qed

lemma trades_release_more: "trades (add_mset (p, n) K) h K (release1 p h)"
  using trades_frame[OF trades_release[of p n h], of K] by simp

lemma trades_weaken: "m \<le> n \<Longrightarrow> trades (add_mset (p, n) K) h (add_mset (p, m) K) h"
  unfolding trades_def same_sizes_def using holds_weaken[of h p n _ m] by simp

lemma trades_get_opt:
  "coap_mem_get n h = (q, h') \<Longrightarrow> fits n \<Longrightarrow> trades {#} h (case q of None \<Rightarrow> {#} | Some p \<Rightarrow> {#(p, n)#}) h'"
  using mem.get_None[of n h h'] trades_get[of n h _ h'] by (cases q) auto

subsection \<open>Claims that depend on the heap\<close>

text \<open>A part whose claims can be read off the heap, and stay the same as long as nobody touches them.\<close>

definition steady :: "(bget_state \<Rightarrow> claims) \<Rightarrow> bool" where
  "steady f \<longleftrightarrow> (\<forall>h h'. same_pool h h' \<longrightarrow> same_sizes (f h) h h' \<longrightarrow> f h' = f h)"

lemma steady_const [simp, intro]: "steady (\<lambda>h. K)"
  by (simp add: steady_def)

lemma steady_add: "steady f \<Longrightarrow> steady g \<Longrightarrow> steady (\<lambda>h. f h + g h)"
  by (simp add: steady_def)

lemma steady_add_mset [intro]: "steady f \<Longrightarrow> steady (\<lambda>h. add_mset c (f h))"
  using steady_add[of "\<lambda>h. {#c#}" f] by simp

lemma steady_list [intro]: "(\<And>x. x \<in> set xs \<Longrightarrow> steady (\<lambda>h. f h x)) \<Longrightarrow> steady (\<lambda>h. sum_list (map (f h) xs))"
  by (induction xs) (auto intro: steady_add)

lemma steady_option [intro]:
  "(\<And>x. steady (\<lambda>h. f h x)) \<Longrightarrow> steady (\<lambda>h. case q of None \<Rightarrow> {#} | Some x \<Rightarrow> f h x)"
  by (cases q) auto

lemma steady_keeps:
  "steady f \<Longrightarrow> trades K h K' h' \<Longrightarrow> holds h (K + (f h + F)) \<Longrightarrow> f h' = f h"
  using tradesD[of K h K' h' "f h + F"] unfolding steady_def by simp

lemma trades_steady:
  assumes "steady f" "trades K h K' h'"
  shows "trades (K + f h) h (K' + f h') h'"
  unfolding trades_def
proof (intro allI impI)
  fix F assume "holds h (K + f h + F)"
  then have H: "holds h (K + (f h + F))" by (simp add: add.assoc)
  show "holds h' (K' + f h' + F) \<and> same_sizes F h h' \<and> same_pool h h'"
    using tradesD[OF assms(2) H] steady_keeps[OF assms H] by (simp add: add.assoc)
qed

lemma trades_steady_left: "steady f \<Longrightarrow> trades K h K' h' \<Longrightarrow> trades (f h + K) h (f h' + K') h'"
  using trades_steady by (metis add.commute)

end
