(* ===== verification/Message_Own.thy ===== *)
theory Message_Own imports Ownership begin

section \<open>What options and messages own\<close>

text \<open>
  The claims of an option list and of a message, and for every operation on them the trade it makes.
  A message owns its own buffer, its options, and the buffer of its payload when the payload pointer
  leads into the pool but not into the message's buffer.
\<close>

definition opt_own :: "CoAP_option \<Rightarrow> addr \<times> int" where
  "opt_own opt = (opt_addr opt, option_request (Length opt))"

definition opts_own :: "options \<Rightarrow> claims" where
  "opts_own opts = image_mset opt_own (mset opts)"

definition ext_own :: "bget_state \<Rightarrow> CoAP_Message \<Rightarrow> claims" where
  "ext_own h m =
    (case Payload m of
       None \<Rightarrow> {#}
     | Some p \<Rightarrow> if p > coap_mem_buf_highEnd h \<or> p < coap_mem_buf_lowEnd h \<or> bufferIsPartOfMsg p m h
                 then {#} else {#(p, 0)#})"

definition msg_own :: "bget_state \<Rightarrow> CoAP_Message \<Rightarrow> claims" where
  "msg_own h m = opts_own (pOptionsList m) + add_mset (msg_addr m, sizeof_CoAP_Message) (ext_own h m)"

fun msg_opt_own :: "bget_state \<Rightarrow> CoAP_Message option \<Rightarrow> claims" where
  "msg_opt_own h None = {#}"
| "msg_opt_own h (Some m) = msg_own h m"

subsection \<open>Options\<close>

lemma opts_own_simps [simp]:
  "opts_own [] = {#}" "opts_own (opt # opts) = add_mset (opt_own opt) (opts_own opts)"
  "opts_own (xs @ ys) = opts_own xs + opts_own ys"
  by (simp_all add: opts_own_def)

lemma opts_own_insert [simp]: "opts_own (insert_option new opts) = add_mset (opt_own new) (opts_own opts)"
proof -
  have "mset (takeWhile P opts) + mset (dropWhile P opts) = mset opts" for P
    by (metis mset_append takeWhile_dropWhile_id)
  then have "mset (insert_option new opts) = add_mset new (mset opts)" by (simp add: insert_option_def)
  then show ?thesis by (simp add: opts_own_def)
qed

lemma opts_own_addrs [simp]: "fst ` set_mset (opts_own opts) = opt_addr ` set opts"
  by (induction opts) (auto simp: opt_own_def)

lemma append_trades:
  assumes "CoAP_AppendOptionToList opts num buf len h = (res, opts', h')" "unat len \<le> 32740"
  shows "trades (opts_own opts) h (opts_own opts') h'"
  using append_option_cases[OF assms(1)]
proof (elim disjE conjE exE)
  fix p assume p: "coap_mem_get (option_request len) h = (Some p, h')"
    "opts' = insert_option (mk_option p num buf len) opts"
  show ?thesis
    using trades_frame[OF trades_get[OF p(1) option_request_fits[OF assms(2)]], of "opts_own opts"] p(2)
    by (simp add: opt_own_def)
next
  assume "h' = h" "opts' = (if opts \<noteq> [] \<and> num < Number (hd opts) then [] else opts)"
  then show ?thesis using trades_drop[of "{#}" "opts_own opts" h] by simp
qed

lemma releases_trades: "trades (opts_own opts) h {#} (fold release1 (map opt_addr opts) h)"
proof (induction opts arbitrary: h)
  case (Cons opt opts)
  have "trades (opts_own (opt # opts)) h (opts_own opts) (release1 (opt_addr opt) h)"
    using trades_release_more by (simp add: opt_own_def)
  then show ?case using Cons.IH trades_trans by auto
qed simp

lemma free_options_trades: "trades (opts_own opts) h {#} (CoAP_FreeOptionList opts h)"
proof (cases opts)
  case (Cons a os)
  have "opts_own (os @ [a]) = opts_own opts" using Cons by simp
  then show ?thesis using releases_trades[of "os @ [a]" h] Cons by (simp add: FreeOptionList_fold)
qed (simp add: CoAP_FreeOptionList_def)

lemma remove_option_trades:
  "CoAP_RemoveOptionFromList opts p h = (opts', h') \<Longrightarrow> trades (opts_own opts) h (opts_own opts') h'"
proof (induction opts arbitrary: opts' h')
  case (Cons a os)
  show ?case
  proof (cases "opt_addr a = p")
    case True
    then show ?thesis using Cons.prems trades_release_more by (auto simp: opt_own_def)
  next
    case False
    obtain o2 h2 where o2: "CoAP_RemoveOptionFromList os p h = (o2, h2)" by force
    then show ?thesis using Cons False trades_frame_left[OF Cons.IH[OF o2], of "{#opt_own a#}"] by auto
  qed
qed simp

text \<open>Well formed options stay well formed.\<close>

lemma append_wf:
  assumes "CoAP_AppendOptionToList opts num buf len h = (res, opts', h')" "list_all opt_wf opts" "length buf \<ge> unat len"
  shows "list_all opt_wf opts'"
  using append_option_cases[OF assms(1)] assms(2,3) by (auto simp: list_all_iff opt_wf_def split: if_splits)

lemma remove_option_set: "set (fst (CoAP_RemoveOptionFromList opts p h)) \<subseteq> set opts"
  by (induction opts) (auto simp: split_beta)

subsection \<open>Messages\<close>

lemma ext_own_cong:
  "Payload m' = Payload m \<Longrightarrow> msg_addr m' = msg_addr m \<Longrightarrow> ext_own h m' = ext_own h m"
  by (simp add: ext_own_def bufferIsPartOfMsg_def split: option.splits)

lemma msg_own_cong:
  "Payload m' = Payload m \<Longrightarrow> msg_addr m' = msg_addr m \<Longrightarrow> pOptionsList m' = pOptionsList m \<Longrightarrow>
     msg_own h m' = msg_own h m"
  using ext_own_cong[of m' m h] by (simp add: msg_own_def)

lemma msg_own_fields [simp]:
  "msg_own h (m\<lparr>Timestamp := t\<rparr>) = msg_own h m" "msg_own h (m\<lparr>Type := T\<rparr>) = msg_own h m"
  "msg_own h (m\<lparr>Code := c\<rparr>) = msg_own h m" "msg_own h (m\<lparr>MessageID := i\<rparr>) = msg_own h m"
  "msg_own h (m\<lparr>PayloadLength := n\<rparr>) = msg_own h m" "msg_own h (m\<lparr>PayloadBufSize := n\<rparr>) = msg_own h m"
  "msg_own h (m\<lparr>PayloadData := d\<rparr>) = msg_own h m"
  by (rule msg_own_cong; simp)+

lemma ext_own_options [simp]: "ext_own h (m\<lparr>pOptionsList := opts\<rparr>) = ext_own h m"
  by (rule ext_own_cong) simp_all

lemma steady_rest: "steady (\<lambda>h. add_mset (msg_addr m, sizeof_CoAP_Message) (ext_own h m))"
  unfolding steady_def using same_pool_ends
  by (auto simp: ext_own_def bufferIsPartOfMsg_def same_sizes_def split: option.splits)

lemma steady_msg [intro]: "steady (\<lambda>h. msg_own h m)"
  unfolding msg_own_def by (intro steady_add steady_const steady_rest)

lemma steady_msg_opt [intro]: "steady (\<lambda>h. msg_opt_own h q)"
  by (cases q) auto

lemma msg_options_trades:
  assumes "trades (opts_own (pOptionsList m)) h (opts_own opts') h'"
  shows "trades (msg_own h m) h (msg_own h' (m\<lparr>pOptionsList := opts'\<rparr>)) h'"
  using trades_steady[OF steady_rest[of m] assms] by (simp add: msg_own_def)

lemma free_MsgPayload_trades:
  assumes "CoAP_free_MsgPayload m h = (m', h')"
  shows "trades (msg_own h m) h (msg_own h' m') h'" "ext_own h' m' = {#}"
    "pOptionsList m' = pOptionsList m" "msg_addr m' = msg_addr m" "PayloadLength m' = PayloadLength m"
proof -
  have "ext_own h m = {#} \<and> m' = m \<and> h' = h \<or>
    (\<exists>p. ext_own h m = {#(p, 0)#} \<and> m' = m\<lparr>Payload := None, PayloadBufSize := 0\<rparr> \<and> h' = release1 p h)"
    using assms by (auto simp: CoAP_free_MsgPayload_def ext_own_def split: option.splits if_splits)
  then show "trades (msg_own h m) h (msg_own h' m') h'" "ext_own h' m' = {#}"
    "pOptionsList m' = pOptionsList m" "msg_addr m' = msg_addr m" "PayloadLength m' = PayloadLength m"
    using trades_release_more[of _ 0 "opts_own (pOptionsList m) + {#(msg_addr m, sizeof_CoAP_Message)#}"]
    by (auto simp: msg_own_def ext_own_def add_mset_commute)
qed

lemma free_message_trades: "trades (msg_opt_own h q) h {#} (CoAP_free_Message q h)"
proof (cases q)
  case (Some m)
  let ?h1 = "CoAP_FreeOptionList (pOptionsList m) h"
  obtain m2 h2 where f: "CoAP_free_MsgPayload m ?h1 = (m2, h2)" by force
  have "trades (msg_own h m) h (msg_own ?h1 (m\<lparr>pOptionsList := []\<rparr>)) ?h1"
    by (rule msg_options_trades) (simp add: free_options_trades)
  moreover have "CoAP_free_MsgPayload (m\<lparr>pOptionsList := []\<rparr>) ?h1 = (m2\<lparr>pOptionsList := []\<rparr>, h2)"
    using f by (auto simp: CoAP_free_MsgPayload_def bufferIsPartOfMsg_def split: option.splits if_splits)
  note p = free_MsgPayload_trades[OF this]
  moreover have "trades (msg_own h2 (m2\<lparr>pOptionsList := []\<rparr>)) h2 {#} (release1 (msg_addr m2) h2)"
    using p(2) trades_release by (simp add: msg_own_def)
  ultimately have "trades (msg_own h m) h {#} (release1 (msg_addr m2) h2)" using trades_trans by blast
  then show ?thesis using Some f by (simp add: CoAP_free_Message_def)
qed simp

subsection \<open>Operations on a message\<close>

text \<open>
  \<open>small_msg\<close>: the options are well formed and the payload is within the bound that keeps a datagram
  below the limits of the allocator. \<open>msg_step\<close>: an operation turns the message \<open>m\<close> into \<open>m'\<close>, trading
  the buffers of the one for those of the other, and keeps it small.
\<close>

definition small_msg :: "CoAP_Message \<Rightarrow> bool" where
  "small_msg m \<longleftrightarrow> list_all opt_wf (pOptionsList m) \<and> unat (PayloadLength m) \<le> 16000"

definition msg_step :: "CoAP_Message \<Rightarrow> bget_state \<Rightarrow> CoAP_Message \<Rightarrow> bget_state \<Rightarrow> bool" where
  "msg_step m h m' h' \<longleftrightarrow> trades (msg_own h m) h (msg_own h' m') h' \<and>
     (holds h (msg_own h m) \<longrightarrow> small_msg m \<longrightarrow> small_msg m')"

named_theorems steps \<open>the steps the operations on a message make\<close>

lemma msg_step_refl [simp]: "msg_step m h m h"
  by (simp add: msg_step_def)

lemma msg_step_trans: "msg_step m h m' h' \<Longrightarrow> msg_step m' h' m'' h'' \<Longrightarrow> msg_step m h m'' h''"
  using tradesD(1)[of "msg_own h m" h "msg_own h' m'" h' "{#}"]
  by (auto simp: msg_step_def intro: trades_trans)

lemma msg_step_pre: "(holds h (msg_own h m) \<Longrightarrow> msg_step m h m' h') \<Longrightarrow> msg_step m h m' h'"
  unfolding msg_step_def using trades_pre by blast

lemma msg_step_pool: "msg_step m h m' h' \<Longrightarrow> holds h (msg_own h m) \<Longrightarrow> same_pool h h'"
  unfolding msg_step_def using tradesD(3)[of _ h _ h' "{#}"] by auto

lemma msg_step_trades: "msg_step m h m' h' \<Longrightarrow> trades (msg_own h m) h (msg_own h' m') h'"
  by (simp add: msg_step_def)

lemma small_fields [simp]:
  "small_msg (m\<lparr>Timestamp := t\<rparr>) = small_msg m" "small_msg (m\<lparr>Type := T\<rparr>) = small_msg m"
  "small_msg (m\<lparr>Code := c\<rparr>) = small_msg m" "small_msg (m\<lparr>MessageID := i\<rparr>) = small_msg m"
  "small_msg (m\<lparr>PayloadBufSize := n\<rparr>) = small_msg m" "small_msg (m\<lparr>PayloadData := d\<rparr>) = small_msg m"
  "small_msg (m\<lparr>Payload := p\<rparr>) = small_msg m"
  by (simp_all add: small_msg_def)

lemma step_fields [simp]:
  "msg_step m h (m'\<lparr>Timestamp := t\<rparr>) h' = msg_step m h m' h'" "msg_step m h (m'\<lparr>Type := T\<rparr>) h' = msg_step m h m' h'"
  "msg_step m h (m'\<lparr>Code := c\<rparr>) h' = msg_step m h m' h'" "msg_step m h (m'\<lparr>MessageID := i\<rparr>) h' = msg_step m h m' h'"
  "msg_step m h (m'\<lparr>PayloadBufSize := n\<rparr>) h' = msg_step m h m' h'"
  "msg_step m h (m'\<lparr>PayloadData := d\<rparr>) h' = msg_step m h m' h'"
  "msg_step (m\<lparr>Code := c\<rparr>) h m' h' = msg_step m h m' h'" "msg_step (m\<lparr>MessageID := i\<rparr>) h m' h' = msg_step m h m' h'"
  "msg_step (m\<lparr>Type := T\<rparr>) h m' h' = msg_step m h m' h'"
  by (simp_all add: msg_step_def)

lemma step_length: "msg_step m h m' h' \<Longrightarrow> unat n \<le> 16000 \<Longrightarrow> msg_step m h (m'\<lparr>PayloadLength := n\<rparr>) h'"
  by (auto simp: msg_step_def small_msg_def)

lemma step_options:
  assumes "trades (opts_own (pOptionsList m)) h (opts_own opts') h'"
    "list_all opt_wf (pOptionsList m) \<Longrightarrow> list_all opt_wf opts'"
  shows "msg_step m h (m\<lparr>pOptionsList := opts'\<rparr>) h'"
  using msg_options_trades[OF assms(1)] assms(2) by (auto simp: msg_step_def small_msg_def)

lemma append_step [steps]:
  assumes "append_msg_option m num buf len h = (res, m', h')" "unat len \<le> 32740" "unat len \<le> length buf"
  shows "msg_step m h m' h'"
proof -
  obtain opts' where a: "CoAP_AppendOptionToList (pOptionsList m) num buf len h = (res, opts', h')"
    "m' = m\<lparr>pOptionsList := opts'\<rparr>" using assms(1) by (auto simp: append_msg_option_def split: prod.splits)
  show ?thesis unfolding a(2)
    by (rule step_options[OF append_trades[OF a(1) assms(2)]]) (rule append_wf[OF a(1) _ assms(3)])
qed

lemma remove_option_step:
  assumes "CoAP_RemoveOptionFromList (pOptionsList m) p h = (opts', h')"
  shows "msg_step m h (m\<lparr>pOptionsList := opts'\<rparr>) h'"
  using remove_option_set[of "pOptionsList m" p h] assms
  by (intro step_options remove_option_trades[OF assms]) (auto simp: list_all_iff)

lemma AddObserve_step [steps]: "AddObserveOptionToMsg m v h = (res, m', h') \<Longrightarrow> msg_step m h m' h'"
  by (auto simp: AddObserveOptionToMsg_def split: if_splits intro: append_step)

lemma RemoveObserve_step [steps]: "RemoveObserveOptionFromMsg m h = (res, m', h') \<Longrightarrow> msg_step m h m' h'"
  by (auto simp: RemoveObserveOptionFromMsg_def split: option.splits prod.splits intro: remove_option_step)

lemma UpdateObserve_step [steps]: "UpdateObserveOptionInMsg m v h = (res, m', h') \<Longrightarrow> msg_step m h m' h'"
  by (auto simp: UpdateObserveOptionInMsg_def split: prod.splits intro: msg_step_trans RemoveObserve_step AddObserve_step)

lemma AddBlk_step [steps]: "AddBlkOptionToMsg m blk h = (res, m', h') \<Longrightarrow> msg_step m h m' h'"
  by (auto simp: AddBlkOptionToMsg_def Let_def split: if_splits intro: append_step)

lemma AddCf_step [steps]: "AddCfOptionToMsg m cf h = (res, m', h') \<Longrightarrow> msg_step m h m' h'"
  by (auto simp: AddCfOptionToMsg_def split: if_splits prod.splits intro: append_step)

lemma AddETag_step [steps]: "AddETagOptionToMsg m d n h = (res, m', h') \<Longrightarrow> msg_step m h m' h'"
  by (auto simp: AddETagOptionToMsg_def intro: append_step)

lemma remove_number_trades:
  "remove_number_loop T found opts h = (found', opts', h') \<Longrightarrow>
     trades (opts_own opts) h (opts_own opts') h' \<and> set opts' \<subseteq> set opts"
proof (induction T found opts h rule: remove_number_loop.induct)
  case (1 T found opts h)
  show ?case
  proof (cases "find (\<lambda>opt. Number opt = T) opts")
    case None
    then show ?thesis using "1.prems" by (simp add: remove_number_loop.simps)
  next
    case (Some opt)
    obtain o2 h2 where r: "CoAP_RemoveOptionFromList opts (opt_addr opt) h = (o2, h2)" by force
    have "remove_number_loop T True o2 h2 = (found', opts', h')"
      using "1.prems" Some r by (simp add: remove_number_loop.simps[of T found])
    then have "trades (opts_own o2) h2 (opts_own opts') h' \<and> set opts' \<subseteq> set o2" using "1.IH"[OF Some] r by simp
    then show ?thesis
      using remove_option_trades[OF r] remove_option_set[of opts "opt_addr opt" h] r trades_trans by fastforce
  qed
qed

lemma RemoveAllBlock_step [steps]: "RemoveAllBlockOptionsFromMsg m T h = (res, m', h') \<Longrightarrow> msg_step m h m' h'"
  using remove_number_trades[of T False "pOptionsList m" h]
  by (auto simp: RemoveAllBlockOptionsFromMsg_def list_all_iff split: prod.splits intro!: step_options) blast

lemma free_MsgPayload_step [steps]:
  assumes "CoAP_free_MsgPayload m h = (m', h')"
  shows "msg_step m h m' h'"
  using free_MsgPayload_trades[OF assms] by (simp add: msg_step_def small_msg_def)

subsection \<open>Payload\<close>

text \<open>\<open>outside h p\<close>: the address \<open>p\<close> is not in the pool, so nobody owns what it shows.\<close>

definition outside :: "bget_state \<Rightarrow> addr \<Rightarrow> bool" where
  "outside h p \<longleftrightarrow> p > coap_mem_buf_highEnd h \<or> p < coap_mem_buf_lowEnd h"

lemma new_payload_trades:
  assumes "ext_own h m = {#}" "coap_mem_get n h = (Some p, h')" "fits n"
  shows "trades (msg_own h m) h (msg_own h' (m\<lparr>Payload := Some p\<rparr>)) h'"
proof -
  let ?K = "opts_own (pOptionsList m) + {#(msg_addr m, sizeof_CoAP_Message)#}"
  have t: "trades (msg_own h m) h (add_mset (p, n) ?K) h'"
    using trades_frame[OF trades_get[OF assms(2,3)], of ?K] assms(1) by (simp add: msg_own_def add_mset_commute)
  have w: "trades (add_mset (p, n) ?K) h' (add_mset (p, 0) ?K) h'"
    using assms(3) by (intro trades_weaken) (simp add: fits_def)
  have d: "trades (add_mset (p, 0) ?K) h' (msg_own h' (m\<lparr>Payload := Some p\<rparr>)) h'"
    by (rule trades_sub) (auto simp: msg_own_def ext_own_def)
  show ?thesis using t w d trades_trans by blast
qed

lemma fits_small: "0 < n \<Longrightarrow> n \<le> 32000 \<Longrightarrow> fits n"
  by (simp add: fits_def)

lemma put_payload_step:
  assumes "put_payload m pp d off n vol h = Some (m', h')" "0 < n" "n \<le> 16000"
    "vol \<or> outside h (pp + int off)"
  shows "msg_step m h m' h'"
proof (cases vol)
  case True
  obtain m2 h2 where f: "CoAP_free_MsgPayload m h = (m2, h2)" by force
  note p = free_MsgPayload_trades[OF f]
  show ?thesis
  proof (cases "unat (PayloadBufSize m) < n")
    case big: True
    then obtain q h3 where g: "coap_mem_get (int n) h2 = (Some q, h3)" "h3 = h'"
      "m' = m2\<lparr>Payload := Some q, PayloadBufSize := of_nat n, PayloadData := memcpy (\<lambda>_. 0) (mem_at d off) n\<rparr>"
      using assms(1) True f by (auto simp: put_payload_def split: option.splits prod.splits)
    have fi: "fits (int n)" using assms(2,3) by (intro fits_small) auto
    have "msg_step m2 h2 (m2\<lparr>Payload := Some q\<rparr>) h3"
      using new_payload_trades[OF p(2) g(1) fi] by (simp add: msg_step_def)
    then show ?thesis using g msg_step_trans[OF free_MsgPayload_step[OF f], of "m2\<lparr>Payload := Some q\<rparr>" h3] by simp
  qed (use assms(1) True in \<open>auto simp: put_payload_def\<close>)
next
  case False
  then have e: "m' = m\<lparr>Payload := Some (pp + int off), PayloadData := mem_at d off, PayloadBufSize := 0\<rparr>" "h' = h"
    using assms(1) by (auto simp: put_payload_def)
  have "ext_own h (m\<lparr>Payload := Some (pp + int off)\<rparr>) = {#}"
    using assms(4) False by (auto simp: ext_own_def outside_def)
  then have "msg_own h (m\<lparr>Payload := Some (pp + int off)\<rparr>) \<subseteq># msg_own h m" by (simp add: msg_own_def)
  then show ?thesis unfolding e by (simp add: msg_step_def trades_sub)
qed

lemma addNewPayload_step:
  assumes "CoAP_addNewPayloadToMessage m d n h = Some (res, m', h')"
  shows "msg_step m h m' h'"
proof -
  obtain m2 h2 where f: "CoAP_free_MsgPayload m h = (m2, h2)" by force
  note p = free_MsgPayload_trades[OF f]
  show ?thesis
  proof (cases "MAX_PAYLOAD_SIZE < unat n")
    case False
    then have n: "unat n \<le> 16000" by (simp add: MAX_PAYLOAD_SIZE_def)
    show ?thesis
    proof (cases "n \<noteq> 0 \<and> \<not> PayloadBufSize m \<ge> n")
      case big: True
      then obtain q h3 where g: "coap_mem_get (int (unat n)) h2 = (Some q, h3)" "h3 = h'"
        "m' = m2\<lparr>Payload := Some q, PayloadBufSize := n, PayloadData := memcpy (\<lambda>_. 0) d (unat n), PayloadLength := n\<rparr>"
        using assms False f by (auto simp: CoAP_addNewPayloadToMessage_def split: option.splits prod.splits)
      have "0 < unat n" using big by (simp add: unat_gt_0)
      then have "0 < int (unat n)" "int (unat n) \<le> 32000" using n by linarith+
      then have "fits (int (unat n))" by (rule fits_small)
      then have "msg_step m2 h2 (m2\<lparr>Payload := Some q\<rparr>) h3"
        using new_payload_trades[OF p(2) g(1)] by (simp add: msg_step_def)
      then have "msg_step m h (m2\<lparr>Payload := Some q, PayloadBufSize := n, PayloadData := memcpy (\<lambda>_. 0) d (unat n)\<rparr>) h3"
        using free_MsgPayload_step[OF f] msg_step_trans by simp
      from step_length[OF this n] show ?thesis using g by simp
    next
      case small: False
      then consider "n = 0" | "n \<noteq> 0" "PayloadBufSize m \<ge> n" by blast
      then show ?thesis
      proof cases
        case 1
        then show ?thesis using assms f step_length[OF free_MsgPayload_step[OF f] n] False
          by (auto simp: CoAP_addNewPayloadToMessage_def)
      next
        case 2
        have "msg_step m h (m\<lparr>PayloadData := memcpy (PayloadData m) d (unat n)\<rparr>) h" by simp
        from step_length[OF this n] show ?thesis using assms False 2
          by (auto simp: CoAP_addNewPayloadToMessage_def)
      qed
    qed
  qed (use assms in \<open>auto simp: CoAP_addNewPayloadToMessage_def\<close>)
qed

lemma addTextPayload_step: "CoAP_addTextPayload m str h = Some (res, m', h') \<Longrightarrow> msg_step m h m' h'"
  by (auto simp: CoAP_addTextPayload_def intro: addNewPayload_step)

subsection \<open>\<open>CoAP_SetPayload\<close>\<close>

lemma less_of_bits:
  assumes "\<And>k. bit (v :: u32) k \<Longrightarrow> k < n"
  shows "unat v < 2 ^ n"
proof -
  have "take_bit n v = v" by (rule bit_word_eqI) (auto simp: bit_take_bit_iff dest: assms)
  then show ?thesis by (metis take_bit_nat_less_exp unsigned_take_bit_eq)
qed

lemma byte_bit: "bit (b :: u8) k \<Longrightarrow> k < 8"
  using bit_imp_le_length[of b k] by simp

lemma block_value_bound:
  fixes a b c :: u8
  shows "unat (ucast a :: u32) < 2 ^ 24" "unat (push_bit 8 (ucast a) OR ucast b :: u32) < 2 ^ 24"
    "unat (push_bit 16 (ucast a) OR push_bit 8 (ucast b) OR ucast c :: u32) < 2 ^ 24"
proof -
  show "unat (ucast a :: u32) < 2 ^ 24" by (rule less_of_bits) (auto simp: bit_simps dest!: byte_bit)
  show "unat (push_bit 8 (ucast a) OR ucast b :: u32) < 2 ^ 24"
    by (rule less_of_bits) (auto simp: bit_simps dest!: byte_bit)
  show "unat (push_bit 16 (ucast a) OR push_bit 8 (ucast b) OR ucast c :: u32) < 2 ^ 24"
    by (rule less_of_bits) (auto simp: bit_simps dest!: byte_bit)
qed

lemma szx_bound:
  assumes "(v :: u32) AND 7 \<noteq> 7"
  shows "unat (v AND 7) \<in> {0, 1, 2, 3, 4, 5, 6}"
proof -
  have m: "(7 :: u32) = mask 3" by (simp add: mask_eq_exp_minus_1)
  have "unat (v AND 7) < 2 ^ 3" unfolding m by (rule less_of_bits) (auto simp: bit_simps)
  moreover have "unat (v AND 7) \<noteq> 7"
  proof
    assume "unat (v AND 7) = 7"
    then have "unat (v AND 7) = unat (7 :: u32)" by simp
    then show False using assms unsigned_word_eqI by blast
  qed
  ultimately show ?thesis by auto
qed

lemma decode_block_bounds:
  assumes "decode_block T opt blk = (COAP_OK, b)"
  shows "unat (BlockNum b) < 2 ^ 20" "16 \<le> unat (BlockSize b)" "unat (BlockSize b) \<le> 1024"
proof -
  have size: "16 \<le> unat (push_bit (unat (v AND 7) + 4) 1 :: u32) \<and> unat (push_bit (unat (v AND 7) + 4) 1 :: u32) \<le> 1024"
    if "v AND 7 \<noteq> 7" for v :: u32 using szx_bound[OF that] by (elim insertE emptyE) simp_all
  have num: "unat (drop_bit 4 v) < 2 ^ 20" if "unat v < 2 ^ 24" for v :: u32
    by (subst unat_drop_bit_eq) (use that in \<open>simp add: drop_bit_eq_div\<close>)
  have "unat (BlockNum b) < 2 ^ 20 \<and> 16 \<le> unat (BlockSize b) \<and> unat (BlockSize b) \<le> 1024"
  proof (cases "Length opt = 0")
    case True
    then show ?thesis using assms by (auto simp: decode_block_def Let_def BLOCK_SIZE_16_def split: if_splits)
  next
    case False
    let ?V = "Value opt"
    define v :: u32 where "v = (if Length opt = 1 then ucast (?V ! 0)
      else if Length opt = 2 then push_bit 8 (ucast (?V ! 0)) OR ucast (?V ! 1)
      else push_bit 16 (ucast (?V ! 0)) OR push_bit 8 (ucast (?V ! 1)) OR ucast (?V ! 2))"
    have "v AND 7 \<noteq> 7 \<and> BlockNum b = drop_bit 4 v \<and> BlockSize b = push_bit (unat (v AND 7) + 4) 1"
      using assms False unfolding decode_block_def Let_def v_def[symmetric] by (auto split: if_splits)
    moreover have "unat v < 2 ^ 24" unfolding v_def using block_value_bound by (auto split: if_split)
    ultimately show ?thesis using size num by metis
  qed
  then show "unat (BlockNum b) < 2 ^ 20" "16 \<le> unat (BlockSize b)" "unat (BlockSize b) \<le> 1024" by auto
qed

lemma GetBlock_bounds:
  assumes "GetBlock2OptionFromMsg r blk = (COAP_OK, b)"
  shows "unat (BlockNum b) < 2 ^ 20" "16 \<le> unat (BlockSize b)" "unat (BlockSize b) \<le> 1024"
  using assms decode_block_bounds
  by (auto simp: GetBlock2OptionFromMsg_def GetBlockOptionFromMsg_def split: option.splits)

text \<open>The offset of a block that exists is what it should be, since no product wraps.\<close>

lemma block_offset:
  fixes size num :: u32
  assumes "unat size \<le> 256" "unat num < 2 ^ 20"
  shows "unat (size * num) = unat size * unat num" "sint (size * num) = int (unat size * unat num)"
proof -
  have le: "unat size * unat num < 2 ^ 28"
    using mult_le_mono[OF assms(1), of "unat num" "2 ^ 20 - 1"] assms(2) by simp
  then show u: "unat (size * num) = unat size * unat num" by (simp add: unat_word_ariths)
  have "unat (size * num) < 2 ^ 31" using le u by simp
  then have "int (unat (size * num)) < int (2 ^ 31)" by (simp only: of_nat_less_iff)
  then have "uint (size * num) < 2 ^ 31" by simp
  then have "sint (size * num) = uint (size * num)"
    by (simp add: sint_uint) (rule signed_take_bit_int_eq_self, use order_trans[OF _ uint_ge_0, of "- 2147483648"] in auto)
  then have "sint (size * num) = int (unat (size * num))" by simp
  then show "sint (size * num) = int (unat size * unat num)" using u by simp
qed

text \<open>The end of both branches of \<open>CoAP_SetPayload\<close>.\<close>

lemma payload_branch_step:
  assumes "msg_step m h m1 h1" "0 < n" "n \<le> 256"
    and "(if Some pp = Payload m1 then Some (m1\<lparr>PayloadData := d'\<rparr>, h1) else put_payload m1 pp d off n vol h1) =
      Some (m2, h')"
    and "Some pp = Payload m1 \<or> vol \<or> outside h (pp + int off)"
  shows "msg_step m h (m2\<lparr>PayloadLength := of_nat n\<rparr>) h'"
proof (rule msg_step_pre)
  assume "holds h (msg_own h m)"
  note pool = msg_step_pool[OF assms(1) this]
  have "outside h1 (pp + int off)" if "outside h (pp + int off)"
    using that same_pool_ends[OF pool] by (simp add: outside_def)
  then have "msg_step m1 h1 m2 h'"
    using assms(2-5) put_payload_step[of m1 pp d off n vol h1 m2 h'] by (auto split: if_splits)
  from step_length[OF msg_step_trans[OF assms(1) this], of "of_nat n"]
  show "msg_step m h (m2\<lparr>PayloadLength := of_nat n\<rparr>) h'" using assms(3) by (simp add: unat_of_nat)
qed

lemma block_keeps_payload:
  "AddBlkOptionToMsg m b h = (r, m', h') \<Longrightarrow> Payload m' = Payload m \<and> PayloadBufSize m' = PayloadBufSize m"
  "RemoveAllBlockOptionsFromMsg m T h = (r, m', h') \<Longrightarrow> Payload m' = Payload m \<and> PayloadBufSize m' = PayloadBufSize m"
  by (auto simp: AddBlkOptionToMsg_def append_msg_option_def RemoveAllBlockOptionsFromMsg_def Let_def split: if_splits prod.splits)

text \<open>The payload is copied, or it is the buffer the message has, or it is outside the pool.\<close>

lemma SetPayload_step:
  assumes "CoAP_SetPayload req m pp d tot vol h = Some (res, m', h')"
    and "Some pp = Payload m \<or> vol \<or> (\<forall>i < unat tot. outside h (pp + int i))"
  shows "msg_step m h m' h'"
proof -
  let ?B0 = "\<lparr>BlkType = BLOCK_2, BlockSize = 0, MoreFlag = False, BlockNum = 0\<rparr>"
  obtain found b where f: "(case req of None \<Rightarrow> (COAP_NOT_FOUND, ?B0) | Some r \<Rightarrow> GetBlock2OptionFromMsg r ?B0) = (found, b)"
    by force
  note eq = assms(1)[unfolded CoAP_SetPayload_def Let_def f prod.case]
  consider (none) "tot = 0" | (block) "tot \<noteq> 0" "found = COAP_OK" | (plain) "tot \<noteq> 0" "found \<noteq> COAP_OK" by blast
  then show ?thesis
  proof cases
    case none
    then show ?thesis using eq step_length[OF msg_step_refl[of m h], of 0] by simp
  next
    case plain
    show ?thesis
    proof (cases "unat tot > MAX_PAYLOAD_SIZE")
      case True
      obtain r1 m1 h1 where a: "AddBlkOptionToMsg m (b\<lparr>BlockSize := of_nat MAX_PAYLOAD_SIZE, BlockNum := 0, MoreFlag := True\<rparr>) h =
        (r1, m1, h1)" using prod_cases3 by blast
      obtain m2 where x: "(if Some pp = Payload m1 then Some (m1\<lparr>PayloadData := PayloadData m1\<rparr>, h1)
          else put_payload m1 pp d 0 MAX_PAYLOAD_SIZE vol h1) = Some (m2, h')"
        "m' = m2\<lparr>PayloadLength := of_nat MAX_PAYLOAD_SIZE\<rparr>"
        using eq True plain a by (auto split: if_splits)
      have "0 < unat tot" using True by linarith
      then have "Some pp = Payload m1 \<or> vol \<or> outside h (pp + int 0)" using assms(2) block_keeps_payload(1)[OF a] by auto
      from payload_branch_step[OF AddBlk_step[OF a] _ _ x(1) this] show ?thesis using x(2) by (simp add: MAX_PAYLOAD_SIZE_def)
    next
      case False
      obtain m2 where x: "(if Some pp = Payload m then Some (m\<lparr>PayloadData := PayloadData m\<rparr>, h)
          else put_payload m pp d 0 (unat tot) vol h) = Some (m2, h')"
        "m' = m2\<lparr>PayloadLength := of_nat (unat tot)\<rparr>"
        using eq False plain by (auto split: if_splits)
      have n: "0 < unat tot" using plain by (simp add: unat_gt_0)
      then have "Some pp = Payload m \<or> vol \<or> outside h (pp + int 0)" using assms(2) by blast
      from payload_branch_step[OF msg_step_refl n _ x(1) this] show ?thesis
        using x(2) False by (simp add: MAX_PAYLOAD_SIZE_def)
    qed
  next
    case block
    obtain r where "GetBlock2OptionFromMsg r ?B0 = (COAP_OK, b)" using f block by (auto split: option.splits)
    note bd = GetBlock_bounds[OF this]
    define b2 where "b2 = (if unat (BlockSize b) > MAX_PAYLOAD_SIZE then b\<lparr>BlockSize := of_nat MAX_PAYLOAD_SIZE\<rparr> else b)"
    have b2: "unat (BlockSize b2) \<le> 256" "16 \<le> unat (BlockSize b2)" "unat (BlockNum b2) < 2 ^ 20"
      using bd by (auto simp: b2_def MAX_PAYLOAD_SIZE_def)
    note off = block_offset[OF b2(1,3)]
    let ?off = "BlockSize b2 * BlockNum b2"
    let ?left = "int (unat tot) - sint ?off"
    note eq = eq[folded b2_def]
    show ?thesis
    proof (cases "?left \<le> 0")
      case True
      then show ?thesis using eq block addTextPayload_step by (auto split: option.splits)
    next
      case False
      define n b3 where "n = (if ?left > int (unat (BlockSize b2)) then unat (BlockSize b2) else nat ?left)"
        and "b3 = (if ?left > int (unat (BlockSize b2)) then b2\<lparr>MoreFlag := True\<rparr> else b2)"
      have "int (unat (BlockSize b2)) \<le> 256" using b2(1) by linarith
      then have n: "0 < n" "n \<le> 256" using b2 False by (auto simp: n_def)
      obtain r1 m1 h1 where r: "RemoveAllBlockOptionsFromMsg m BLOCK_2 h = (r1, m1, h1)" using prod_cases3 by blast
      obtain r2 m2 h2 where a: "AddBlkOptionToMsg m1 b3 h1 = (r2, m2, h2)" using prod_cases3 by blast
      obtain m3 where m3: "(if Some pp = Payload m2
          then Some (m2\<lparr>PayloadData := memcpy (PayloadData m2) (mem_at (PayloadData m2) (unat ?off)) n\<rparr>, h2)
          else put_payload m2 pp d (unat ?off) n vol h2) = Some (m3, h')" "m' = m3\<lparr>PayloadLength := of_nat n\<rparr>"
        using eq False block r a unfolding n_def b3_def by (auto split: if_splits)
      have "int (unat ?off) = sint ?off" by (simp only: off)
      then have "unat ?off < unat tot" using False by linarith
      then show ?thesis
        using payload_branch_step[OF msg_step_trans[OF RemoveAllBlock_step[OF r] AddBlk_step[OF a]] n m3(1)] m3(2)
          assms(2) block_keeps_payload(1)[OF a] block_keeps_payload(2)[OF r] by auto
    qed
  qed
qed

subsection \<open>New messages\<close>

lemma new_msg_trades:
  assumes "coap_mem_get (sizeof_CoAP_Message + k) h = (Some a, h')" "0 \<le> k" "k \<le> 32000" "msg_addr m = a"
    "Payload m = None \<or> Payload m = Some (a + sizeof_CoAP_Message)"
  shows "trades (opts_own (pOptionsList m)) h (msg_own h' m) h'"
proof -
  have f: "fits (sizeof_CoAP_Message + k)" using assms(2,3) by (simp add: fits_def sizeof_CoAP_Message_def)
  have t: "trades (opts_own (pOptionsList m)) h (add_mset (a, sizeof_CoAP_Message) (opts_own (pOptionsList m))) h'"
    using trades_trans[OF trades_frame[OF trades_get[OF assms(1) f], of "opts_own (pOptionsList m)"]]
      trades_weaken[of sizeof_CoAP_Message "sizeof_CoAP_Message + k" a "opts_own (pOptionsList m)" h'] assms(2) by simp
  then show ?thesis
  proof (rule trades_post)
    assume "holds h' (add_mset (a, sizeof_CoAP_Message) (opts_own (pOptionsList m)))"
    then have "40 \<le> bsize (Some a) h'" using holds_size[of h' _ a] by (simp add: sizeof_CoAP_Message_def)
    then have "bufferIsPartOfMsg (a + sizeof_CoAP_Message) m h'"
      using bufferIsPartOfMsg_inside[of m a 0 h'] assms(4) by simp
    then show "add_mset (a, sizeof_CoAP_Message) (opts_own (pOptionsList m)) = msg_own h' m"
      using assms(4,5) by (auto simp: msg_own_def ext_own_def)
  qed
qed

lemma CreateMessage_trades:
  assumes "CoAP_CreateMessage T C mid cont clen maxs tok h = (q, h')" "unat maxs \<le> 32000"
  shows "trades {#} h (msg_opt_own h' q) h'"
    "q = Some m \<Longrightarrow> Type m = T \<and> Code m = C \<and> MessageID m = mid \<and> Token64 m = tok \<and> pOptionsList m = [] \<and>
       PayloadLength m = clen \<and> unat clen \<le> unat maxs"
proof -
  have "(q = None \<and> trades {#} h {#} h') \<or> (\<exists>m. q = Some m \<and> trades {#} h (msg_own h' m) h' \<and>
    Type m = T \<and> Code m = C \<and> MessageID m = mid \<and> Token64 m = tok \<and> pOptionsList m = [] \<and> PayloadLength m = clen \<and>
    unat clen \<le> unat maxs)"
  proof (cases "coap_mem_get (sizeof_CoAP_Message + int (unat maxs)) h")
    case (Pair r h1)
    have k: "0 \<le> int (unat maxs)" "int (unat maxs) \<le> 32000" using assms(2) by linarith+
    show ?thesis
    proof (cases r)
      case None
      then have "h1 = h" using Pair mem.get_None by blast
      then show ?thesis using assms(1) Pair None by (simp add: CoAP_CreateMessage_def)
    next
      case (Some a)
      show ?thesis
      proof (cases "clen > maxs")
        case True
        have f: "fits (sizeof_CoAP_Message + int (unat maxs))"
          unfolding fits_def sizeof_CoAP_Message_def using k by linarith
        have "trades {#} h {#} h1"
          using trades_trans[OF trades_get[OF Pair[unfolded Some] f] trades_sub] by simp
        then show ?thesis using assms(1) Pair Some True by (auto simp: CoAP_CreateMessage_def)
      next
        case False
        then obtain m where m: "q = Some m" "h' = h1" "msg_addr m = a" "Type m = T" "Code m = C" "MessageID m = mid"
          "Token64 m = tok" "pOptionsList m = []" "PayloadLength m = clen"
          "Payload m = None \<or> Payload m = Some (a + sizeof_CoAP_Message)"
          using assms(1) Pair Some
          by (auto simp: CoAP_CreateMessage_def CoAP_InitToEmptyResetMsg_def Let_def split: option.splits if_splits)
        then show ?thesis using new_msg_trades[OF Pair[unfolded Some] k m(3,10)] False
          by (auto simp: word_less_nat_alt)
      qed
    qed
  qed
  then show "trades {#} h (msg_opt_own h' q) h'" "q = Some m \<Longrightarrow> Type m = T \<and> Code m = C \<and> MessageID m = mid \<and>
    Token64 m = tok \<and> pOptionsList m = [] \<and> PayloadLength m = clen \<and> unat clen \<le> unat maxs" by auto
qed

lemma AllocRespMsg_trades:
  assumes "CoAP_AllocRespMsg req C n w = (q, w')" "unat n \<le> 32000"
  shows "trades {#} (heap w) (msg_opt_own (heap w') q) (heap w')" "w' = w\<lparr>heap := heap w', lastMId := lastMId w'\<rparr>"
    "q = Some m \<Longrightarrow> pOptionsList m = [] \<and> PayloadLength m = 0 \<and> Code m = C"
proof -
  obtain mid w1 where a: "CoAP_getRespMsgID req w = (mid, w1)" by force
  then have w1: "w1 = w\<lparr>lastMId := lastMId w1\<rparr>" by (auto simp: CoAP_getRespMsgID_def CoAP_GetNextMid_def split: if_splits)
  then have h1: "heap w1 = heap w" by (metis hal.select_convs(1) hal.surjective hal.update_convs(5))
  obtain q2 h2 where c: "CoAP_CreateMessage (CoAP_getRespMsgType req) C mid None 0 n (Token64 req) (heap w1) = (q2, h2)" by force
  then have e: "q = q2" "w' = w1\<lparr>heap := h2\<rparr>" using assms(1) a by (auto simp: CoAP_AllocRespMsg_def)
  note t = CreateMessage_trades[OF c assms(2)]
  show "trades {#} (heap w) (msg_opt_own (heap w') q) (heap w')" using t(1) h1 e by simp
  show "w' = w\<lparr>heap := heap w', lastMId := lastMId w'\<rparr>" using e(2) by (subst (asm) w1) simp
  show "q = Some m \<Longrightarrow> pOptionsList m = [] \<and> PayloadLength m = 0 \<and> Code m = C" using t(2)[of m] e(1) by simp
qed

subsection \<open>Uri strings and the options of an observer\<close>

lemma append_part_trades:
  assumes "append_part num part opts h = (opts', h')" "length part \<le> 32740"
  shows "trades (opts_own opts) h (opts_own opts') h'" "list_all opt_wf opts \<Longrightarrow> list_all opt_wf opts'"
proof -
  obtain res where a: "CoAP_AppendOptionToList opts num part (of_nat (length part)) h = (res, opts', h')"
    using assms(1) by (cases "CoAP_AppendOptionToList opts num part (of_nat (length part)) h") (auto simp: append_part_def)
  have l: "unat (of_nat (length part) :: u16) = length part" using assms(2) by (intro unat_of_nat_u16) simp
  show "trades (opts_own opts) h (opts_own opts') h'" "list_all opt_wf opts \<Longrightarrow> list_all opt_wf opts'"
    using append_trades[OF a] append_wf[OF a] l assms(2) by simp_all
qed

lemma parse_query_trades:
  "ParseUriQueryFromStringToOption part cs opts h = (opts', h') \<Longrightarrow> length part + length cs \<le> 32740 \<Longrightarrow>
     trades (opts_own opts) h (opts_own opts') h' \<and> (list_all opt_wf opts \<longrightarrow> list_all opt_wf opts')"
proof (induction part cs opts h rule: ParseUriQueryFromStringToOption.induct)
  case (1 part opts h)
  then show ?case using append_part_trades[of _ part opts h opts' h'] by (auto split: if_splits)
next
  case (2 part c cs opts h)
  obtain o2 h2 where a: "append_part OPT_NUM_URI_QUERY part opts h = (o2, h2)" by force
  show ?case
  proof (cases "c = 38 \<and> part \<noteq> []")
    case True
    then have "ParseUriQueryFromStringToOption [] cs o2 h2 = (opts', h')" using "2.prems"(1) a by simp
    then have "trades (opts_own o2) h2 (opts_own opts') h' \<and> (list_all opt_wf o2 \<longrightarrow> list_all opt_wf opts')"
      using "2.IH"(2)[OF _ _ a[symmetric] refl] True "2.prems"(2) by simp
    then show ?thesis using append_part_trades[OF a] "2.prems"(2) trades_trans by auto
  qed (use 2 in \<open>auto split: if_splits\<close>)
qed

lemma parse_path_trades:
  "parse_uri_path part cs opts h = (opts', h') \<Longrightarrow> length part + length cs \<le> 32740 \<Longrightarrow>
     trades (opts_own opts) h (opts_own opts') h' \<and> (list_all opt_wf opts \<longrightarrow> list_all opt_wf opts')"
proof (induction part cs opts h rule: parse_uri_path.induct)
  case (1 part opts h)
  then show ?case using append_part_trades[of _ part opts h opts' h'] by (auto split: if_splits)
next
  case (2 part c cs opts h)
  obtain o2 h2 where a: "append_part OPT_NUM_URI_PATH part opts h = (o2, h2)" by force
  note q = parse_query_trades
  show ?case
  proof (cases "c = 47 \<or> c = 32 \<or> c = 63")
    case True
    show ?thesis
    proof (cases "part = []")
      case p: True
      then show ?thesis using 2 True q by (auto split: if_splits)
    next
      case p: False
      have r: "(if c = 63 then ParseUriQueryFromStringToOption [] cs o2 h2 else parse_uri_path [] cs o2 h2) = (opts', h')"
        using "2.prems"(1) a True p by simp
      have "trades (opts_own o2) h2 (opts_own opts') h' \<and> (list_all opt_wf o2 \<longrightarrow> list_all opt_wf opts')"
        using r q[of "[]" cs o2 h2 opts' h'] "2.IH"(2)[OF True p a[symmetric] refl] "2.prems"(2) by (cases "c = 63") auto
      then show ?thesis using append_part_trades[OF a] "2.prems"(2) trades_trans by auto
    qed
  qed (use 2 in \<open>auto split: if_splits\<close>)
qed

lemma AppendUri_trades:
  assumes "CoAP_AppendUriOptionsFromString opts s h = (res, opts', h')" "\<And>str. s = Some str \<Longrightarrow> length str \<le> 32740"
  shows "trades (opts_own opts) h (opts_own opts') h' \<and> (list_all opt_wf opts \<longrightarrow> list_all opt_wf opts')"
  using assms parse_path_trades[of "[]"] unfolding CoAP_AppendUriOptionsFromString_def
  by (auto split: option.splits prod.splits)

subsection \<open>Parsing\<close>

lemma parse_loop_trades:
  assumes "parse_options_loop src n off l opts h = Some y"
  shows "trades (opts_own opts) h (opts_own (fst (snd (snd y)))) (snd (snd (snd y)))"
proof (rule parse_options_loop.raw_induct
    [where P = "\<lambda>src n off l opts h y. trades (opts_own opts) h (opts_own (fst (snd (snd y)))) (snd (snd (snd y)))",
      OF _ assms])
  fix loop src n off l opts h y
  assume IH: "\<And>src n off l opts h y. loop src n off l opts h = Some y \<Longrightarrow>
      trades (opts_own opts) h (opts_own (fst (snd (snd y)))) (snd (snd (snd y)))"
    and step: "(if \<not> off < n then Some (COAP_OK, None, opts, h)
     else if src (unat off) = 0xff then
       (if int (unat n) - int (unat off) < 2 then Some (COAP_PARSE_MESSAGE_FORMAT_ERROR, None, opts, h)
        else Some (COAP_OK, Some (unat off + 1), opts, h))
     else
       (case read_ext src (drop_bit 4 (src (unat off))) (off + 1) of
          None \<Rightarrow> Some (COAP_PARSE_MESSAGE_FORMAT_ERROR, None, opts, h)
        | Some (d, o1) \<Rightarrow>
            (case read_ext src (src (unat off) AND 0x0f) o1 of
               None \<Rightarrow> Some (COAP_PARSE_MESSAGE_FORMAT_ERROR, None, opts, h)
             | Some (len, o2) \<Rightarrow>
                 if MAX_OPTION_VALUE_SIZE < unat len then Some (COAP_PARSE_MESSAGE_FORMAT_ERROR, None, opts, h)
                 else if int (unat n) - int (unat o2) < int (unat len)
                 then Some (COAP_PARSE_MESSAGE_FORMAT_ERROR, None, opts, h)
                 else
                   (case CoAP_AppendOptionToList opts (d + l)
                           (read_bytes (mem_at src (unat o2)) (unat len)) len h of
                      (res, opts', h') \<Rightarrow>
                        if res \<noteq> COAP_OK then Some (res, None, opts', h')
                        else loop src n (o2 + len) (d + l) opts' h')))) = Some y"
  let ?t = "trades (opts_own opts) h (opts_own (fst (snd (snd y)))) (snd (snd (snd y)))"
  let ?e1 = "read_ext src (drop_bit 4 (src (unat off))) (off + 1)"
  show ?t
  proof (cases "\<not> off < n \<or> src (unat off) = 0xff \<or> ?e1 = None")
    case True
    then show ?thesis using step by (auto split: if_splits)
  next
    case False
    then obtain d o1 where e1: "?e1 = Some (d, o1)" "off < n" "src (unat off) \<noteq> 0xff" by auto
    let ?e2 = "read_ext src (src (unat off) AND 0x0f) o1"
    show ?thesis
    proof (cases ?e2)
      case None
      then show ?thesis using step e1 by auto
    next
      case (Some p)
      obtain len o2 where e2: "?e2 = Some (len, o2)" using Some by (cases p) auto
      let ?buf = "read_bytes (mem_at src (unat o2)) (unat len)"
      show ?thesis
      proof (cases "MAX_OPTION_VALUE_SIZE < unat len \<or> int (unat n) - int (unat o2) < int (unat len)")
        case True
        then show ?thesis using step e1 e2 by (auto split: if_splits)
      next
        case ok: False
        obtain res opts' h' where a: "CoAP_AppendOptionToList opts (d + l) ?buf len h = (res, opts', h')"
          using prod_cases3 by blast
        have t: "trades (opts_own opts) h (opts_own opts') h'"
          using append_trades[OF a] ok by (simp add: MAX_OPTION_VALUE_SIZE_def)
        have "(if res \<noteq> COAP_OK then Some (res, None, opts', h') else loop src n (o2 + len) (d + l) opts' h') = Some y"
          using step e1 e2 ok a by simp
        then show ?thesis using t IH trades_trans by (auto split: if_splits)
      qed
    qed
  qed
qed

lemma parse_copy_trades:
  assumes "parse_copy src k M w = (res, r, w')" "unat (PayloadLength M) \<le> 32000" "Payload M = None"
  shows "trades (opts_own (pOptionsList M)) (heap w) (msg_opt_own (heap w') r) (heap w')"
proof (cases "coap_mem_get (sizeof_CoAP_Message + int (unat (PayloadLength M))) (heap w)")
  case (Pair q h')
  show ?thesis
  proof (cases q)
    case None
    then have "h' = heap w" using Pair mem.get_None by blast
    then show ?thesis using assms(1) Pair None free_options_trades by (auto simp: parse_copy_def)
  next
    case (Some a)
    have le: "0 \<le> int (unat (PayloadLength M))" "int (unat (PayloadLength M)) \<le> 32000" using assms(2) by linarith+
    obtain m where m: "r = Some m" "w' = w\<lparr>heap := h'\<rparr>" "msg_addr m = a" "pOptionsList m = pOptionsList M"
      "Payload m = None \<or> Payload m = Some (a + sizeof_CoAP_Message)"
      using assms(1,3) Pair Some by (cases "PayloadLength M = 0") (auto simp: parse_copy_def Let_def)
    show ?thesis using new_msg_trades[OF Pair[unfolded Some] le m(3,5)] m by simp
  qed
qed

lemma parse_trades:
  assumes "CoAP_ParseMessageFromDatagram src n w = Some (res, r, w')"
  shows "trades {#} (heap w) (msg_opt_own (heap w') r) (heap w')"
proof (cases "n < 4 \<or> drop_bit 6 (src 0) \<noteq> COAP_VERSION \<or> unat (src 0 AND 15) > 8 \<or> \<not> valid_code (src 1)")
  case True
  then have "\<exists>res. CoAP_ParseMessageFromDatagram src n w = Some (res, None, w)"
    by (auto simp: CoAP_ParseMessageFromDatagram_def Let_def valid_code_def)
  then show ?thesis using assms by auto
next
  case False
  have copy: "trades {#} (heap w) (msg_opt_own (heap w') r) (heap w')"
    if "parse_copy src 0 (header_msg T C mid tok) w = (res, r, w')" for T C mid tok
    using parse_copy_trades[OF that] by simp
  have rest: "trades {#} (heap w) (msg_opt_own (heap w') r) (heap w')"
    if p: "parse_rest src n off M w = Some (res, r, w')" and M: "pOptionsList M = []" "Payload M = None" for off M
  proof -
    obtain res1 pb opts h where o: "parse_OptionsFromRaw (mem_at src (unat off)) (n - off) [] (heap w) = Some (res1, pb, opts, h)"
      using p by (auto simp: parse_rest_def split: option.splits)
    have t: "trades {#} (heap w) (opts_own opts) h"
      using o parse_loop_trades[of "mem_at src (unat off)" "n - off" 0 0 "[]" "heap w"]
      by (auto simp: parse_OptionsFromRaw_def split: if_splits)
    have f: ?thesis if "w' = w\<lparr>heap := CoAP_FreeOptionList opts h\<rparr>" "r = None"
      using trades_trans[OF t free_options_trades] that by simp
    have c: ?thesis if "parse_copy src k (M\<lparr>pOptionsList := opts, PayloadLength := pl, PayloadBufSize := pl\<rparr>) (w\<lparr>heap := h\<rparr>) = (res, r, w')"
      "unat pl \<le> 256" for k pl
      using trades_trans[OF t] parse_copy_trades[OF that(1)] that(2) M by simp
    show ?thesis using p o f c
      by (auto simp: parse_rest_def MAX_PAYLOAD_SIZE_def Let_def split: if_splits option.splits)
  qed
  show ?thesis using parse_header[of n src w] False assms copy rest
    by (auto split: if_splits)
qed

subsection \<open>Sending\<close>

text \<open>Live buffers lie next to each other in the pool, so their sizes add up to at most the pool's.\<close>

lemma live_sizes:
  assumes "heap_inv h L" "finite P" "P \<subseteq> L"
  shows "(\<Sum>p \<in> P. bsize (Some p) h) \<le> TotalBufBytes h"
proof -
  let ?pool = "{pMemArea h ..< pMemArea h + TotalBufBytes h}"
  have b: "block_of p h \<subseteq> ?pool" "8 \<le> bsize (Some p) h" if "p \<in> P" for p
    using live_in_pool[OF assms(1)] that assms(3) by auto
  have "card (\<Union>p \<in> P. block_of p h) = (\<Sum>p \<in> P. card (block_of p h))"
    using assms live_disjoint[OF assms(1)] by (intro card_UN_disjoint) (auto simp: block_of_def)
  moreover have "card (\<Union>p \<in> P. block_of p h) \<le> card ?pool" using b(1) by (intro card_mono) auto
  ultimately have "int (\<Sum>p \<in> P. card (block_of p h)) \<le> int (card ?pool)" by linarith
  moreover have "bsize (Some p) h \<le> int (card (block_of p h))" if "p \<in> P" for p
    using b(2)[OF that] by (simp add: block_of_def)
  then have "(\<Sum>p \<in> P. bsize (Some p) h) \<le> int (\<Sum>p \<in> P. card (block_of p h))" by (simp add: sum_mono)
  moreover have "P = {} \<or> 0 \<le> TotalBufBytes h" using b by (fastforce simp: block_of_def)
  moreover have "P = {} \<Longrightarrow> 0 \<le> TotalBufBytes h"
    using assms(1) tiled_total by (fastforce simp: heap_inv_def pool_inv_def)
  ultimately show ?thesis by auto
qed

lemma options_in_pool:
  assumes "holds h (opts_own opts)"
  shows "(\<Sum>opt \<leftarrow> opts. option_request (Length opt)) \<le> TotalBufBytes h"
proof -
  obtain L where L: "heap_inv h L" "fst ` set_mset (opts_own opts) \<subseteq> L" using holds_heap[OF assms] by blast
  have f: "image_mset fst (opts_own opts) = mset (map opt_addr opts)"
    by (induction opts) (auto simp: opt_own_def)
  have d: "distinct (map opt_addr opts)"
    using holds_once[OF assms] unfolding f distinct_count_atmost_1 by (metis count_mset_0_iff count_mset_gt_0 le_antisym less_one not_less)
  have "(\<Sum>opt \<leftarrow> opts. option_request (Length opt)) \<le> (\<Sum>opt \<leftarrow> opts. bsize (Some (opt_addr opt)) h)"
    using holds_size[OF assms] by (intro sum_list_mono) (auto simp: opts_own_def opt_own_def)
  also have "\<dots> = (\<Sum>p \<leftarrow> map opt_addr opts. bsize (Some p) h)" by (simp add: comp_def)
  also have "\<dots> = (\<Sum>p \<in> set (map opt_addr opts). bsize (Some p) h)" by (rule sum_list_distinct_conv_sum_set[OF d])
  also have "\<dots> \<le> TotalBufBytes h"
    using L(2) by (intro live_sizes[OF L(1)]) auto
  finally show ?thesis .
qed

lemma packed_bound:
  "list_all opt_wf opts \<Longrightarrow> int (length (pack_options_loop l opts)) \<le> (\<Sum>opt \<leftarrow> opts. option_request (Length opt))"
proof (induction opts arbitrary: l)
  case (Cons opt opts)
  have "length (pack_option l opt) \<le> 5 + unat (Length opt)"
    using length_pack_option[of opt l] Cons.prems by (simp add: opt_ext_def)
  then have "int (length (pack_option l opt)) \<le> option_request (Length opt)"
    unfolding option_request_def sizeof_option_def by linarith
  moreover have "int (length (pack_options_loop (Number opt) opts)) \<le> (\<Sum>opt \<leftarrow> opts. option_request (Length opt))"
    using Cons by simp
  ultimately show ?case by simp
qed simp

lemma small_sendable:
  assumes "holds h (msg_own h m)" "small_msg m" "TotalBufBytes h \<le> 16000"
  shows "sendable m"
proof -
  have wf: "list_all opt_wf (pOptionsList m)" and pl: "unat (PayloadLength m) \<le> 16000"
    using assms(2) by (auto simp: small_msg_def)
  have "holds h (opts_own (pOptionsList m))" using holds_part assms(1) unfolding msg_own_def by blast
  from options_in_pool[OF this] have "int (length (pack_options_loop 0 (pOptionsList m))) \<le> 16000"
    using packed_bound[OF wf, of 0] assms(3) by linarith
  then have "int (length (fst (pack_OptionsFromList (pOptionsList m)))) \<le> 16000"
    by (simp add: pack_OptionsFromList_def Let_def)
  then have p: "length (fst (pack_OptionsFromList (pOptionsList m))) \<le> 16000" by linarith
  have tk: "getTokenByteCount (Token64 m) \<le> 8" by (rule getTokenByteCount_le)
  have "length (fst (CoAP_BuildDatagram m)) \<le> 4 + 8 + 16000 + 16001"
    using p pl tk by (auto simp: CoAP_BuildDatagram_def Let_def)
  then show ?thesis using wf by (simp add: sendable_def)
qed

lemma SendMsg_trades:
  assumes "CoAP_SendMsg d m ifID ep w = Some (res, m', w')" "sendable m"
  shows "trades K (heap w) K (heap w')"
  unfolding trades_def
proof (intro allI impI)
  fix F assume H: "holds (heap w) (K + F)"
  then obtain L where L: "heap_inv (heap w) L" "fst ` set_mset (K + F) \<subseteq> L" using holds_heap by blast
  have s: "same_live L (heap w) (heap w')"
    by (rule SendMsg_cases[OF assms(2) L(1) assms(1)]) (auto simp: same_live_refl[OF L(1)])
  then have sz: "\<forall>q \<in> fst ` set_mset (K + F). bsize (Some q) (heap w') = bsize (Some q) (heap w)"
    using L(2) by (auto simp: same_live_def)
  have "holds (heap w') (K + F)"
  proof (rule holdsI)
    show "heap_inv (heap w') L" using s by (simp add: same_live_def)
    show "count (image_mset fst (K + F)) p \<le> 1" for p by (rule holds_once[OF H])
    show "n \<le> bsize (Some p) (heap w')" if "(p, n) \<in># K + F" for p n
      using holds_size[OF H that] sz that by force
  qed (rule L(2))
  moreover have "same_pool (heap w) (heap w')"
    using s by (auto simp: same_live_def same_pool_def coap_mem_buf_lowEnd_def coap_mem_buf_highEnd_def)
  ultimately show "holds (heap w') (K + F) \<and> same_sizes F (heap w) (heap w') \<and> same_pool (heap w) (heap w')"
    using sz by (auto simp: same_sizes_def)
qed

lemma SendMsg_own:
  assumes "CoAP_SendMsg d m ifID ep w = Some (res, m', w')"
  shows "msg_own h m' = msg_own h m" "small_msg m \<Longrightarrow> small_msg m'"
proof -
  obtain t k where "m' = m\<lparr>Timestamp := t, PayloadLength := k\<rparr>" "k = PayloadLength m \<or> k = 0"
    using SendMsg_frame(3,4)[OF assms] by metis
  then show "msg_own h m' = msg_own h m" "small_msg m \<Longrightarrow> small_msg m'" by (auto simp: small_msg_def)
qed

end
