(* ===== verification/Stack_Own.thy ===== *)
theory Stack_Own imports Message_Own begin

section \<open>The invariant of the stack\<close>

text \<open>
  \<open>stack_inv\<close> says that the stack is well formed: all buffers its interactions, resources, observers,
  messages and options name are different live buffers of the pool, every interaction is in a state
  its role has, with the messages that state needs, and every resource can be named in the directory.
  The application (the handlers and their data) is described by two parameters: \<open>ao\<close>, the buffers it
  holds itself, and \<open>aok\<close>, what it relies on: its data and the resources with their functions.
\<close>

subsection \<open>Claims\<close>

definition obs_own :: "CoAP_Observer \<Rightarrow> claims" where
  "obs_own ob = add_mset (obs_addr ob, sizeof_CoAP_Observer) (opts_own (pOptList ob))"

definition obss_own :: "CoAP_Observer list \<Rightarrow> claims" where
  "obss_own obs = sum_list (map obs_own obs)"

definition descr_own :: "(addr \<times> u8 list) option \<Rightarrow> claims" where
  "descr_own d = (case d of None \<Rightarrow> {#} | Some (p, _) \<Rightarrow> {#(p, 0)#})"

definition res_own :: "CoAP_Res \<Rightarrow> claims" where
  "res_own r = add_mset (res_addr r, sizeof_CoAP_Res)
     (opts_own (pUri r) + descr_own (pDescription r) + obss_own (pListObservers r))"

definition ress_own :: "CoAP_Res list \<Rightarrow> claims" where
  "ress_own rs = sum_list (map res_own rs)"

definition ia_own :: "bget_state \<Rightarrow> CoAP_Interaction \<Rightarrow> claims" where
  "ia_own h ia = add_mset (ia_addr ia, sizeof_CoAP_Interaction) (msg_opt_own h (pReqMsg ia) + msg_opt_own h (pRespMsg ia))"

definition ias_own :: "bget_state \<Rightarrow> CoAP_Interaction list \<Rightarrow> claims" where
  "ias_own h ias = sum_list (map (ia_own h) ias)"

lemma own_simps [simp]:
  "obss_own [] = {#}" "obss_own (ob # obs) = obs_own ob + obss_own obs" "obss_own (obs @ obs') = obss_own obs + obss_own obs'"
  "ress_own [] = {#}" "ress_own (r # rs) = res_own r + ress_own rs" "ress_own (rs @ rs') = ress_own rs + ress_own rs'"
  "ias_own h [] = {#}" "ias_own h (ia # ias) = ia_own h ia + ias_own h ias"
  "ias_own h (ias @ ias') = ias_own h ias + ias_own h ias'"
  by (simp_all add: obss_own_def ress_own_def ias_own_def)

lemma steady_ia [intro]: "steady (\<lambda>h. ia_own h ia)"
  unfolding ia_own_def by (intro steady_add_mset steady_add steady_msg_opt)

lemma steady_ias [intro]: "steady (\<lambda>h. ias_own h ias)"
  unfolding ias_own_def by (intro steady_list steady_ia)

subsection \<open>Well-formed interactions and resources\<close>

definition has_handler :: "CoAP_Res list \<Rightarrow> addr option \<Rightarrow> bool" where
  "has_handler rs p \<longleftrightarrow> (\<exists>r \<in> set rs. p = Some (res_addr r) \<and> Handler r \<noteq> None)"

definition has_notifier :: "CoAP_Res list \<Rightarrow> addr option \<Rightarrow> bool" where
  "has_notifier rs p \<longleftrightarrow> (\<exists>r \<in> set rs. p = Some (res_addr r) \<and> Notifier r \<noteq> None)"

text \<open>The states of each role, and the messages and the resource they need.\<close>

fun role_ok :: "CoAP_Res list \<Rightarrow> CoAP_InteractionRole_t \<Rightarrow> CoAP_Interaction \<Rightarrow> bool" where
  "role_ok rs COAP_ROLE_SERVER ia \<longleftrightarrow> pReqMsg ia \<noteq> None \<and> has_handler rs (pRes ia) \<and>
     (State ia = COAP_STATE_HANDLE_REQUEST \<or> State ia = COAP_STATE_RESOURCE_POSTPONE_EMPTY_ACK_SENT \<or>
      State ia = COAP_STATE_RESPONSE_SENT \<and> pRespMsg ia \<noteq> None)"
| "role_ok rs COAP_ROLE_NOTIFICATION ia \<longleftrightarrow> pReqMsg ia = None \<and> pRespMsg ia \<noteq> None \<and> has_notifier rs (pRes ia) \<and>
     (State ia = COAP_STATE_READY_TO_NOTIFY \<or> State ia = COAP_STATE_NOTIFICATION_SENT)"
| "role_ok rs COAP_ROLE_CLIENT ia \<longleftrightarrow> pReqMsg ia \<noteq> None \<and>
     (State ia = COAP_STATE_READY_TO_REQUEST \<or> State ia = COAP_STATE_WAITING_RESPONSE \<or>
      State ia = COAP_STATE_HANDLE_RESPONSE)"
| "role_ok rs COAP_ROLE_NOT_SET ia \<longleftrightarrow> False"

definition known_interface :: "NetSocketCtrl \<Rightarrow> u8 \<Rightarrow> bool" where
  "known_interface c i \<longleftrightarrow> RetrieveSocket2 i c \<noteq> None"

definition small_opt :: "CoAP_Message option \<Rightarrow> bool" where
  "small_opt q \<longleftrightarrow> (case q of None \<Rightarrow> True | Some m \<Rightarrow> small_msg m)"

lemma small_opt_simps [simp]: "small_opt None" "small_opt (Some m) = small_msg m"
  by (simp_all add: small_opt_def)

definition ia_ok :: "NetSocketCtrl \<Rightarrow> CoAP_Res list \<Rightarrow> CoAP_Interaction \<Rightarrow> bool" where
  "ia_ok c rs ia \<longleftrightarrow> known_interface c (ia_ifID ia) \<and> small_opt (pReqMsg ia) \<and> small_opt (pRespMsg ia) \<and>
     unat (RetransCounter ia) \<le> MAX_RETRANSMIT \<and> role_ok rs (Role ia) ia"

definition res_ok :: "NetSocketCtrl \<Rightarrow> CoAP_Res \<Rightarrow> bool" where
  "res_ok c r \<longleftrightarrow> (pListObservers r \<noteq> [] \<longrightarrow> Notifier r \<noteq> None) \<and>
     (\<forall>ob \<in> set (pListObservers r). known_interface c (IfID ob)) \<and>
     (case res_link r of None \<Rightarrow> False | Some l \<Rightarrow> length l \<le> 64)"

text \<open>What the application may rely on: which resources there are, with their functions.\<close>

type_synonym res_key = "addr \<times> fnptr option \<times> fnptr option"

definition res_key :: "CoAP_Res \<Rightarrow> res_key" where
  "res_key r = (res_addr r, Handler r, Notifier r)"

text \<open>On the ESP8266 the flash with the constant data is mapped above the RAM with the pool.\<close>

definition IROM0 :: addr where
  "IROM0 = 0x40200000"

definition good ::
  "('x \<Rightarrow> claims) \<Rightarrow> ('x \<Rightarrow> res_key set \<Rightarrow> bool) \<Rightarrow> bget_state \<Rightarrow> NetSocketCtrl \<Rightarrow> CoAP_Interaction list \<Rightarrow>
     CoAP_Res list \<Rightarrow> u32 \<Rightarrow> 'x \<Rightarrow> bool" where
  "good ao aok h c ias rs n a \<longleftrightarrow>
     holds h (ias_own h ias + (ress_own rs + ao a)) \<and> TotalBufBytes h \<le> 16000 \<and> coap_mem_buf_highEnd h < IROM0 \<and>
     (\<forall>ia \<in> set ias. ia_ok c rs ia) \<and> (\<forall>r \<in> set rs. res_ok c r) \<and> unat n = length rs \<and> length rs \<le> 400 \<and>
     aok a (res_key ` set rs)"

definition stack_inv :: "('x \<Rightarrow> claims) \<Rightarrow> ('x \<Rightarrow> res_key set \<Rightarrow> bool) \<Rightarrow> 'x coap \<Rightarrow> bool" where
  "stack_inv ao aok w \<longleftrightarrow>
     good ao aok (heap w) (SocketCtrl w) (pInteractions w) (pResList w) (ResListMembers w) (app w)"

lemma stack_inv_fields [simp]:
  "stack_inv ao aok (w\<lparr>sent := s\<rparr>) = stack_inv ao aok w" "stack_inv ao aok (w\<lparr>lastMId := i\<rparr>) = stack_inv ao aok w"
  "stack_inv ao aok (w\<lparr>lastToken := t\<rparr>) = stack_inv ao aok w" "stack_inv ao aok (w\<lparr>rtc_1Hz := r\<rparr>) = stack_inv ao aok w"
  by (simp_all add: stack_inv_def)

subsection \<open>Addresses are unique\<close>

lemma holds_distinct:
  assumes "holds h (sum_list (map f xs) + K)" "\<And>x. \<exists>n B. f x = add_mset (g x, n) B"
  shows "distinct (map g xs)"
  using assms(1)
proof (induction xs arbitrary: K)
  case (Cons x xs)
  obtain n B where f: "f x = add_mset (g x, n) B" using assms(2) by blast
  have "g x \<notin> fst ` set_mset (sum_list (map f xs))"
    using holds_fresh[of h "(g x, n)" "B + sum_list (map f xs) + K"] Cons.prems f by (auto simp: image_Un)
  moreover have "g y \<in> fst ` set_mset (sum_list (map f xs))" if "y \<in> set xs" for y
  proof -
    obtain n B where fy: "f y = add_mset (g y, n) B" using assms(2) by blast
    have "f y \<subseteq># sum_list (map f xs)" using that by (induction xs) (auto intro: subset_mset.order_trans)
    then have "(g y, n) \<in># sum_list (map f xs)" using fy by (metis mset_subset_eqD union_single_eq_member)
    then show ?thesis by force
  qed
  moreover have "distinct (map g xs)" using Cons.IH[of "f x + K"] Cons.prems by (simp add: ac_simps)
  ultimately show ?case by auto
qed simp

lemma good_distinct:
  assumes "good ao aok h c ias rs n a"
  shows "distinct (map ia_addr ias)" "distinct (map res_addr rs)"
proof -
  have H: "holds h (ias_own h ias + (ress_own rs + ao a))" using assms by (simp add: good_def)
  show "distinct (map ia_addr ias)"
    using H unfolding ias_own_def by (rule holds_distinct) (auto simp: ia_own_def)
  have "holds h (ress_own rs + (ias_own h ias + ao a))" using H by (simp add: ac_simps)
  then show "distinct (map res_addr rs)"
    unfolding ress_own_def by (rule holds_distinct) (auto simp: res_own_def)
qed

lemma inv_distinct: "stack_inv ao aok w \<Longrightarrow> distinct (ia_addrs w)" "stack_inv ao aok w \<Longrightarrow> distinct (map res_addr (pResList w))"
  unfolding stack_inv_def ia_addrs_def by (auto dest: good_distinct)

subsection \<open>Changing one part\<close>

text \<open>
  \<open>good_move\<close>: the part that owns \<open>K\<close> makes a trade, and everything else stays as it was; what the application
  owns may change with it. \<open>good_part\<close>: the application's part stays.
\<close>

lemma good_move:
  assumes "good ao aok h c ias rs n a" "ias_own h ias + (ress_own rs + ao a) = K + R h" "steady R"
    "trades K h K' h'" "ias_own h' ias' + (ress_own rs' + ao' a') = K' + R h'"
    "\<forall>ia \<in> set ias'. ia_ok c rs' ia" "\<forall>r \<in> set rs'. res_ok c r" "map res_key rs' = map res_key rs"
    "aok a (res_key ` set rs) \<Longrightarrow> aok' a' (res_key ` set rs)"
  shows "good ao' aok' h' c ias' rs' n a'"
proof -
  have H: "holds h (K + R h)" using assms(1,2) by (simp add: good_def)
  have "trades (K + R h) h (K' + R h') h'" by (rule trades_steady[OF assms(3,4)])
  then have "holds h' (K' + R h')" "same_pool h h'"
    using tradesD(1,3)[of "K + R h" h "K' + R h'" h' "{#}"] H by auto
  moreover have "length rs' = length rs" using assms(8) by (metis length_map)
  moreover have "res_key ` set rs' = res_key ` set rs" using assms(8) by (metis set_map)
  ultimately show ?thesis using assms(1,5-7,9)
    by (simp add: good_def same_pool_def coap_mem_buf_highEnd_def)
qed

lemma good_part:
  assumes "good ao aok h c ias rs n a" "ias_own h ias + (ress_own rs + ao a) = K + R h" "steady R"
    "trades K h K' h'" "ias_own h' ias' + (ress_own rs' + ao a) = K' + R h'"
    "\<forall>ia \<in> set ias'. ia_ok c rs' ia" "\<forall>r \<in> set rs'. res_ok c r" "map res_key rs' = map res_key rs"
  shows "good ao aok h' c ias' rs' n a"
  by (rule good_move[where ao' = ao and a' = a and aok' = aok and R = R and K = K and K' = K', OF assms])

lemma good_heap: "good ao aok h c ias rs n a \<Longrightarrow> trades {#} h {#} h' \<Longrightarrow> good ao aok h' c ias rs n a"
  by (rule good_part[where K = "{#}" and K' = "{#}" and R = "\<lambda>h. ias_own h ias + (ress_own rs + ao a)"])
     (auto intro!: steady_add simp: good_def)

lemma good_ia:
  assumes "good ao aok h c (xs @ ia # ys) rs n a" "trades (ia_own h ia) h (ia_own h' ia') h'" "ia_ok c rs ia'"
  shows "good ao aok h' c (xs @ ia' # ys) rs n a"
  by (rule good_part[OF assms(1) _ _ assms(2), where R = "\<lambda>h. ias_own h (xs @ ys) + (ress_own rs + ao a)"])
     (use assms(1,3) in \<open>auto intro!: steady_add simp: good_def ac_simps\<close>)

lemma good_delete:
  assumes "good ao aok h c (xs @ ia # ys) rs n a" "trades (ia_own h ia) h {#} h'"
  shows "good ao aok h' c (xs @ ys) rs n a"
  by (rule good_part[OF assms(1) _ _ assms(2), where R = "\<lambda>h. ias_own h (xs @ ys) + (ress_own rs + ao a)"])
     (use assms(1) in \<open>auto intro!: steady_add simp: good_def ac_simps\<close>)

lemma good_append:
  assumes "good ao aok h c ias rs n a" "trades {#} h (ia_own h' ia) h'" "ia_ok c rs ia"
  shows "good ao aok h' c (ias @ [ia]) rs n a"
  by (rule good_part[OF assms(1) _ _ assms(2), where R = "\<lambda>h. ias_own h ias + (ress_own rs + ao a)"])
     (use assms(1,3) in \<open>auto intro!: steady_add simp: good_def ac_simps\<close>)

lemma good_perm:
  assumes "good ao aok h c ias rs n a" "mset ias' = mset ias"
  shows "good ao aok h c ias' rs n a"
proof -
  have "ias_own h ias' = ias_own h ias"
    using assms(2) unfolding ias_own_def by (metis mset_map sum_mset_sum_list)
  then show ?thesis using assms set_mset_mset[of ias] set_mset_mset[of ias'] by (simp add: good_def)
qed

text \<open>A resource that keeps its handler and its notifier serves the interactions as before.\<close>

lemma ia_ok_cong:
  assumes "ia_ok c rs ia" "\<And>r. r \<in> set rs \<Longrightarrow> \<exists>r' \<in> set rs'. res_addr r' = res_addr r \<and> Handler r' = Handler r \<and> Notifier r' = Notifier r"
  shows "ia_ok c rs' ia"
proof -
  have "has_handler rs' p" if "has_handler rs p" for p using that assms(2) unfolding has_handler_def by metis
  moreover have "has_notifier rs' p" if "has_notifier rs p" for p using that assms(2) unfolding has_notifier_def by metis
  ultimately show ?thesis using assms(1) by (cases "Role ia") (auto simp: ia_ok_def)
qed

lemma good_res:
  assumes "good ao aok h c ias (xs @ r # ys) n a" "trades (obss_own (pListObservers r)) h (obss_own obs) h'"
    "r' = r\<lparr>pListObservers := obs, UpdateCnt := k\<rparr>" "res_ok c r'"
  shows "good ao aok h' c ias (xs @ r' # ys) n a"
proof (rule good_part[OF assms(1) _ _ assms(2)])
  let ?R = "\<lambda>h. ias_own h ias + (ress_own (xs @ ys) + ao a + add_mset (res_addr r, sizeof_CoAP_Res) (opts_own (pUri r) + descr_own (pDescription r)))"
  show "ias_own h ias + (ress_own (xs @ r # ys) + ao a) = obss_own (pListObservers r) + ?R h"
    by (simp add: res_own_def ac_simps)
  show "steady ?R" by (intro steady_add steady_const) auto
  show "ias_own h' ias + (ress_own (xs @ r' # ys) + ao a) = obss_own obs + ?R h'"
    by (simp add: res_own_def ac_simps assms(3))
  show "\<forall>ia \<in> set ias. ia_ok c (xs @ r' # ys) ia"
  proof
    fix ia assume "ia \<in> set ias"
    then have ok: "ia_ok c (xs @ r # ys) ia" using assms(1) by (simp add: good_def)
    show "ia_ok c (xs @ r' # ys) ia" by (rule ia_ok_cong[OF ok]) (auto simp: assms(3))
  qed
  show "\<forall>r \<in> set (xs @ r' # ys). res_ok c r" using assms(1,4) by (auto simp: good_def)
  show "map res_key (xs @ r' # ys) = map res_key (xs @ r # ys)" by (simp add: assms(3) res_key_def)
qed

subsection \<open>The same on the stack\<close>

lemma get_ia_split:
  assumes "stack_inv ao aok w" "get_ia p w = Some ia"
  obtains xs ys where "pInteractions w = xs @ ia # ys" "ia_addr ia = p" "p \<notin> ia_addr ` set xs" "p \<notin> ia_addr ` set ys"
proof -
  obtain xs ys where s: "pInteractions w = xs @ ia # ys" and a: "ia_addr ia = p"
    using get_ia_Some[OF assms(2)] by (auto dest: split_list)
  have "distinct (map ia_addr (xs @ ia # ys))" using inv_distinct(1)[OF assms(1)] s by (simp add: ia_addrs_def)
  then have "p \<notin> ia_addr ` set xs" "p \<notin> ia_addr ` set ys" using a by auto
  then show thesis using that s a by blast
qed

lemma get_ia_ok: "stack_inv ao aok w \<Longrightarrow> get_ia p w = Some ia \<Longrightarrow> ia_ok (SocketCtrl w) (pResList w) ia"
  using get_ia_Some by (fastforce simp: stack_inv_def good_def)

lemma upd_ia_split:
  "pInteractions w = xs @ ia # ys \<Longrightarrow> ia_addr ia = p \<Longrightarrow> p \<notin> ia_addr ` set xs \<Longrightarrow> p \<notin> ia_addr ` set ys \<Longrightarrow>
     upd_ia p f w = w\<lparr>pInteractions := xs @ f ia # ys\<rparr>"
  by (simp add: upd_ia_def)

lemma inv_upd_ia:
  assumes "stack_inv ao aok w" "get_ia p w = Some ia" "f ia = ia'"
    "trades (ia_own (heap w) ia) (heap w) (ia_own h' ia') h'" "ia_addr ia' = ia_addr ia"
    "ia_ok (SocketCtrl w) (pResList w) ia'"
  shows "stack_inv ao aok (upd_ia p f (w\<lparr>heap := h'\<rparr>))" "get_ia p (upd_ia p f (w\<lparr>heap := h'\<rparr>)) = Some ia'"
proof -
  obtain xs ys where s: "pInteractions w = xs @ ia # ys" "ia_addr ia = p" "p \<notin> ia_addr ` set xs" "p \<notin> ia_addr ` set ys"
    using get_ia_split[OF assms(1,2)] .
  have u: "upd_ia p f (w\<lparr>heap := h'\<rparr>) = w\<lparr>heap := h', pInteractions := xs @ ia' # ys\<rparr>"
    using s by (simp add: upd_ia_split assms(3))
  show "stack_inv ao aok (upd_ia p f (w\<lparr>heap := h'\<rparr>))" unfolding u
    using good_ia[OF _ assms(4,6), of ao aok xs ys] assms(1) s(1) by (simp add: stack_inv_def)
  show "get_ia p (upd_ia p f (w\<lparr>heap := h'\<rparr>)) = Some ia'" unfolding u
    using s assms(5) by (simp add: get_ia_def)
qed

text \<open>An update that touches no buffer.\<close>

lemma inv_set_ia:
  assumes "stack_inv ao aok w" "get_ia p w = Some ia" "f ia = ia'" "pReqMsg ia' = pReqMsg ia" "pRespMsg ia' = pRespMsg ia"
    "ia_addr ia' = ia_addr ia" "ia_ok (SocketCtrl w) (pResList w) ia'"
  shows "stack_inv ao aok (upd_ia p f w)" "get_ia p (upd_ia p f w) = Some ia'"
proof -
  have "ia_own (heap w) ia' = ia_own (heap w) ia" using assms(4-6) by (simp add: ia_own_def)
  then have "trades (ia_own (heap w) ia) (heap w) (ia_own (heap w) ia') (heap w)" by simp
  from inv_upd_ia[of ao aok w p ia f ia' "heap w", OF assms(1-3) this assms(6,7)]
  show "stack_inv ao aok (upd_ia p f w)" "get_ia p (upd_ia p f w) = Some ia'" by simp_all
qed

lemma FreeInteraction_trades: "trades (ia_own h ia) h {#} (CoAP_FreeInteraction ia h)"
proof -
  let ?h1 = "CoAP_free_Message (pReqMsg ia) h"
  let ?A = "{#(ia_addr ia, sizeof_CoAP_Interaction)#}"
  have 1: "trades (msg_opt_own h (pReqMsg ia) + (?A + msg_opt_own h (pRespMsg ia))) h ({#} + (?A + msg_opt_own ?h1 (pRespMsg ia))) ?h1"
    by (rule trades_steady[OF _ free_message_trades]) auto
  have 2: "trades (msg_opt_own ?h1 (pRespMsg ia) + ?A) ?h1 ({#} + ?A) (CoAP_free_Message (pRespMsg ia) ?h1)"
    by (rule trades_frame[OF free_message_trades])
  have "trades (ia_own h ia) h ?A (CoAP_free_Message (pRespMsg ia) ?h1)"
    using trades_trans[OF 1] 2 by (simp add: ia_own_def ac_simps)
  then show ?thesis using trades_trans[OF _ trades_release] by (simp add: CoAP_FreeInteraction_def Let_def)
qed

lemma unlink_split:
  "ia_addr ia = p \<Longrightarrow> p \<notin> ia_addr ` set xs \<Longrightarrow>
     CoAP_UnlinkInteractionFromList (xs @ ia # ys) p True h = (xs @ ys, CoAP_FreeInteraction ia h)"
  by (induction xs) auto

lemma inv_delete:
  assumes "stack_inv ao aok w" "get_ia p w = Some ia"
  shows "stack_inv ao aok (CoAP_DeleteInteraction p w)"
proof -
  obtain xs ys where s: "pInteractions w = xs @ ia # ys" "ia_addr ia = p" "p \<notin> ia_addr ` set xs"
    using get_ia_split[OF assms] by metis
  have "CoAP_DeleteInteraction p w = w\<lparr>pInteractions := xs @ ys, heap := CoAP_FreeInteraction ia (heap w)\<rparr>"
    using s by (simp add: CoAP_DeleteInteraction_def unlink_split)
  then show ?thesis using assms(1) s(1) good_delete[OF _ FreeInteraction_trades, of ao aok "heap w"]
    by (simp add: stack_inv_def)
qed

lemma inv_enqueue:
  assumes "stack_inv ao aok w" "get_ia p w = Some ia"
  obtains w' where "CoAP_EnqueueLastInteraction p w = Some w'" "stack_inv ao aok w'"
proof -
  obtain xs ys where s: "pInteractions w = xs @ ia # ys" "ia_addr ia = p" "p \<notin> ia_addr ` set xs" "p \<notin> ia_addr ` set ys"
    using get_ia_split[OF assms] .
  have "CoAP_EnqueueLastInteraction p w = Some (w\<lparr>pInteractions := xs @ ys @ [ia]\<rparr>)"
    using s by (simp add: CoAP_EnqueueLastInteraction_def move_to_end)
  moreover have "stack_inv ao aok (w\<lparr>pInteractions := xs @ ys @ [ia]\<rparr>)"
    using assms(1) s(1) good_perm[of ao aok "heap w" _ "xs @ ia # ys" _ _ _ "xs @ ys @ [ia]"] by (simp add: stack_inv_def)
  ultimately show thesis using that by blast
qed

lemma inv_heap: "stack_inv ao aok w \<Longrightarrow> trades {#} (heap w) {#} h' \<Longrightarrow> stack_inv ao aok (w\<lparr>heap := h'\<rparr>)"
  using good_heap by (simp add: stack_inv_def)

lemma inv_append:
  "stack_inv ao aok w \<Longrightarrow> trades {#} (heap w) (ia_own h' ia) h' \<Longrightarrow> ia_ok (SocketCtrl w) (pResList w) ia \<Longrightarrow>
     stack_inv ao aok (w\<lparr>heap := h', pInteractions := pInteractions w @ [ia]\<rparr>)"
  using good_append by (simp add: stack_inv_def)

subsection \<open>Sending keeps the invariant\<close>

lemma good_sub: "good ao aok h c (xs @ ia # ys) rs n a \<Longrightarrow> holds h (ia_own h ia)"
  unfolding good_def by (auto intro: holds_sub)

lemma inv_holds: "stack_inv ao aok w \<Longrightarrow> get_ia p w = Some ia \<Longrightarrow> holds (heap w) (ia_own (heap w) ia)"
  using get_ia_split good_sub unfolding stack_inv_def by metis

lemma inv_sendable:
  assumes "stack_inv ao aok w" "get_ia p w = Some ia" "pReqMsg ia = Some m \<or> pRespMsg ia = Some m"
  shows "sendable m"
proof (rule small_sendable)
  show "holds (heap w) (msg_own (heap w) m)"
    using inv_holds[OF assms(1,2)] assms(3) by (auto simp: ia_own_def intro: holds_sub)
  show "small_msg m" using get_ia_ok[OF assms(1,2)] assms(3) by (auto simp: ia_ok_def)
  show "TotalBufBytes (heap w) \<le> 16000" using assms(1) by (simp add: stack_inv_def good_def)
qed

lemma inv_known: "stack_inv ao aok w \<Longrightarrow> get_ia p w = Some ia \<Longrightarrow> known_interface (SocketCtrl w) (ia_ifID ia)"
  by (auto simp: ia_ok_def dest: get_ia_ok)

text \<open>The outcome of sending a message \<open>m\<close> of a well-formed stack.\<close>

lemma SendMsg_inv:
  assumes "stack_inv ao aok w" "CoAP_SendMsg d m i ep w = Some (r, m', w')" "sendable m"
  shows "stack_inv ao aok w'" "trades K (heap w) K (heap w')" "msg_own h m' = msg_own h m" "small_msg m \<Longrightarrow> small_msg m'"
    "get_ia p w' = get_ia p w" "w' = w\<lparr>heap := heap w', sent := sent w'\<rparr>"
proof -
  show t: "trades K (heap w) K (heap w')" for K using SendMsg_trades[OF assms(2,3)] .
  show e: "w' = w\<lparr>heap := heap w', sent := sent w'\<rparr>" by (rule SendMsg_frame(1)[OF assms(2)])
  show "stack_inv ao aok w'" using inv_heap[OF assms(1) t] by (subst e) simp
  show "get_ia p w' = get_ia p w" using assms(2) by (simp add: get_ia_def)
  show "msg_own h m' = msg_own h m" "small_msg m \<Longrightarrow> small_msg m'" using SendMsg_own[OF assms(2)] by auto
qed

lemma send_opt_Some:
  "send_opt d (Some m) i ep w = Some (r, q, w') \<Longrightarrow> \<exists>m'. q = Some m' \<and> CoAP_SendMsg d m i ep w = Some (r, m', w')"
  by (auto simp: send_opt_def)

lemma send_opt_None: "send_opt d None i ep w = Some (r, q, w') \<Longrightarrow> r = COAP_NOT_FOUND \<and> q = None \<and> w' = w"
  by (auto simp: send_opt_def split: if_splits Option.bind_splits)

text \<open>Sending the request or the response of an interaction and storing it back.\<close>

definition msg_slot ::
  "(CoAP_Interaction \<Rightarrow> CoAP_Message option) \<Rightarrow> (CoAP_Message option \<Rightarrow> CoAP_Interaction \<Rightarrow> CoAP_Interaction) \<Rightarrow> bool" where
  "msg_slot g u \<longleftrightarrow> g = pReqMsg \<and> u = (\<lambda>m i. i\<lparr>pReqMsg := m\<rparr>) \<or> g = pRespMsg \<and> u = (\<lambda>m i. i\<lparr>pRespMsg := m\<rparr>)"

lemma slots [simp]:
  "msg_slot pReqMsg (\<lambda>m i. i\<lparr>pReqMsg := m\<rparr>)" "msg_slot pRespMsg (\<lambda>m i. i\<lparr>pRespMsg := m\<rparr>)"
  by (simp_all add: msg_slot_def)

lemma slot_facts:
  assumes "msg_slot g u"
  shows "u (g ia) ia = ia" "ia_addr (u q ia) = ia_addr ia" "g (u q ia) = q"
    "g ia = Some m \<Longrightarrow> msg_own h m' = msg_own h m \<Longrightarrow> ia_own h (u (Some m') ia) = ia_own h ia"
    "ia_ok c rs ia \<Longrightarrow> g ia = Some m \<Longrightarrow> small_msg m \<and> (small_msg m' \<longrightarrow> ia_ok c rs (u (Some m') ia))"
  using assms unfolding msg_slot_def
  by (auto simp: ia_own_def) (cases "Role ia"; auto simp: ia_ok_def)+

lemma send_slot_inv:
  assumes "msg_slot g u" "stack_inv ao aok w" "get_ia p w = Some ia" "send_opt d (g ia) i ep w = Some (r, m, w1)"
  shows "stack_inv ao aok (upd_ia p (u m) w1)" "get_ia p (upd_ia p (u m) w1) = Some (u m ia)"
    "m = None \<longleftrightarrow> g ia = None" "m = None \<longrightarrow> r \<noteq> COAP_OK" "SocketCtrl w1 = SocketCtrl w" "pResList w1 = pResList w"
proof -
  note ok = get_ia_ok[OF assms(2,3)] and sl = slot_facts[OF assms(1)]
  have "stack_inv ao aok (upd_ia p (u m) w1) \<and> get_ia p (upd_ia p (u m) w1) = Some (u m ia) \<and>
    (m = None \<longleftrightarrow> g ia = None) \<and> (m = None \<longrightarrow> r \<noteq> COAP_OK) \<and> SocketCtrl w1 = SocketCtrl w \<and> pResList w1 = pResList w"
  proof (cases "g ia")
    case None
    then have e: "w1 = w" "m = None" "r \<noteq> COAP_OK" using assms(4) by (auto dest: send_opt_None)
    have "u m ia = ia" using sl(1)[of ia] None e(2) by simp
    then show ?thesis using inv_set_ia[OF assms(2,3), of "u m" ia] ok None e by simp
  next
    case (Some resp)
    obtain m' where m': "m = Some m'" "CoAP_SendMsg d resp i ep w = Some (r, m', w1)"
      using send_opt_Some assms(4) Some by metis
    have "pReqMsg ia = Some resp \<or> pRespMsg ia = Some resp" using assms(1) Some by (auto simp: msg_slot_def)
    note s = SendMsg_inv[OF assms(2) m'(2) inv_sendable[OF assms(2,3) this]]
    have ok': "ia_ok (SocketCtrl w) (pResList w) (u m ia)" using sl(5)[OF ok Some, of m'] s(4) m'(1) by simp
    have "ia_own (heap w1) (u m ia) = ia_own (heap w1) ia" using sl(4)[OF Some s(3)] m'(1) by simp
    then have tr: "trades (ia_own (heap w1) ia) (heap w1) (ia_own (heap w1) (u m ia)) (heap w1)" by simp
    have g: "get_ia p w1 = Some ia" using s(5) assms(3) by simp
    have c: "SocketCtrl w1 = SocketCtrl w" "pResList w1 = pResList w" using m'(2) by simp_all
    show ?thesis
      using inv_upd_ia[of ao aok w1 p ia "u m" _ "heap w1", OF s(1) g refl tr sl(2)] ok' c Some m'(1) by simp
  qed
  then show "stack_inv ao aok (upd_ia p (u m) w1)" "get_ia p (upd_ia p (u m) w1) = Some (u m ia)"
    "m = None \<longleftrightarrow> g ia = None" "m = None \<longrightarrow> r \<noteq> COAP_OK" "SocketCtrl w1 = SocketCtrl w" "pResList w1 = pResList w" by auto
qed

end
