(* ===== verification/Work_Safety.thy ===== *)
theory Work_Safety imports Stack_Own begin

section \<open>Sending, observers and notifications keep the invariant\<close>

text \<open>
  \<open>outcome D P q\<close>: the computation \<open>q\<close> ends in a result with \<open>P\<close>, and it is free of undefined behaviour when \<open>D\<close>
  holds. Each lemma states the outcome of one function of \<open>coap_main.c\<close> or \<open>coap_interaction.c\<close> on a stack
  with \<open>stack_inv\<close>.
\<close>

definition outcome :: "bool \<Rightarrow> ('a \<Rightarrow> bool) \<Rightarrow> 'a option \<Rightarrow> bool" where
  "outcome D P q \<longleftrightarrow> (case q of None \<Rightarrow> \<not> D | Some x \<Rightarrow> P x)"

lemma outcome_simps [simp]:
  "outcome D P (Some x) = P x" "outcome D P None = (\<not> D)"
  by (simp_all add: outcome_def)

lemma outcome_bind:
  "outcome D Q q \<Longrightarrow> (\<And>x. q = Some x \<Longrightarrow> Q x \<Longrightarrow> outcome D P (f x)) \<Longrightarrow> outcome D P (q \<bind> f)"
  by (cases q) auto

lemma outcome_mono: "outcome D Q q \<Longrightarrow> (D' \<Longrightarrow> D) \<Longrightarrow> (\<And>x. q = Some x \<Longrightarrow> Q x \<Longrightarrow> P x) \<Longrightarrow> outcome D' P q"
  by (cases q) auto

lemma outcome_SomeD: "outcome D P q \<Longrightarrow> q = Some x \<Longrightarrow> P x"
  by simp

lemma outcome_defined: "outcome D P q \<Longrightarrow> D \<Longrightarrow> \<exists>x. q = Some x \<and> P x"
  by (cases q) auto

lemma outcome_map: "outcome D (\<lambda>x. P (f x)) q \<Longrightarrow> outcome D P (map_option f q)"
  by (cases q) auto

lemma outcome_return: "outcome D (\<lambda>x. P (f x)) q \<Longrightarrow> outcome D P (q \<bind> (\<lambda>x. Some (f x)))"
  by (cases q) auto

lemma outcome_get: "get_ia p w = Some ia \<Longrightarrow> outcome D P (f ia) \<Longrightarrow> outcome D P (get_ia p w \<bind> f)"
  by simp

lemma enqueue_outcome:
  "stack_inv ao aok w \<Longrightarrow> get_ia p w = Some ia \<Longrightarrow> outcome D (stack_inv ao aok) (CoAP_EnqueueLastInteraction p w)"
  by (metis inv_enqueue outcome_simps(1))

subsection \<open>Sending\<close>

lemma SendMsg_defined_inv:
  "stack_inv ao aok w \<Longrightarrow> sendable m \<Longrightarrow> known_interface (SocketCtrl w) i \<Longrightarrow> CoAP_SendMsg d m i ep w \<noteq> None"
  by (subst SendMsg_defined) (assumption, simp add: known_interface_def)

lemma send_slot_outcome:
  assumes "msg_slot g u" "stack_inv ao aok w" "get_ia p w = Some ia"
  shows "outcome (g ia \<noteq> None)
    (\<lambda>(r, m, w1). stack_inv ao aok (upd_ia p (u m) w1) \<and> get_ia p (upd_ia p (u m) w1) = Some (u m ia) \<and>
       (m = None \<longleftrightarrow> g ia = None) \<and> (m = None \<longrightarrow> r \<noteq> COAP_OK) \<and> SocketCtrl w1 = SocketCtrl w \<and> pResList w1 = pResList w)
    (send_opt d (g ia) (ia_ifID ia) ep w)"
proof (cases "send_opt d (g ia) (ia_ifID ia) ep w")
  case None
  have "g ia = None"
  proof (rule ccontr)
    assume "g ia \<noteq> None"
    then obtain m where m: "g ia = Some m" by blast
    then have "pReqMsg ia = Some m \<or> pRespMsg ia = Some m" using assms(1) by (auto simp: msg_slot_def)
    then have "CoAP_SendMsg d m (ia_ifID ia) ep w \<noteq> None"
      using SendMsg_defined_inv[OF assms(2) inv_sendable[OF assms(2,3)] inv_known[OF assms(2,3)]] by blast
    then show False using None m by (simp add: send_opt_def)
  qed
  then show ?thesis using None by simp
next
  case (Some x)
  obtain r m w1 where x: "x = (r, m, w1)" by (cases x)
  show ?thesis using send_slot_inv[OF assms Some[unfolded x]] Some x by simp
qed

lemma send_failed_outcome:
  assumes "stack_inv ao aok w" "get_ia (ia_addr ia) w = Some ia'"
  shows "outcome (pReqMsg ia \<noteq> None) (stack_inv ao aok) (send_failed ia w)"
  using inv_delete[OF assms] by (auto simp: send_failed_def split: option.split)

text \<open>The update behind a successful transmission: a timer or a flag, and the next state.\<close>

definition only_timers :: "(CoAP_Interaction \<Rightarrow> CoAP_Interaction) \<Rightarrow> bool" where
  "only_timers f \<longleftrightarrow> (\<forall>i. pReqMsg (f i) = pReqMsg i \<and> pRespMsg (f i) = pRespMsg i \<and> ia_addr (f i) = ia_addr i \<and>
     Role (f i) = Role i \<and> State (f i) = State i \<and> pRes (f i) = pRes i \<and> ia_ifID (f i) = ia_ifID i \<and>
     RetransCounter (f i) = RetransCounter i)"

lemma only_timers_simps [simp]:
  "only_timers (\<lambda>i. i)" "only_timers (\<lambda>i. i\<lparr>AckTimeout := t\<rparr>)" "only_timers (\<lambda>i. i\<lparr>ReqReliabilityState := a\<rparr>)"
  "only_timers (\<lambda>i. i\<lparr>RespReliabilityState := a\<rparr>)" "only_timers (\<lambda>i. i\<lparr>SleepUntil := t\<rparr>)"
  "only_timers (\<lambda>i. i\<lparr>UpdatePendingNotification := b\<rparr>)"
  by (simp_all add: only_timers_def)

lemma inv_timers:
  assumes "stack_inv ao aok w" "get_ia p w = Some ia" "only_timers f"
  shows "stack_inv ao aok (upd_ia p f w)" "get_ia p (upd_ia p f w) = Some (f ia)"
proof -
  have f: "pReqMsg (f ia) = pReqMsg ia" "pRespMsg (f ia) = pRespMsg ia" "ia_addr (f ia) = ia_addr ia" "Role (f ia) = Role ia"
    "State (f ia) = State ia" "pRes (f ia) = pRes ia" "ia_ifID (f ia) = ia_ifID ia" "RetransCounter (f ia) = RetransCounter ia"
    using assms(3) by (simp_all add: only_timers_def)
  then have "ia_ok (SocketCtrl w) (pResList w) (f ia)"
    using get_ia_ok[OF assms(1,2)] by (cases "Role ia") (auto simp: ia_ok_def)
  from inv_set_ia[of ao aok w p ia f, OF assms(1,2) refl f(1-3) this]
  show "stack_inv ao aok (upd_ia p f w)" "get_ia p (upd_ia p f w) = Some (f ia)" .
qed

lemma timers_state_enqueue:
  assumes "stack_inv ao aok w" "get_ia p w = Some ia" "only_timers f" "role_ok (pResList w) (Role ia) (ia\<lparr>State := st\<rparr>)"
  shows "outcome D (stack_inv ao aok) (CoAP_EnqueueLastInteraction p (upd_ia p (\<lambda>i. i\<lparr>State := st\<rparr>) (upd_ia p f w)))"
proof -
  note t = inv_timers[OF assms(1-3)]
  have "ia_ok (SocketCtrl w) (pResList w) ((f ia)\<lparr>State := st\<rparr>)"
    using get_ia_ok[OF assms(1,2)] assms(3,4) by (cases "Role ia") (auto simp: ia_ok_def only_timers_def)
  then have "ia_ok (SocketCtrl (upd_ia p f w)) (pResList (upd_ia p f w)) ((f ia)\<lparr>State := st\<rparr>)" by simp
  from inv_set_ia[OF t, of "\<lambda>i. i\<lparr>State := st\<rparr>", OF refl _ _ _ this]
  show ?thesis by (intro enqueue_outcome) simp_all
qed

lemmas do_simps = bind.bind_lunit prod.case Let_def

text \<open>The response is accepted for sending.\<close>

definition accepted :: "'x env \<Rightarrow> CoAP_Interaction \<Rightarrow> 'x coap \<Rightarrow> bool" where
  "accepted env ia w \<longleftrightarrow>
     (case send_opt (drv env) (pRespMsg ia) (ia_ifID ia) (RemoteEp ia) w of None \<Rightarrow> False | Some (r, _, _) \<Rightarrow> r = COAP_OK)"

lemma SendResp_accepted:
  assumes "stack_inv ao aok w" "get_ia (ia_addr ia) w = Some ia"
    and "pRespMsg ia \<noteq> None \<Longrightarrow> role_ok (pResList w) (Role ia) (ia\<lparr>State := st\<rparr>)"
  shows "outcome (pRespMsg ia \<noteq> None \<and> (pReqMsg ia \<noteq> None \<or> accepted env ia w)) (\<lambda>(r, w'). stack_inv ao aok w') (SendResp env ia st w)"
proof (cases "send_opt (drv env) (pRespMsg ia) (ia_ifID ia) (RemoteEp ia) w")
  case None
  then show ?thesis
    using send_slot_outcome[OF slots(2) assms(1,2), of "drv env" "RemoteEp ia"] by (simp add: SendResp_def)
next
  case (Some x)
  let ?p = "ia_addr ia"
  obtain r m w1 where x: "send_opt (drv env) (pRespMsg ia) (ia_ifID ia) (RemoteEp ia) w = Some (r, m, w1)"
    using Some by (cases x) auto
  define w2 where "w2 = upd_ia ?p (\<lambda>i. i\<lparr>pRespMsg := m\<rparr>) w1"
  note i = send_slot_inv[OF slots(2) assms(1,2) x, folded w2_def]
  show ?thesis
  proof (cases "r = COAP_OK")
    case False
    then have "SendResp env ia st w = send_failed ia w2 \<bind> (\<lambda>w. Some (COAP_ERR_SOCKET, w))"
      unfolding SendResp_def x do_simps w2_def[symmetric] by (simp only: if_False)
    moreover have "\<not> accepted env ia w" using False x by (simp add: accepted_def)
    ultimately show ?thesis using outcome_mono[OF send_failed_outcome[OF i(1,2)]] by (simp add: outcome_return)
  next
    case True
    then obtain resp where m: "m = Some resp" using i(4) by auto
    define f :: "CoAP_Interaction \<Rightarrow> CoAP_Interaction" where "f = (if Type resp = ACK then (\<lambda>i. i\<lparr>ReqReliabilityState := ACK_SET\<rparr>)
      else if Type resp = CON then (\<lambda>i. i\<lparr>AckTimeout := rtc_1Hz w2 + wait_time (unat (RetransCounter ia))\<rparr>) else (\<lambda>i. i))"
    have ft: "only_timers f" by (simp add: f_def)
    have ro: "role_ok (pResList w2) (Role (ia\<lparr>pRespMsg := m\<rparr>)) (ia\<lparr>pRespMsg := m, State := st\<rparr>)"
      using assms(3) m i(3,6) by (cases "Role ia") (auto simp: w2_def)
    have "upd_ia ?p f w2 = (if Type resp = ACK then upd_ia ?p (\<lambda>i. i\<lparr>ReqReliabilityState := ACK_SET\<rparr>) w2
          else if Type resp = CON then CoAP_EnableAckTimeout ?p (RetransCounter ia) w2 else w2)"
      unfolding f_def CoAP_EnableAckTimeout_def by simp
    then have "SendResp env ia st w = CoAP_EnqueueLastInteraction ?p (upd_ia ?p (\<lambda>i. i\<lparr>State := st\<rparr>) (upd_ia ?p f w2)) \<bind>
        (\<lambda>w. Some (COAP_OK, w))"
      unfolding SendResp_def x do_simps w2_def[symmetric] by (simp only: True m bind.bind_lunit if_True simp_thms)
    then show ?thesis using timers_state_enqueue[OF i(1,2) ft ro] by (simp add: outcome_return)
  qed
qed

lemma SendResp_outcome:
  assumes "stack_inv ao aok w" "get_ia (ia_addr ia) w = Some ia"
    and "pRespMsg ia \<noteq> None \<Longrightarrow> role_ok (pResList w) (Role ia) (ia\<lparr>State := st\<rparr>)"
  shows "outcome (pRespMsg ia \<noteq> None \<and> pReqMsg ia \<noteq> None) (\<lambda>(r, w'). stack_inv ao aok w') (SendResp env ia st w)"
  by (rule outcome_mono[OF SendResp_accepted[OF assms]]) auto

lemma SendReq_outcome:
  assumes "stack_inv ao aok w" "get_ia (ia_addr ia) w = Some ia" "pReqMsg ia \<noteq> None"
    "role_ok (pResList w) (Role ia) (ia\<lparr>State := st\<rparr>)"
  shows "outcome True (\<lambda>(r, w'). stack_inv ao aok w') (SendReq env ia st w)"
proof (cases "send_opt (drv env) (pReqMsg ia) (ia_ifID ia) (RemoteEp ia) w")
  case None
  then show ?thesis
    using send_slot_outcome[OF slots(1) assms(1,2), of "drv env" "RemoteEp ia"] assms(3) by simp
next
  case (Some x)
  let ?p = "ia_addr ia"
  obtain r m w1 where x: "send_opt (drv env) (pReqMsg ia) (ia_ifID ia) (RemoteEp ia) w = Some (r, m, w1)"
    using Some by (cases x) auto
  define w2 where "w2 = upd_ia ?p (\<lambda>i. i\<lparr>pReqMsg := m\<rparr>) w1"
  note i = send_slot_inv[OF slots(1) assms(1,2) x, folded w2_def]
  show ?thesis
  proof (cases "r = COAP_OK")
    case False
    then have "SendReq env ia st w = send_failed ia w2 \<bind> (\<lambda>w. Some (COAP_ERR_SOCKET, w))"
      unfolding SendReq_def x do_simps w2_def[symmetric] by (simp only: if_False)
    then show ?thesis using outcome_mono[OF send_failed_outcome[OF i(1,2)]] assms(3) by (simp add: outcome_return)
  next
    case True
    then obtain req where m: "m = Some req" using i(4) by auto
    define f :: "CoAP_Interaction \<Rightarrow> CoAP_Interaction" where "f = (if Type req = CON
      then (\<lambda>i. i\<lparr>AckTimeout := rtc_1Hz w2 + wait_time (unat (RetransCounter ia))\<rparr>) else (\<lambda>i. i))"
    have ft: "only_timers f" by (simp add: f_def)
    have ro: "role_ok (pResList w2) (Role (ia\<lparr>pReqMsg := m\<rparr>)) (ia\<lparr>pReqMsg := m, State := st\<rparr>)"
      using assms(3,4) m i(6) by (cases "Role ia") (auto simp: w2_def)
    have "upd_ia ?p f w2 = (if Type req = CON then CoAP_EnableAckTimeout ?p (RetransCounter ia) w2 else w2)"
      unfolding f_def CoAP_EnableAckTimeout_def by simp
    then have "SendReq env ia st w = CoAP_EnqueueLastInteraction ?p (upd_ia ?p (\<lambda>i. i\<lparr>State := st\<rparr>) (upd_ia ?p f w2)) \<bind>
        (\<lambda>w. Some (COAP_OK, w))"
      unfolding SendReq_def x do_simps w2_def[symmetric] by (simp only: True m bind.bind_lunit if_True simp_thms)
    then show ?thesis using timers_state_enqueue[OF i(1,2) ft ro] by (simp add: outcome_return)
  qed
qed

subsection \<open>Retransmission\<close>

lemma counter_ok:
  assumes "ia_ok c rs ia" "unat (RetransCounter ia) < MAX_RETRANSMIT"
  shows "ia_ok c rs (ia\<lparr>RetransCounter := RetransCounter ia + 1\<rparr>)"
proof -
  have "unat (RetransCounter ia + 1) = unat (RetransCounter ia) + 1"
    using assms(2) by (simp add: unat_word_ariths MAX_RETRANSMIT_def)
  then show ?thesis using assms by (cases "Role ia") (auto simp: ia_ok_def)
qed

lemma count_and_wait:
  assumes "stack_inv ao aok w" "get_ia p w = Some ia" "unat (RetransCounter ia) < MAX_RETRANSMIT" "n = RetransCounter ia + 1"
  shows "stack_inv ao aok (CoAP_EnableAckTimeout p n (upd_ia p (\<lambda>i. i\<lparr>RetransCounter := n\<rparr>) w))"
proof -
  have "ia_ok (SocketCtrl w) (pResList w) (ia\<lparr>RetransCounter := n\<rparr>)"
    using counter_ok[OF get_ia_ok[OF assms(1,2)] assms(3)] assms(4) by simp
  from inv_set_ia[OF assms(1,2), of "\<lambda>i. i\<lparr>RetransCounter := n\<rparr>", OF refl _ _ _ this]
  have "stack_inv ao aok (upd_ia p (\<lambda>i. i\<lparr>RetransCounter := n\<rparr>) w)"
    "get_ia p (upd_ia p (\<lambda>i. i\<lparr>RetransCounter := n\<rparr>) w) = Some (ia\<lparr>RetransCounter := n\<rparr>)" by simp_all
  from inv_timers(1)[OF this] show ?thesis by (simp add: CoAP_EnableAckTimeout_def)
qed

lemma retry_outcome:
  assumes "msg_slot g u" "stack_inv ao aok w" "get_ia (ia_addr ia) w = Some ia" "unat (RetransCounter ia) < MAX_RETRANSMIT"
    "q = send_opt (drv env) (g ia) (ia_ifID ia) (RemoteEp ia) w \<bind> (\<lambda>(r, m, w).
      let w = upd_ia (ia_addr ia) (u m) w in
      if r = COAP_OK
      then Some (CoAP_EnableAckTimeout (ia_addr ia) (RetransCounter ia + 1)
                  (upd_ia (ia_addr ia) (\<lambda>i. i\<lparr>RetransCounter := RetransCounter ia + 1\<rparr>) w))
      else send_failed ia w)"
  shows "outcome (g ia \<noteq> None \<and> pReqMsg ia \<noteq> None) (stack_inv ao aok) q"
proof (cases "send_opt (drv env) (g ia) (ia_ifID ia) (RemoteEp ia) w")
  case None
  then show ?thesis
    using send_slot_outcome[OF assms(1-3), of "drv env" "RemoteEp ia"] assms(5) by simp
next
  case (Some x)
  let ?p = "ia_addr ia"
  obtain r m w1 where x: "send_opt (drv env) (g ia) (ia_ifID ia) (RemoteEp ia) w = Some (r, m, w1)"
    using Some by (cases x) auto
  define w2 where "w2 = upd_ia ?p (u m) w1"
  note i = send_slot_inv[OF assms(1-3) x, folded w2_def]
  have rc: "RetransCounter (u m ia) = RetransCounter ia" using assms(1) by (auto simp: msg_slot_def)
  have q: "q = (if r = COAP_OK then Some (CoAP_EnableAckTimeout ?p (RetransCounter ia + 1)
      (upd_ia ?p (\<lambda>i. i\<lparr>RetransCounter := RetransCounter ia + 1\<rparr>) w2)) else send_failed ia w2)"
    unfolding assms(5) x do_simps w2_def ..
  show ?thesis
    using count_and_wait[OF i(1,2)] rc assms(4) outcome_mono[OF send_failed_outcome[OF i(1,2)]] unfolding q
    by (auto split: if_split)
qed

lemma retry_response_outcome:
  assumes "stack_inv ao aok w" "get_ia (ia_addr ia) w = Some ia" "unat (RetransCounter ia) < MAX_RETRANSMIT"
  shows "outcome (pRespMsg ia \<noteq> None \<and> pReqMsg ia \<noteq> None) (stack_inv ao aok) (retry_response env ia w)"
  by (rule retry_outcome[OF slots(2) assms]) (rule retry_response_def)

lemma retry_request_outcome:
  assumes "stack_inv ao aok w" "get_ia (ia_addr ia) w = Some ia" "unat (RetransCounter ia) < MAX_RETRANSMIT"
  shows "outcome (pReqMsg ia \<noteq> None) (stack_inv ao aok) (retry_request env ia w)"
  using retry_outcome[OF slots(1) assms retry_request_def] by simp

lemma CheckRespStatus_cases:
  "CheckRespStatus ia w = Some COAP_RETRY \<Longrightarrow> unat (RetransCounter ia) < MAX_RETRANSMIT \<and> pRespMsg ia \<noteq> None"
  "CheckRespStatus ia w = None \<Longrightarrow> pRespMsg ia = None"
  by (auto simp: CheckRespStatus_def split: if_splits Option.bind_splits)

lemma CheckReqStatus_cases:
  "CheckReqStatus ia w = Some COAP_RETRY \<Longrightarrow> unat (RetransCounter ia) < MAX_RETRANSMIT \<and> pReqMsg ia \<noteq> None"
  "CheckReqStatus ia w = None \<Longrightarrow> pReqMsg ia = None"
  by (auto simp: CheckReqStatus_def split: if_splits Option.bind_splits)

lemma server_response_sent_outcome:
  assumes "stack_inv ao aok w" "get_ia (ia_addr ia) w = Some ia" "pRespMsg ia \<noteq> None" "pReqMsg ia \<noteq> None"
  shows "outcome True (stack_inv ao aok) (server_response_sent env ia w)"
proof (cases "CheckRespStatus ia w")
  case None
  then show ?thesis using CheckRespStatus_cases(2)[OF None] assms(3) by simp
next
  case (Some s)
  then show ?thesis
    using enqueue_outcome[OF assms(1,2)] inv_delete[OF assms(1,2)] CheckRespStatus_cases(1)[of ia w]
      retry_response_outcome[OF assms(1,2)] assms(3,4)
    by (auto simp: server_response_sent_def)
qed

lemma client_waiting_outcome:
  assumes "stack_inv ao aok w" "get_ia (ia_addr ia) w = Some ia" "pReqMsg ia \<noteq> None"
  shows "outcome True (stack_inv ao aok) (client_waiting env ia w)"
proof (cases "CheckReqStatus ia w")
  case None
  then show ?thesis using CheckReqStatus_cases(2)[OF None] assms(3) by simp
next
  case (Some s)
  then show ?thesis
    using enqueue_outcome[OF assms(1,2)] inv_delete[OF assms(1,2)] CheckReqStatus_cases(1)[of ia w]
      retry_request_outcome[OF assms(1,2)] assms(3)
    by (auto simp: client_waiting_def)
qed

end
