(* ===== verification/Payload_Safety.thy ===== *)
theory Payload_Safety imports Work_Safety begin

section \<open>Enough memory for a payload\<close>

text \<open>
  When \<open>CoAP_SetPayload\<close> runs to its end: either some free block has 400 bytes, or the payload needs no new
  buffer. Releasing buffers never takes room away, options take little of it.
\<close>

subsection \<open>Room\<close>

lemma merged_size:
  assumes "pool_inv h (xs @ (n, False) # ys)"
  shows "0 < n" "lastfree 0 xs \<ge> 0" "next_size ys \<ge> 0"
proof -
  show "0 < n" using pool_inv_bounds[OF assms] by simp
  show "lastfree 0 xs \<ge> 0"
  proof (cases "lastfree 0 xs = 0")
    case False
    then have d: "xs = butlast xs @ [(lastfree 0 xs, True)]" by (rule lastfree_decomp)
    have "pool_inv h (butlast xs @ (lastfree 0 xs, True) # (n, False) # ys)"
      using assms by (subst (asm) d) simp
    from pool_inv_bounds(1)[OF this] show ?thesis by simp
  qed simp
  show "next_size ys \<ge> 0"
  proof (cases ys)
    case (Cons y zs)
    then have "pool_inv h ((xs @ [(n, False)]) @ (fst y, snd y) # zs)" using assms by simp
    from pool_inv_bounds(1)[OF this] show ?thesis using Cons by (cases y) (auto simp: next_size_def)
  qed (simp add: next_size_def)
qed

lemma room_release:
  assumes "heap_inv h L" "p \<in> L" "room h k"
  shows "room (release1 p h) k"
proof -
  obtain bl where bl: "pool_inv h bl" "L = live_of (pMemArea h) bl" using assms(1) by (auto simp: heap_inv_def)
  obtain b where b: "b \<in> set (starts False (pMemArea h) bl)" "p = b + 4" using assms(2) bl(2) by (auto simp: live_of_def)
  then obtain xs n ys where d: "bl = xs @ (n, False) # ys" "b = pMemArea h + total_size xs" using starts_decomp by blast
  note inv = bl(1)[unfolded d(1)]
  obtain m where m: "(m, True) \<in> set bl" "k \<le> m" using assms(3) room_blocks[OF bl(1)] by blast
  have "(m, True) \<in> set (before_release xs) \<union> set (mid_blocks xs n ys) \<union> set (after_release ys)"
    using m(1) d(1) before_mid_after[of xs n ys] by auto
  then have "(m, True) \<in> set (before_release xs) \<union> set (after_release ys) \<or> m = lastfree 0 xs \<or> m = next_size ys"
    by (cases ys) (auto simp: mid_blocks_def next_size_def split: if_splits)
  then have "\<exists>m'. (m', True) \<in> set (release_blocks xs n ys) \<and> k \<le> m'"
    using m(2) merged_size[OF inv] by (fastforce simp: release_blocks_def)
  then show ?thesis using room_blocks[OF brel_inv[OF inv d(2)]] b(2) by (simp add: coap_mem_release_def)
qed

text \<open>A message whose buffers are held, in a heap with room.\<close>

definition roomy :: "int \<Rightarrow> bget_state \<Rightarrow> CoAP_Message \<Rightarrow> bool" where
  "roomy k h m \<longleftrightarrow> holds h (msg_own h m) \<and> room h k"

lemma holds_room_release: "holds h K \<Longrightarrow> p \<in> fst ` set_mset K \<Longrightarrow> room h k \<Longrightarrow> room (release1 p h) k"
  using holds_heap room_release by blast

lemma room_remove_option:
  "CoAP_RemoveOptionFromList opts p h = (opts', h') \<Longrightarrow> holds h (opts_own opts) \<Longrightarrow> room h k \<Longrightarrow> room h' k"
proof (induction opts arbitrary: opts' h')
  case (Cons a os)
  have a: "opt_addr a \<in> fst ` set_mset (opts_own (a # os))" by (simp add: opt_own_def)
  have "holds h (opts_own os)" using Cons.prems(2) by (auto intro: holds_sub)
  then show ?case using Cons holds_room_release[OF Cons.prems(2) a] by (auto split: if_splits prod.splits)
qed simp

lemma room_remove_loop:
  "remove_number_loop T found opts h = (found', opts', h') \<Longrightarrow> holds h (opts_own opts) \<Longrightarrow> room h k \<Longrightarrow> room h' k"
proof (induction T found opts h rule: remove_number_loop.induct)
  case (1 T found opts h)
  show ?case
  proof (cases "find (\<lambda>opt. Number opt = T) opts")
    case None
    then show ?thesis using 1(2,4) by (simp add: remove_number_loop.simps)
  next
    case (Some opt)
    obtain opts1 h1 where r: "CoAP_RemoveOptionFromList opts (opt_addr opt) h = (opts1, h1)" by force
    have "holds h1 (opts_own opts1)"
      using tradesD(1)[OF remove_option_trades[OF r], of "{#}"] 1(3) by simp
    then show ?thesis using 1(1)[OF Some] 1(2) room_remove_option[OF r 1(3,4)] Some r
      by (simp add: remove_number_loop.simps[of T found])
  qed
qed

lemma roomy_step: "roomy k h m \<Longrightarrow> msg_step m h m' h' \<Longrightarrow> room h' j \<Longrightarrow> roomy j h' m'"
  unfolding roomy_def using tradesD(1)[OF msg_step_trades, of m h m' h' "{#}"] by simp

lemma roomy_options: "roomy k h m \<Longrightarrow> holds h (opts_own (pOptionsList m))"
  unfolding roomy_def msg_own_def by (auto intro: holds_sub)

lemma roomy_remove_block: "roomy k h m \<Longrightarrow> RemoveAllBlockOptionsFromMsg m T h = (r, m', h') \<Longrightarrow> roomy k h' m'"
proof (rule roomy_step[OF _ RemoveAllBlock_step], assumption, assumption)
  assume a: "roomy k h m" "RemoveAllBlockOptionsFromMsg m T h = (r, m', h')"
  then show "room h' k" using room_remove_loop[OF _ roomy_options[OF a(1)]]
    by (auto simp: RemoveAllBlockOptionsFromMsg_def roomy_def split: prod.splits)
qed

lemma roomy_append:
  assumes "roomy k h m" "append_msg_option m num buf len h = (r, m', h')" "unat len \<le> 10" "unat len \<le> length buf" "50 \<le> k"
  shows "roomy (k - 37) h' m'"
proof -
  have s: "msg_step m h m' h'" by (rule append_step[OF assms(2) _ assms(4)]) (use assms(3) in simp)
  obtain opts' where a: "CoAP_AppendOptionToList (pOptionsList m) num buf len h = (r, opts', h')"
    using assms(2) by (auto simp: append_msg_option_def split: prod.splits)
  obtain L where L: "heap_inv h L" using assms(1) holds_heap[of h "msg_own h m"] by (auto simp: roomy_def)
  have n: "option_request len \<le> 22" unfolding option_request_def sizeof_option_def using assms(3) by linarith
  have "room h k" using assms(1) by (simp add: roomy_def)
  then have "room h' (k - option_request len - 15)"
    using append_option_room(2)[OF a L] n assms(3,5) by simp
  then have "room h' (k - 37)" by (rule room_mono) (use n in simp)
  then show ?thesis by (rule roomy_step[OF assms(1) s])
qed

lemma roomy_mono: "roomy k h m \<Longrightarrow> j \<le> k \<Longrightarrow> roomy j h m"
  using room_mono by (auto simp: roomy_def)

lemma roomy_add_block: "roomy k h m \<Longrightarrow> AddBlkOptionToMsg m b h = (r, m', h') \<Longrightarrow> 50 \<le> k \<Longrightarrow> roomy (k - 37) h' m'"
  by (auto simp: AddBlkOptionToMsg_def Let_def split: if_splits intro: roomy_append roomy_mono)

lemma roomy_free_payload: "roomy k h m \<Longrightarrow> CoAP_free_MsgPayload m h = (m', h') \<Longrightarrow> roomy k h' m'"
proof (rule roomy_step[OF _ free_MsgPayload_step], assumption, assumption)
  assume a: "roomy k h m" "CoAP_free_MsgPayload m h = (m', h')"
  have "h' = h \<or> (\<exists>p. Payload m = Some p \<and> ext_own h m = {#(p, 0)#} \<and> h' = release1 p h)"
    using a(2) by (auto simp: CoAP_free_MsgPayload_def ext_own_def split: option.splits if_splits)
  then show "room h' k" using a(1) holds_room_release[of h "msg_own h m"] by (auto simp: roomy_def msg_own_def)
qed

subsection \<open>Defined results\<close>

lemma put_payload_defined:
  assumes "0 < n" "n \<le> 256" "vol \<Longrightarrow> n \<le> unat (PayloadBufSize m) \<or> roomy 300 h m"
  shows "put_payload m pp d off n vol h \<noteq> None"
proof (cases "vol \<and> unat (PayloadBufSize m) < n")
  case True
  obtain m2 h2 where f: "CoAP_free_MsgPayload m h = (m2, h2)" by force
  have "roomy 300 h2 m2" using assms(3) True roomy_free_payload[OF _ f] by auto
  then obtain p h3 where "coap_mem_get (int n) h2 = (Some p, h3)"
    using room_get_some[of "int n" h2 300] assms(1,2) fits_small[of "int n"] by (auto simp: roomy_def)
  then show ?thesis using True f by (simp add: put_payload_def)
qed (auto simp: put_payload_def)

lemma addText_defined:
  assumes "length str \<le> 256" "length str \<le> unat (PayloadBufSize m) \<or> roomy 300 h m"
  shows "CoAP_addTextPayload m str h \<noteq> None"
proof -
  let ?n = "of_nat (length str) :: u16"
  have n: "unat ?n = length str" using assms(1) by (simp add: unat_of_nat)
  obtain m2 h2 where f: "CoAP_free_MsgPayload m h = (m2, h2)" by force
  show ?thesis
  proof (cases "?n \<noteq> 0 \<and> \<not> ?n \<le> PayloadBufSize m")
    case True
    then have "\<not> length str \<le> unat (PayloadBufSize m)" using n by (simp add: word_le_nat_alt)
    then have "roomy 300 h2 m2" using assms(2) roomy_free_payload[OF _ f] by auto
    moreover have "0 < length str" using True n by (cases "length str") auto
    ultimately obtain p h3 where "coap_mem_get (int (length str)) h2 = (Some p, h3)"
      using room_get_some[of "int (length str)" h2 300] assms(1) fits_small[of "int (length str)"] by (auto simp: roomy_def)
    then show ?thesis using f n by (simp add: CoAP_addTextPayload_def CoAP_addNewPayloadToMessage_def)
  qed (auto simp: CoAP_addTextPayload_def CoAP_addNewPayloadToMessage_def split_beta)
qed

definition payload_ready :: "CoAP_Message \<Rightarrow> addr \<Rightarrow> u16 \<Rightarrow> bool \<Rightarrow> bget_state \<Rightarrow> bool" where
  "payload_ready m pp tot vol h \<longleftrightarrow> roomy 400 h m \<or>
     18 \<le> unat (PayloadBufSize m) \<and> (Some pp = Payload m \<or> \<not> vol \<or> unat tot \<le> unat (PayloadBufSize m))"

lemma SetPayload_defined:
  assumes "payload_ready m pp tot vol h"
  shows "CoAP_SetPayload req m pp d tot vol h \<noteq> None"
proof -
  let ?B0 = "\<lparr>BlkType = BLOCK_2, BlockSize = 0, MoreFlag = False, BlockNum = 0\<rparr>"
  obtain found b where f: "(case req of None \<Rightarrow> (COAP_NOT_FOUND, ?B0) | Some r \<Rightarrow> GetBlock2OptionFromMsg r ?B0) = (found, b)"
    by force
  note eq = CoAP_SetPayload_def Let_def f prod.case
  have put: "put_payload m1 pp d off n vol h1 \<noteq> None"
    if "Some pp \<noteq> Payload m1" "Payload m1 = Payload m" "PayloadBufSize m1 = PayloadBufSize m" "0 < n" "n \<le> 256" "n \<le> unat tot"
      "roomy 400 h m \<Longrightarrow> roomy 300 h1 m1" for m1 h1 off n
    using assms that by (intro put_payload_defined) (auto simp: payload_ready_def)
  consider (none) "tot = 0" | (block) "tot \<noteq> 0" "found = COAP_OK" | (plain) "tot \<noteq> 0" "found \<noteq> COAP_OK" by blast
  then show ?thesis
  proof cases
    case none
    then show ?thesis unfolding eq by simp
  next
    case plain
    then have n: "0 < unat tot" by (simp add: unat_gt_0)
    obtain r1 m1 h1 where a: "AddBlkOptionToMsg m (b\<lparr>BlockSize := of_nat MAX_PAYLOAD_SIZE, BlockNum := 0, MoreFlag := True\<rparr>) h =
      (r1, m1, h1)" using prod_cases3 by blast
    have "roomy 300 h1 m1" if "roomy 400 h m" using roomy_mono[OF roomy_add_block[OF that a]] by simp
    moreover have "roomy 300 h m" if "roomy 400 h m" using roomy_mono[OF that] by simp
    ultimately show ?thesis unfolding eq
      using plain n a put[of m1 256 h1 0] put[of m "unat tot" h 0] block_keeps_payload(1)[OF a]
      by (auto simp: MAX_PAYLOAD_SIZE_def split: if_splits)
  next
    case block
    obtain r where "GetBlock2OptionFromMsg r ?B0 = (COAP_OK, b)" using f block by (auto split: option.splits)
    note bd = GetBlock_bounds[OF this]
    define b2 where "b2 = (if unat (BlockSize b) > MAX_PAYLOAD_SIZE then b\<lparr>BlockSize := of_nat MAX_PAYLOAD_SIZE\<rparr> else b)"
    have b2: "unat (BlockSize b2) \<le> 256" "16 \<le> unat (BlockSize b2)" "unat (BlockNum b2) < 2 ^ 20"
      using bd by (auto simp: b2_def MAX_PAYLOAD_SIZE_def)
    note off = block_offset[OF b2(1,3)]
    let ?off = "BlockSize b2 * BlockNum b2"
    let ?left = "int (unat tot) - sint ?off"
    show ?thesis
    proof (cases "?left \<le> 0")
      case True
      have "length block_not_existing \<le> unat (PayloadBufSize m) \<or> roomy 300 h m"
        using assms roomy_mono[of 400 h m 300] by (auto simp: payload_ready_def block_not_existing_def)
      then have "CoAP_addTextPayload m block_not_existing h \<noteq> None"
        by (intro addText_defined) (simp_all add: block_not_existing_def)
      then show ?thesis unfolding eq using block True by (auto simp: b2_def[symmetric] split: option.splits)
    next
      case False
      define n b3 where "n = (if ?left > int (unat (BlockSize b2)) then unat (BlockSize b2) else nat ?left)"
        and "b3 = (if ?left > int (unat (BlockSize b2)) then b2\<lparr>MoreFlag := True\<rparr> else b2)"
      obtain r1 m1 h1 where r: "RemoveAllBlockOptionsFromMsg m BLOCK_2 h = (r1, m1, h1)" using prod_cases3 by blast
      obtain r2 m2 h2 where a: "AddBlkOptionToMsg m1 b3 h1 = (r2, m2, h2)" using prod_cases3 by blast
      have "roomy 300 h2 m2" if "roomy 400 h m"
        using roomy_mono[OF roomy_add_block[OF roomy_remove_block[OF that r] a]] by simp
      moreover have "0 < n" "n \<le> 256" "n \<le> unat tot"
      proof -
        define s o' t where "s = unat (BlockSize b2)" and "o' = sint ?off" and "t = unat tot"
        have "o' = int (s * unat (BlockNum b2))" unfolding o'_def s_def by (rule off(2))
        then have "0 \<le> o'" "\<not> int t - o' \<le> 0" "0 < s" "s \<le> 256" using b2 False by (auto simp: s_def o'_def t_def)
        then have "0 < nn \<and> nn \<le> 256 \<and> nn \<le> t" if "nn = (if int t - o' > int s then s else nat (int t - o'))" for nn
          using that by (auto split: if_splits)
        from this[of n] show "0 < n" "n \<le> 256" "n \<le> unat tot" unfolding n_def s_def o'_def t_def by blast+
      qed
      ultimately have "put_payload m2 pp d (unat ?off) n vol h2 \<noteq> None" if "Some pp \<noteq> Payload m2"
        using put[of m2 n h2 "unat ?off"] that block_keeps_payload(1)[OF a] block_keeps_payload(2)[OF r] by simp
      moreover have "(if ?left > int (unat (BlockSize b2)) then (unat (BlockSize b2), b2\<lparr>MoreFlag := True\<rparr>) else (nat ?left, b2)) = (n, b3)"
        by (simp add: n_def b3_def)
      ultimately show ?thesis unfolding eq b2_def[symmetric] using block False by (simp add: r a)
    qed
  qed
qed

lemma SetPayload_outcome:
  assumes "Some pp = Payload m \<or> vol \<or> (\<forall>i < unat tot. outside h (pp + int i))"
  shows "outcome (payload_ready m pp tot vol h) (\<lambda>(r, m', h'). msg_step m h m' h') (CoAP_SetPayload req m pp d tot vol h)"
proof (cases "CoAP_SetPayload req m pp d tot vol h")
  case (Some x)
  then show ?thesis using SetPayload_step[OF _ assms] by (cases x) auto
next
  case None
  then show ?thesis using SetPayload_defined[of m pp tot vol h req d] by auto
qed

end
