(* ===== verification/Observe_Safety.thy ===== *)
theory Observe_Safety imports Work_Safety begin

section \<open>Observers keep the invariant\<close>

text \<open>
  Registration and removal of observers, and the search for a pending notification: each is free of
  undefined behaviour on a stack with \<open>stack_inv\<close> and keeps it.
\<close>

subsection \<open>Buffers of observers\<close>

lemma option_lengths:
  assumes "holds h (opts_own opts)" "TotalBufBytes h \<le> 16000" "opt \<in> set opts"
  shows "unat (Length opt) \<le> 16000"
proof -
  have "option_request (Length opt) \<le> (\<Sum>opt \<leftarrow> opts. option_request (Length opt))"
    using assms(3) by (intro member_le_sum_list) (auto simp: option_request_def sizeof_option_def)
  also have "\<dots> \<le> 16000" using options_in_pool[OF assms(1)] assms(2) by linarith
  finally show ?thesis unfolding option_request_def sizeof_option_def by linarith
qed

lemma copy_observer_trades:
  "copy_observer_options opts dst h = (ok, dst', h') \<Longrightarrow> \<forall>opt \<in> set opts. unat (Length opt) \<le> 16000 \<Longrightarrow>
     trades (opts_own dst) h (opts_own dst') h'"
proof (induction opts dst h rule: copy_observer_options.induct)
  case (2 opt opts dst h)
  show ?case
  proof (cases "Number opt = OPT_NUM_URI_QUERY \<or> Number opt = OPT_NUM_OBSERVE")
    case True
    obtain r d1 h1 where a: "CoAP_AppendOptionToList dst (Number opt) (Value opt) (Length opt) h = (r, d1, h1)"
      by (metis prod_cases3)
    have t: "trades (opts_own dst) h (opts_own d1) h1" using append_trades[OF a] "2.prems"(2) by force
    show ?thesis
    proof (cases "r = COAP_OK")
      case r: True
      then have "copy_observer_options opts d1 h1 = (ok, dst', h')" using "2.prems"(1) True a by simp
      then show ?thesis using "2.IH"(1)[OF True, of r "(d1, h1)" d1 h1] a r t "2.prems"(2) trades_trans by fastforce
    qed (use t a True "2.prems"(1) in simp)
  next
    case False
    then show ?thesis using "2.IH"(2)[OF False] "2.prems" by simp
  qed
qed simp

lemma AllocNewObserver_trades:
  assumes "CoAP_AllocNewObserver h = (q, h')"
  shows "trades {#} h (case q of None \<Rightarrow> {#} | Some ob \<Rightarrow> obs_own ob) h'" "q = Some ob \<Longrightarrow> pOptList ob = []"
  using assms mem.get_None[of sizeof_CoAP_Observer h h'] trades_get[of sizeof_CoAP_Observer h _ h']
  by (auto simp: CoAP_AllocNewObserver_def obs_own_def fits_def sizeof_CoAP_Observer_def split: prod.splits option.splits)

lemma FreeObserver_trades: "trades (obs_own ob) h {#} (CoAP_FreeObserver ob h)"
proof -
  let ?A = "{#(obs_addr ob, sizeof_CoAP_Observer)#}"
  have "trades (obs_own ob) h ?A (CoAP_FreeOptionList (pOptList ob) h)"
    using trades_frame[OF free_options_trades[of "pOptList ob" h], of ?A] by (simp add: obs_own_def)
  then show ?thesis using trades_trans[OF _ trades_release] by (simp add: CoAP_FreeObserver_def)
qed

lemma UnlinkObserver_trades:
  "CoAP_UnlinkObserverFromList obs p True h = (obs', h') \<Longrightarrow>
     trades (obss_own obs) h (obss_own obs') h' \<and> set obs' \<subseteq> set obs"
proof (induction obs arbitrary: obs')
  case (Cons ob obs)
  show ?case
  proof (cases "obs_addr ob = p")
    case True
    then show ?thesis
      using Cons.prems trades_frame[OF FreeObserver_trades[of ob h], of "obss_own obs"] by auto
  next
    case False
    obtain o1 h1 where r: "CoAP_UnlinkObserverFromList obs p True h = (o1, h1)" by force
    then have "obs' = ob # o1" "h' = h1" using Cons.prems False by auto
    then show ?thesis using Cons.IH[OF r[folded \<open>h' = h1\<close>]] trades_frame_left[of "obss_own obs" h _ h1 "obs_own ob"] by auto
  qed
qed simp

lemma RemoveObserver_trades:
  assumes "CoAP_RemoveObserverFromResource obs i ep t h = (r, obs', h')"
  shows "trades (obss_own obs) h (obss_own obs') h' \<and> set obs' \<subseteq> set obs"
proof (cases "find (observer_matches i ep t) obs")
  case (Some ob)
  then show ?thesis
    using assms UnlinkObserver_trades[of obs "obs_addr ob" h obs' h']
    by (auto simp: CoAP_RemoveObserverFromResource_def split: prod.splits)
qed (use assms in \<open>simp add: CoAP_RemoveObserverFromResource_def\<close>)

subsection \<open>Resources of a well-formed stack\<close>

lemma get_res_Some: "get_res p w = Some r \<Longrightarrow> r \<in> set (pResList w) \<and> res_addr r = p"
  by (auto simp: get_res_def find_Some_iff)

lemma get_res_member:
  assumes "distinct (map res_addr (pResList w))" "r \<in> set (pResList w)"
  shows "get_res (res_addr r) w = Some r"
proof (cases "get_res (res_addr r) w")
  case None
  then show ?thesis using assms(2) by (auto simp: get_res_def find_None_iff)
next
  case (Some q)
  then have "q = r" using get_res_Some[OF Some] assms by (auto simp: distinct_map dest: inj_onD)
  then show ?thesis using Some by simp
qed

lemma inv_res_ok: "stack_inv ao aok w \<Longrightarrow> get_res p w = Some r \<Longrightarrow> res_ok (SocketCtrl w) r"
  using get_res_Some by (fastforce simp: stack_inv_def good_def)

lemma server_resource:
  assumes "stack_inv ao aok w" "has_handler (pResList w) q"
  obtains rp r f where "q = Some rp" "get_res rp w = Some r" "Handler r = Some f"
proof -
  obtain r where r: "r \<in> set (pResList w)" "q = Some (res_addr r)" "Handler r \<noteq> None"
    using assms(2) by (auto simp: has_handler_def)
  then show thesis using get_res_member[OF inv_distinct(2)[OF assms(1)]] that by blast
qed

lemma notified_resource:
  assumes "stack_inv ao aok w" "has_notifier (pResList w) q"
  obtains rp r f where "q = Some rp" "get_res rp w = Some r" "Notifier r = Some f"
proof -
  obtain r where r: "r \<in> set (pResList w)" "q = Some (res_addr r)" "Notifier r \<noteq> None"
    using assms(2) by (auto simp: has_notifier_def)
  then show thesis using get_res_member[OF inv_distinct(2)[OF assms(1)]] that by blast
qed

lemma inv_upd_res:
  assumes "stack_inv ao aok w" "get_res rp w = Some r" "f r = r\<lparr>pListObservers := obs, UpdateCnt := k\<rparr>"
    "trades (obss_own (pListObservers r)) (heap w) (obss_own obs) h'"
    "res_ok (SocketCtrl w) (r\<lparr>pListObservers := obs, UpdateCnt := k\<rparr>)"
  shows "stack_inv ao aok (upd_res rp f (w\<lparr>heap := h'\<rparr>))"
    "get_res rp (upd_res rp f (w\<lparr>heap := h'\<rparr>)) = Some (r\<lparr>pListObservers := obs, UpdateCnt := k\<rparr>)"
proof -
  obtain xs ys where s: "pResList w = xs @ r # ys" and a: "res_addr r = rp"
    using get_res_Some[OF assms(2)] by (auto dest: split_list)
  have "distinct (map res_addr (xs @ r # ys))" using inv_distinct(2)[OF assms(1)] s by simp
  then have n: "rp \<notin> res_addr ` set xs" "rp \<notin> res_addr ` set ys" using a by auto
  have o: "rp \<notin> res_addr ` set zs \<Longrightarrow> map (\<lambda>r. if res_addr r = rp then f r else r) zs = zs" for zs by (induction zs) auto
  let ?r = "r\<lparr>pListObservers := obs, UpdateCnt := k\<rparr>"
  have u: "upd_res rp f (w\<lparr>heap := h'\<rparr>) = w\<lparr>heap := h', pResList := xs @ ?r # ys\<rparr>"
    using s a n assms(3) by (simp add: upd_res_def o)
  show "stack_inv ao aok (upd_res rp f (w\<lparr>heap := h'\<rparr>))" unfolding u
    using good_res[OF _ assms(4) refl assms(5), of ao aok _ xs ys] assms(1) s by (simp add: stack_inv_def)
  have "find (\<lambda>r. res_addr r = rp) (xs @ ?r # ys) = Some ?r" using n(1) a by (induction xs) auto
  then show "get_res rp (upd_res rp f (w\<lparr>heap := h'\<rparr>)) = Some ?r" unfolding u by (simp add: get_res_def)
qed

lemma res_link_fields [simp]: "res_link (r\<lparr>pListObservers := obs\<rparr>) = res_link r" "res_link (r\<lparr>UpdateCnt := k\<rparr>) = res_link r"
  by (cases r; simp add: res_link_def cong: option.case_cong if_cong)+

lemma res_ok_sub:
  "res_ok c r \<Longrightarrow> set obs \<subseteq> set (pListObservers r) \<Longrightarrow> res_ok c (r\<lparr>pListObservers := obs, UpdateCnt := k\<rparr>)"
  by (auto simp: res_ok_def)

lemma inv_count:
  "stack_inv ao aok w \<Longrightarrow> get_res rp w = Some r \<Longrightarrow>
     stack_inv ao aok (upd_res rp (\<lambda>r. r\<lparr>UpdateCnt := UpdateCnt r + 1\<rparr>) w) \<and>
     get_res rp (upd_res rp (\<lambda>r. r\<lparr>UpdateCnt := UpdateCnt r + 1\<rparr>) w) = Some (r\<lparr>UpdateCnt := UpdateCnt r + 1\<rparr>)"
  using inv_upd_res[of ao aok w rp r "\<lambda>r. r\<lparr>UpdateCnt := UpdateCnt r + 1\<rparr>" "UpdateCnt r + 1" "pListObservers r" "heap w"]
    res_ok_sub[of "SocketCtrl w" r "pListObservers r" "UpdateCnt r + 1"] inv_res_ok[of ao aok w rp r] by simp

subsection \<open>Removal and registration\<close>

lemma RemoveInteractionsObserver_outcome:
  assumes "stack_inv ao aok w" "pRes ia = Some rp" "get_res rp w = Some r"
  shows "outcome True (\<lambda>(res, w'). stack_inv ao aok w' \<and> pInteractions w' = pInteractions w \<and> SocketCtrl w' = SocketCtrl w \<and>
      (\<exists>obs. get_res rp w' = Some (r\<lparr>pListObservers := obs\<rparr>) \<and> set obs \<subseteq> set (pListObservers r)))
    (CoAP_RemoveInteractionsObserver ia t w)"
proof -
  obtain res obs h where e: "CoAP_RemoveObserverFromResource (pListObservers r) (ia_ifID ia) (RemoteEp ia) t (heap w) = (res, obs, h)"
    by (metis prod_cases3)
  note t = RemoveObserver_trades[OF e]
  have "res_ok (SocketCtrl w) (r\<lparr>pListObservers := obs, UpdateCnt := UpdateCnt r\<rparr>)"
    by (rule res_ok_sub[OF inv_res_ok[OF assms(1,3)]]) (use t in simp)
  from inv_upd_res[of ao aok w rp r "\<lambda>r. r\<lparr>pListObservers := obs\<rparr>" "UpdateCnt r" obs h, OF assms(1,3) _ _ this]
  show ?thesis using t assms(2,3) e by (auto simp: CoAP_RemoveInteractionsObserver_def)
qed

lemma inv_req_lengths:
  assumes "stack_inv ao aok w" "get_ia p w = Some ia" "pReqMsg ia = Some req"
  shows "\<forall>opt \<in> set (pOptionsList req). unat (Length opt) \<le> 16000"
proof -
  have "holds (heap w) (opts_own (pOptionsList req))"
    using inv_holds[OF assms(1,2)] assms(3) by (auto simp: ia_own_def msg_own_def intro: holds_sub)
  then show ?thesis using option_lengths assms(1) by (auto simp: stack_inv_def good_def)
qed

lemma register_outcome:
  assumes "stack_inv ao aok w" "get_ia p w = Some ia" "pReqMsg ia = Some req" "get_res rp w = Some r" "Notifier r \<noteq> None"
    "register_observer ia req rp r w = (res, w')"
  shows "stack_inv ao aok w'" "pInteractions w' = pInteractions w" "SocketCtrl w' = SocketCtrl w"
proof -
  obtain q h1 where a: "CoAP_AllocNewObserver (heap w) = (q, h1)" by force
  note at = AllocNewObserver_trades[OF a]
  have "stack_inv ao aok w' \<and> pInteractions w' = pInteractions w \<and> SocketCtrl w' = SocketCtrl w"
  proof (cases q)
    case None
    then show ?thesis using inv_heap[OF assms(1)] at(1) a assms(6) by (auto simp: register_observer_def)
  next
    case (Some ob0)
    let ?ob = "ob0\<lparr>Ep := RemoteEp ia, IfID := ia_ifID ia, Token := Token64 req\<rparr>"
    obtain ok opts h2 where c: "copy_observer_options (pOptionsList req) (pOptList ?ob) h1 = (ok, opts, h2)"
      by (metis prod_cases3)
    let ?ob2 = "?ob\<lparr>pOptList := opts\<rparr>"
    have "trades (opts_own (pOptList ob0)) h1 (opts_own opts) h2"
      using copy_observer_trades[OF c] inv_req_lengths[OF assms(1-3)] by simp
    from trades_frame_left[OF this, of "{#(obs_addr ob0, sizeof_CoAP_Observer)#}"]
    have "trades (obs_own ob0) h1 (obs_own ?ob2) h2" by (simp add: obs_own_def)
    then have new: "trades {#} (heap w) (obs_own ?ob2) h2" using trades_trans at(1) Some by fastforce
    show ?thesis
    proof (cases ok)
      case False
      then have "w' = w\<lparr>heap := CoAP_FreeObserver ?ob2 h2\<rparr>"
        using assms(6) a Some c by (simp add: register_observer_def)
      then show ?thesis using inv_heap[OF assms(1) trades_trans[OF new FreeObserver_trades]] by simp
    next
      case True
      define q where "q = (case find (observer_matches (ia_ifID ia) (RemoteEp ia) (Token64 req)) (pListObservers r) of
          None \<Rightarrow> (pListObservers r, h2)
        | Some old \<Rightarrow> CoAP_UnlinkObserverFromList (pListObservers r) (obs_addr old) True h2)"
      obtain obs h3 where o: "q = (obs, h3)" by (cases q)
      then have w': "w' = upd_res rp (\<lambda>r. r\<lparr>pListObservers := obs @ [?ob2]\<rparr>) (w\<lparr>heap := h3\<rparr>)"
        using assms(6) a Some c True unfolding register_observer_def q_def
        by (simp split: option.splits prod.splits)
      have t: "trades (obss_own (pListObservers r)) h2 (obss_own obs) h3 \<and> set obs \<subseteq> set (pListObservers r)"
        using o unfolding q_def by (auto split: option.splits dest: UnlinkObserver_trades)
      have "trades (obss_own (pListObservers r)) (heap w) (obss_own (pListObservers r) + obs_own ?ob2) h2"
        using trades_frame_left[OF new, of "obss_own (pListObservers r)"] by simp
      from trades_trans[OF this trades_frame[OF conjunct1[OF t]]]
      have tr: "trades (obss_own (pListObservers r)) (heap w) (obss_own (obs @ [?ob2])) h3" by simp
      have "res_ok (SocketCtrl w) (r\<lparr>pListObservers := obs @ [?ob2], UpdateCnt := UpdateCnt r\<rparr>)"
        using inv_res_ok[OF assms(1,4)] assms(5) t inv_known[OF assms(1,2)] by (auto simp: res_ok_def)
      from inv_upd_res(1)[of ao aok w rp r "\<lambda>r. r\<lparr>pListObservers := obs @ [?ob2]\<rparr>" "UpdateCnt r", OF assms(1,4) _ tr this]
      show ?thesis using w' by simp
    qed
  qed
  then show "stack_inv ao aok w'" "pInteractions w' = pInteractions w" "SocketCtrl w' = SocketCtrl w" by auto
qed

subsection \<open>Observation in a request\<close>

lemma find_pending_cases:
  "\<forall>ia \<in> set ias. ia_ok c rs ia \<Longrightarrow> \<exists>q. find_pending t i ep ias = Some q \<and>
     (\<forall>a. q = Some a \<longrightarrow> (\<exists>ia \<in> set ias. ia_addr ia = a \<and> Role ia = COAP_ROLE_NOTIFICATION))"
proof (induction ias)
  case (Cons ia ias)
  then have "Role ia = COAP_ROLE_NOTIFICATION \<longrightarrow> pRespMsg ia \<noteq> None" by (auto simp: ia_ok_def)
  then show ?case using Cons by (auto simp: is_pending_notification_def)
qed simp

lemma unlink_other:
  "p \<noteq> q \<Longrightarrow> find (\<lambda>i. ia_addr i = p) (fst (CoAP_UnlinkInteractionFromList ias q b h)) = find (\<lambda>i. ia_addr i = p) ias"
  by (induction ias) (auto split: prod.splits)

lemma delete_other: "p \<noteq> q \<Longrightarrow> get_ia p (CoAP_DeleteInteraction q w) = get_ia p w"
  using unlink_other[of p q "pInteractions w" True "heap w"]
  by (auto simp: CoAP_DeleteInteraction_def get_ia_def split: prod.splits)

lemma delete_frame [simp]:
  "SocketCtrl (CoAP_DeleteInteraction q w) = SocketCtrl w" "pResList (CoAP_DeleteInteraction q w) = pResList w"
  by (simp_all add: CoAP_DeleteInteraction_def split: prod.splits)

lemma HandleObservation_outcome:
  assumes "stack_inv ao aok w" "get_ia p w = Some ia" "Role ia = COAP_ROLE_SERVER"
  shows "outcome True (\<lambda>(r, w'). stack_inv ao aok w' \<and> get_ia p w' = Some ia \<and> SocketCtrl w' = SocketCtrl w)
    (CoAP_HandleObservationInReq p w)"
proof -
  have ok: "role_ok (pResList w) COAP_ROLE_SERVER ia" using get_ia_ok[OF assms(1,2)] assms(3) by (simp add: ia_ok_def)
  then have "has_handler (pResList w) (pRes ia)" by simp
  then obtain rp r where r: "pRes ia = Some rp" "get_res rp w = Some r" using server_resource[OF assms(1)] by metis
  obtain req where req: "pReqMsg ia = Some req" using ok by auto
  obtain res v where g: "GetObserveOptionFromMsg req = (res, v)" by force
  note eq = CoAP_HandleObservationInReq_def assms(2) r req g
  consider (none) "Notifier r = None \<or> res \<noteq> COAP_OK" | (reg) "Notifier r \<noteq> None" "res = COAP_OK" "v = OBSERVE_OPT_REGISTER"
    | (dereg) "Notifier r \<noteq> None" "res = COAP_OK" "v \<noteq> OBSERVE_OPT_REGISTER" "v = OBSERVE_OPT_DEREGISTER"
    | (bad) "Notifier r \<noteq> None" "res = COAP_OK" "v \<noteq> OBSERVE_OPT_REGISTER" "v \<noteq> OBSERVE_OPT_DEREGISTER" by blast
  then show ?thesis
  proof cases
    case none
    then show ?thesis using assms by (auto simp: eq)
  next
    case reg
    obtain res' w' where g': "register_observer ia req rp r w = (res', w')" by force
    show ?thesis using register_outcome[OF assms(1,2) req r(2) reg(1) g'] reg g' assms(2) by (auto simp: eq get_ia_def)
  next
    case dereg
    from outcome_defined[OF RemoveInteractionsObserver_outcome[OF assms(1) r, of "Token64 req"] TrueI]
    obtain res' w1 where w1: "CoAP_RemoveInteractionsObserver ia (Token64 req) w = Some (res', w1)" "stack_inv ao aok w1"
      "pInteractions w1 = pInteractions w" "SocketCtrl w1 = SocketCtrl w" by auto
    have g1: "get_ia p w1 = Some ia" using assms(2) w1(3) by (simp add: get_ia_def)
    obtain q where q: "find_pending (Token64 req) (ia_ifID ia) (RemoteEp ia) (pInteractions w1) = Some q"
      "\<And>a. q = Some a \<Longrightarrow> \<exists>ia \<in> set (pInteractions w1). ia_addr ia = a \<and> Role ia = COAP_ROLE_NOTIFICATION"
      using find_pending_cases w1(2) unfolding stack_inv_def good_def by metis
    show ?thesis
    proof (cases q)
      case None
      then show ?thesis using dereg w1 q(1) g1 by (auto simp: eq)
    next
      case (Some a)
      then obtain ia' where i: "ia' \<in> set (pInteractions w1)" "ia_addr ia' = a" "Role ia' = COAP_ROLE_NOTIFICATION" using q(2) by blast
      then have ga: "get_ia a w1 = Some ia'" using get_ia_member[OF inv_distinct(1)[OF w1(2)]] by auto
      then have "p \<noteq> a" using g1 i(3) assms(3) by auto
      then show ?thesis using dereg w1 q(1) g1 Some inv_delete[OF w1(2) ga] delete_other[of p a w1] by (auto simp: eq)
    qed
  next
    case bad
    then show ?thesis using assms by (auto simp: eq)
  qed
qed

end
