(* ===== verification/Notify_Safety.thy ===== *)
theory Notify_Safety imports Observe_Safety begin

section \<open>Notifications keep the invariant\<close>

text \<open>
  What the stack relies on when it calls a notifier is the locale \<open>notifiers\<close>; with it, starting
  notifications is free of undefined behaviour on a well-formed stack, keeps it well formed, and leaves
  the exchanges of servers and clients alone.
\<close>

text \<open>
  A notifier fills in the message it gets, trading its buffers; it may need memory (\<open>need n\<close> bytes in one
  block, on a stack with \<open>n\<close> resources) unless the message comes with the preferred buffer.
\<close>

locale notifiers =
  fixes env :: "'x env" and ao :: "'x \<Rightarrow> claims" and aok :: "'x \<Rightarrow> res_key set \<Rightarrow> bool" and need :: "nat \<Rightarrow> int"
  assumes notifier: "stack_inv ao aok w \<Longrightarrow> holds (heap w) (msg_own (heap w) resp) \<Longrightarrow> r \<in> set (pResList w) \<Longrightarrow> Notifier r = Some f \<Longrightarrow>
    outcome (PREFERED_PAYLOAD_SIZE \<le> PayloadBufSize resp \<or> room (heap w) (need (length (pResList w))))
      (\<lambda>(n, resp', h'). msg_step resp (heap w) resp' h') (call_notifier env f ob resp w)"

lemma outcome_pair: "outcome D (\<lambda>(a, w). P w) q \<Longrightarrow> outcome D (\<lambda>(b, w). P w) (q \<bind> (\<lambda>(_, w). Some (r, w)))"
  by (cases q) auto

lemma outcome_snd: "outcome D (\<lambda>(a, w). P w) q \<Longrightarrow> outcome D P (q \<bind> (\<lambda>(_, w). Some w))"
  by (cases q) auto

definition undisturbed :: "'x coap \<Rightarrow> 'x coap \<Rightarrow> bool" where
  "undisturbed w w' \<longleftrightarrow> SocketCtrl w' = SocketCtrl w \<and>
     (\<forall>p ia. get_ia p w = Some ia \<longrightarrow> Role ia \<noteq> COAP_ROLE_NOTIFICATION \<longrightarrow> get_ia p w' = Some ia)"

lemma undisturbed_refl [simp]: "undisturbed w w"
  by (simp add: undisturbed_def)

lemma undisturbed_trans: "undisturbed w w' \<Longrightarrow> undisturbed w' w'' \<Longrightarrow> undisturbed w w''"
  by (simp add: undisturbed_def)

lemma undisturbed_append:
  "pInteractions w' = pInteractions w @ ias \<Longrightarrow> SocketCtrl w' = SocketCtrl w \<Longrightarrow> undisturbed w w'"
proof -
  have "find P xs = Some x \<Longrightarrow> find P (xs @ ys) = Some x" for P xs ys and x :: CoAP_Interaction by (induction xs) auto
  then show "pInteractions w' = pInteractions w @ ias \<Longrightarrow> SocketCtrl w' = SocketCtrl w \<Longrightarrow> undisturbed w w'"
    by (auto simp: undisturbed_def get_ia_def)
qed

lemma undisturbed_notification:
  assumes "distinct (ia_addrs w)" "ia \<in> set (pInteractions w)" "Role ia = COAP_ROLE_NOTIFICATION" "\<And>i. ia_addr (f i) = ia_addr i"
  shows "undisturbed w (upd_ia (ia_addr ia) f w)"
proof -
  have "get_ia p (upd_ia (ia_addr ia) f w) = Some i" if "get_ia p w = Some i" "Role i \<noteq> COAP_ROLE_NOTIFICATION" for p i
  proof -
    have "ia_addr ia \<noteq> p" using get_ia_member[OF assms(1,2)] that assms(3) by auto
    then have "find (\<lambda>i. ia_addr i = p) (map (\<lambda>i. if ia_addr i = ia_addr ia then f i else i) ias) = find (\<lambda>i. ia_addr i = p) ias" for ias
      by (induction ias) (auto simp: assms(4))
    then show ?thesis using that(1) by (simp add: get_ia_def)
  qed
  then show ?thesis by (simp add: undisturbed_def)
qed

lemma CreateMessage_bufsize: "CoAP_CreateMessage T C mid cont clen maxs tok h = (Some m, h') \<Longrightarrow> PayloadBufSize m = maxs"
  by (auto simp: CoAP_CreateMessage_def CoAP_InitToEmptyResetMsg_def Let_def split: option.splits if_splits prod.splits)

lemma AllocNewInteraction_trades:
  assumes "CoAP_AllocNewInteraction h = (q, h')"
  shows "trades {#} h (case q of None \<Rightarrow> {#} | Some ia \<Rightarrow> ia_own h' ia) h'" "q = Some ia \<Longrightarrow> \<exists>p. ia = new_interaction p"
  using assms mem.get_None[of sizeof_CoAP_Interaction h h'] trades_get[of sizeof_CoAP_Interaction h _ h']
  by (auto simp: CoAP_AllocNewInteraction_def ia_own_def new_interaction_def fits_def sizeof_CoAP_Interaction_def
      split: prod.splits option.splits)

text \<open>A part that has been built up beside a well-formed stack.\<close>

lemma inv_gain: "stack_inv ao aok w \<Longrightarrow> trades {#} (heap w) K h \<Longrightarrow> holds h K"
  using tradesD(1)[of "{#}" "heap w" K h "{#}"] holds_part[of "heap w" "{#}"] by (auto simp: stack_inv_def good_def)

lemma inv_beside:
  assumes "stack_inv ao aok w" "trades {#} (heap w) K h"
  shows "stack_inv ao aok (w\<lparr>heap := h\<rparr>)"
  by (rule inv_heap[OF assms(1)], rule trades_trans[OF assms(2)], rule trades_sub) simp

lemma trades_resp:
  assumes "trades {#} h0 (ia_own h (i\<lparr>pRespMsg := Some m\<rparr>)) h" "msg_step m h m' h'" "pReqMsg i = None"
  shows "trades {#} h0 (ia_own h' (i\<lparr>pRespMsg := Some m'\<rparr>)) h'"
  using trades_trans[OF assms(1)] trades_frame_left[OF msg_step_trades[OF assms(2)], of "{#(ia_addr i, sizeof_CoAP_Interaction)#}"]
    assms(3) by (simp add: ia_own_def)

lemma gain_small:
  assumes "stack_inv ao aok w" "trades {#} (heap w) (ia_own h (i\<lparr>pRespMsg := Some m\<rparr>)) h" "msg_step m h m' h'" "small_msg m"
  shows "small_msg m'"
proof -
  have "holds h (msg_own h m)"
    using inv_gain[OF assms(1,2)] by (rule holds_sub) (simp add: ia_own_def)
  then show ?thesis using assms(3,4) by (simp add: msg_step_def)
qed

lemma inv_next_mid [simp]: "stack_inv ao aok (w\<lparr>lastMId := i, heap := h\<rparr>) = stack_inv ao aok (w\<lparr>heap := h\<rparr>)"
  by (simp add: stack_inv_def)

lemma GetNextMid_same: "CoAP_GetNextMid w = (mid, w') \<Longrightarrow> \<exists>i. w' = w\<lparr>lastMId := i\<rparr>"
  by (auto simp: CoAP_GetNextMid_def)

context notifiers begin

lemma notify_observer_outcome:
  assumes "stack_inv ao aok w" "get_res rp w = Some r" "Notifier r = Some f" "known_interface (SocketCtrl w) (IfID ob)"
  shows "outcome True (\<lambda>(goon, w'). stack_inv ao aok w' \<and> undisturbed w w' \<and>
      (\<exists>r'. get_res rp w' = Some r' \<and> Notifier r' = Some f)) (notify_observer env rp ob w)"
proof -
  obtain q h1 where a: "CoAP_AllocNewInteraction (heap w) = (q, h1)" by force
  note t1 = AllocNewInteraction_trades[OF a]
  show ?thesis
  proof (cases q)
    case None
    then show ?thesis
      using inv_heap[OF assms(1)] t1(1) assms(2,3) a
      by (auto simp: notify_observer_def undisturbed_def get_ia_def get_res_def)
  next
    case (Some newIA)
    obtain mid w1 where "CoAP_GetNextMid (w\<lparr>heap := h1\<rparr>) = (mid, w1)" by force
    moreover obtain lm where "w1 = w\<lparr>heap := h1, lastMId := lm\<rparr>" using calculation GetNextMid_same by blast
    ultimately have g: "CoAP_GetNextMid (w\<lparr>heap := h1\<rparr>) = (mid, w\<lparr>lastMId := lm, heap := h1\<rparr>)" by simp
    obtain m h2 where c: "CoAP_CreateMessage CON RESP_SUCCESS_CONTENT_2_05 mid None 0 PREFERED_PAYLOAD_SIZE (Token ob) h1 = (m, h2)"
      by force
    have pref: "unat PREFERED_PAYLOAD_SIZE \<le> 32000" by (simp add: PREFERED_PAYLOAD_SIZE_def)
    note t2 = CreateMessage_trades[OF c pref]
    have nf: "pReqMsg newIA = None" "pRespMsg newIA = None" "RetransCounter newIA = 0"
      using t1(2)[OF Some] by (auto simp: new_interaction_def)
    define w2 where "w2 = w\<lparr>lastMId := lm, heap := h2\<rparr>"
    have t: "trades {#} (heap w) (ia_own h2 (newIA\<lparr>pRespMsg := m\<rparr>)) h2"
      using trades_trans[OF t1(1)] trades_frame_left[OF t2(1), of "{#(ia_addr newIA, sizeof_CoAP_Interaction)#}"] Some nf
      by (simp add: ia_own_def)
    have s2: "stack_inv ao aok w2" using inv_beside[OF assms(1) t] by (simp add: w2_def)
    have r2: "get_res rp w2 = Some r" using assms(2) by (simp add: w2_def get_res_def)
    note eq = notify_observer_def a prod.case option.case Some g Let_def
    have plain: "undisturbed w w3 \<and> get_res rp w3 = Some r" if "w3 = w\<lparr>lastMId := lm, heap := h\<rparr>" for w3 h
      using assms(2) by (simp add: that undisturbed_def get_ia_def get_res_def)
    have freed: "stack_inv ao aok (w2\<lparr>heap := CoAP_FreeInteraction (newIA\<lparr>pRespMsg := q\<rparr>) h\<rparr>)"
      if "trades {#} (heap w) (ia_own h (newIA\<lparr>pRespMsg := q\<rparr>)) h" for q h
      using inv_heap[OF assms(1) trades_trans[OF that FreeInteraction_trades]] by (simp add: w2_def stack_inv_def)
    show ?thesis
    proof (cases m)
      case None
      have "notify_observer env rp ob w = Some (True, w2\<lparr>heap := CoAP_FreeInteraction (newIA\<lparr>pRespMsg := None\<rparr>) h2\<rparr>)"
        unfolding eq using c None r2 by (simp add: w2_def)
      then show ?thesis using freed[OF t] None plain[of _ "CoAP_FreeInteraction (newIA\<lparr>pRespMsg := None\<rparr>) h2"] assms(3)
        by (simp add: w2_def)
    next
      case m: (Some resp)
      have sm: "small_msg resp" using t2(2)[OF m] by (simp add: small_msg_def)
      have pref_size: "PREFERED_PAYLOAD_SIZE \<le> PayloadBufSize resp" using CreateMessage_bufsize c m by auto
      have "holds h2 (msg_own h2 resp)" using inv_gain[OF assms(1) t[unfolded m]] by (rule holds_sub) (simp add: ia_own_def)
      then have "holds (heap w2) (msg_own (heap w2) resp)" by (simp add: w2_def)
      then obtain k resp' h3 where k: "call_notifier env f (Some (obs_addr ob)) resp w2 = Some (k, resp', h3)" "msg_step resp h2 resp' h3"
        using outcome_defined[OF notifier[OF s2 _ _ assms(3), of resp "Some (obs_addr ob)"]] get_res_Some[OF r2] pref_size
        by (fastforce simp: w2_def)
      have t3: "trades {#} (heap w) (ia_own h3 (newIA\<lparr>pRespMsg := Some resp'\<rparr>)) h3"
        using trades_resp[OF t[unfolded m] k(2) nf(1)] .
      have sm3: "small_msg resp'" using gain_small[OF assms(1) t[unfolded m] k(2) sm] .
      let ?i = "newIA\<lparr>Role := COAP_ROLE_NOTIFICATION, State := COAP_STATE_READY_TO_NOTIFY, RemoteEp := Ep ob, ia_ifID := IfID ob,
        pRes := Some rp, pObserver := Some (obs_addr ob), pRespMsg := Some resp'\<rparr>"
      define w3 where "w3 = w\<lparr>lastMId := lm, heap := h3\<rparr>"
      have s3: "stack_inv ao aok w3" using inv_beside[OF assms(1) t3] by (simp add: w3_def stack_inv_def)
      have r3: "get_res rp w3 = Some r" using assms(2) by (simp add: w3_def get_res_def)
      have c3: "SocketCtrl w3 = SocketCtrl w" "pResList w3 = pResList w" "pInteractions w3 = pInteractions w" "heap w3 = h3"
        by (simp_all add: w3_def)
      have eq2: "notify_observer env rp ob w =
        (if handler_code k \<noteq> 0 then Some (True, w3\<lparr>heap := CoAP_FreeInteraction (newIA\<lparr>pRespMsg := Some resp'\<rparr>) h3\<rparr>)
         else if Code resp' \<ge> RESP_ERROR_BAD_REQUEST_4_00
         then map_option (\<lambda>(_, w). (True, w)) (CoAP_RemoveInteractionsObserver ?i (Token64 resp') w3)
         else let (_, resp2, h) = AddObserveOptionToMsg resp' (UpdateCnt r) h3;
                  resp2 = (if Type resp2 = NON \<and> UpdateCnt r mod 20 = 0 then resp2\<lparr>Type := CON\<rparr> else resp2)
              in Some (True, w3\<lparr>heap := h, pInteractions := pInteractions w @ [?i\<lparr>pRespMsg := Some resp2\<rparr>]\<rparr>))"
        unfolding eq using c m r2 k(1) assms(3) by (simp add: w2_def w3_def split: prod.splits)
      consider (refused) "handler_code k \<noteq> 0" | (err) "handler_code k = 0" "Code resp' \<ge> RESP_ERROR_BAD_REQUEST_4_00"
        | (new) "handler_code k = 0" "\<not> Code resp' \<ge> RESP_ERROR_BAD_REQUEST_4_00" by blast
      then show ?thesis
      proof cases
        case refused
        then show ?thesis
          using eq2 freed[OF t3] plain[of _ "CoAP_FreeInteraction (newIA\<lparr>pRespMsg := Some resp'\<rparr>) h3"] assms(3)
          by (simp add: w2_def w3_def)
      next
        case err
        then have "notify_observer env rp ob w = map_option (\<lambda>(_, w). (True, w)) (CoAP_RemoveInteractionsObserver ?i (Token64 resp') w3)"
          using eq2 by simp
        moreover have "outcome True (\<lambda>(res, w'). stack_inv ao aok w' \<and> pInteractions w' = pInteractions w3 \<and> SocketCtrl w' = SocketCtrl w3 \<and>
            (\<exists>obs. get_res rp w' = Some (r\<lparr>pListObservers := obs\<rparr>) \<and> set obs \<subseteq> set (pListObservers r)))
            (CoAP_RemoveInteractionsObserver ?i (Token64 resp') w3)"
          by (rule RemoveInteractionsObserver_outcome[OF s3 _ r3]) simp
        ultimately show ?thesis using assms(3) undisturbed_append[of _ w "[]"] c3
          by (auto intro!: outcome_map elim!: outcome_mono)
      next
        case new
        obtain b resp2 h4 where o: "AddObserveOptionToMsg resp' (UpdateCnt r) h3 = (b, resp2, h4)" by (metis prod_cases3)
        let ?resp3 = "if Type resp2 = NON \<and> UpdateCnt r mod 20 = 0 then resp2\<lparr>Type := CON\<rparr> else resp2"
        have st: "msg_step resp' h3 ?resp3 h4" using AddObserve_step[OF o] by simp
        note t4 = trades_resp[OF t3 st nf(1)]
        have "small_msg ?resp3" by (rule gain_small[OF assms(1) t3 st sm3])
        then have ok: "ia_ok (SocketCtrl w3) (pResList w3) (?i\<lparr>pRespMsg := Some ?resp3\<rparr>)"
          using nf assms(4) assms(3) get_res_Some[OF r3] by (auto simp: ia_ok_def has_notifier_def c3 MAX_RETRANSMIT_def)
        have "stack_inv ao aok (w3\<lparr>heap := h4, pInteractions := pInteractions w @ [?i\<lparr>pRespMsg := Some ?resp3\<rparr>]\<rparr>)"
          using inv_append[OF assms(1), of h4 "?i\<lparr>pRespMsg := Some ?resp3\<rparr>"] t4 ok
          by (simp add: w3_def stack_inv_def ia_own_def)
        then show ?thesis using eq2 new o assms(2,3) undisturbed_append[of _ w "[?i\<lparr>pRespMsg := Some ?resp3\<rparr>]"]
          by (simp add: w3_def get_res_def)
      qed
    qed
  qed
qed

lemma notify_loop_outcome:
  assumes "stack_inv ao aok w" "get_res rp w = Some r" "Notifier r = Some f"
    "\<forall>ob \<in> set obs. known_interface (SocketCtrl w) (IfID ob)"
  shows "outcome True (\<lambda>(res, w'). stack_inv ao aok w' \<and> undisturbed w w') (notify_loop env rp obs w)"
  using assms
proof (induction obs arbitrary: w r)
  case (Cons ob obs)
  show ?case
  proof (cases "find (ongoing rp ob) (pInteractions w)")
    case (Some ia)
    then have ia: "ia \<in> set (pInteractions w)" "Role ia = COAP_ROLE_NOTIFICATION" by (auto simp: find_Some_iff ongoing_def)
    let ?w = "upd_ia (ia_addr ia) (\<lambda>i. i\<lparr>UpdatePendingNotification := True\<rparr>) w"
    have "stack_inv ao aok ?w"
      by (rule inv_timers(1)[OF Cons.prems(1) get_ia_member[OF inv_distinct(1)[OF Cons.prems(1)] ia(1)]]) simp
    moreover have u: "undisturbed w ?w"
      by (rule undisturbed_notification[OF inv_distinct(1)[OF Cons.prems(1)] ia]) simp
    moreover have "get_res rp ?w = Some r" using Cons.prems(2) by (simp add: get_res_def)
    ultimately have "outcome True (\<lambda>(res, w'). stack_inv ao aok w' \<and> undisturbed ?w w') (notify_loop env rp obs ?w)"
      using Cons.IH[of ?w r] Cons.prems(3,4) by simp
    then show ?thesis using Some u by (auto elim!: outcome_mono intro: undisturbed_trans)
  next
    case None
    have "outcome True (\<lambda>(goon, w'). stack_inv ao aok w' \<and> undisturbed w w' \<and>
        (\<exists>r'. get_res rp w' = Some r' \<and> Notifier r' = Some f)) (notify_observer env rp ob w)"
      using notify_observer_outcome[OF Cons.prems(1-3)] Cons.prems(4) by simp
    then obtain goon w1 r1 where n: "notify_observer env rp ob w = Some (goon, w1)" "stack_inv ao aok w1" "undisturbed w w1"
      "get_res rp w1 = Some r1" "Notifier r1 = Some f" by (auto dest: outcome_defined)
    have "\<forall>ob \<in> set obs. known_interface (SocketCtrl w1) (IfID ob)"
      using Cons.prems(4) n(3) by (simp add: undisturbed_def)
    from Cons.IH[OF n(2,4,5) this] show ?thesis
      using None n(1-3) by (auto elim!: outcome_mono intro: undisturbed_trans)
  qed
qed simp

lemma NotifyResourceObservers_outcome:
  assumes "stack_inv ao aok w" "get_res rp w = Some r"
  shows "outcome True (\<lambda>(res, w'). stack_inv ao aok w' \<and> undisturbed w w') (CoAP_NotifyResourceObservers env rp w)"
proof -
  let ?w = "upd_res rp (\<lambda>r. r\<lparr>UpdateCnt := UpdateCnt r + 1\<rparr>) w" and ?r = "r\<lparr>UpdateCnt := UpdateCnt r + 1\<rparr>"
  have i: "stack_inv ao aok ?w" "get_res rp ?w = Some ?r" using inv_count[OF assms] by auto
  have u: "undisturbed w ?w" by (simp add: undisturbed_def get_ia_def)
  have ok: "res_ok (SocketCtrl w) r" by (rule inv_res_ok[OF assms])
  have "outcome True (\<lambda>(res, w'). stack_inv ao aok w' \<and> undisturbed ?w w') (notify_loop env rp (pListObservers r) ?w)"
  proof (cases "Notifier r")
    case None
    then show ?thesis using ok i(1) by (simp add: res_ok_def)
  next
    case (Some f)
    have k: "\<forall>ob \<in> set (pListObservers r). known_interface (SocketCtrl ?w) (IfID ob)" using ok by (simp add: res_ok_def)
    show ?thesis by (rule notify_loop_outcome[OF i _ k]) (simp add: Some)
  qed
  then show ?thesis
    using assms(2) i(2) u unfolding CoAP_NotifyResourceObservers_def CoAP_StartNotifyInteractions_def
    by (auto intro!: outcome_pair elim!: outcome_mono intro: undisturbed_trans)
qed

end

subsection \<open>The response of an exchange\<close>

lemma inv_set_resp:
  assumes "stack_inv ao aok w" "get_ia p w = Some ia" "pRespMsg ia = Some m" "msg_step m (heap w) m' h'"
  shows "stack_inv ao aok (set_resp p m' (w\<lparr>heap := h'\<rparr>))"
    "get_ia p (set_resp p m' (w\<lparr>heap := h'\<rparr>)) = Some (ia\<lparr>pRespMsg := Some m'\<rparr>)"
proof -
  have h: "holds (heap w) (msg_own (heap w) m)"
    using inv_holds[OF assms(1,2)] assms(3) by (auto simp: ia_own_def intro: holds_sub)
  have ok: "ia_ok (SocketCtrl w) (pResList w) ia" by (rule get_ia_ok[OF assms(1,2)])
  then have "small_msg m'" using assms(3,4) h by (simp add: ia_ok_def msg_step_def)
  then have ok': "ia_ok (SocketCtrl w) (pResList w) (ia\<lparr>pRespMsg := Some m'\<rparr>)"
    using ok assms(3) by (cases "Role ia") (auto simp: ia_ok_def)
  let ?R = "\<lambda>h. add_mset (ia_addr ia, sizeof_CoAP_Interaction) (msg_opt_own h (pReqMsg ia))"
  have "trades (msg_own (heap w) m + ?R (heap w)) (heap w) (msg_own h' m' + ?R h') h'"
    by (rule trades_steady[OF _ msg_step_trades[OF assms(4)]]) auto
  then have "trades (ia_own (heap w) ia) (heap w) (ia_own h' (ia\<lparr>pRespMsg := Some m'\<rparr>)) h'"
    using assms(3) by (simp add: ia_own_def ac_simps)
  from inv_upd_ia[of ao aok w p ia "\<lambda>i. i\<lparr>pRespMsg := Some m'\<rparr>", OF assms(1,2) refl this _ ok']
  show "stack_inv ao aok (set_resp p m' (w\<lparr>heap := h'\<rparr>))"
    "get_ia p (set_resp p m' (w\<lparr>heap := h'\<rparr>)) = Some (ia\<lparr>pRespMsg := Some m'\<rparr>)" by (simp_all add: set_resp_def)
qed

end
