(* ===== verification/Server_Safety.thy ===== *)
theory Server_Safety imports Notify_Safety begin

section \<open>The work loop is safe\<close>

text \<open>
  What the stack relies on when it calls the application's handlers and callbacks is the locale
  \<open>application\<close>. With it every step of the work loop keeps \<open>stack_inv\<close>, and it is free of undefined
  behaviour when there is memory for a response and the interaction it works on is no notification.
\<close>

subsection \<open>Short replies\<close>

lemma header_only_inv:
  assumes "stack_inv ao aok w" "known_interface (SocketCtrl w) i" "pOptionsList m = []" "PayloadLength m = 0"
  shows "outcome True (\<lambda>(r, q, w'). stack_inv ao aok w' \<and> pInteractions w' = pInteractions w \<and> SocketCtrl w' = SocketCtrl w \<and>
      pResList w' = pResList w) (CoAP_SendMsg d m i ep w)"
proof (cases "CoAP_SendMsg d m i ep w")
  case None
  then show ?thesis using SendMsg_defined_inv[OF assms(1) header_only_sendable[OF assms(3,4)] assms(2)] by blast
next
  case (Some x)
  obtain r m' w' where x: "CoAP_SendMsg d m i ep w = Some (r, m', w')" using Some by (cases x) auto
  show ?thesis using SendMsg_inv(1)[OF assms(1) x header_only_sendable[OF assms(3,4)]] x by simp
qed

lemma short_replies:
  assumes "stack_inv ao aok w" "known_interface (SocketCtrl w) i"
  shows "outcome True (\<lambda>(r, w'). stack_inv ao aok w' \<and> pInteractions w' = pInteractions w \<and> SocketCtrl w' = SocketCtrl w \<and>
      pResList w' = pResList w) (CoAP_SendShortResp d T c mid t i ep w)" (is ?short)
    "outcome True (\<lambda>(r, w'). stack_inv ao aok w' \<and> pInteractions w' = pInteractions w \<and> SocketCtrl w' = SocketCtrl w \<and>
      pResList w' = pResList w) (CoAP_SendEmptyRST d mid i ep w)" (is ?rst)
    "outcome True (\<lambda>(r, w'). stack_inv ao aok w' \<and> pInteractions w' = pInteractions w \<and> SocketCtrl w' = SocketCtrl w \<and>
      pResList w' = pResList w) (CoAP_SendEmptyAck d mid i ep w)" (is ?ack)
proof -
  note h = header_only_inv[OF assms]
  show ?short unfolding CoAP_SendShortResp_def Let_def
    by (rule outcome_map, rule outcome_mono[OF h]) (auto simp: CoAP_InitToEmptyResetMsg_def)
  show ?rst unfolding CoAP_SendEmptyRST_def Let_def
    by (rule outcome_map, rule outcome_mono[OF h]) (auto simp: CoAP_InitToEmptyResetMsg_def)
  show ?ack unfolding CoAP_SendEmptyAck_def Let_def
    by (rule outcome_map, rule outcome_mono[OF h]) (auto simp: CoAP_InitToEmptyResetMsg_def)
qed

subsection \<open>A response for a request\<close>

lemma inv_heap_inv: "stack_inv ao aok w \<Longrightarrow> \<exists>L. heap_inv (heap w) L"
  by (auto simp: stack_inv_def good_def dest!: holds_heap)

lemma CreateMessage_room:
  assumes "heap_inv h L" "room h k" "sizeof_CoAP_Message + int (unat maxs) + 28 \<le> k" "unat maxs \<le> 32000"
  shows "\<exists>m h'. CoAP_CreateMessage T C mid None 0 maxs tok h = (Some m, h') \<and>
    room h' (k - sizeof_CoAP_Message - int (unat maxs) - 15)"
proof -
  have f: "fits (sizeof_CoAP_Message + int (unat maxs))"
    using assms(4) unfolding fits_def sizeof_CoAP_Message_def by linarith
  obtain p h' where g: "coap_mem_get (sizeof_CoAP_Message + int (unat maxs)) h = (Some p, h')"
    "room h' (k - (sizeof_CoAP_Message + int (unat maxs)) - 15)"
    using room_get[OF assms(1) f assms(2,3)] by blast
  then show ?thesis by (simp add: CoAP_CreateMessage_def Let_def algebra_simps)
qed

lemma AllocRespMsg_room:
  assumes "stack_inv ao aok w" "room (heap w) k" "sizeof_CoAP_Message + int (unat n) + 28 \<le> k" "unat n \<le> 32000"
  shows "\<exists>m w'. CoAP_AllocRespMsg req C n w = (Some m, w') \<and> room (heap w') (k - sizeof_CoAP_Message - int (unat n) - 15)"
proof -
  obtain L where L: "heap_inv (heap w) L" using inv_heap_inv[OF assms(1)] by blast
  obtain mid w1 where a: "CoAP_getRespMsgID req w = (mid, w1)" by force
  then have h: "heap w1 = heap w" by (auto simp: CoAP_getRespMsgID_def CoAP_GetNextMid_def split: if_splits)
  show ?thesis
    using CreateMessage_room[OF L assms(2-4), of "CoAP_getRespMsgType req" C mid "Token64 req"] a h
    by (auto simp: CoAP_AllocRespMsg_def)
qed

lemma AllocRespMsg_payload: "CoAP_AllocRespMsg req C n w = (Some m, w') \<Longrightarrow> n \<noteq> 0 \<Longrightarrow> Payload m \<noteq> None"
  by (auto simp: CoAP_AllocRespMsg_def CoAP_getRespMsgID_def CoAP_GetNextMid_def CoAP_CreateMessage_def Let_def
      split: prod.splits option.splits if_splits)

lemma AllocRespMsg_size: "CoAP_AllocRespMsg req C n w = (Some m, w') \<Longrightarrow> PayloadBufSize m = n \<and> app w' = app w"
  using CreateMessage_bufsize
  by (auto simp: CoAP_AllocRespMsg_def CoAP_getRespMsgID_def CoAP_GetNextMid_def split: prod.splits if_splits)

lemma inv_alloc_resp:
  assumes "stack_inv ao aok w" "get_ia p w = Some ia" "Role ia = COAP_ROLE_SERVER"
    "State ia = COAP_STATE_HANDLE_REQUEST \<or> State ia = COAP_STATE_RESOURCE_POSTPONE_EMPTY_ACK_SENT"
    "CoAP_AllocRespMsg req C n w = (q, w')" "unat n \<le> 32000"
  shows "stack_inv ao aok (upd_ia p (\<lambda>i. i\<lparr>pRespMsg := q\<rparr>) w')"
    "get_ia p (upd_ia p (\<lambda>i. i\<lparr>pRespMsg := q\<rparr>) w') = Some (ia\<lparr>pRespMsg := q\<rparr>)"
    "pResList w' = pResList w" "app (upd_ia p (\<lambda>i. i\<lparr>pRespMsg := q\<rparr>) w') = app w"
proof -
  note t = AllocRespMsg_trades[OF assms(5,6)]
  have "w' = w\<lparr>lastMId := lastMId w', heap := heap w'\<rparr>" by (rule trans[OF t(2)]) simp
  then obtain lm h' where w': "w' = w\<lparr>lastMId := lm, heap := h'\<rparr>" by blast
  have q: "small_opt q" using t(3) by (cases q) (auto simp: small_msg_def)
  have ok: "ia_ok (SocketCtrl w) (pResList w) (ia\<lparr>pRespMsg := q\<rparr>)"
    using get_ia_ok[OF assms(1,2)] assms(3,4) q by (auto simp: ia_ok_def)
  let ?R = "\<lambda>h. add_mset (ia_addr ia, sizeof_CoAP_Interaction) (msg_opt_own h (pReqMsg ia))"
  have "trades (ia_own (heap w) ia) (heap w) (?R (heap w)) (heap w)" by (rule trades_sub) (simp add: ia_own_def)
  moreover have "trades ({#} + ?R (heap w)) (heap w) (msg_opt_own (heap w') q + ?R (heap w')) (heap w')"
    by (rule trades_steady[OF _ t(1)]) auto
  ultimately have "trades (ia_own (heap w) ia) (heap w) (ia_own (heap w') (ia\<lparr>pRespMsg := q\<rparr>)) (heap w')"
    using trades_trans by (fastforce simp: ia_own_def ac_simps)
  from inv_upd_ia[of ao aok w p ia "\<lambda>i. i\<lparr>pRespMsg := q\<rparr>", OF assms(1,2) refl this _ ok]
  have "stack_inv ao aok (upd_ia p (\<lambda>i. i\<lparr>pRespMsg := q\<rparr>) (w\<lparr>heap := heap w'\<rparr>))"
    "get_ia p (upd_ia p (\<lambda>i. i\<lparr>pRespMsg := q\<rparr>) (w\<lparr>heap := heap w'\<rparr>)) = Some (ia\<lparr>pRespMsg := q\<rparr>)" by simp_all
  then show "stack_inv ao aok (upd_ia p (\<lambda>i. i\<lparr>pRespMsg := q\<rparr>) w')"
    "get_ia p (upd_ia p (\<lambda>i. i\<lparr>pRespMsg := q\<rparr>) w') = Some (ia\<lparr>pRespMsg := q\<rparr>)"
    by (simp_all add: w' stack_inv_def get_ia_def)
  show "pResList w' = pResList w" "app (upd_ia p (\<lambda>i. i\<lparr>pRespMsg := q\<rparr>) w') = app w" by (simp_all add: w')
qed

subsection \<open>Completing a response\<close>

lemma response_type_step:
  "response_type ia req resp w = (resp', w') \<Longrightarrow> msg_step resp h resp' h \<and> (\<exists>i. w' = w\<lparr>lastMId := i\<rparr>)"
  by (auto simp: response_type_def CoAP_GetNextMid_def intro: exI[of _ "lastMId w"] split: if_splits)

lemma add_path_info_step:
  assumes "add_path_info ia resp w = (resp', w')"
  shows "\<exists>h'. w' = w\<lparr>heap := h'\<rparr> \<and> msg_step resp (heap w) resp' h'"
proof (cases "MetaType (ReqMetaInfo ia) = META_INFO_RF_PATH")
  case True
  obtain r m h where a: "append_msg_option resp 10000 [HopCount (ReqMetaInfo ia), of_int (RSSI (ReqMetaInfo ia) * -1)] 2 (heap w) = (r, m, h)"
    by (metis prod_cases3)
  have "msg_step resp (heap w) m h" by (rule append_step[OF a]) simp_all
  then show ?thesis using assms True a by (auto simp: add_path_info_def)
next
  case False
  then show ?thesis using assms by (auto simp: add_path_info_def intro: exI[of _ "heap w"])
qed

lemma observe_outcome:
  assumes "stack_inv ao aok w" "get_ia p w = Some ia" "Role ia = COAP_ROLE_SERVER" "pRespMsg ia = Some resp"
  shows "outcome True (\<lambda>w'. stack_inv ao aok w' \<and> (\<exists>resp'. get_ia p w' = Some (ia\<lparr>pRespMsg := Some resp'\<rparr>)))
    (CoAP_HandleObservationInReq p w \<bind> (\<lambda>(r, w).
       if r = COAP_OK then case AddObserveOptionToMsg resp 0 (heap w) of (_, resp, h) \<Rightarrow> Some (set_resp p resp (w\<lparr>heap := h\<rparr>))
       else Some w))"
proof -
  obtain r w1 where h: "CoAP_HandleObservationInReq p w = Some (r, w1)" "stack_inv ao aok w1" "get_ia p w1 = Some ia"
    using outcome_defined[OF HandleObservation_outcome[OF assms(1-3)]] by auto
  show ?thesis
  proof (cases "r = COAP_OK")
    case True
    obtain b resp' h' where a: "AddObserveOptionToMsg resp 0 (heap w1) = (b, resp', h')" by (metis prod_cases3)
    show ?thesis using inv_set_resp[OF h(2,3) assms(4) AddObserve_step[OF a]] h(1) True a by auto
  next
    case False
    have "ia\<lparr>pRespMsg := Some resp\<rparr> = ia" using assms(4) by (cases ia) simp
    then show ?thesis using h False by (auto intro!: exI[of _ resp])
  qed
qed

lemma finish_response_outcome:
  assumes "stack_inv ao aok w" "get_ia p w = Some ia" "Role ia = COAP_ROLE_SERVER" "pRespMsg ia \<noteq> None"
  shows "outcome True (stack_inv ao aok) (finish_response env p w)"
proof -
  obtain resp where resp: "pRespMsg ia = Some resp" using assms(4) by blast
  have "role_ok (pResList w) COAP_ROLE_SERVER ia" using get_ia_ok[OF assms(1,2)] assms(3) by (simp add: ia_ok_def)
  then obtain req where req: "pReqMsg ia = Some req" by auto
  obtain resp1 w1 where rt: "response_type ia req resp w = (resp1, w1)" by force
  obtain lm where w1: "w1 = w\<lparr>lastMId := lm\<rparr>" "msg_step resp (heap w) resp1 (heap w)"
    using response_type_step[OF rt] by blast
  obtain resp2 w2 where ap: "add_path_info ia resp1 w1 = (resp2, w2)" by force
  obtain h2 where w2: "w2 = w1\<lparr>heap := h2\<rparr>" "msg_step resp1 (heap w) resp2 h2"
    using add_path_info_step[OF ap] w1(1) by auto
  have i1: "stack_inv ao aok w1" "get_ia p w1 = Some ia" using assms(1,2) w1(1) by (simp_all add: get_ia_def)
  have "msg_step resp (heap w1) resp2 h2" using msg_step_trans[OF w1(2) w2(2)] w1(1) by simp
  from inv_set_resp[OF i1 resp this]
  have i3: "stack_inv ao aok (set_resp p resp2 w2)" "get_ia p (set_resp p resp2 w2) = Some (ia\<lparr>pRespMsg := Some resp2\<rparr>)"
    using w2(1) by simp_all
  have o: "outcome True (\<lambda>w'. stack_inv ao aok w' \<and> (\<exists>resp'. get_ia p w' = Some (ia\<lparr>pRespMsg := Some resp'\<rparr>)))
    (if Code req = REQ_GET \<and> Code resp2 = RESP_SUCCESS_CONTENT_2_05 then
       CoAP_HandleObservationInReq p (set_resp p resp2 w2) \<bind> (\<lambda>(r, w).
         if r = COAP_OK then case AddObserveOptionToMsg resp2 0 (heap w) of (_, resp, h) \<Rightarrow> Some (set_resp p resp (w\<lparr>heap := h\<rparr>))
         else Some w)
     else Some (set_resp p resp2 w2))"
    using observe_outcome[OF i3] assms(3) i3 by auto
  have last: "outcome True (stack_inv ao aok) (get_ia p w' \<bind> (\<lambda>ia. SendResp env ia COAP_STATE_RESPONSE_SENT w' \<bind> (\<lambda>(_, w). Some w)))"
    if i: "stack_inv ao aok w'" "get_ia p w' = Some (ia\<lparr>pRespMsg := Some resp'\<rparr>)" for w' resp'
  proof -
    let ?ia = "ia\<lparr>pRespMsg := Some resp'\<rparr>"
    have a: "ia_addr ?ia = p" using get_ia_Some[OF i(2)] by simp
    have "role_ok (pResList w') COAP_ROLE_SERVER (?ia\<lparr>State := COAP_STATE_RESPONSE_SENT\<rparr>)"
      using get_ia_ok[OF i] assms(3) by (simp add: ia_ok_def)
    then have "outcome (pRespMsg ?ia \<noteq> None \<and> pReqMsg ?ia \<noteq> None) (\<lambda>(r, w'). stack_inv ao aok w') (SendResp env ?ia COAP_STATE_RESPONSE_SENT w')"
      using SendResp_outcome[of ao aok w' ?ia COAP_STATE_RESPONSE_SENT env] i a assms(3) by simp
    then show ?thesis using i(2) req by (simp add: outcome_snd)
  qed
  show ?thesis unfolding finish_response_def assms(2) req resp do_simps rt ap
    by (rule outcome_bind[OF o]) (use last in blast)
qed

lemma inv_set_code:
  assumes "stack_inv ao aok w" "get_ia p w = Some ia" "pRespMsg ia = Some m"
  shows "stack_inv ao aok (set_resp p (m\<lparr>Code := c\<rparr>) w)"
    "get_ia p (set_resp p (m\<lparr>Code := c\<rparr>) w) = Some (ia\<lparr>pRespMsg := Some (m\<lparr>Code := c\<rparr>)\<rparr>)"
  using inv_set_resp[OF assms, of "m\<lparr>Code := c\<rparr>" "heap w"] by simp_all

lemma postpone_outcome:
  assumes "stack_inv ao aok w" "get_ia p w = Some ia" "Role ia = COAP_ROLE_SERVER" "pRespMsg ia = Some resp"
    "State ia = COAP_STATE_HANDLE_REQUEST \<or> State ia = COAP_STATE_RESOURCE_POSTPONE_EMPTY_ACK_SENT"
  shows "outcome True (stack_inv ao aok) (postpone env p w)"
proof -
  have ok: "ia_ok (SocketCtrl w) (pResList w) ia" by (rule get_ia_ok[OF assms(1,2)])
  then obtain req where req: "pReqMsg ia = Some req" using assms(3) by (auto simp: ia_ok_def)
  note eq = postpone_def assms(2,4) req do_simps
  consider (ack) "Type req = CON \<and> ReqReliabilityState ia \<noteq> ACK_SET"
    | (late) "\<not> (Type req = CON \<and> ReqReliabilityState ia \<noteq> ACK_SET)" "CoAP_MsgIsOlderThan req POSTPONE_MAX_WAIT_TIME w"
    | (sleep) "\<not> (Type req = CON \<and> ReqReliabilityState ia \<noteq> ACK_SET)" "\<not> CoAP_MsgIsOlderThan req POSTPONE_MAX_WAIT_TIME w"
    by blast
  then show ?thesis
  proof cases
    case ack
    obtain r w1 where s: "CoAP_SendEmptyAck (drv env) (MessageID req) (ia_ifID ia) (RemoteEp ia) w = Some (r, w1)" "stack_inv ao aok w1"
      "pInteractions w1 = pInteractions w" "SocketCtrl w1 = SocketCtrl w" "pResList w1 = pResList w"
      using outcome_defined[OF short_replies(3)[OF assms(1) inv_known[OF assms(1,2)], of "drv env" "MessageID req" "RemoteEp ia"]]
      by auto
    have g1: "get_ia p w1 = Some ia" using s(3) assms(2) by (simp add: get_ia_def)
    let ?f = "\<lambda>i. i\<lparr>ReqReliabilityState := ACK_SET, State := COAP_STATE_RESOURCE_POSTPONE_EMPTY_ACK_SENT,
      SleepUntil := rtc_1Hz w1 + POSTPONE_WAIT_TIME_SEK\<rparr>"
    have "ia_ok (SocketCtrl w1) (pResList w1) (?f ia)" using ok assms(3) s(4,5) by (simp add: ia_ok_def)
    from inv_set_ia[of ao aok w1 p ia ?f, OF s(2) g1 refl _ _ _ this]
    have "stack_inv ao aok (upd_ia p ?f w1)" "get_ia p (upd_ia p ?f w1) = Some (?f ia)" by simp_all
    from enqueue_outcome[OF this] show ?thesis unfolding eq using ack s(1,2) inv_delete[OF s(2) g1] by simp
  next
    case late
    note i = inv_set_code[OF assms(1,2,4), of RESP_SERVICE_UNAVAILABLE_5_03]
    then show ?thesis unfolding eq using late finish_response_outcome[OF i, of env] assms(3) by auto
  next
    case sleep
    then show ?thesis unfolding eq CoAP_SetSleepInteraction_def
      using enqueue_outcome[OF inv_timers[OF assms(1,2), of "\<lambda>i. i\<lparr>SleepUntil := rtc_1Hz w + POSTPONE_WAIT_TIME_SEK\<rparr>"]] by auto
  qed
qed

subsection \<open>The application\<close>

text \<open>
  The response a handler gets offers a payload buffer of the preferred size; only a response that a handler
  has postponed can have another one. \<open>unfit\<close>: the turn is a handler's, and the handler cannot cope with the
  request in this state of the application; \<open>apt\<close> says when it can.
\<close>

definition offers_buffer :: "CoAP_Message \<Rightarrow> bool" where
  "offers_buffer m \<longleftrightarrow> PayloadBufSize m = PREFERED_PAYLOAD_SIZE \<and> Payload m \<noteq> None"

definition cramped :: "CoAP_Interaction \<Rightarrow> bool" where
  "cramped ia \<longleftrightarrow> Role ia = COAP_ROLE_SERVER \<and> State ia \<noteq> COAP_STATE_RESPONSE_SENT \<and>
     (case pRespMsg ia of None \<Rightarrow> False | Some m \<Rightarrow> \<not> offers_buffer m)"

definition unfit :: "(fnptr \<Rightarrow> CoAP_Message \<Rightarrow> 'x \<Rightarrow> bool) \<Rightarrow> CoAP_Interaction \<Rightarrow> 'x coap \<Rightarrow> bool" where
  "unfit apt ia w \<longleftrightarrow> Role ia = COAP_ROLE_SERVER \<and> State ia \<noteq> COAP_STATE_RESPONSE_SENT \<and>
     (case (pReqMsg ia, pRes ia \<bind> (\<lambda>rp. get_res rp w) \<bind> Handler) of
        (Some req, Some f) \<Rightarrow> \<not> apt f req (app w)
      | _ \<Rightarrow> False)"

lemma AllocRespMsg_offers:
  assumes "CoAP_AllocRespMsg req C PREFERED_PAYLOAD_SIZE w = (Some m, w' :: 'x coap)"
  shows "offers_buffer m"
proof -
  have "PREFERED_PAYLOAD_SIZE \<noteq> 0" by (simp add: PREFERED_PAYLOAD_SIZE_def)
  then show ?thesis using AllocRespMsg_size[OF assms] AllocRespMsg_payload[OF assms] by (simp add: offers_buffer_def)
qed

text \<open>
  Memory for a response and for its handler, which needs \<open>need n\<close> bytes when there are \<open>n\<close> resources: the response
  takes 104 bytes of the pool, with at most 15 more for rounding and its header.
\<close>

definition enough_memory :: "(nat \<Rightarrow> int) \<Rightarrow> 'x coap \<Rightarrow> bool" where
  "enough_memory need w \<longleftrightarrow> room (heap w) (need (length (pResList w)) + 119)"

text \<open>
  A handler is called for an interaction \<open>ia\<close> of a server; it changes the response (written back by the
  caller) and may change the stack, but not this interaction. A callback is called for a client; the
  registered ones are \<open>callbacks\<close>.
\<close>

locale application = notifiers env ao aok need
  for env :: "'x env" and ao :: "'x \<Rightarrow> claims" and aok :: "'x \<Rightarrow> res_key set \<Rightarrow> bool" and need :: "nat \<Rightarrow> int" +
  fixes callbacks :: "fnptr set" and apt :: "fnptr \<Rightarrow> CoAP_Message \<Rightarrow> 'x \<Rightarrow> bool"
  assumes need_positive: "16 \<le> need n"
    and handler: "stack_inv ao aok w \<Longrightarrow> get_ia p w = Some ia \<Longrightarrow> Role ia = COAP_ROLE_SERVER \<Longrightarrow> pReqMsg ia = Some req \<Longrightarrow>
      pRespMsg ia = Some resp \<Longrightarrow> r \<in> set (pResList w) \<Longrightarrow> pRes ia = Some (res_addr r) \<Longrightarrow> Handler r = Some f \<Longrightarrow>
      outcome (room (heap w) (need (length (pResList w))) \<and> offers_buffer resp \<and> apt f req (app w))
        (\<lambda>(res, resp', w'). stack_inv ao aok (set_resp p resp' w') \<and> get_ia p (set_resp p resp' w') = Some (ia\<lparr>pRespMsg := Some resp'\<rparr>))
        (call_handler env f req resp w)"
    and callback: "stack_inv ao aok w \<Longrightarrow> get_ia p w = Some ia \<Longrightarrow> Role ia = COAP_ROLE_CLIENT \<Longrightarrow> RespCB ia = Some f \<Longrightarrow>
      outcome (f \<in> callbacks) (\<lambda>w'. stack_inv ao aok w' \<and> get_ia p w' = Some ia)
        (call_callback env f (pRespMsg ia) (RemoteEp ia) w)"
begin

lemma after_handler:
  assumes "stack_inv ao aok w" "get_ia p w = Some ia" "Role ia = COAP_ROLE_SERVER" "pRespMsg ia = Some resp"
    "State ia = COAP_STATE_HANDLE_REQUEST \<or> State ia = COAP_STATE_RESOURCE_POSTPONE_EMPTY_ACK_SENT"
  shows "outcome True (stack_inv ao aok)
    (if Res = HANDLER_OK \<and> Code resp = EMPTY
     then finish_response env p (set_resp p (resp\<lparr>Code := RESP_SUCCESS_CONTENT_2_05\<rparr>) w)
     else if Res = HANDLER_ERROR \<and> Code resp = EMPTY
     then finish_response env p (set_resp p (resp\<lparr>Code := RESP_INTERNAL_SERVER_ERROR_5_00\<rparr>) w)
     else if Res = HANDLER_POSTPONE then postpone env p w
     else finish_response env p w)"
  using finish_response_outcome[OF inv_set_code[OF assms(1,2,4)]] finish_response_outcome[OF assms(1,2)]
    postpone_outcome[OF assms] assms(3,4) by simp

lemma run_handler:
  assumes "stack_inv ao aok w" "get_ia p w = Some ia" "Role ia = COAP_ROLE_SERVER" "pReqMsg ia = Some req" "pRespMsg ia = Some resp"
    "State ia = COAP_STATE_HANDLE_REQUEST \<or> State ia = COAP_STATE_RESOURCE_POSTPONE_EMPTY_ACK_SENT"
    "r \<in> set (pResList w)" "pRes ia = Some (res_addr r)" "Handler r = Some f"
  shows "outcome (room (heap w) (need (length (pResList w))) \<and> offers_buffer resp \<and> apt f req (app w)) (stack_inv ao aok)
    (call_handler env f req resp w \<bind> (\<lambda>(Res, resp, w).
       if Res = HANDLER_OK \<and> Code resp = EMPTY
       then finish_response env p (set_resp p (resp\<lparr>Code := RESP_SUCCESS_CONTENT_2_05\<rparr>) (set_resp p resp w))
       else if Res = HANDLER_ERROR \<and> Code resp = EMPTY
       then finish_response env p (set_resp p (resp\<lparr>Code := RESP_INTERNAL_SERVER_ERROR_5_00\<rparr>) (set_resp p resp w))
       else if Res = HANDLER_POSTPONE then postpone env p (set_resp p resp w)
       else finish_response env p (set_resp p resp w)))"
proof (rule outcome_bind[OF handler[OF assms(1-5,7-9)]])
  fix x :: "CoAP_HandlerResult_t \<times> CoAP_Message \<times> 'x coap"
  assume x: "(\<lambda>(res, resp', w'). stack_inv ao aok (set_resp p resp' w') \<and>
      get_ia p (set_resp p resp' w') = Some (ia\<lparr>pRespMsg := Some resp'\<rparr>)) x"
  obtain Res resp' w' where e: "x = (Res, resp', w')" by (metis prod_cases3)
  have i: "stack_inv ao aok (set_resp p resp' w')" "get_ia p (set_resp p resp' w') = Some (ia\<lparr>pRespMsg := Some resp'\<rparr>)"
    using x e by simp_all
  show "outcome (room (heap w) (need (length (pResList w))) \<and> offers_buffer resp \<and> apt f req (app w)) (stack_inv ao aok)
    (case x of (Res, resp, w) \<Rightarrow>
       if Res = HANDLER_OK \<and> Code resp = EMPTY
       then finish_response env p (set_resp p (resp\<lparr>Code := RESP_SUCCESS_CONTENT_2_05\<rparr>) (set_resp p resp w))
       else if Res = HANDLER_ERROR \<and> Code resp = EMPTY
       then finish_response env p (set_resp p (resp\<lparr>Code := RESP_INTERNAL_SERVER_ERROR_5_00\<rparr>) (set_resp p resp w))
       else if Res = HANDLER_POSTPONE then postpone env p (set_resp p resp w)
       else finish_response env p (set_resp p resp w))"
    unfolding e prod.case by (rule outcome_mono[OF after_handler[OF i]]) (use assms(3,6) in simp_all)
qed

lemma server_handle_request_outcome:
  assumes "stack_inv ao aok w" "get_ia p w = Some ia" "Role ia = COAP_ROLE_SERVER"
    "State ia = COAP_STATE_HANDLE_REQUEST \<or> State ia = COAP_STATE_RESOURCE_POSTPONE_EMPTY_ACK_SENT"
  shows "outcome (enough_memory need w \<and> \<not> cramped ia \<and> \<not> unfit apt ia w) (stack_inv ao aok) (server_handle_request env p w)"
proof -
  have ok: "role_ok (pResList w) COAP_ROLE_SERVER ia" using get_ia_ok[OF assms(1,2)] assms(3) by (simp add: ia_ok_def)
  then have "has_handler (pResList w) (pRes ia)" by simp
  then obtain rp r f where r: "pRes ia = Some rp" "get_res rp w = Some r" "Handler r = Some f"
    using server_resource[OF assms(1)] by metis
  have rr: "r \<in> set (pResList w)" "res_addr r = rp" using get_res_Some[OF r(2)] by auto
  obtain req where req: "pReqMsg ia = Some req" using ok by auto
  have a: "ia_addr ia = p" using get_ia_Some[OF assms(2)] by simp
  have nh: "offers_buffer m" if "\<not> cramped ia" "pRespMsg ia = Some m" for m
    using that assms(3,4) by (auto simp: cramped_def)
  have fit: "apt f req (app w)" if "\<not> unfit apt ia w"
    using that assms(3,4) r req by (auto simp: unfit_def)
  show ?thesis
  proof (cases "method_forbidden (Code req) (Flags (Options r))")
    case True
    obtain m w1 where al: "CoAP_AllocRespMsg req RESP_METHOD_NOT_ALLOWED_4_05 0 w = (m, w1)" by force
    have z: "unat (0 :: u16) \<le> 32000" by simp
    note i = inv_alloc_resp[OF assms(1-4) al z]
    let ?ia = "ia\<lparr>pRespMsg := m\<rparr>"
    let ?w = "upd_ia p (\<lambda>i. i\<lparr>pRespMsg := m\<rparr>) w1"
    have some: "m \<noteq> None" if "enough_memory need w"
      using AllocRespMsg_room[OF assms(1) that[unfolded enough_memory_def], of 0 req RESP_METHOD_NOT_ALLOWED_4_05] al
        need_positive[of "length (pResList w)"]
      by (auto simp: sizeof_CoAP_Message_def)
    have ro: "pRespMsg ?ia \<noteq> None \<Longrightarrow> role_ok (pResList ?w) (Role ?ia) (?ia\<lparr>State := COAP_STATE_RESPONSE_SENT\<rparr>)"
      using ok assms(3) i(3) by simp
    have ga: "get_ia (ia_addr ?ia) ?w = Some ?ia" using i(2) a by simp
    have "outcome (enough_memory need w \<and> \<not> cramped ia \<and> \<not> unfit apt ia w) (\<lambda>(r, w'). stack_inv ao aok w') (SendResp env ?ia COAP_STATE_RESPONSE_SENT ?w)"
      by (rule outcome_mono[OF SendResp_outcome[OF i(1) ga ro]]) (use some req in auto)
    then show ?thesis
      unfolding server_handle_request_def assms(2) req r do_simps al using True i(2) by (simp add: outcome_snd)
  next
    case False
    show ?thesis
    proof (cases "pRespMsg ia")
      case None
      obtain m w1 where al: "CoAP_AllocRespMsg req EMPTY PREFERED_PAYLOAD_SIZE w = (m, w1)" by force
      have z: "unat PREFERED_PAYLOAD_SIZE \<le> 32000" by (simp add: PREFERED_PAYLOAD_SIZE_def)
      note i = inv_alloc_resp[OF assms(1-4) al z]
      let ?ia = "ia\<lparr>pRespMsg := m\<rparr>"
      let ?w = "upd_ia p (\<lambda>i. i\<lparr>pRespMsg := m\<rparr>) w1"
      have room: "m \<noteq> None \<and> room (heap ?w) (need (length (pResList ?w)))" if "enough_memory need w"
        using AllocRespMsg_room[OF assms(1) that[unfolded enough_memory_def] _ z, of req EMPTY] al i(3) need_positive[of "length (pResList w)"]
        by (auto simp: sizeof_CoAP_Message_def PREFERED_PAYLOAD_SIZE_def)
      show ?thesis
      proof (cases m)
        case m: None
        then show ?thesis
          unfolding server_handle_request_def assms(2) req r do_simps None al using False room i(2) by auto
      next
        case (Some resp)
        have "outcome (room (heap ?w) (need (length (pResList ?w))) \<and> offers_buffer resp \<and> apt f req (app ?w)) (stack_inv ao aok) (server_handle_request env p w)"
          unfolding server_handle_request_def assms(2) req r do_simps None al
          using run_handler[OF i(1,2), of req resp r f] False assms(3,4) req Some r rr i
            by simp
        moreover have "app ?w = app w" by (rule i(4))
        ultimately show ?thesis using room fit AllocRespMsg_offers[OF al[unfolded Some]] by (auto elim: outcome_mono)
      qed
    next
      case (Some resp)
      have "room (heap w) (need (length (pResList w)))" if "enough_memory need w"
        using that room_mono by (fastforce simp: enough_memory_def)
      moreover have "outcome (room (heap w) (need (length (pResList w))) \<and> offers_buffer resp \<and> apt f req (app w)) (stack_inv ao aok) (server_handle_request env p w)"
        unfolding server_handle_request_def assms(2) req r do_simps Some
        using run_handler[OF assms(1-3) req Some assms(4) rr(1) _ r(3)] False assms(2) r rr Some by simp
      ultimately show ?thesis using nh fit Some by (auto elim: outcome_mono)
    qed
  qed
qed

end

end
