(* ===== verification/Loop_Safety.thy ===== *)
theory Loop_Safety imports Server_Safety begin

section \<open>Every turn of the work loop is safe\<close>

text \<open>
  The notificator and the client, and the loop itself. The one thing the loop can do wrong on a
  well-formed stack with enough memory is to fail sending a notification: the error path reads the
  message id of a request, which a notification does not have.
\<close>

definition risky_notification :: "'x env \<Rightarrow> CoAP_Interaction \<Rightarrow> 'x coap \<Rightarrow> bool" where
  "risky_notification env ia w \<longleftrightarrow> Role ia = COAP_ROLE_NOTIFICATION \<and>
     (State ia = COAP_STATE_READY_TO_NOTIFY \<and> \<not> accepted env ia w \<or>
      State ia = COAP_STATE_NOTIFICATION_SENT \<and> CheckRespStatus ia w = Some COAP_RETRY)"

context notifiers begin

lemma call_update_outcome:
  assumes "stack_inv ao aok w" "get_ia p w = Some ia" "Role ia = COAP_ROLE_NOTIFICATION"
  shows "outcome (room (heap w) (need (length (pResList w))))
    (\<lambda>w'. stack_inv ao aok w' \<and> (\<exists>m. get_ia p w' = Some (ia\<lparr>pRespMsg := Some m\<rparr>))) (call_update env p w)"
proof -
  have ok: "role_ok (pResList w) COAP_ROLE_NOTIFICATION ia" using get_ia_ok[OF assms(1,2)] assms(3) by (simp add: ia_ok_def)
  then have "has_notifier (pResList w) (pRes ia)" by simp
  then obtain rp r f where r: "pRes ia = Some rp" "get_res rp w = Some r" "Notifier r = Some f"
    using notified_resource[OF assms(1)] by metis
  obtain resp where resp: "pRespMsg ia = Some resp" using ok by auto
  obtain mid w1 where g: "CoAP_GetNextMid w = (mid, w1)" by force
  obtain lm where w1: "w1 = w\<lparr>lastMId := lm\<rparr>" using GetNextMid_same[OF g] by blast
  have i1: "stack_inv ao aok w1" "get_ia p w1 = Some ia" "get_res rp w1 = Some r" "r \<in> set (pResList w1)"
    using assms(1,2) r(2) get_res_Some[OF r(2)] by (auto simp: w1 get_ia_def get_res_def)
  let ?resp = "resp\<lparr>MessageID := mid\<rparr>"
  have "holds (heap w1) (msg_own (heap w1) ?resp)"
    using inv_holds[OF i1(1,2)] resp by (auto simp: ia_own_def intro: holds_sub)
  note n = notifier[OF i1(1) this i1(4) r(3), of "pObserver ia"]
  show ?thesis
  proof (cases "call_notifier env f (pObserver ia) ?resp w1")
    case None
    then have "\<not> room (heap w) (need (length (pResList w)))" using n by (simp add: w1)
    then show ?thesis unfolding call_update_def using assms(2) resp g r i1(3) None by simp
  next
    case (Some x)
    then obtain k resp2 h2 where c: "call_notifier env f (pObserver ia) ?resp w1 = Some (k, resp2, h2)" "msg_step ?resp (heap w1) resp2 h2"
      using n by (cases x) auto
    have "handler_code k < unat RESP_ERROR_BAD_REQUEST_4_00" by (cases k) (simp_all add: RESP_ERROR_BAD_REQUEST_4_00_def CODE_def)
    then have k: "(unat RESP_ERROR_BAD_REQUEST_4_00 \<le> handler_code k) = False" by simp
    obtain b resp3 h3 where u: "UpdateObserveOptionInMsg resp2 (UpdateCnt r) h2 = (b, resp3, h3)" by (metis prod_cases3)
    have "msg_step resp (heap w1) resp3 h3" using msg_step_trans[OF c(2) UpdateObserve_step[OF u]] by simp
    from inv_set_resp[OF i1(1,2) resp this] show ?thesis
      unfolding call_update_def using assms(2) resp g r i1(3) c(1) k u by (auto simp: w1)
  qed
qed

lemma notification_done_outcome:
  assumes "stack_inv ao aok w" "get_ia (ia_addr ia) w = Some ia" "Role ia = COAP_ROLE_NOTIFICATION"
  shows "outcome (room (heap w) (need (length (pResList w)))) (stack_inv ao aok) (notification_done env ia w)"
proof (cases "UpdatePendingNotification ia")
  case True
  let ?f = "\<lambda>i. i\<lparr>State := COAP_STATE_READY_TO_NOTIFY, RetransCounter := 0, UpdatePendingNotification := False, RespReliabilityState := NOT_SET\<rparr>"
  let ?w = "upd_ia (ia_addr ia) ?f w"
  have "ia_ok (SocketCtrl w) (pResList w) (?f ia)" using get_ia_ok[OF assms(1,2)] assms(3) by (simp add: ia_ok_def)
  from inv_set_ia[of ao aok w "ia_addr ia" ia ?f, OF assms(1,2) refl _ _ _ this]
  have i: "stack_inv ao aok ?w" "get_ia (ia_addr ia) ?w = Some (?f ia)" by simp_all
  have "outcome (room (heap w) (need (length (pResList w))))
    (\<lambda>w'. stack_inv ao aok w' \<and> (\<exists>m. get_ia (ia_addr ia) w' = Some ((?f ia)\<lparr>pRespMsg := Some m\<rparr>))) (call_update env (ia_addr ia) ?w)"
    using call_update_outcome[OF i] assms(3) by simp
  then show ?thesis unfolding notification_done_def using True enqueue_outcome
    by (simp only: if_True) (rule outcome_bind, assumption, blast)
next
  case False
  then show ?thesis using inv_delete[OF assms(1,2)] by (simp add: notification_done_def)
qed

lemma notification_retry_outcome:
  assumes "stack_inv ao aok w" "get_ia (ia_addr ia) w = Some ia" "Role ia = COAP_ROLE_NOTIFICATION"
    "unat (RetransCounter ia) < MAX_RETRANSMIT"
  shows "outcome False (stack_inv ao aok) (notification_retry env ia w)"
proof -
  let ?p = "ia_addr ia"
  have last: "outcome False (stack_inv ao aok) (get_ia ?p w' \<bind> (\<lambda>ia. retry_response env ia w'))"
    if "stack_inv ao aok w'" "get_ia ?p w' = Some ia'" "RetransCounter ia' = RetransCounter ia" for w' ia'
  proof -
    have "ia_addr ia' = ?p" using get_ia_Some[OF that(2)] by simp
    then have "outcome (pRespMsg ia' \<noteq> None \<and> pReqMsg ia' \<noteq> None) (stack_inv ao aok) (retry_response env ia' w')"
      using retry_response_outcome[of ao aok w' ia' env] that assms(4) by simp
    then show ?thesis using that(2) by (auto elim: outcome_mono)
  qed
  show ?thesis
  proof (cases "UpdatePendingNotification ia")
    case True
    have ok: "role_ok (pResList w) COAP_ROLE_NOTIFICATION ia" using get_ia_ok[OF assms(1,2)] assms(3) by (simp add: ia_ok_def)
    then obtain old where old: "pRespMsg ia = Some old" by auto
    let ?f = "\<lambda>i. i\<lparr>UpdatePendingNotification := False\<rparr>"
    note i = inv_timers[OF assms(1,2), of ?f, simplified]
    let ?g = "\<lambda>i. i\<lparr>pRespMsg := map_option (\<lambda>m. m\<lparr>Type := Type old\<rparr>) (pRespMsg i)\<rparr>"
    have "outcome (room (heap (upd_ia ?p ?f w)) (need (length (pResList (upd_ia ?p ?f w)))))
      (\<lambda>w'. stack_inv ao aok w' \<and> (\<exists>m. get_ia ?p w' = Some ((?f ia)\<lparr>pRespMsg := Some m\<rparr>))) (call_update env ?p (upd_ia ?p ?f w))"
      using call_update_outcome[OF i] assms(3) by simp
    then have u: "outcome False
      (\<lambda>w'. stack_inv ao aok w' \<and> (\<exists>m. get_ia ?p w' = Some ((?f ia)\<lparr>pRespMsg := Some m\<rparr>))) (call_update env ?p (upd_ia ?p ?f w))"
      by (rule outcome_mono) auto
    have g: "stack_inv ao aok (upd_ia ?p ?g w') \<and> get_ia ?p (upd_ia ?p ?g w') = Some ((?f ia)\<lparr>pRespMsg := Some (m\<lparr>Type := Type old\<rparr>)\<rparr>)"
      if "stack_inv ao aok w'" "get_ia ?p w' = Some ((?f ia)\<lparr>pRespMsg := Some m\<rparr>)" for w' m
    proof -
      let ?ia = "(?f ia)\<lparr>pRespMsg := Some m\<rparr>" and ?ia' = "(?f ia)\<lparr>pRespMsg := Some (m\<lparr>Type := Type old\<rparr>)\<rparr>"
      have "ia_ok (SocketCtrl w') (pResList w') ?ia'" using get_ia_ok[OF that] assms(3) by (simp add: ia_ok_def)
      moreover have "trades (ia_own (heap w') ?ia) (heap w') (ia_own (heap w') ?ia') (heap w')" by (simp add: ia_own_def)
      moreover have "?g ?ia = ?ia'" by simp
      ultimately show ?thesis using inv_upd_ia[of ao aok w' ?p ?ia ?g ?ia' "heap w'", OF that] by simp
    qed
    show ?thesis unfolding notification_retry_def using True old
      apply (simp only: if_True bind.bind_lunit bind_assoc)
      apply (rule outcome_bind[OF u])
      subgoal for w' using g last by (fastforce simp: bind_assoc)
      done
  next
    case False
    then show ?thesis unfolding notification_retry_def using last[OF assms(1,2) refl] by simp
  qed
qed

lemma notification_sent_outcome:
  assumes "stack_inv ao aok w" "get_ia (ia_addr ia) w = Some ia" "Role ia = COAP_ROLE_NOTIFICATION"
  shows "outcome (CheckRespStatus ia w \<noteq> Some COAP_RETRY \<and> room (heap w) (need (length (pResList w))))
    (stack_inv ao aok) (notification_sent env ia w)"
proof -
  have ok: "role_ok (pResList w) COAP_ROLE_NOTIFICATION ia" using get_ia_ok[OF assms(1,2)] assms(3) by (simp add: ia_ok_def)
  then obtain resp where resp: "pRespMsg ia = Some resp" by auto
  obtain s where s: "CheckRespStatus ia w = Some s"
    using CheckRespStatus_cases(2)[of ia w] resp by (cases "CheckRespStatus ia w") auto
  note eq = notification_sent_def s bind.bind_lunit
  consider (wait) "s = COAP_WAITING \<or> s = COAP_HOLDING_BACK" | (retry) "s = COAP_RETRY" | (fin) "s = COAP_OK"
    | (failed) "s = COAP_ERR_OUT_OF_ATTEMPTS \<or> s = COAP_ERR_REMOTE_RST"
    | (other) "\<not> (s = COAP_WAITING \<or> s = COAP_HOLDING_BACK)" "s \<noteq> COAP_RETRY" "s \<noteq> COAP_OK" "\<not> (s = COAP_ERR_OUT_OF_ATTEMPTS \<or> s = COAP_ERR_REMOTE_RST)"
    by blast
  then show ?thesis
  proof cases
    case wait
    then show ?thesis unfolding eq using enqueue_outcome[OF assms(1,2)] by (auto elim: outcome_mono)
  next
    case retry
    have "unat (RetransCounter ia) < MAX_RETRANSMIT" using CheckRespStatus_cases(1)[of ia w] s retry by simp
    from notification_retry_outcome[OF assms this] show ?thesis unfolding eq using retry by simp
  next
    case fin
    from notification_done_outcome[OF assms] show ?thesis unfolding eq using fin by (auto elim: outcome_mono)
  next
    case failed
    have "has_notifier (pResList w) (pRes ia)" using ok by simp
    then obtain rp r where r: "pRes ia = Some rp" "get_res rp w = Some r" using notified_resource[OF assms(1)] by metis
    obtain res w1 where w1: "CoAP_RemoveInteractionsObserver ia (Token64 resp) w = Some (res, w1)" "stack_inv ao aok w1"
      "pInteractions w1 = pInteractions w"
      using outcome_defined[OF RemoveInteractionsObserver_outcome[OF assms(1) r, of "Token64 resp"] TrueI] by auto
    have "get_ia (ia_addr ia) w1 = Some ia" using assms(2) w1(3) by (simp add: get_ia_def)
    from inv_delete[OF w1(2) this] show ?thesis unfolding eq using failed resp w1(1) by auto
  next
    case other
    then show ?thesis unfolding eq using inv_delete[OF assms(1,2)] by simp
  qed
qed

end

context application begin

lemma client_handle_response_outcome:
  assumes "stack_inv ao aok w" "get_ia (ia_addr ia) w = Some ia" "Role ia = COAP_ROLE_CLIENT"
  shows "outcome (\<forall>f. RespCB ia = Some f \<longrightarrow> f \<in> callbacks) (stack_inv ao aok) (client_handle_response env ia w)"
proof (cases "RespCB ia")
  case None
  then show ?thesis using inv_delete[OF assms(1,2)] by (simp add: client_handle_response_def)
next
  case (Some f)
  from callback[OF assms Some]
  have "outcome (f \<in> callbacks) (stack_inv ao aok) (client_handle_response env ia w)"
    unfolding client_handle_response_def Some option.case
    by (rule outcome_bind) (use inv_delete in auto)
  then show ?thesis using Some by simp
qed

lemma work_on_outcome:
  assumes "stack_inv ao aok w" "get_ia (ia_addr ia) w = Some ia"
  shows "outcome (enough_memory need w \<and> \<not> cramped ia \<and> \<not> unfit apt ia w \<and> \<not> risky_notification env ia w \<and> (\<forall>f. RespCB ia = Some f \<longrightarrow> f \<in> callbacks))
    (stack_inv ao aok) (work_on env ia w)"
proof (cases "Role ia")
  case COAP_ROLE_NOT_SET
  then show ?thesis using get_ia_ok[OF assms(1,2)] by (simp add: ia_ok_def)
next
  case COAP_ROLE_SERVER
  then have ok: "role_ok (pResList w) COAP_ROLE_SERVER ia" using get_ia_ok[OF assms(1,2)] by (simp add: ia_ok_def)
  show ?thesis
  proof (cases "State ia = COAP_STATE_HANDLE_REQUEST \<or> State ia = COAP_STATE_RESOURCE_POSTPONE_EMPTY_ACK_SENT")
    case True
    from server_handle_request_outcome[OF assms(1,2) COAP_ROLE_SERVER this] show ?thesis
      unfolding work_on_def using COAP_ROLE_SERVER True by (auto elim: outcome_mono)
  next
    case False
    then have "State ia = COAP_STATE_RESPONSE_SENT" "pRespMsg ia \<noteq> None" "pReqMsg ia \<noteq> None" using ok by auto
    then show ?thesis
      unfolding work_on_def using COAP_ROLE_SERVER server_response_sent_outcome[OF assms(1,2), of env] by (auto elim: outcome_mono)
  qed
next
  case COAP_ROLE_NOTIFICATION
  then have ok: "role_ok (pResList w) COAP_ROLE_NOTIFICATION ia" using get_ia_ok[OF assms(1,2)] by (simp add: ia_ok_def)
  show ?thesis
  proof (cases "State ia = COAP_STATE_READY_TO_NOTIFY")
    case True
    have "outcome (pRespMsg ia \<noteq> None \<and> (pReqMsg ia \<noteq> None \<or> accepted env ia w)) (\<lambda>(r, w'). stack_inv ao aok w') (SendResp env ia COAP_STATE_NOTIFICATION_SENT w)"
      by (rule SendResp_accepted[OF assms(1,2)]) (use ok COAP_ROLE_NOTIFICATION in simp)
    then have "outcome (accepted env ia w) (\<lambda>x. stack_inv ao aok (snd x)) (SendResp env ia COAP_STATE_NOTIFICATION_SENT w)"
      by (rule outcome_mono) (use ok in auto)
    then show ?thesis
      unfolding work_on_def using COAP_ROLE_NOTIFICATION True
      by (auto simp: risky_notification_def intro!: outcome_map elim: outcome_mono)
  next
    case False
    then have "State ia = COAP_STATE_NOTIFICATION_SENT" using ok by auto
    moreover have "room (heap w) (need (length (pResList w)))" if "enough_memory need w"
      using that room_mono by (fastforce simp: enough_memory_def)
    ultimately show ?thesis
      unfolding work_on_def using COAP_ROLE_NOTIFICATION notification_sent_outcome[OF assms(1,2) COAP_ROLE_NOTIFICATION]
      by (auto simp: risky_notification_def elim!: outcome_mono)
  qed
next
  case COAP_ROLE_CLIENT
  then have ok: "role_ok (pResList w) COAP_ROLE_CLIENT ia" using get_ia_ok[OF assms(1,2)] by (simp add: ia_ok_def)
  then have req: "pReqMsg ia \<noteq> None" by simp
  consider (ready) "State ia = COAP_STATE_READY_TO_REQUEST" | (wait) "State ia = COAP_STATE_WAITING_RESPONSE"
    | (response) "State ia = COAP_STATE_HANDLE_RESPONSE" using ok by auto
  then show ?thesis
  proof cases
    case ready
    have "outcome True (\<lambda>(r, w'). stack_inv ao aok w') (SendReq env ia COAP_STATE_WAITING_RESPONSE w)"
      by (rule SendReq_outcome[OF assms(1,2) req]) (use ok COAP_ROLE_CLIENT in simp)
    then have "outcome True (\<lambda>x. stack_inv ao aok (snd x)) (SendReq env ia COAP_STATE_WAITING_RESPONSE w)"
      by (auto elim!: outcome_mono)
    then show ?thesis unfolding work_on_def using COAP_ROLE_CLIENT ready by (auto intro!: outcome_map elim: outcome_mono)
  next
    case wait
    then show ?thesis unfolding work_on_def using COAP_ROLE_CLIENT client_waiting_outcome[OF assms(1,2) req, of env]
      by (auto elim: outcome_mono)
  next
    case response
    then show ?thesis unfolding work_on_def using COAP_ROLE_CLIENT client_handle_response_outcome[OF assms(1,2) COAP_ROLE_CLIENT]
      by (auto elim!: outcome_mono)
  qed
qed

lemma doWork_outcome:
  assumes "stack_inv ao aok w"
  shows "outcome (enough_memory need w \<and> (case pInteractions w of [] \<Rightarrow> True
      | ia # _ \<Rightarrow> \<not> cramped ia \<and> \<not> unfit apt ia w \<and> \<not> risky_notification env ia w \<and> (\<forall>f. RespCB ia = Some f \<longrightarrow> f \<in> callbacks)))
    (stack_inv ao aok) (CoAP_doWork env w)"
proof (cases "pInteractions w")
  case Nil
  then show ?thesis using assms by (simp add: CoAP_doWork_def CoAP_GetLongestPendingInteraction_def)
next
  case (Cons ia ias)
  have g: "get_ia (ia_addr ia) w = Some ia" using Cons by simp
  show ?thesis
    unfolding CoAP_doWork_def CoAP_GetLongestPendingInteraction_def Cons list.case option.case
    using enqueue_outcome[OF assms g] work_on_outcome[OF assms g] by simp
qed

end

end
