(* ===== verification/Reception_Safety.thy ===== *)
theory Reception_Safety imports Loop_Safety begin

section \<open>Reception is safe\<close>

text \<open>
  While a datagram is handled its message belongs to nobody: \<open>with_msg ao m\<close> adds the message's buffers to
  those the application holds. Every path of the reception either releases the message, hands it over to
  an interaction, or loses it; each keeps the stack well formed and is free of undefined behaviour.
\<close>

subsection \<open>A message beside the stack\<close>

definition inner :: "CoAP_Message \<Rightarrow> bool" where
  "inner m \<longleftrightarrow> Payload m = None \<or> Payload m = Some (msg_addr m + sizeof_CoAP_Message)"

definition base_own :: "CoAP_Message \<Rightarrow> claims" where
  "base_own m = add_mset (msg_addr m, sizeof_CoAP_Message) (opts_own (pOptionsList m))"

definition with_msg :: "('x \<Rightarrow> claims) \<Rightarrow> CoAP_Message \<Rightarrow> 'x \<Rightarrow> claims" where
  "with_msg ao m = (\<lambda>a. ao a + base_own m)"

lemma own_inner:
  assumes "holds h (base_own m + F)" "inner m"
  shows "msg_own h m = base_own m"
proof -
  have "40 \<le> bsize (Some (msg_addr m)) h"
    using holds_size[OF assms(1), of "msg_addr m" sizeof_CoAP_Message] by (simp add: base_own_def sizeof_CoAP_Message_def)
  then have "bufferIsPartOfMsg (msg_addr m + sizeof_CoAP_Message) m h"
    using bufferIsPartOfMsg_inside[of m "msg_addr m" 0 h] by simp
  then show ?thesis using assms(2) by (auto simp: inner_def msg_own_def base_own_def ext_own_def)
qed

lemma with_holds: "stack_inv (with_msg ao m) aok w \<Longrightarrow> \<exists>F. holds (heap w) (base_own m + F)"
  unfolding stack_inv_def good_def with_msg_def
  by (metis (no_types, lifting) add.assoc add.commute)

lemma with_own: "stack_inv (with_msg ao m) aok w \<Longrightarrow> inner m \<Longrightarrow> msg_own (heap w) m = base_own m"
  using with_holds own_inner by blast

lemma inv_with:
  assumes "stack_inv ao aok w" "trades {#} (heap w) (msg_own h m) h" "inner m"
  shows "stack_inv (with_msg ao m) aok (w\<lparr>heap := h\<rparr>)"
proof -
  have "holds h (msg_own h m)" by (rule inv_gain[OF assms(1,2)])
  then have "40 \<le> bsize (Some (msg_addr m)) h"
    using holds_size[of h _ "msg_addr m" sizeof_CoAP_Message] by (simp add: msg_own_def sizeof_CoAP_Message_def)
  then have "bufferIsPartOfMsg (msg_addr m + sizeof_CoAP_Message) m h"
    using bufferIsPartOfMsg_inside[of m "msg_addr m" 0 h] by simp
  then have "msg_own h m = base_own m" using assms(3) by (auto simp: inner_def msg_own_def base_own_def ext_own_def)
  then have t: "trades {#} (heap w) (base_own m) h" using assms(2) by simp
  have st: "steady (\<lambda>h. ias_own h (pInteractions w) + (ress_own (pResList w) + ao (app w)))" by (intro steady_add) auto
  from good_move[OF _ _ st t, of ao aok "SocketCtrl w" "pInteractions w" "pResList w" "ResListMembers w" "app w"
      "pInteractions w" "pResList w" "with_msg ao m" "app w" aok]
  show ?thesis using assms(1) by (simp add: stack_inv_def with_msg_def good_def ac_simps)
qed

text \<open>Handing the message over: the part \<open>K'\<close> of the interactions takes its buffers.\<close>

lemma inv_take:
  assumes "stack_inv (with_msg ao m) aok w" "inner m"
    "ias_own (heap w) (pInteractions w) = K + R (heap w)" "steady R"
    "trades (base_own m + K) (heap w) K' h'" "ias_own h' ias' = K' + R h'"
    "\<forall>ia \<in> set ias'. ia_ok (SocketCtrl w) (pResList w) ia"
  shows "stack_inv ao aok (w\<lparr>heap := h', pInteractions := ias'\<rparr>)"
proof -
  have st: "steady (\<lambda>h. R h + (ress_own (pResList w) + ao (app w)))" by (intro steady_add assms(4)) auto
  from good_move[OF _ _ st assms(5), of "with_msg ao m" aok "SocketCtrl w" "pInteractions w" "pResList w" "ResListMembers w" "app w"
      ias' "pResList w" ao "app w" aok]
  show ?thesis using assms(1,3,6,7) by (simp add: stack_inv_def with_msg_def good_def ac_simps)
qed

lemma free_base_trades: "holds h (base_own m + F) \<Longrightarrow> inner m \<Longrightarrow> trades (base_own m) h {#} (CoAP_free_Message (Some m) h)"
  using free_message_trades[of h "Some m"] own_inner[of h m F] by simp

lemma inv_lose: "stack_inv (with_msg ao m) aok w \<Longrightarrow> inner m \<Longrightarrow> stack_inv ao aok w"
  using inv_take[of ao m aok w "{#}" "\<lambda>h. ias_own h (pInteractions w)" "{#}" "heap w" "pInteractions w"] trades_sub[of "{#}"]
  by (auto simp: stack_inv_def good_def)

lemma inv_finish:
  assumes "stack_inv (with_msg ao m) aok w" "inner m"
  shows "stack_inv ao aok (finish m w)"
proof -
  have "trades (base_own m + {#}) (heap w) {#} (CoAP_free_Message (Some m) (heap w))"
    using with_holds[OF assms(1)] free_base_trades[OF _ assms(2)] by auto
  from inv_take[OF assms _ _ this, of "\<lambda>h. ias_own h (pInteractions w)" "pInteractions w"]
  show ?thesis using assms(1) by (auto simp: finish_def stack_inv_def good_def)
qed

lemma take_post: "trades K h (base_own m + K1) h' \<Longrightarrow> inner m \<Longrightarrow> trades K h (msg_own h' m + K1) h'"
  using own_inner[of h' m K1] by (auto elim!: trades_post)

lemma attach_outcome:
  assumes "stack_inv (with_msg ao m) aok w" "inner m" "small_msg m" "get_ia p w = Some ia" "Role ia = COAP_ROLE_CLIENT"
  shows "outcome True (\<lambda>w'. stack_inv ao aok w' \<and> SocketCtrl w' = SocketCtrl w \<and> (\<exists>ia'. get_ia p w' = Some ia')) (attach_response p m w)"
proof -
  obtain xs ys where s: "pInteractions w = xs @ ia # ys" "ia_addr ia = p" "p \<notin> ia_addr ` set xs" "p \<notin> ia_addr ` set ys"
    using get_ia_split[OF assms(1,4)] .
  let ?h = "CoAP_free_Message (pRespMsg ia) (heap w)"
  let ?ia = "ia\<lparr>pRespMsg := Some m, State := COAP_STATE_HANDLE_RESPONSE\<rparr>"
  let ?A = "\<lambda>h. add_mset (ia_addr ia, sizeof_CoAP_Interaction) (msg_opt_own h (pReqMsg ia))"
  have "trades (msg_opt_own (heap w) (pRespMsg ia) + (base_own m + ?A (heap w))) (heap w) ({#} + (base_own m + ?A ?h)) ?h"
    by (rule trades_steady[OF _ free_message_trades]) (intro steady_add steady_const steady_add_mset steady_msg_opt)
  then have "trades (base_own m + ia_own (heap w) ia) (heap w) (base_own m + ?A ?h) ?h"
    by (simp add: ia_own_def ac_simps)
  from take_post[OF this assms(2)]
  have t: "trades (base_own m + ia_own (heap w) ia) (heap w) (ia_own ?h ?ia) ?h" by (simp add: ia_own_def ac_simps)
  have "ia_ok (SocketCtrl w) (pResList w) ?ia" using get_ia_ok[OF assms(1,4)] assms(3,5) by (simp add: ia_ok_def)
  then have ok: "\<forall>i \<in> set (xs @ ?ia # ys). ia_ok (SocketCtrl w) (pResList w) i"
    using assms(1) s(1) by (simp add: stack_inv_def good_def)
  have st: "steady (\<lambda>h. ias_own h (xs @ ys))" by (rule steady_ias)
  have o: "ias_own (heap w) (pInteractions w) = ia_own (heap w) ia + ias_own (heap w) (xs @ ys)" using s(1) by simp
  have "ias_own ?h (xs @ ?ia # ys) = ia_own ?h ?ia + ias_own ?h (xs @ ys)" by simp
  from inv_take[OF assms(1,2) o st t this ok]
  have i: "stack_inv ao aok (w\<lparr>heap := ?h, pInteractions := xs @ ?ia # ys\<rparr>)" .
  have u: "upd_ia p (\<lambda>i. i\<lparr>pRespMsg := Some m, State := COAP_STATE_HANDLE_RESPONSE\<rparr>) (w\<lparr>heap := ?h\<rparr>) =
      w\<lparr>heap := ?h, pInteractions := xs @ ?ia # ys\<rparr>" using s by (simp add: upd_ia_split)
  have "get_ia p (w\<lparr>heap := ?h, pInteractions := xs @ ?ia # ys\<rparr>) = Some ?ia" using s by (simp add: get_ia_def)
  then show ?thesis using i u assms(4) by (simp add: attach_response_def)
qed

lemma find_duplicate_defined:
  "\<forall>ia \<in> set ias. ia_ok c rs ia \<Longrightarrow> \<exists>q. find_duplicate mid i ep ias = Some q \<and> (\<forall>ia. q = Some ia \<longrightarrow> ia \<in> set ias \<and> Role ia = COAP_ROLE_SERVER)"
proof (induction ias)
  case (Cons ia ias)
  then have "Role ia = COAP_ROLE_SERVER \<longrightarrow> pReqMsg ia \<noteq> None" by (auto simp: ia_ok_def)
  then show ?case using Cons by auto
qed simp

lemma find_client_defined:
  "\<forall>ia \<in> set ias. ia_ok c rs ia \<Longrightarrow> \<exists>q. find_client t ep ias = Some q \<and> (\<forall>ia. q = Some ia \<longrightarrow> ia \<in> set ias \<and> Role ia = COAP_ROLE_CLIENT)"
proof (induction ias)
  case (Cons ia ias)
  then have "Role ia = COAP_ROLE_CLIENT \<longrightarrow> pReqMsg ia \<noteq> None" by (auto simp: ia_ok_def)
  then show ?case using Cons by auto
qed simp

text \<open>A new server interaction takes the message; a duplicate or a failure leaves it.\<close>

lemma StartNewServer_outcome:
  assumes "stack_inv (with_msg ao m) aok w" "inner m" "small_msg m" "known_interface (SocketCtrl w) i"
    "has_handler (pResList w) res"
  shows "outcome True (\<lambda>(r, w'). (r = COAP_OK \<longrightarrow> stack_inv ao aok w') \<and> (r \<noteq> COAP_OK \<longrightarrow> stack_inv (with_msg ao m) aok w') \<and>
      SocketCtrl w' = SocketCtrl w) (CoAP_StartNewServerInteraction d m res i pckt w)"
proof (cases "CoAP_MsgIsRequest m")
  case False
  then show ?thesis using assms(1) by (simp add: CoAP_StartNewServerInteraction_def)
next
  case req: True
  have all: "\<forall>ia \<in> set (pInteractions w). ia_ok (SocketCtrl w) (pResList w) ia" using assms(1) by (simp add: stack_inv_def good_def)
  obtain q where q: "find_duplicate (MessageID m) i (Sender pckt) (pInteractions w) = Some q"
    "\<And>ia. q = Some ia \<Longrightarrow> ia \<in> set (pInteractions w) \<and> Role ia = COAP_ROLE_SERVER"
    using find_duplicate_defined[OF all] by metis
  show ?thesis
  proof (cases q)
    case (Some ia)
    have ia: "ia_ok (SocketCtrl w) (pResList w) ia" "Role ia = COAP_ROLE_SERVER" using q(2)[OF Some] all by auto
    then obtain old where old: "pReqMsg ia = Some old" "known_interface (SocketCtrl w) (ia_ifID ia)" by (auto simp: ia_ok_def)
    from outcome_defined[OF short_replies(3)[OF assms(1) old(2), of d "MessageID old" "RemoteEp ia"]]
    obtain r w1 where "CoAP_SendEmptyAck d (MessageID old) (ia_ifID ia) (RemoteEp ia) w = Some (r, w1)"
      "stack_inv (with_msg ao m) aok w1" "SocketCtrl w1 = SocketCtrl w" by auto
    then show ?thesis using q(1) Some old req assms(1) by (simp add: CoAP_StartNewServerInteraction_def)
  next
    case None
    obtain n h where a: "CoAP_AllocNewInteraction (heap w) = (n, h)" by force
    note t = AllocNewInteraction_trades[OF a]
    show ?thesis
    proof (cases n)
      case n: None
      then show ?thesis using q(1) None req a t(1) inv_heap[OF assms(1)] by (simp add: CoAP_StartNewServerInteraction_def)
    next
      case (Some newIA)
      then obtain p where p: "newIA = new_interaction p" using t(2) by blast
      define ia where "ia = newIA\<lparr>ia_ifID := i, RespReliabilityState := NOT_SET, RespCB := None, pRes := res, Role := COAP_ROLE_SERVER,
        State := COAP_STATE_HANDLE_REQUEST, ReqMetaInfo := PktMetaInfo pckt, ReqReliabilityState := NOT_SET, pReqMsg := Some m,
        RemoteEp := CopyEndpoints (RemoteEp newIA) (Sender pckt)\<rparr>"
      have e: "CoAP_StartNewServerInteraction d m res i pckt w = Some (COAP_OK, w\<lparr>heap := h, pInteractions := pInteractions w @ [ia]\<rparr>)"
        using q(1) None req a Some by (simp add: CoAP_StartNewServerInteraction_def ia_def)
      have "trades (base_own m + {#}) (heap w) (base_own m + {#(p, sizeof_CoAP_Interaction)#}) h"
        using trades_frame_left[OF t(1), of "base_own m"] Some p by (simp add: ia_own_def new_interaction_def)
      from take_post[OF this assms(2)]
      have "trades (base_own m + {#}) (heap w) (ia_own h ia) h" using p by (simp add: ia_own_def ia_def new_interaction_def)
      moreover have "ia_ok (SocketCtrl w) (pResList w) ia"
        using assms(3-5) p by (simp add: ia_ok_def ia_def new_interaction_def)
      ultimately have "stack_inv ao aok (w\<lparr>heap := h, pInteractions := pInteractions w @ [ia]\<rparr>)"
        using inv_take[OF assms(1,2), of "{#}" "\<lambda>h. ias_own h (pInteractions w)" "ia_own h ia" h "pInteractions w @ [ia]"] all
        by auto
      then show ?thesis using e by simp
    qed
  qed
qed

subsection \<open>The paths of the reception\<close>

lemma reliability_outcome:
  assumes "stack_inv ao aok w" "CoAP_ApplyReliabilityStateToInteraction st mid i ep w = (q, w')"
  shows "stack_inv ao aok w'" "SocketCtrl w' = SocketCtrl w" "q = Some p \<Longrightarrow> \<exists>ia. get_ia p w' = Some ia"
proof -
  have "stack_inv ao aok w' \<and> SocketCtrl w' = SocketCtrl w \<and> (\<forall>p. q = Some p \<longrightarrow> (\<exists>ia. get_ia p w' = Some ia))"
  proof (cases "find (rel_matches mid ep) (pInteractions w)")
    case None
    then show ?thesis using assms by (simp add: CoAP_ApplyReliabilityStateToInteraction_def)
  next
    case (Some ia)
    then have "ia \<in> set (pInteractions w)" by (auto simp: find_Some_iff)
    then have g: "get_ia (ia_addr ia) w = Some ia" by (rule get_ia_member[OF inv_distinct(1)[OF assms(1)]])
    have "only_timers (set_reliability st)" by (simp add: only_timers_def set_reliability_def)
    from inv_timers[OF assms(1) g this] show ?thesis
      using assms(2) Some by (auto simp: CoAP_ApplyReliabilityStateToInteraction_def)
  qed
  then show "stack_inv ao aok w'" "SocketCtrl w' = SocketCtrl w" "q = Some p \<Longrightarrow> \<exists>ia. get_ia p w' = Some ia" by auto
qed

lemma on_ack_outcome:
  assumes "stack_inv (with_msg ao m) aok w" "inner m" "small_msg m"
  shows "outcome True (stack_inv ao aok) (on_ack i ep m w)"
proof -
  obtain q w1 where a: "CoAP_ApplyReliabilityStateToInteraction ACK_SET (MessageID m) i ep w = (q, w1)" by force
  note r = reliability_outcome[OF assms(1) a]
  note f = inv_finish[OF r(1) assms(2)]
  show ?thesis
  proof (cases q)
    case None
    then show ?thesis using f a by (simp add: on_ack_def)
  next
    case (Some p)
    then obtain ia where g: "get_ia p w1 = Some ia" using r(3) by blast
    have req: "pReqMsg ia \<noteq> None" if "Role ia = COAP_ROLE_CLIENT" using get_ia_ok[OF r(1) g] that by (simp add: ia_ok_def)
    show ?thesis
    proof (cases "Role ia = COAP_ROLE_CLIENT")
      case True
      then obtain old where old: "pReqMsg ia = Some old" using req by blast
      from attach_outcome[OF r(1) assms(2,3) g True] have "outcome True (stack_inv ao aok) (attach_response p m w1)"
        by (rule outcome_mono) auto
      then show ?thesis using a Some g True old f by (simp add: on_ack_def)
    next
      case False
      then show ?thesis using a Some g f by (simp add: on_ack_def)
    qed
  qed
qed

text \<open>A reply, then the message is released.\<close>

lemma reply_finish:
  assumes "outcome True (\<lambda>(r, w'). stack_inv (with_msg ao m) aok w' \<and> pInteractions w' = pInteractions w \<and>
      SocketCtrl w' = SocketCtrl w \<and> pResList w' = pResList w) q" "inner m"
  shows "outcome True (stack_inv ao aok) (q \<bind> (\<lambda>(_, w). Some (finish m w)))"
  by (rule outcome_bind[OF assms(1)]) (use inv_finish assms(2) in auto)

lemma on_request_outcome:
  assumes "stack_inv (with_msg ao m) aok w" "inner m" "small_msg m" "known_interface (SocketCtrl w) i"
    "has_handler (pResList w) res"
  shows "outcome True (stack_inv ao aok) (on_request env i pckt res m w)"
proof -
  from outcome_defined[OF StartNewServer_outcome[OF assms, of "drv env" pckt] TrueI]
  obtain r w1 where s: "CoAP_StartNewServerInteraction (drv env) m res i pckt w = Some (r, w1)"
    "r = COAP_OK \<Longrightarrow> stack_inv ao aok w1" "r \<noteq> COAP_OK \<Longrightarrow> stack_inv (with_msg ao m) aok w1" "SocketCtrl w1 = SocketCtrl w" by auto
  show ?thesis
  proof (cases "r = COAP_OK")
    case True
    then show ?thesis using s by (simp add: on_request_def)
  next
    case False
    have k: "known_interface (SocketCtrl w1) i" using assms(4) s(4) by simp
    from outcome_defined[OF short_replies(1)[OF s(3)[OF False] k,
        of "drv env" ACK RESP_INTERNAL_SERVER_ERROR_5_00 "MessageID m" "Token64 m" "Sender pckt"] TrueI]
    obtain r2 w2 where t: "CoAP_SendShortResp (drv env) ACK RESP_INTERNAL_SERVER_ERROR_5_00 (MessageID m) (Token64 m) i (Sender pckt) w1 = Some (r2, w2)"
      "stack_inv (with_msg ao m) aok w2" by auto
    show ?thesis using False s(1) t inv_finish[OF t(2) assms(2)] inv_finish[OF s(3)[OF False] assms(2)]
      by (simp add: on_request_def)
  qed
qed

lemma on_separate_outcome:
  assumes "stack_inv (with_msg ao m) aok w" "inner m" "small_msg m" "known_interface (SocketCtrl w) i"
  shows "outcome True (stack_inv ao aok) (on_separate_response env i ep m w)"
proof -
  have all: "\<forall>ia \<in> set (pInteractions w). ia_ok (SocketCtrl w) (pResList w) ia" using assms(1) by (simp add: stack_inv_def good_def)
  obtain q where q: "find_client (Token64 m) ep (pInteractions w) = Some q"
    "\<And>ia. q = Some ia \<Longrightarrow> ia \<in> set (pInteractions w) \<and> Role ia = COAP_ROLE_CLIENT"
    using find_client_defined[OF all] by metis
  show ?thesis
  proof (cases q)
    case None
    show ?thesis unfolding on_separate_response_def q(1) bind.bind_lunit None option.case
      by (rule reply_finish[OF short_replies(1)[OF assms(1,4)] assms(2)])
  next
    case (Some ia)
    then have g: "get_ia (ia_addr ia) w = Some ia" "Role ia = COAP_ROLE_CLIENT"
      using q(2) get_ia_member[OF inv_distinct(1)[OF assms(1)]] by auto
    have "outcome True (\<lambda>w'. stack_inv ao aok w' \<and> SocketCtrl w' = SocketCtrl w \<and> (\<exists>ia'. get_ia (ia_addr ia) w' = Some ia'))
      (if State ia = COAP_STATE_WAITING_RESPONSE \<or> State ia = COAP_STATE_HANDLE_RESPONSE
       then attach_response (ia_addr ia) m w else Some w)"
      using attach_outcome[OF assms(1-3) g] inv_lose[OF assms(1,2)] g(1) by simp
    then obtain w1 ia1 where w1: "(if State ia = COAP_STATE_WAITING_RESPONSE \<or> State ia = COAP_STATE_HANDLE_RESPONSE
       then attach_response (ia_addr ia) m w else Some w) = Some w1" "stack_inv ao aok w1" "SocketCtrl w1 = SocketCtrl w"
      "get_ia (ia_addr ia) w1 = Some ia1" by (auto dest: outcome_defined)
    have k: "known_interface (SocketCtrl w1) i" using assms(4) w1(3) by simp
    from outcome_defined[OF short_replies(1)[OF w1(2) k, of "drv env" ACK EMPTY "MessageID m" "Token64 m" ep] TrueI]
    obtain r w2 where s: "CoAP_SendShortResp (drv env) ACK EMPTY (MessageID m) (Token64 m) i ep w1 = Some (r, w2)"
      "stack_inv ao aok w2" "pInteractions w2 = pInteractions w1" by auto
    have "get_ia (ia_addr ia) w2 = Some ia1" using w1(4) s(3) by (simp add: get_ia_def)
    from inv_timers(1)[OF s(2) this, of "\<lambda>i. i\<lparr>RespReliabilityState := ACK_SET\<rparr>"]
    show ?thesis unfolding on_separate_response_def q(1) bind.bind_lunit Some option.case w1(1)
      using s(1,2) w1(2) by simp
  qed
qed

subsection \<open>A datagram\<close>

lemma handle_message_outcome:
  assumes "stack_inv (with_msg ao m) aok w" "inner m" "small_msg m" "known_interface (SocketCtrl w) i"
  shows "outcome True (stack_inv ao aok) (handle_message env i pckt m w)"
proof -
  note reply = reply_finish[OF short_replies(1)[OF assms(1,4)] assms(2)] reply_finish[OF short_replies(2)[OF assms(1,4)] assms(2)]
  note f = inv_finish[OF assms(1,2)]
  obtain mid w1 where g: "CoAP_GetNextMid w = (mid, w1)" by force
  obtain lm where w1: "w1 = w\<lparr>lastMId := lm\<rparr>" using GetNextMid_same[OF g] by blast
  have "stack_inv (with_msg ao m) aok w1" "known_interface (SocketCtrl w1) i" using assms(1,4) w1 by simp_all
  note reply1 = reply_finish[OF short_replies(1)[OF this] assms(2)]
  have nf: "outcome True (stack_inv ao aok) (not_found_reply env i (Sender pckt) m w)"
    using reply(1) reply1 g by (simp add: not_found_reply_def)
  have cr: "outcome True (stack_inv ao aok) (critical_reply env i (Sender pckt) m w)"
    using reply f by (simp add: critical_reply_def)
  let ?res = "CoAP_FindResourceByUri [] (pOptionsList m) w"
  have found: "has_handler (pResList w) (Some (res_addr r))" if "?res = Some r" "Handler r \<noteq> None" for r
    using that by (auto simp: CoAP_FindResourceByUri_def find_Some_iff has_handler_def)
  have di: "outcome True (stack_inv ao aok) (dispatch env i pckt (if CoAP_MsgIsRequest m then map_option res_addr ?res else None) m w)"
    if "CoAP_MsgIsRequest m \<longrightarrow> (\<exists>r. ?res = Some r \<and> Handler r \<noteq> None)"
  proof -
    obtain q w2 where a: "CoAP_ApplyReliabilityStateToInteraction RST_SET (MessageID m) i (Sender pckt) w = (q, w2)" by force
    have rst: "stack_inv ao aok (finish m w2)" by (rule inv_finish[OF reliability_outcome(1)[OF assms(1) a] assms(2)])
    have rq: "outcome True (stack_inv ao aok) (on_request env i pckt (map_option res_addr ?res) m w)" if "CoAP_MsgIsRequest m"
      using on_request_outcome[OF assms] found that \<open>CoAP_MsgIsRequest m \<longrightarrow> _\<close> by auto
    show ?thesis unfolding dispatch_def
      using rst a on_ack_outcome[OF assms(1-3)] rq on_separate_outcome[OF assms] by (cases "Type m") simp_all
  qed
  show ?thesis unfolding handle_message_def Let_def
    using reply f nf cr di by (auto split: option.splits)
qed

text \<open>A datagram the parser does not read past its end (for others it may, as a property of Message_Props shows).\<close>

definition complete_datagram :: "NetPacket \<Rightarrow> bool" where
  "complete_datagram pckt \<longleftrightarrow> unat (pkt_size pckt) \<le> 65530 \<and>
     (4 \<le> unat (pkt_size pckt) \<longrightarrow> 4 + unat (pData pckt 0 AND 15) \<le> unat (pkt_size pckt))"

lemma parse_copy_inner:
  "parse_copy src k M w = (res, Some m, w') \<Longrightarrow> Payload M = None \<Longrightarrow> inner m"
  by (cases "PayloadLength M = 0") (auto simp: parse_copy_def Let_def inner_def split: option.splits prod.splits)

lemma parse_inner:
  assumes "CoAP_ParseMessageFromDatagram src n w = Some (res, Some m, w')"
  shows "inner m"
proof (cases "n < 4 \<or> drop_bit 6 (src 0) \<noteq> COAP_VERSION \<or> unat (src 0 AND 15) > 8 \<or> \<not> valid_code (src 1)")
  case True
  then have "\<exists>res. CoAP_ParseMessageFromDatagram src n w = Some (res, None, w)"
    by (auto simp: CoAP_ParseMessageFromDatagram_def Let_def valid_code_def)
  then show ?thesis using assms by auto
next
  case False
  have "inner m" if p: "parse_rest src n off M w = Some (res, Some m, w')" and M: "Payload M = None" for off M
  proof -
    have "inner m" if "parse_copy src k (M\<lparr>pOptionsList := opts, PayloadLength := pl, PayloadBufSize := pl\<rparr>) v = (res, Some m, w')" for k opts pl v
      using parse_copy_inner[OF that] M by simp
    then show ?thesis using p by (auto simp: parse_rest_def Let_def split: option.splits if_splits)
  qed
  moreover have "inner m" if "(res, Some m, w') = parse_copy src 0 (header_msg T C mid tok) w" for T C mid tok
    using parse_copy_inner[OF that[symmetric]] by simp
  ultimately show ?thesis using parse_header[of n src w] False assms by (auto split: if_splits)
qed

lemma onNewPacket_outcome:
  assumes "stack_inv ao aok w" "known_interface (SocketCtrl w) i" "complete_datagram pckt"
  shows "outcome True (stack_inv ao aok) (CoAP_onNewPacketHandler env i pckt w)"
proof -
  obtain L where L: "heap_inv (heap w) L" using inv_heap_inv[OF assms(1)] by blast
  obtain res r w1 where p: "CoAP_ParseMessageFromDatagram (pData pckt) (pkt_size pckt) w = Some (res, r, w1)"
    "parse_outcome (heap w1) L (rtc_1Hz w) res r" "w1 = w\<lparr>heap := heap w1\<rparr>"
    using parse_heap[OF L, of "pkt_size pckt" "pData pckt"] assms(3) unfolding complete_datagram_def by blast
  note t = parse_trades[OF p(1)]
  show ?thesis
  proof (cases r)
    case None
    have "stack_inv ao aok (w\<lparr>heap := heap w1\<rparr>)" using inv_heap[OF assms(1)] t None by simp
    then have "stack_inv ao aok w1" using p(3) by simp
    then show ?thesis using p(1,2) None by (simp add: CoAP_onNewPacketHandler_def parse_outcome_def)
  next
    case (Some m)
    have i: "inner m" using parse_inner p(1) Some by blast
    have sm: "small_msg m" using p(2) Some by (auto simp: parse_outcome_def small_msg_def MAX_PAYLOAD_SIZE_def)
    have "stack_inv (with_msg ao m) aok (w\<lparr>heap := heap w1\<rparr>)" using inv_with[OF assms(1) _ i] t Some by simp
    then have s: "stack_inv (with_msg ao m) aok w1" using p(3) by simp
    have "SocketCtrl w1 = SocketCtrl w" by (subst p(3)) simp
    then show ?thesis using handle_message_outcome[OF s i sm] assms(2) p(1,2) Some
      by (simp add: CoAP_onNewPacketHandler_def parse_outcome_def)
  qed
qed

end
