(* ===== verification/App_Resources.thy ===== *)
theory App_Resources imports Coap_Main "HOL-Library.Char_ord" begin

section \<open>The server's resources (\<open>src/coap/server/resources\<close>)\<close>

text \<open>
  The handlers and notifiers of the six resources the server creates, and the record of their static
  data. What the SDK of the ESP8266 answers (the addresses of its interfaces, the stored access
  point, whether it accepts a new one, the radio scan) is the record \<open>sdk\<close>: the source only calls these
  functions. Strings are lists of bytes; \<open>str\<close> turns a literal into bytes. The source pointer of a
  volatile payload is not kept by \<open>CoAP_SetPayload\<close>, so it is written as 0.
\<close>

definition str :: "string \<Rightarrow> u8 list" where
  "str s = map of_char s"

definition crlf :: "u8 list" where
  "crlf = [13, 10]"

text \<open>The format \<open>%d\<close>.\<close>

definition decimal :: "int \<Rightarrow> u8 list" where
  "decimal n = (if n < 0 then 45 # digits (nat (- n)) else digits (nat n))"

subsection \<open>Data\<close>

definition RESP_SUCCESS_CHANGED_2_04 :: u8 where "RESP_SUCCESS_CHANGED_2_04 = CODE 2 4"
definition RESP_ERROR_UNAUTHORIZED_4_01 :: u8 where "RESP_ERROR_UNAUTHORIZED_4_01 = CODE 4 1"

record sdk =
  station_ip :: "(u8 \<times> u8 \<times> u8 \<times> u8) option"
  softap_ip :: "(u8 \<times> u8 \<times> u8 \<times> u8) option"
  station_config :: "(u8 list \<times> u8 list) option"
  accepts_config :: bool
  scanning :: bool
  gpio12 :: bool

record server_app =
  LedState :: bool
  pLed_Res :: "addr option"
  pRTC_Res :: "addr option"
  pAbout_Res :: "addr option"
  pWifi_ip_Res :: "addr option"
  pWifi_Res :: "addr option"
  pWifi_scan_Res :: "addr option"
  lastScanResultLen :: int
  pScanResultStr :: "addr option"
  scanResult :: memory
  ScanState :: u8
  CoapInfoStringInFlash :: addr
  sdk_state :: sdk

definition SCAN_STATE_IDLE :: u8 where "SCAN_STATE_IDLE = 0"
definition SCAN_STATE_RUNNING :: u8 where "SCAN_STATE_RUNNING = 1"
definition SCAN_STATE_DONE_OK :: u8 where "SCAN_STATE_DONE_OK = 2"
definition SCAN_STATE_DONE_FAIL :: u8 where "SCAN_STATE_DONE_FAIL = 3"

definition LED_HANDLER :: fnptr where "LED_HANDLER = 1"
definition LED_NOTIFIER :: fnptr where "LED_NOTIFIER = 2"
definition RTC_HANDLER :: fnptr where "RTC_HANDLER = 3"
definition RTC_NOTIFIER :: fnptr where "RTC_NOTIFIER = 4"
definition ABOUT_HANDLER :: fnptr where "ABOUT_HANDLER = 5"
definition WIFI_IP_HANDLER :: fnptr where "WIFI_IP_HANDLER = 6"
definition WIFI_CONFIG_HANDLER :: fnptr where "WIFI_CONFIG_HANDLER = 7"
definition WIFI_SCAN_HANDLER :: fnptr where "WIFI_SCAN_HANDLER = 8"

definition set_text :: "CoAP_Message option \<Rightarrow> CoAP_Message \<Rightarrow> u8 list \<Rightarrow> bget_state \<Rightarrow> (CoAP_Message \<times> bget_state) option" where
  "set_text pReq pResp text h =
     map_option snd (CoAP_SetPayload pReq pResp 0 (mem_of text) (of_nat (length text)) True h)"

subsection \<open>The LED (\<open>led_res.c\<close>)\<close>

text \<open>The observers are notified before the new state is stored.\<close>

definition led :: "server_app env \<Rightarrow> bool \<Rightarrow> server_app coap \<Rightarrow> server_app coap option" where
  "led env onOff w =
    do {
      let w = w\<lparr>app := (app w)\<lparr>sdk_state := (sdk_state (app w))\<lparr>gpio12 := onOff\<rparr>\<rparr>\<rparr>;
      (if LedState (app w) \<noteq> onOff then
         do {
           p \<leftarrow> pLed_Res (app w);
           (_, w) \<leftarrow> CoAP_NotifyResourceObservers env p w;
           Some (w\<lparr>app := (app w)\<lparr>LedState := onOff\<rparr>\<rparr>)
         }
       else Some w)
    }"

definition led_text :: "bool \<Rightarrow> u8 list" where
  "led_text b = (if b then str ''Led is on!'' else str ''Led is off!'')"

definition SetLedstatePayload ::
  "CoAP_Message option \<Rightarrow> CoAP_Message \<Rightarrow> server_app coap \<Rightarrow> (CoAP_Message \<times> bget_state) option" where
  "SetLedstatePayload pReq pResp w = set_text pReq pResp (led_text (LedState (app w))) (heap w)"

text \<open>The first option that is one of the three commands, as its number.\<close>

fun led_command :: "options \<Rightarrow> nat" where
  "led_command [] = 0"
| "led_command (pOpt # opts) =
    (let n = CoAP_FindUriQueryVal (Some pOpt) [] [str ''on'', str ''off'', str ''tgl'']
     in if n = 0 then led_command opts else n)"

definition led_usage :: "u8 list" where
  "led_usage = str ''usage: coap://.../led_gpio12?on (or '' @ [34] @ str ''off'' @ [34] @ str '', '' @ [34] @ str ''tgl'' @ [34] @ str '')''"

definition led_Res_ReqHandler ::
  "server_app env \<Rightarrow> CoAP_Message \<Rightarrow> CoAP_Message \<Rightarrow> server_app coap \<Rightarrow>
     (CoAP_HandlerResult_t \<times> CoAP_Message \<times> server_app coap) option" where
  "led_Res_ReqHandler env pReq pResp w =
    (if Code pReq = REQ_POST then
       (let n = led_command (pOptionsList pReq)
        in if n \<noteq> 0 then
             do {
               w \<leftarrow> (if n = 1 then led env True w
                    else if n = 2 then led env False w
                    else led env (\<not> LedState (app w)) w);
               (pResp, h) \<leftarrow> SetLedstatePayload (Some pReq) pResp w;
               Some (HANDLER_OK, pResp, w\<lparr>heap := h\<rparr>)
             }
           else
             do {
               (pResp, h) \<leftarrow> set_text (Some pReq) pResp led_usage (heap w);
               Some (HANDLER_OK, pResp\<lparr>Code := RESP_ERROR_BAD_REQUEST_4_00\<rparr>, w\<lparr>heap := h\<rparr>)
             })
     else if Code pReq = REQ_GET then
       do {
         (pResp, h) \<leftarrow> SetLedstatePayload (Some pReq) pResp w;
         Some (HANDLER_OK, pResp, w\<lparr>heap := h\<rparr>)
       }
     else Some (HANDLER_OK, pResp, w))"

definition led_Res_NotifyHandler ::
  "CoAP_Message \<Rightarrow> server_app coap \<Rightarrow> (CoAP_HandlerResult_t \<times> CoAP_Message \<times> bget_state) option" where
  "led_Res_NotifyHandler pResp w =
    do { (pResp, h) \<leftarrow> SetLedstatePayload None pResp w; Some (HANDLER_OK, pResp, h) }"

definition Create_Led_Resource :: "server_app env \<Rightarrow> server_app coap \<Rightarrow> (addr option \<times> server_app coap) option" where
  "Create_Led_Resource env w =
    do {
      w \<leftarrow> led env (LedState (app w)) w;
      (p, w) \<leftarrow> CoAP_CreateResource (Some (str ''esp8266/led_gpio12'')) (str ''LED at GPIO12'')
                 \<lparr>Cf = COAP_CF_TEXT_PLAIN, Flags = RES_OPT_POST OR RES_OPT_GET, ETag = 0\<rparr>
                 (Some LED_HANDLER) (Some LED_NOTIFIER) w;
      Some (p, w\<lparr>app := (app w)\<lparr>pLed_Res := p\<rparr>\<rparr>)
    }"

subsection \<open>The clock (\<open>rtc_res.c\<close>)\<close>

definition rtc_text :: "u32 \<Rightarrow> u8 list" where
  "rtc_text t = decimal (sint t) @ str '' [s]''"

definition rtc_RequestHandler ::
  "CoAP_Message \<Rightarrow> CoAP_Message \<Rightarrow> server_app coap \<Rightarrow> (CoAP_HandlerResult_t \<times> CoAP_Message \<times> server_app coap) option" where
  "rtc_RequestHandler pReq pResp w =
    do {
      (pResp, h) \<leftarrow> set_text (Some pReq) pResp (rtc_text (rtc_1Hz w)) (heap w);
      Some (HANDLER_OK, pResp, w\<lparr>heap := h\<rparr>)
    }"

definition rtc_NotifyHandler ::
  "CoAP_Message \<Rightarrow> server_app coap \<Rightarrow> (CoAP_HandlerResult_t \<times> CoAP_Message \<times> bget_state) option" where
  "rtc_NotifyHandler pResp w =
    do { (pResp, h) \<leftarrow> set_text None pResp (rtc_text (rtc_1Hz w)) (heap w); Some (HANDLER_OK, pResp, h) }"

text \<open>The timer's callback, once a second.\<close>

definition rtc_notify_cb :: "server_app env \<Rightarrow> server_app coap \<Rightarrow> server_app coap option" where
  "rtc_notify_cb env w = do { p \<leftarrow> pRTC_Res (app w); (_, w) \<leftarrow> CoAP_NotifyResourceObservers env p w; Some w }"

definition Create_RTC_Resource :: "server_app coap \<Rightarrow> (addr option \<times> server_app coap) option" where
  "Create_RTC_Resource w =
    do {
      (p, w) \<leftarrow> CoAP_CreateResource (Some (str ''/rtc'')) (str ''esp8266 RTC'')
                 \<lparr>Cf = COAP_CF_TEXT_PLAIN, Flags = RES_OPT_GET, ETag = 0\<rparr> (Some RTC_HANDLER) (Some RTC_NOTIFIER) w;
      Some (p, w\<lparr>app := (app w)\<lparr>pRTC_Res := p\<rparr>\<rparr>)
    }"

subsection \<open>A large constant text (\<open>about_res.c\<close>)\<close>

definition about_text :: "u8 list" where
  "about_text =
     str ''The Constrained Application Protocol (CoAP) is a specialized web transfer protocol for use with constrained nodes and constrained (e.g., low-power, lossy) networks.  The nodes often have 8-bit microcontrollers with small amounts of ROM and RAM, while constrained networks such as IPv6 over Low-Power Wireless Personal Area Networks (6LoWPANs) often have high packet error rates and a typical throughput of 10s of kbit/s.  The protocol is designed for machine- to-machine (M2M) applications such as smart energy and building automation.'' @ crlf @ crlf @
     str ''CoAP provides a request/response interaction model between application endpoints, supports built-in discovery of services and resources, and includes key concepts of the Web such as URIs and Internet media types.  CoAP is designed to easily interface with HTTP for integration with the Web while meeting specialized requirements such as multicast support, very low overhead, and simplicity for constrained environments.''"

definition about_RequestHandler ::
  "CoAP_Message \<Rightarrow> CoAP_Message \<Rightarrow> server_app coap \<Rightarrow> (CoAP_HandlerResult_t \<times> CoAP_Message \<times> server_app coap) option" where
  "about_RequestHandler pReq pResp w =
    do {
      (_, pResp, h) \<leftarrow> CoAP_SetPayload (Some pReq) pResp (CoapInfoStringInFlash (app w)) (mem_of about_text)
                         (of_nat (length about_text)) False (heap w);
      Some (HANDLER_OK, pResp, w\<lparr>heap := h\<rparr>)
    }"

definition Create_About_Resource :: "server_app coap \<Rightarrow> (addr option \<times> server_app coap) option" where
  "Create_About_Resource w =
    do {
      (p, w) \<leftarrow> CoAP_CreateResource (Some (str ''about/coap'')) (str ''CoAP Description'')
                 \<lparr>Cf = COAP_CF_TEXT_PLAIN, Flags = RES_OPT_GET, ETag = 0\<rparr> (Some ABOUT_HANDLER) None w;
      Some (p, w\<lparr>app := (app w)\<lparr>pAbout_Res := p\<rparr>\<rparr>)
    }"

subsection \<open>The addresses of the interfaces (\<open>wifi_ip.c\<close>)\<close>

definition ip_line :: "u8 list \<Rightarrow> (u8 \<times> u8 \<times> u8 \<times> u8) option \<Rightarrow> u8 list" where
  "ip_line name ip =
    (case ip of
       None \<Rightarrow> []
     | Some (a, b, c, d) \<Rightarrow>
         name @ decimal (uint a) @ str ''.'' @ decimal (uint b) @ str ''.'' @ decimal (uint c) @ str ''.'' @
         decimal (uint d) @ crlf)"

definition wifi_ip_RequestHandler ::
  "CoAP_Message \<Rightarrow> CoAP_Message \<Rightarrow> server_app coap \<Rightarrow> (CoAP_HandlerResult_t \<times> CoAP_Message \<times> server_app coap) option" where
  "wifi_ip_RequestHandler pReq pResp w =
    (let s = sdk_state (app w);
         text = ip_line (str ''Station: '') (station_ip s) @ ip_line (str ''SoftAP: '') (softap_ip s)
     in if text \<noteq> [] then
          do {
            (pResp, h) \<leftarrow> set_text (Some pReq) pResp text (heap w);
            Some (HANDLER_OK, pResp, w\<lparr>heap := h\<rparr>)
          }
        else Some (HANDLER_OK, pResp\<lparr>Code := RESP_INTERNAL_SERVER_ERROR_5_00\<rparr>, w))"

definition Create_Wifi_IPs_Resource :: "server_app coap \<Rightarrow> (addr option \<times> server_app coap) option" where
  "Create_Wifi_IPs_Resource w =
    do {
      (p, w) \<leftarrow> CoAP_CreateResource (Some (str ''wifi/ipconfig'')) (str ''ESP8266 IP configuration'')
                 \<lparr>Cf = COAP_CF_TEXT_PLAIN, Flags = RES_OPT_GET, ETag = 0\<rparr> (Some WIFI_IP_HANDLER) None w;
      Some (p, w\<lparr>app := (app w)\<lparr>pWifi_ip_Res := p\<rparr>\<rparr>)
    }"


subsection \<open>The access point's credentials (\<open>wifi_cfg_res.c\<close>)\<close>

definition WIFI_RES_KEY :: "u8 list" where "WIFI_RES_KEY = str ''123''"
definition SSID_QUERY_PREFIX :: "u8 list" where "SSID_QUERY_PREFIX = str ''ssid=''"
definition PW_QUERY_PREFIX :: "u8 list" where "PW_QUERY_PREFIX = str ''pw=''"

definition wifi_usage :: "u8 list" where
  "wifi_usage = str ''Usage: coap://[host:port]/[...]/?key=KEY&'' @ SSID_QUERY_PREFIX @ str ''WIFI-SSID&'' @
     PW_QUERY_PREFIX @ str ''WIFI-PASSWORD'' @ crlf @ str ''Use only over softAP connection!''"

definition key_ok :: "options \<Rightarrow> bool" where
  "key_ok opts \<longleftrightarrow> list_ex (\<lambda>pOpt. CoAP_FindUriQueryVal (Some pOpt) (str ''key='') [WIFI_RES_KEY] \<noteq> 0) opts"

text \<open>
  The body of the loop over the options, with what has been found so far. A value stored as a C string
  ends at its first zero.
\<close>

definition c_string :: "u8 list \<Rightarrow> u8 list" where
  "c_string s = takeWhile (\<lambda>c. c \<noteq> 0) s"

definition take_value :: "u8 list \<Rightarrow> u8 \<Rightarrow> CoAP_option \<Rightarrow> u8 list option \<Rightarrow> u8 list option" where
  "take_value prefix bound pOpt found =
    (if found = None
     then (case CoAP_GetUriQueryVal (Some pOpt) prefix of
             None \<Rightarrow> None
           | Some (v, n) \<Rightarrow> if n < bound then Some (c_string (take (unat n) v)) else None)
     else None)"

fun wifi_params :: "options \<Rightarrow> u8 list option \<Rightarrow> u8 list option \<Rightarrow> u8 list option \<times> u8 list option" where
  "wifi_params [] ssid pw = (ssid, pw)"
| "wifi_params (pOpt # opts) ssid pw =
    (case take_value SSID_QUERY_PREFIX 32 pOpt ssid of
       Some v \<Rightarrow> wifi_params opts (Some v) pw
     | None \<Rightarrow>
         (case take_value PW_QUERY_PREFIX 64 pOpt pw of
            Some v \<Rightarrow> wifi_params opts ssid (Some v)
          | None \<Rightarrow> wifi_params opts ssid pw))"

definition config_text :: "u8 list \<Rightarrow> u8 list \<Rightarrow> u8 list" where
  "config_text ssid pw = SSID_QUERY_PREFIX @ ssid @ str '','' @ PW_QUERY_PREFIX @ pw"

text \<open>
  The answer to a GET. A bigger buffer is asked for when the offered one is too small; the payload
  pointer is moved to it, the size of the buffer is not. \<open>TotalLength\<close> is the length of the text, and
  \<open>os_sprintf\<close> writes a zero behind it: undefined, when that byte is outside the offered buffer, or outside
  the block that the allocator has handed out (\<open>bsize\<close>).
\<close>

definition wifi_config_get ::
  "u8 list \<Rightarrow> u8 list \<Rightarrow> CoAP_Message \<Rightarrow> CoAP_Message \<Rightarrow> server_app coap \<Rightarrow>
     (CoAP_HandlerResult_t \<times> CoAP_Message \<times> server_app coap) option" where
  "wifi_config_get ssid pw pReq pResp w =
    (let TotalLength = length ssid + length pw + length SSID_QUERY_PREFIX + length PW_QUERY_PREFIX + 1;
         (ok, room, pResp, h) =
           (if unat (PayloadBufSize pResp) < TotalLength
            then (case coap_mem_get (int TotalLength) (heap w) of
                    (None, h) \<Rightarrow> (False, 0, pResp, h)
                  | (Some p, h) \<Rightarrow> (True, bsize (Some p) h, pResp\<lparr>Payload := Some p, PayloadData := (\<lambda>_. 0)\<rparr>, h))
            else (True, int (unat (PayloadBufSize pResp)), pResp, heap w))
     in if \<not> ok then Some (HANDLER_ERROR, pResp, w\<lparr>heap := h\<rparr>)
        else
          do {
            p \<leftarrow> Payload pResp;
            let text = config_text ssid pw @ [0];
            (if int (length text) > room then None else Some ());
            let pResp = pResp\<lparr>PayloadData := memcpy (PayloadData pResp) (mem_of text) (length text)\<rparr>;
            (_, pResp, h) \<leftarrow> CoAP_SetPayload (Some pReq) pResp p (PayloadData pResp) (of_nat TotalLength) False h;
            Some (HANDLER_OK, pResp, w\<lparr>heap := h\<rparr>)
          })"

definition wifi_config_put ::
  "u8 list \<Rightarrow> u8 list \<Rightarrow> CoAP_Message \<Rightarrow> CoAP_Message \<Rightarrow> server_app coap \<Rightarrow>
     (CoAP_HandlerResult_t \<times> CoAP_Message \<times> server_app coap) option" where
  "wifi_config_put ssid pw pReq pResp w =
    (case wifi_params (pOptionsList pReq) None None of
       (Some ssid, Some pw) \<Rightarrow>
         (let s = sdk_state (app w)
          in if accepts_config s
             then Some (HANDLER_OK, pResp\<lparr>Code := RESP_SUCCESS_CHANGED_2_04\<rparr>,
                        w\<lparr>app := (app w)\<lparr>sdk_state := s\<lparr>station_config := Some (ssid, pw)\<rparr>\<rparr>\<rparr>)
             else Some (HANDLER_ERROR, pResp, w))
     | _ \<Rightarrow>
         do {
           (pResp, h) \<leftarrow> set_text (Some pReq) pResp wifi_usage (heap w);
           Some (HANDLER_OK, pResp\<lparr>Code := RESP_ERROR_BAD_REQUEST_4_00\<rparr>, w\<lparr>heap := h\<rparr>)
         })"

definition ResWifi_ReqHandler ::
  "CoAP_Message \<Rightarrow> CoAP_Message \<Rightarrow> server_app coap \<Rightarrow> (CoAP_HandlerResult_t \<times> CoAP_Message \<times> server_app coap) option" where
  "ResWifi_ReqHandler pReq pResp w =
    (case station_config (sdk_state (app w)) of
       None \<Rightarrow> Some (HANDLER_ERROR, pResp, w)
     | Some (ssid, pw) \<Rightarrow>
         if \<not> key_ok (pOptionsList pReq) then
           do {
             (pResp, h) \<leftarrow> set_text (Some pReq) pResp wifi_usage (heap w);
             Some (HANDLER_OK, pResp\<lparr>Code := RESP_ERROR_UNAUTHORIZED_4_01\<rparr>, w\<lparr>heap := h\<rparr>)
           }
         else if Code pReq = REQ_GET then wifi_config_get ssid pw pReq pResp w
         else if Code pReq = REQ_PUT then wifi_config_put ssid pw pReq pResp w
         else Some (HANDLER_OK, pResp, w))"

definition Create_Wifi_Config_Resource :: "server_app coap \<Rightarrow> (addr option \<times> server_app coap) option" where
  "Create_Wifi_Config_Resource w =
    do {
      (p, w) \<leftarrow> CoAP_CreateResource (Some (str ''wifi/config'')) (str ''WIFI-Parameter (protected by key)'')
                 \<lparr>Cf = COAP_CF_TEXT_PLAIN, Flags = RES_OPT_GET OR RES_OPT_PUT, ETag = 0\<rparr> (Some WIFI_CONFIG_HANDLER) None w;
      Some (p, w\<lparr>app := (app w)\<lparr>pWifi_Res := p\<rparr>\<rparr>)
    }"

subsection \<open>The scan for access points (\<open>wifi_scan_res.c\<close>)\<close>

text \<open>
  What the SDK hands to \<open>scan_done\<close>: the found stations, without the first, invalid, one. \<open>mac_text\<close> is the
  SDK's format of a hardware address. Every line is first written into a buffer of 128 bytes, to count the
  length of the result; then a buffer of just that length is asked for, and the lines are written into it. A
  zero follows each line; the last one is behind the counted length, so it is undefined where it goes when the
  allocator's block (\<open>bsize\<close>) has no byte left for it.
\<close>

record bss_info =
  authmode :: int
  bss_ssid :: "u8 list"
  bss_rssi :: int
  bssid :: "u8 list"
  channel :: u8

datatype scan_status = SCAN_OK | SCAN_FAIL | SCAN_CANCEL | SCAN_PENDING | SCAN_BUSY

definition bss_line :: "(u8 list \<Rightarrow> u8 list) \<Rightarrow> bss_info \<Rightarrow> u8 list" where
  "bss_line mac_text b = str ''('' @ decimal (authmode b) @ str '','' @ [34] @ take 32 (c_string (bss_ssid b)) @ [34] @ str '','' @
     decimal (bss_rssi b) @ str '','' @ [34] @
     mac_text (bssid b) @ [34] @ str '','' @
     decimal (uint (channel b)) @ str '')'' @ crlf"

definition sizeof_temp :: nat where "sizeof_temp = 128"

definition scan_done :: "(u8 list \<Rightarrow> u8 list) \<Rightarrow> bss_info list \<Rightarrow> scan_status \<Rightarrow> server_app coap \<Rightarrow> server_app coap option" where
  "scan_done mac_text stations status w =
    (if status = SCAN_OK then
       (let text = concat (map (bss_line mac_text) stations);
            (p, h) = coap_mem_get0 (int (length text)) (heap w)
        in if \<not> list_all (\<lambda>b. length (bss_line mac_text b) < sizeof_temp) stations then None
           else if stations \<noteq> [] \<and> (p = None \<or> int (length text) + 1 > bsize p h) then None
           else Some (w\<lparr>heap := h, app := (app w)\<lparr>lastScanResultLen := int (length text), pScanResultStr := p,
                        scanResult := mem_of text, ScanState := SCAN_STATE_DONE_OK\<rparr>\<rparr>))
     else if status = SCAN_FAIL \<or> status = SCAN_CANCEL
     then Some (w\<lparr>app := (app w)\<lparr>ScanState := SCAN_STATE_DONE_FAIL\<rparr>\<rparr>)
     else Some w)"

text \<open>
  The diagnostic text of a blockwise request is written over the scan's result; whether there is room is asked
  of the response's own buffer, not of the one that is written.
\<close>

definition blk2_text :: "int \<Rightarrow> u8 list" where
  "blk2_text n = str ''blk2 n/a ['' @ decimal n @ str '']''"

definition wifi_scan_Res_ReqHandler ::
  "CoAP_Message \<Rightarrow> CoAP_Message \<Rightarrow> server_app coap \<Rightarrow> (CoAP_HandlerResult_t \<times> CoAP_Message \<times> server_app coap) option" where
  "wifi_scan_Res_ReqHandler pReq pResp w =
    (let a = app w
     in if Code pReq = REQ_GET then
          (if ScanState a = SCAN_STATE_IDLE
           then Some (HANDLER_POSTPONE, pResp,
                      w\<lparr>app := a\<lparr>sdk_state := (sdk_state a)\<lparr>scanning := True\<rparr>, ScanState := SCAN_STATE_RUNNING\<rparr>\<rparr>)
           else if ScanState a = SCAN_STATE_RUNNING then Some (HANDLER_POSTPONE, pResp, w)
           else if ScanState a = SCAN_STATE_DONE_OK then
             (let w = w\<lparr>app := a\<lparr>ScanState := SCAN_STATE_IDLE\<rparr>\<rparr>;
                  pResp = pResp\<lparr>Payload := pScanResultStr a, PayloadData := scanResult a,
                                PayloadLength := of_int (lastScanResultLen a)\<rparr>;
                  (found, B2opt) = GetBlock2OptionFromMsg pReq \<lparr>BlkType = 0, BlockSize = 0, MoreFlag = False, BlockNum = 0\<rparr>
              in if found = COAP_OK \<and> sint (BlockSize B2opt) < lastScanResultLen a then
                   (let pResp = pResp\<lparr>Code := RESP_BAD_OPTION_4_02\<rparr>;
                        text = blk2_text (lastScanResultLen a) @ [0]
                    in if PayloadBufSize pResp > 16 then
                         (if int (length text) > bsize (Payload pResp) (heap w) then None
                          else Some (HANDLER_OK,
                                     pResp\<lparr>PayloadData := memcpy (PayloadData pResp) (mem_of text) (length text),
                                           PayloadLength := of_nat (length text - 1)\<rparr>, w))
                       else Some (HANDLER_OK, pResp, w))
                 else Some (HANDLER_OK, pResp, w))
           else if ScanState a = SCAN_STATE_DONE_FAIL
           then Some (HANDLER_ERROR, pResp, w\<lparr>app := a\<lparr>ScanState := SCAN_STATE_IDLE\<rparr>\<rparr>)
           else Some (HANDLER_ERROR, pResp, w))
        else Some (HANDLER_ERROR, pResp, w))"

definition Create_Wifi_Scan_Resource :: "server_app coap \<Rightarrow> (addr option \<times> server_app coap) option" where
  "Create_Wifi_Scan_Resource w =
    do {
      (p, w) \<leftarrow> CoAP_CreateResource (Some (str ''wifi/scan'')) (str ''result of wifi network scan'')
                 \<lparr>Cf = COAP_CF_TEXT_PLAIN, Flags = RES_OPT_GET, ETag = 0\<rparr> (Some WIFI_SCAN_HANDLER) None w;
      Some (p, w\<lparr>app := (app w)\<lparr>pWifi_scan_Res := p\<rparr>\<rparr>)
    }"

subsection \<open>The function pointers\<close>

text \<open>
  What a call through each function pointer does. The notifiers come first, since the LED's handler
  starts notifications. A pointer to no function of the program is undefined; the server registers no
  callback for responses.
\<close>

definition notifier_env :: "driver \<Rightarrow> server_app env" where
  "notifier_env d =
    \<lparr>drv = d,
     call_handler = (\<lambda>f pReq pResp w. None),
     call_notifier = (\<lambda>f ob pResp w.
       if f = LED_NOTIFIER then led_Res_NotifyHandler pResp w
       else if f = RTC_NOTIFIER then rtc_NotifyHandler pResp w
       else None),
     call_callback = (\<lambda>f pResp ep w. None)\<rparr>"

definition server_env :: "driver \<Rightarrow> addr \<Rightarrow> server_app env" where
  "server_env d err_addr = (notifier_env d)
    \<lparr>call_handler := (\<lambda>f pReq pResp w.
       if f = WELL_KNOWN then WellKnown_GetHandler err_addr pReq pResp w
       else if f = LED_HANDLER then led_Res_ReqHandler (notifier_env d) pReq pResp w
       else if f = RTC_HANDLER then rtc_RequestHandler pReq pResp w
       else if f = ABOUT_HANDLER then about_RequestHandler pReq pResp w
       else if f = WIFI_IP_HANDLER then wifi_ip_RequestHandler pReq pResp w
       else if f = WIFI_CONFIG_HANDLER then ResWifi_ReqHandler pReq pResp w
       else if f = WIFI_SCAN_HANDLER then wifi_scan_Res_ReqHandler pReq pResp w
       else None)\<rparr>"

end
