(* ===== verification/Esp_Interface.thy ===== *)
theory Esp_Interface imports App_Resources begin

section \<open>The UDP interface of the ESP8266 and the start of the server\<close>

text \<open>
  \<open>interface/esp8266/lobaro-coap_esp8266.c\<close> and \<open>server.c\<close>. The calls into the SDK whose answers matter are
  arguments (whether \<open>espconn_create\<close> fails, what \<open>espconn_sendto\<close> returns, what \<open>espconn_get_connection_info\<close>
  and the station's status say); the calls made for their effect are a list. A connection (\<open>struct
  espconn\<close>) is named by its address.
\<close>

subsection \<open>State\<close>

record espconn =
  remote_ip :: "u8 list"
  remote_port :: u16
  local_port :: u16

datatype station_status =
  STATION_IDLE | STATION_CONNECTING | STATION_WRONG_PASSWORD | STATION_NO_AP_FOUND | STATION_CONNECT_FAIL | STATION_GOT_IP

text \<open>\<open>StationConStatus\<close> starts with a value (\<open>0xff\<close>) that is no status.\<close>

record esp =
  TxSocketIdle :: bool
  StationConStatus :: "station_status option"
  failRetryCnt :: u8
  conns :: "addr \<Rightarrow> espconn"

subsection \<open>Clock and non volatile memory\<close>

definition hal_rtc_1Hz_Cnt :: "u32 \<Rightarrow> u32" where
  "hal_rtc_1Hz_Cnt system_time = system_time div 1000000"

definition hal_nonVolatile_GetBufPtr :: "addr option" where
  "hal_nonVolatile_GetBufPtr = None"

definition hal_nonVolatile_WriteBuf :: "u8 list \<Rightarrow> bool" where
  "hal_nonVolatile_WriteBuf bytes = False"

subsection \<open>Sockets\<close>

definition udp_sent_cb :: "esp \<Rightarrow> esp" where
  "udp_sent_cb e = e\<lparr>TxSocketIdle := True\<rparr>"

definition ON_NEW_PACKET :: fnptr where "ON_NEW_PACKET = 9"
definition SEND_DATAGRAM :: fnptr where "SEND_DATAGRAM = 10"

text \<open>
  The packet handed to the consumer: \<open>junk\<close> are the bytes of the sender's address behind the first four,
  which nobody writes. \<open>rinfo\<close> is missing when \<open>espconn_get_connection_info\<close> fails; it is read all the same.
\<close>

definition udp_packet :: "u8 list \<Rightarrow> u8 list \<times> u16 \<Rightarrow> u8 list \<Rightarrow> u16 \<Rightarrow> u8 list \<Rightarrow> NetPacket" where
  "udp_packet junk rinfo local_ip port pdata =
    \<lparr>pData = mem_of pdata, pkt_size = of_nat (length pdata),
     Sender = \<lparr>NetType = IPV4, NetAddr = take 4 (fst rinfo) @ junk, NetPort = snd rinfo\<rparr>,
     Receiver = \<lparr>NetType = IPV4, NetAddr = take 4 local_ip @ junk, NetPort = port\<rparr>,
     PktMetaInfo = \<lparr>MetaType = META_INFO_NONE, HopCount = 0, RSSI = 0\<rparr>\<rparr>"

definition udp_recv_cb ::
  "'x env \<Rightarrow> addr \<Rightarrow> (u8 list \<times> u16) option \<Rightarrow> u8 list \<Rightarrow> u8 list \<Rightarrow> u8 list \<Rightarrow> 'x coap \<Rightarrow> 'x coap option" where
  "udp_recv_cb env handle rinfo local_ip junk pdata w =
    do {
      ri \<leftarrow> rinfo;
      (case RetrieveSocket handle (SocketCtrl w) of
         None \<Rightarrow> Some w
       | Some i \<Rightarrow>
           let pSocket = SocketMemory (SocketCtrl w) ! i
           in do {
                cb \<leftarrow> RxCB pSocket;
                (if cb = ON_NEW_PACKET
                 then CoAP_onNewPacketHandler env (sock_ifID pSocket)
                        (udp_packet junk ri local_ip (NetPort (EpLocal pSocket)) pdata) w
                 else None)
              })
    }"

definition broadcast_ip :: "u8 list" where
  "broadcast_ip = [192, 168, 255, 255]"

definition CoAP_ESP8266_CreateInterfaceSocket ::
  "bool \<Rightarrow> u8 \<Rightarrow> addr option \<Rightarrow> u16 \<Rightarrow> fnptr option \<Rightarrow> fnptr option \<Rightarrow> NetSocketCtrl \<Rightarrow> esp \<Rightarrow>
     nat option \<times> NetSocketCtrl \<times> esp" where
  "CoAP_ESP8266_CreateInterfaceSocket create_fails ifID pEsp8266_conn LocalPort Callback SendPacket c e =
    (case pEsp8266_conn of
       None \<Rightarrow> (None, c, e)
     | Some conn \<Rightarrow>
         if RetrieveSocket2 ifID c \<noteq> None then (None, c, e)
         else if Callback = None \<or> SendPacket = None then (None, c, e)
         else
           (case AllocSocket c of
              (None, c) \<Rightarrow> (None, c, e)
            | (Some i, c) \<Rightarrow>
                let s = SocketMemory c ! i;
                    s = s\<lparr>EpLocal := (EpLocal s)\<lparr>NetType := IPV4, NetPort := LocalPort\<rparr>,
                          EpRemote := (EpRemote s)\<lparr>NetType := IPV4, NetPort := LocalPort,
                                         NetAddr := broadcast_ip @ drop 4 (NetAddr (EpRemote s))\<rparr>\<rparr>;
                    e = e\<lparr>conns := (conns e)(conn := \<lparr>remote_ip = broadcast_ip, remote_port = LocalPort, local_port = LocalPort\<rparr>)\<rparr>
                in if create_fails then (None, c\<lparr>SocketMemory := (SocketMemory c)[i := s]\<rparr>, e)
                   else
                     let s = s\<lparr>Handle := conn, sock_ifID := ifID, RxCB := Callback, Tx := SendPacket, Alive := True\<rparr>
                     in (Some i, c\<lparr>SocketMemory := (SocketMemory c)[i := s]\<rparr>, e)))"

text \<open>The connection is deleted, the socket stays marked as used.\<close>

definition CoAP_ESP8266_DeleteInterfaceSocket :: "u8 \<Rightarrow> NetSocketCtrl \<Rightarrow> bool \<times> NetSocketCtrl" where
  "CoAP_ESP8266_DeleteInterfaceSocket ifID c = (RetrieveSocket2 ifID c \<noteq> None, c)"

text \<open>\<open>sendto conn packet\<close> is what \<open>espconn_sendto\<close> returns.\<close>

definition CoAP_ESP8266_SendDatagram ::
  "(espconn \<Rightarrow> NetPacket \<Rightarrow> int) \<Rightarrow> u8 \<Rightarrow> NetPacket \<Rightarrow> NetSocketCtrl \<Rightarrow> esp \<Rightarrow> bool \<times> esp" where
  "CoAP_ESP8266_SendDatagram sendto ifID pckt c e =
    (if NetType (Receiver pckt) \<noteq> IPV4 then (False, e)
     else
       (case RetrieveSocket2 ifID c of
          None \<Rightarrow> (False, e)
        | Some i \<Rightarrow>
            let h = Handle (SocketMemory c ! i);
                conn = \<lparr>remote_ip = take 4 (NetAddr (Receiver pckt)), remote_port = NetPort (Receiver pckt),
                        local_port = NetPort (Sender pckt)\<rparr>;
                e = e\<lparr>conns := (conns e)(h := conn), TxSocketIdle := False\<rparr>
            in if sendto conn pckt = 0 then (True, e) else (False, e\<lparr>TxSocketIdle := True\<rparr>)))"

subsection \<open>The connection to the access point\<close>

datatype sdk_call =
    Set_phy_mode_11G | Set_opmode_station | Set_opmode_stationap | Station_connect | Station_disconnect
  | Set_station_config "u8 list" "u8 list" | Start_softap "u8 list" "u8 list" | Arm_connection_timer

definition MAX_CON_RETRIES_BEFORE_ACTIVATING_SOFT_AP :: u8 where
  "MAX_CON_RETRIES_BEFORE_ACTIVATING_SOFT_AP = 2"

definition hex_digit :: "u8 \<Rightarrow> u8" where
  "hex_digit n = (if n < 10 then 48 + n else 87 + n)"

definition hex2 :: "u8 \<Rightarrow> u8 list" where
  "hex2 b = [hex_digit (drop_bit 4 b), hex_digit (b AND 15)]"

definition softap_ssid :: "u8 list \<Rightarrow> u8 list" where
  "softap_ssid mac = str ''Lobaro-CoAP('' @ concat (map hex2 mac) @ str '')''"

definition ESP8266_Config_SoftAP :: "u8 list \<Rightarrow> sdk_call list" where
  "ESP8266_Config_SoftAP mac = [Set_opmode_stationap, Start_softap (softap_ssid mac) (str ''lobaro!!'')]"

text \<open>\<open>default_config\<close> is the stored access point, if there is one.\<close>

definition ESP8266_Config_Station :: "(u8 list \<times> u8 list) option \<Rightarrow> bool \<Rightarrow> bool \<times> sdk_call list" where
  "ESP8266_Config_Station default_config accepts =
    (case default_config of
       None \<Rightarrow> (False, [])
     | Some (ssid, pw) \<Rightarrow>
         if accepts then (True, [Set_station_config ssid pw, Set_opmode_station, Station_connect])
         else (False, [Set_station_config ssid pw]))"

text \<open>Called every two seconds with the status of the station.\<close>

definition failed_status :: "station_status \<Rightarrow> bool" where
  "failed_status s \<longleftrightarrow> s = STATION_WRONG_PASSWORD \<or> s = STATION_NO_AP_FOUND \<or> s = STATION_CONNECT_FAIL"

definition connection_timer_cb :: "u8 list \<Rightarrow> station_status \<Rightarrow> esp \<Rightarrow> sdk_call list \<times> esp" where
  "connection_timer_cb mac conStatus e =
    (if conStatus = STATION_GOT_IP \<and> Some conStatus = StationConStatus e then ([], e)
     else
       let (calls, e) =
             (if conStatus = STATION_GOT_IP then ([], e\<lparr>failRetryCnt := 0\<rparr>)
              else if failed_status conStatus \<and> Some conStatus \<noteq> StationConStatus e
              then ([Station_connect], e\<lparr>failRetryCnt := failRetryCnt e + 1\<rparr>)
              else ([], e));
           e = e\<lparr>StationConStatus := Some conStatus\<rparr>
       in if failRetryCnt e > MAX_CON_RETRIES_BEFORE_ACTIVATING_SOFT_AP
          then (calls @ [Station_disconnect] @ ESP8266_Config_SoftAP mac, e\<lparr>failRetryCnt := 0\<rparr>)
          else (calls, e))"

definition CoAP_ESP8266_ConfigDevice ::
  "u8 list \<Rightarrow> u8 list \<Rightarrow> (u8 list \<times> u8 list) option \<Rightarrow> bool \<Rightarrow> bool \<times> sdk_call list" where
  "CoAP_ESP8266_ConfigDevice mac stored_ssid default_config accepts =
    (let dummy = (if length stored_ssid = 0
                  then [Station_disconnect, Set_station_config (str ''not_configured!'') (str ''12345678'')] else []);
         (ok, station) = ESP8266_Config_Station default_config accepts
     in (True, [Set_phy_mode_11G, Set_opmode_station] @ dummy @ station @
               (if \<not> ok then ESP8266_Config_SoftAP mac else []) @ [Arm_connection_timer]))"

subsection \<open>The server (\<open>server.c\<close>)\<close>

definition mainLoopTimer_cb :: "'x env \<Rightarrow> esp \<Rightarrow> 'x coap \<Rightarrow> 'x coap option" where
  "mainLoopTimer_cb env e w = (if TxSocketIdle e then CoAP_doWork env w else Some w)"

text \<open>\<open>mem\<close> is the address of the static work memory, \<open>conn\<close> that of the connection.\<close>

definition init_done ::
  "server_app env \<Rightarrow> addr \<Rightarrow> addr \<Rightarrow> bool \<Rightarrow> server_app coap \<Rightarrow> esp \<Rightarrow> (server_app coap \<times> esp) option" where
  "init_done env mem conn create_fails w e =
    do {
      (_, w) \<leftarrow> CoAP_Init (Some mem) 4096 w;
      let (_, c, e) = CoAP_ESP8266_CreateInterfaceSocket create_fails 0 (Some conn) 5683 (Some ON_NEW_PACKET)
                        (Some SEND_DATAGRAM) (SocketCtrl w) e;
      let w = w\<lparr>SocketCtrl := c\<rparr>;
      (_, w) \<leftarrow> Create_Wifi_IPs_Resource w;
      (_, w) \<leftarrow> Create_About_Resource w;
      (_, w) \<leftarrow> Create_Wifi_Config_Resource w;
      (_, w) \<leftarrow> Create_RTC_Resource w;
      (_, w) \<leftarrow> Create_Led_Resource env w;
      (_, w) \<leftarrow> Create_Wifi_Scan_Resource w;
      Some (w, e)
    }"

text \<open>The state of the machine before \<open>init_done\<close>: all static data is zero or as it is initialised.\<close>

definition null_socket :: NetSocket where
  "null_socket = \<lparr>Handle = 0, sock_ifID = 0, EpLocal = null_ep, EpRemote = null_ep, RxCB = None, Tx = None, Alive = False\<rparr>"

definition boot_app :: "addr \<Rightarrow> sdk \<Rightarrow> server_app" where
  "boot_app flash s =
    \<lparr>LedState = True, pLed_Res = None, pRTC_Res = None, pAbout_Res = None, pWifi_ip_Res = None, pWifi_Res = None,
     pWifi_scan_Res = None, lastScanResultLen = 0, pScanResultStr = None, scanResult = (\<lambda>_. 0),
     ScanState = SCAN_STATE_IDLE, CoapInfoStringInFlash = flash, sdk_state = s\<rparr>"

definition boot_state :: "u32 \<Rightarrow> addr \<Rightarrow> sdk \<Rightarrow> server_app coap" where
  "boot_state now flash s =
    \<lparr>heap = bget_init, rtc_1Hz = now, SocketCtrl = \<lparr>SocketMemory = replicate MAX_ACTIVE_SOCKETS null_socket, initDone = False\<rparr>,
     sent = [], lastMId = 0, lastToken = 0xfa, pInteractions = [], pResList = [], ResListMembers = 0, app = boot_app flash s\<rparr>"

definition boot_esp :: esp where
  "boot_esp = \<lparr>TxSocketIdle = True, StationConStatus = None, failRetryCnt = 0,
     conns = (\<lambda>_. \<lparr>remote_ip = [], remote_port = 0, local_port = 0\<rparr>)\<rparr>"

end
