(* ===== verification/App_Safety.thy ===== *)
theory App_Safety imports Payload_Safety Reception_Safety Esp_Interface begin

section \<open>The server's handlers keep the invariant\<close>

text \<open>
  The interpretation of the locales \<open>notifiers\<close> and \<open>application\<close> on the server's own handlers and notifiers:
  each does its part on a well-formed stack, and runs to its end when some free block has
  \<open>server_need n\<close> bytes (\<open>n\<close> resources).
\<close>

subsection \<open>What the application holds and relies on\<close>

text \<open>The scan's result belongs to the application until a request takes it.\<close>

definition app_own :: "server_app \<Rightarrow> claims" where
  "app_own a = (if ScanState a = SCAN_STATE_DONE_OK
     then (case pScanResultStr a of None \<Rightarrow> {#} | Some p \<Rightarrow> {#(p, lastScanResultLen a)#}) else {#})"

definition known_handler :: "fnptr \<Rightarrow> bool" where
  "known_handler f \<longleftrightarrow> f \<in> {WELL_KNOWN, LED_HANDLER, RTC_HANDLER, ABOUT_HANDLER, WIFI_IP_HANDLER, WIFI_CONFIG_HANDLER,
     WIFI_SCAN_HANDLER}"

definition known_notifier :: "fnptr \<Rightarrow> bool" where
  "known_notifier f \<longleftrightarrow> f \<in> {LED_NOTIFIER, RTC_NOTIFIER}"

definition created :: "addr option \<Rightarrow> res_key set \<Rightarrow> bool" where
  "created p keys \<longleftrightarrow> (\<exists>q \<in> fst ` keys. p = Some q)"

text \<open>Credentials fit the arrays of the SDK, the scan's result is where its length says.\<close>

definition data_ok :: "server_app \<Rightarrow> bool" where
  "data_ok a \<longleftrightarrow> IROM0 \<le> CoapInfoStringInFlash a \<and>
     (case station_config (sdk_state a) of None \<Rightarrow> True | Some (ssid, pw) \<Rightarrow> length ssid \<le> 32 \<and> length pw \<le> 64) \<and>
     (ScanState a = SCAN_STATE_DONE_OK \<longrightarrow> 0 \<le> lastScanResultLen a \<and> (pScanResultStr a = None \<longrightarrow> lastScanResultLen a = 0))"

definition keys_ok :: "res_key set \<Rightarrow> bool" where
  "keys_ok keys \<longleftrightarrow> (\<forall>(p, hd, nt) \<in> keys. (\<forall>f. hd = Some f \<longrightarrow> known_handler f) \<and> (\<forall>f. nt = Some f \<longrightarrow> known_notifier f))"

definition app_ok :: "server_app \<Rightarrow> res_key set \<Rightarrow> bool" where
  "app_ok a keys \<longleftrightarrow> data_ok a \<and> keys_ok keys \<and> created (pLed_Res a) keys \<and> created (pRTC_Res a) keys"

definition server_need :: "nat \<Rightarrow> int" where
  "server_need n = 64 * (int n + 1) + 600"

abbreviation server_inv :: "server_app coap \<Rightarrow> bool" where
  "server_inv \<equiv> stack_inv app_own app_ok"

lemmas function_numbers = WELL_KNOWN_def LED_HANDLER_def LED_NOTIFIER_def RTC_HANDLER_def RTC_NOTIFIER_def
  ABOUT_HANDLER_def WIFI_IP_HANDLER_def WIFI_CONFIG_HANDLER_def WIFI_SCAN_HANDLER_def

lemmas scan_states = SCAN_STATE_IDLE_def SCAN_STATE_RUNNING_def SCAN_STATE_DONE_OK_def SCAN_STATE_DONE_FAIL_def

lemma inv_aok: "stack_inv ao aok w \<Longrightarrow> aok (app w) (res_key ` set (pResList w))"
  by (simp add: stack_inv_def good_def)

lemma inv_app:
  assumes "stack_inv ao aok w" "ao a' = ao (app w)" "\<And>keys. aok (app w) keys \<Longrightarrow> aok a' keys"
  shows "stack_inv ao aok (w\<lparr>app := a'\<rparr>)"
  using assms by (simp add: stack_inv_def good_def)

subsection \<open>Texts\<close>

lemma digits_length: "0 < k \<Longrightarrow> n < 10 ^ k \<Longrightarrow> length (digits n) \<le> k"
proof (induction n arbitrary: k rule: digits.induct)
  case (1 n)
  show ?case
  proof (cases "n < 10")
    case False
    then obtain j where k: "k = Suc j" "0 < j" using 1(2,3) by (cases k; cases "k - 1") auto
    have "n div 10 < 10 ^ j" using 1(3) k by (simp add: less_mult_imp_div_less mult.commute)
    then show ?thesis using 1(1)[OF False k(2)] k False by (subst digits.simps) simp
  qed (use 1(2) in \<open>subst digits.simps, simp\<close>)
qed

lemma decimal_length: "0 < k \<Longrightarrow> nat \<bar>n\<bar> < 10 ^ k \<Longrightarrow> length (decimal n) \<le> Suc k"
  using digits_length[of k "nat \<bar>n\<bar>"] by (auto simp: decimal_def)

text \<open>The text of the clock fits the 20 bytes of \<open>myString\<close>.\<close>

lemma rtc_text_length: "length (rtc_text t) \<le> 15"
proof -
  have "\<bar>sint t\<bar> \<le> 2 ^ 31" using sint_ge[of t] sint_lt[of t] by simp
  then have "nat \<bar>sint t\<bar> < 10 ^ 10" by simp
  then have "length (decimal (sint t)) \<le> 11" using decimal_length[of 10] by simp
  then show ?thesis by (simp add: rtc_text_def str_def)
qed

lemma led_text_length: "length (led_text b) \<le> 11"
  by (simp add: led_text_def str_def)

lemma word_decimal: "length (decimal (uint (b :: u8))) \<le> 4"
proof -
  have a: "unat b < 10 ^ 3" by (rule order_less_le_trans[OF unsigned_less]) simp
  have "nat \<bar>uint b\<bar> = unat b" by simp
  from decimal_length[of 3 "uint b", unfolded this, OF _ a] show ?thesis by simp
qed

lemma ip_line_length: "length (ip_line name ip) \<le> length name + 21"
proof (cases ip)
  case (Some q)
  obtain a b c d where "q = (a, b, c, d)" by (cases q)
  then show ?thesis
    using word_decimal[of a] word_decimal[of b] word_decimal[of c] word_decimal[of d] Some
    by (simp add: ip_line_def str_def crlf_def)
qed (simp add: ip_line_def)

subsection \<open>Handlers that fill in the response\<close>

lemma set_text_outcome:
  "outcome (roomy 400 h m \<or> 18 \<le> unat (PayloadBufSize m) \<and> unat (of_nat (length text) :: u16) \<le> unat (PayloadBufSize m))
     (\<lambda>(m', h'). msg_step m h m' h') (set_text req m text h)"
  unfolding set_text_def using SetPayload_outcome[of 0 m True "of_nat (length text)" h req "mem_of text"]
  by (auto intro!: outcome_map elim!: outcome_mono simp: payload_ready_def)

definition handled :: "addr \<Rightarrow> CoAP_Interaction \<Rightarrow> CoAP_HandlerResult_t \<times> CoAP_Message \<times> server_app coap \<Rightarrow> bool" where
  "handled p ia = (\<lambda>(res, resp', w'). server_inv (set_resp p resp' w') \<and> get_ia p (set_resp p resp' w') = Some (ia\<lparr>pRespMsg := Some resp'\<rparr>))"

lemma inv_roomy:
  assumes "stack_inv ao aok w" "get_ia p w = Some ia" "pRespMsg ia = Some m" "room (heap w) k"
  shows "roomy k (heap w) m"
  using inv_holds[OF assms(1,2)] assms(3,4) by (auto simp: roomy_def ia_own_def intro: holds_sub)

text \<open>A handler that makes a step on the response and its heap only.\<close>

lemma handled_step:
  assumes "server_inv w" "get_ia p w = Some ia" "pRespMsg ia = Some m" "msg_step m (heap w) m' h'"
  shows "handled p ia (r, m', w\<lparr>heap := h'\<rparr>)"
  using inv_set_resp[OF assms] by (simp add: handled_def)

lemma handled_same:
  assumes "server_inv w" "get_ia p w = Some ia" "pRespMsg ia = Some m" "msg_step m (heap w) m' (heap w)"
  shows "handled p ia (r, m', w)"
  using handled_step[OF assms] by simp

lemma handled_text:
  assumes "server_inv w" "get_ia p w = Some ia" "pRespMsg ia = Some m"
    "D \<Longrightarrow> room (heap w) 400 \<or> 18 \<le> unat (PayloadBufSize m) \<and> length text \<le> unat (PayloadBufSize m) \<and> length text < 65536"
  shows "outcome D (handled p ia) (set_text req m text (heap w) \<bind> (\<lambda>(m', h). Some (r, m', w\<lparr>heap := h\<rparr>)))"
    "outcome D (handled p ia) (set_text req m text (heap w) \<bind> (\<lambda>(m', h). Some (r, m'\<lparr>Code := c\<rparr>, w\<lparr>heap := h\<rparr>)))"
proof -
  have "outcome D (\<lambda>(m', h'). msg_step m (heap w) m' h') (set_text req m text (heap w))"
    by (rule outcome_mono[OF set_text_outcome]) (use assms(4) inv_roomy[OF assms(1-3)] in \<open>auto simp: unat_of_nat\<close>)
  then show "outcome D (handled p ia) (set_text req m text (heap w) \<bind> (\<lambda>(m', h). Some (r, m', w\<lparr>heap := h\<rparr>)))"
    "outcome D (handled p ia) (set_text req m text (heap w) \<bind> (\<lambda>(m', h). Some (r, m'\<lparr>Code := c\<rparr>, w\<lparr>heap := h\<rparr>)))"
    using handled_step[OF assms(1-3)] by (cases "set_text req m text (heap w)"; auto)+
qed

subsection \<open>The notifiers\<close>

lemma notify_text:
  assumes "holds h (msg_own h m)" "length text \<le> 15"
  shows "outcome (PREFERED_PAYLOAD_SIZE \<le> PayloadBufSize m \<or> room h (server_need n)) (\<lambda>(r, m', h'). msg_step m h m' h')
    (set_text None m text h \<bind> (\<lambda>(m', h). Some (HANDLER_OK, m', h)))"
proof -
  have "64 \<le> unat (PayloadBufSize m)" if "PREFERED_PAYLOAD_SIZE \<le> PayloadBufSize m"
    using that by (simp add: PREFERED_PAYLOAD_SIZE_def word_le_nat_alt)
  moreover have "roomy 400 h m" if "room h (server_need n)"
    using that assms(1) room_mono[of h "server_need n" 400] by (simp add: roomy_def server_need_def)
  ultimately have "outcome (PREFERED_PAYLOAD_SIZE \<le> PayloadBufSize m \<or> room h (server_need n)) (\<lambda>(m', h'). msg_step m h m' h')
    (set_text None m text h)"
    using assms(2) by (intro outcome_mono[OF set_text_outcome]) (auto simp: unat_of_nat)
  then show ?thesis by (cases "set_text None m text h") auto
qed

lemma server_notifier:
  assumes "stack_inv app_own aok w" "\<And>a keys. aok a keys \<Longrightarrow> keys_ok keys"
    "holds (heap w) (msg_own (heap w) m)" "r \<in> set (pResList w)" "Notifier r = Some f"
  shows "outcome (PREFERED_PAYLOAD_SIZE \<le> PayloadBufSize m \<or> room (heap w) (server_need (length (pResList w))))
    (\<lambda>(n, m', h'). msg_step m (heap w) m' h') (call_notifier (notifier_env d) f ob m w)"
proof -
  have "keys_ok (res_key ` set (pResList w))" using inv_aok[OF assms(1)] assms(2) by blast
  then have "known_notifier f" using assms(4,5) by (force simp: keys_ok_def res_key_def)
  then consider "f = LED_NOTIFIER" | "f = RTC_NOTIFIER" by (auto simp: known_notifier_def)
  then show ?thesis
  proof cases
    case 1
    from notify_text[OF assms(3), of "led_text (LedState (app w))"] led_text_length[of "LedState (app w)"] show ?thesis
      using 1 by (simp add: notifier_env_def led_Res_NotifyHandler_def SetLedstatePayload_def)
  next
    case 2
    from notify_text[OF assms(3) rtc_text_length] show ?thesis
      using 2 by (simp add: notifier_env_def rtc_NotifyHandler_def function_numbers)
  qed
qed

text \<open>The environment without handlers, which the LED's handler uses.\<close>

interpretation ntf: notifiers "notifier_env d" app_own app_ok server_need for d
  by unfold_locales (use server_notifier[of app_ok] in \<open>auto simp: app_ok_def\<close>)

subsection \<open>The handlers\<close>

lemma need_room: "room h (server_need n) \<Longrightarrow> room h 400"
  by (erule room_mono) (simp add: server_need_def)

lemma handled_room:
  assumes "server_inv w" "get_ia p w = Some ia" "pRespMsg ia = Some m" "D \<Longrightarrow> room (heap w) (server_need n)"
  shows "outcome D (handled p ia) (set_text req m text (heap w) \<bind> (\<lambda>(m', h). Some (r, m', w\<lparr>heap := h\<rparr>)))"
    "outcome D (handled p ia) (set_text req m text (heap w) \<bind> (\<lambda>(m', h). Some (r, m'\<lparr>Code := c\<rparr>, w\<lparr>heap := h\<rparr>)))"
  using handled_text[OF assms(1-3)] need_room assms(4) by blast+

lemma rtc_handler:
  assumes "server_inv w" "get_ia p w = Some ia" "pRespMsg ia = Some m"
  shows "outcome (room (heap w) (server_need n)) (handled p ia) (rtc_RequestHandler req m w)"
  unfolding rtc_RequestHandler_def by (rule handled_room(1)[OF assms])

lemma wifi_ip_handler:
  assumes "server_inv w" "get_ia p w = Some ia" "pRespMsg ia = Some m"
  shows "outcome (room (heap w) (server_need n)) (handled p ia) (wifi_ip_RequestHandler req m w)"
  unfolding wifi_ip_RequestHandler_def Let_def
  by (auto intro!: handled_room(1)[OF assms] handled_same[OF assms])

lemma outside_flash:
  assumes "stack_inv ao aok w" "IROM0 \<le> q"
  shows "outside (heap w) (q + int i)"
  using assms by (simp add: stack_inv_def good_def outside_def)

lemma about_handler:
  assumes "server_inv w" "get_ia p w = Some ia" "pRespMsg ia = Some m"
  shows "outcome (room (heap w) (server_need n)) (handled p ia) (about_RequestHandler req m w)"
proof -
  have f: "IROM0 \<le> CoapInfoStringInFlash (app w)" using inv_aok[OF assms(1)] by (simp add: app_ok_def data_ok_def)
  have "outcome (room (heap w) (server_need n)) (\<lambda>(r, m', h'). msg_step m (heap w) m' h')
    (CoAP_SetPayload (Some req) m (CoapInfoStringInFlash (app w)) (mem_of about_text) (of_nat (length about_text)) False (heap w))"
    by (rule outcome_mono[OF SetPayload_outcome])
      (use outside_flash[OF assms(1) f] inv_roomy[OF assms need_room] in \<open>auto simp: payload_ready_def\<close>)
  then show ?thesis unfolding about_RequestHandler_def
    by (rule outcome_bind) (use handled_step[OF assms] in auto)
qed

lemma app_own_cong:
  "ScanState a' = ScanState a \<Longrightarrow> lastScanResultLen a' = lastScanResultLen a \<Longrightarrow> pScanResultStr a' = pScanResultStr a \<Longrightarrow>
     app_own a' = app_own a"
  by (cases "pScanResultStr a") (simp_all add: app_own_def)

lemma outcome_total: "outcome True P q \<Longrightarrow> outcome D P q"
  by (cases q) auto

lemma led_outcome:
  assumes "server_inv w"
  shows "outcome True (\<lambda>w'. server_inv w' \<and> undisturbed w w') (led (notifier_env d) b w)"
proof -
  let ?a = "(app w)\<lparr>sdk_state := (sdk_state (app w))\<lparr>gpio12 := b\<rparr>\<rparr>" and ?set = "\<lambda>w. w\<lparr>app := (app w)\<lparr>LedState := b\<rparr>\<rparr>"
  have i: "server_inv (w\<lparr>app := ?a\<rparr>)"
    by (rule inv_app[OF assms]) (auto simp: app_ok_def data_ok_def intro: app_own_cong)
  have u: "undisturbed w (w\<lparr>app := ?a\<rparr>)" by (simp add: undisturbed_def get_ia_def)
  show ?thesis
  proof (cases "LedState (app w) = b")
    case True
    then show ?thesis using i u by (simp add: led_def)
  next
    case False
    have "created (pLed_Res (app w)) (res_key ` set (pResList w))" using inv_aok[OF assms] by (simp add: app_ok_def)
    then obtain r where r: "r \<in> set (pResList w)" "pLed_Res (app w) = Some (res_addr r)"
      by (auto simp: created_def res_key_def)
    have "get_res (res_addr r) (w\<lparr>app := ?a\<rparr>) = Some r"
      using get_res_member[of "w\<lparr>app := ?a\<rparr>" r] inv_distinct(2)[OF i] r(1) by simp
    from outcome_defined[OF ntf.NotifyResourceObservers_outcome[OF i this, of d] TrueI]
    obtain res w1 where n: "CoAP_NotifyResourceObservers (notifier_env d) (res_addr r) (w\<lparr>app := ?a\<rparr>) = Some (res, w1)"
      "server_inv w1" "undisturbed (w\<lparr>app := ?a\<rparr>) w1" by auto
    have "server_inv (?set w1)"
      by (rule inv_app[OF n(2)]) (auto simp: app_ok_def data_ok_def intro: app_own_cong)
    moreover have "undisturbed w1 (?set w1)" by (simp add: undisturbed_def get_ia_def)
    ultimately have "server_inv (?set w1) \<and> undisturbed w (?set w1)" using u n(3) undisturbed_trans by blast
    then show ?thesis using False r(2) n(1) by (simp add: led_def)
  qed
qed

lemma led_handler:
  assumes "server_inv w" "get_ia p w = Some ia" "pRespMsg ia = Some m" "Role ia = COAP_ROLE_SERVER"
  shows "outcome (room (heap w) (server_need n) \<and> offers_buffer m) (handled p ia)
    (led_Res_ReqHandler (notifier_env d) req m w)"
proof (cases "Code req = REQ_POST \<and> led_command (pOptionsList req) \<noteq> 0")
  case True
  let ?n = "led_command (pOptionsList req)"
  let ?D = "room (heap w) (server_need n) \<and> offers_buffer m"
  have t: "outcome ?D (handled p ia) (SetLedstatePayload (Some req) m w' \<bind> (\<lambda>(m', h). Some (HANDLER_OK, m', w'\<lparr>heap := h\<rparr>)))"
    if "server_inv w' \<and> undisturbed w w'" for w'
  proof -
    have g: "get_ia p w' = Some ia" using that assms(2,4) by (simp add: undisturbed_def)
    have "64 \<le> unat (PayloadBufSize m)" if ?D
      using that by (simp add: offers_buffer_def PREFERED_PAYLOAD_SIZE_def word_le_nat_alt)
    then show ?thesis unfolding SetLedstatePayload_def
      by (intro handled_text(1)[OF _ g assms(3)]) (use that led_text_length[of "LedState (app w')"] in auto)
  qed
  have "outcome ?D (handled p ia) (led (notifier_env d) b w \<bind> (\<lambda>w.
    SetLedstatePayload (Some req) m w \<bind> (\<lambda>(m', h). Some (HANDLER_OK, m', w\<lparr>heap := h\<rparr>))))" for b
    by (rule outcome_bind[OF outcome_total[OF led_outcome[OF assms(1)]] t])
  then show ?thesis unfolding led_Res_ReqHandler_def Let_def using True by simp
next
  case False
  show ?thesis
    unfolding led_Res_ReqHandler_def Let_def SetLedstatePayload_def
    using False by (auto intro!: handled_room[OF assms(1-3)] handled_same[OF assms(1-3)])
qed

subsubsection \<open>The directory\<close>

text \<open>A buffer that is asked for, and given back after a step on the message.\<close>

lemma msg_step_temp:
  assumes "coap_mem_get n h = (Some p, h1)" "fits n" "msg_step m h1 m' h2"
  shows "msg_step m h m' (release1 p h2)"
proof -
  have 1: "trades (msg_own h m) h (add_mset (p, n) (msg_own h1 m)) h1"
    using trades_steady[OF steady_msg trades_get[OF assms(1,2)], of m] by simp
  have 2: "trades (add_mset (p, n) (msg_own h1 m)) h1 (add_mset (p, n) (msg_own h2 m')) h2"
    using trades_frame_left[OF msg_step_trades[OF assms(3)], of "{#(p, n)#}"] by simp
  have 3: "trades (add_mset (p, n) (msg_own h2 m')) h2 (msg_own (release1 p h2) m') (release1 p h2)"
    using trades_steady[OF steady_msg trades_release[of p n h2], of m'] by simp
  have "holds h1 (msg_own h1 m)" if "holds h (msg_own h m)"
    using tradesD(1)[OF 1, of "{#}"] that by (auto intro: holds_sub)
  then show ?thesis
    using trades_trans[OF trades_trans[OF 1 2] 3] assms(3) by (simp add: msg_step_def)
qed

lemma res_links_length:
  "\<forall>r \<in> set rs. res_ok c r \<Longrightarrow> \<exists>ls. res_links rs = Some ls \<and> length ls \<le> 64 * length rs"
proof (induction rs)
  case (Cons r rs)
  then obtain ls where "res_links rs = Some ls" "length ls \<le> 64 * length rs" by auto
  moreover obtain l where "res_link r = Some l" "length l \<le> 64"
    using Cons.prems by (auto simp: res_ok_def split: option.splits)
  ultimately show ?case by simp
qed simp

lemma roomy_after_get:
  assumes "roomy k h m" "coap_mem_get n h = (Some p, h1)" "fits n" "n + 28 \<le> k"
  shows "roomy (k - n - 15) h1 m"
proof -
  have t: "trades (msg_own h m) h (add_mset (p, n) (msg_own h1 m)) h1"
    using trades_steady[OF steady_msg trades_get[OF assms(2,3)], of m] by simp
  obtain L where L: "heap_inv h L" using assms(1) holds_heap[of h "msg_own h m"] by (auto simp: roomy_def)
  have "room h1 (k - n - 15)"
    using room_get[OF L assms(3) _ assms(4)] assms(1,2) by (auto simp: roomy_def)
  then show ?thesis using tradesD(1)[OF t, of "{#}"] assms(1) by (auto simp: roomy_def intro: holds_sub)
qed

lemma well_known_handler:
  assumes "server_inv w" "get_ia p w = Some ia" "pRespMsg ia = Some m"
  shows "outcome (room (heap w) (server_need (length (pResList w)))) (handled p ia) (WellKnown_GetHandler err_addr req m w)"
proof (cases "Code req = REQ_GET")
  case False
  let ?m = "m\<lparr>Code := RESP_ERROR_BAD_REQUEST_4_00\<rparr>"
  have o: "outcome (room (heap w) (server_need (length (pResList w)))) (\<lambda>(r, m', h'). msg_step ?m (heap w) m' h')
    (CoAP_SetPayload (Some req) ?m err_addr (mem_of get_only) (of_nat (length get_only)) True (heap w))"
    by (rule outcome_mono[OF SetPayload_outcome])
      (use inv_roomy[OF assms need_room] in \<open>auto simp: payload_ready_def roomy_def\<close>)
  have "msg_step m (heap w) m' h'" if "msg_step ?m (heap w) m' h'" for m' h'
    using msg_step_trans[OF _ that, of m "heap w"] by simp
  then show ?thesis unfolding WellKnown_GetHandler_def using False handled_step[OF assms]
    by (auto intro!: outcome_bind[OF o])
next
  case True
  let ?n = "length (pResList w)" and ?size = "int (unat ((ResListMembers w + 1) * 64))"
  have n: "unat (ResListMembers w) = ?n" "?n \<le> 400" and ok: "\<forall>r \<in> set (pResList w). res_ok (SocketCtrl w) r"
    using assms(1) by (auto simp: stack_inv_def good_def)
  have "of_nat (unat (ResListMembers w)) = ResListMembers w" by simp
  then have "ResListMembers w = of_nat ?n" by (simp only: n(1))
  then have "(ResListMembers w + 1) * 64 = of_nat (64 * (?n + 1))" by simp
  then have u: "unat ((ResListMembers w + 1) * 64) = 64 * (?n + 1)" using n(2) by (simp only: unat_of_nat) simp
  define size where "size = ?size"
  have sz: "size = 64 * (int ?n + 1)" unfolding size_def by (simp only: u) simp
  have f: "fits size" using n(2) by (simp add: sz fits_def)
  obtain links where ls: "res_links (pResList w) = Some links" "length links \<le> 64 * ?n" using res_links_length[OF ok] by blast
  then have l: "\<not> int (length links) + 1 > size" by (simp add: sz)
  obtain q h1 where g: "coap_mem_get size (heap w) = (q, h1)" by force
  show ?thesis
  proof (cases q)
    case None
    then have "h1 = heap w" using mem.get_None g by blast
    then show ?thesis unfolding WellKnown_GetHandler_def Let_def size_def[symmetric]
      using True g None handled_same[OF assms] by simp
  next
    case (Some pStr)
    let ?text = "takeWhile (\<lambda>c. c \<noteq> 0) links"
    let ?D = "room (heap w) (server_need ?n)"
    have "roomy 400 h1 m" if ?D
    proof -
      have "roomy (server_need ?n - size - 15) h1 m"
        by (rule roomy_after_get[OF inv_roomy[OF assms that] g[unfolded Some] f]) (simp add: server_need_def sz)
      then show ?thesis by (rule roomy_mono) (simp add: server_need_def sz)
    qed
    then have o: "outcome ?D (\<lambda>(r, m', h'). msg_step m h1 m' h')
      (CoAP_SetPayload (Some req) m pStr (mem_of ?text) (of_nat (length ?text)) True h1)"
      by (intro outcome_mono[OF SetPayload_outcome]) (auto simp: payload_ready_def)
    have last: "handled p ia (HANDLER_OK, m2, w\<lparr>heap := h3\<rparr>)"
      if "msg_step m h1 m1 h2" "AddCfOptionToMsg m1 COAP_CF_LINK_FORMAT (release1 pStr h2) = (r, m2, h3)" for m1 m2 h2 h3 r
      by (rule handled_step[OF assms msg_step_trans[OF msg_step_temp[OF g[unfolded Some] f that(1)] AddCf_step[OF that(2)]]])
    show ?thesis unfolding WellKnown_GetHandler_def Let_def size_def[symmetric] using True g Some ls(1) l last
      by (auto intro!: outcome_bind[OF o] split: prod.splits)
  qed
qed

subsubsection \<open>The access point's credentials\<close>

lemma c_string_length: "length (c_string s) \<le> length s"
  by (simp add: c_string_def length_takeWhile_le)

lemma take_value_length: "take_value pre b opt q = Some v \<Longrightarrow> length v \<le> unat b"
  using c_string_length[of "take (unat n) s" for n s]
  by (auto simp: take_value_def word_less_nat_alt split: if_splits option.splits prod.splits
      intro!: order_trans[OF c_string_length])

lemma wifi_params_length:
  "wifi_params opts ssid pw = (Some s, Some p) \<Longrightarrow> (\<forall>v. ssid = Some v \<longrightarrow> length v \<le> 32) \<Longrightarrow>
     (\<forall>v. pw = Some v \<longrightarrow> length v \<le> 64) \<Longrightarrow> length s \<le> 32 \<and> length p \<le> 64"
proof (induction opts ssid pw rule: wifi_params.induct)
  case (2 opt opts ssid pw)
  then show ?case
    using take_value_length[of SSID_QUERY_PREFIX 32 opt ssid] take_value_length[of PW_QUERY_PREFIX 64 opt pw]
    by (auto split: option.splits)
qed auto

lemma wifi_config_put_handled:
  assumes "server_inv w" "get_ia p w = Some ia" "pRespMsg ia = Some m"
  shows "outcome (room (heap w) (server_need n)) (handled p ia) (wifi_config_put ssid pw req m w)"
proof -
  have h: "handled p ia (HANDLER_OK, m\<lparr>Code := c\<rparr>, w\<lparr>app := a'\<rparr>)"
    if "a' = (app w)\<lparr>sdk_state := (sdk_state (app w))\<lparr>station_config := Some (s, k)\<rparr>\<rparr>" "length s \<le> 32" "length k \<le> 64" for a' s k c
  proof -
    have "server_inv (w\<lparr>app := a'\<rparr>)"
      by (rule inv_app[OF assms(1)]) (use that in \<open>auto simp: app_ok_def data_ok_def intro: app_own_cong\<close>)
    moreover have "get_ia p (w\<lparr>app := a'\<rparr>) = Some ia" using assms(2) by (simp add: get_ia_def)
    ultimately show ?thesis using handled_same[OF _ _ assms(3), of "w\<lparr>app := a'\<rparr>" p "m\<lparr>Code := c\<rparr>"] by simp
  qed
  show ?thesis unfolding wifi_config_put_def Let_def
    using wifi_params_length[of "pOptionsList req" None None]
    by (auto split: option.splits prod.splits intro!: handled_room[OF assms] handled_same[OF assms] h)
qed

lemma swap_payload_step:
  assumes "coap_mem_get n h = (Some p, h1)" "fits n"
  shows "msg_step m h (m\<lparr>Payload := Some p\<rparr>) h1"
proof -
  have "trades (msg_own h m) h (add_mset (p, n) (msg_own h1 m)) h1"
    using trades_steady[OF steady_msg trades_get[OF assms], of m] by simp
  moreover have "trades (add_mset (p, n) (msg_own h1 m)) h1 (add_mset (p, 0) (msg_own h1 m)) h1"
    by (rule trades_weaken) (use assms(2) in \<open>simp add: fits_def\<close>)
  moreover have "trades (add_mset (p, 0) (msg_own h1 m)) h1 (msg_own h1 (m\<lparr>Payload := Some p\<rparr>)) h1"
    by (rule trades_sub) (auto simp: msg_own_def ext_own_def)
  ultimately show ?thesis unfolding msg_step_def by (auto intro: trades_trans)
qed

lemma config_payload:
  assumes "server_inv w" "get_ia p w = Some ia" "pRespMsg ia = Some m" "msg_step m (heap w) m1 h1" "Payload m1 = Some q"
    "D \<Longrightarrow> roomy 400 h1 m1"
  shows "outcome D (handled p ia) (CoAP_SetPayload (Some req) m1 q d n False h1 \<bind> (\<lambda>(_, m', h). Some (HANDLER_OK, m', w\<lparr>heap := h\<rparr>)))"
proof (rule outcome_bind)
  show "outcome D (\<lambda>(r, m', h'). msg_step m1 h1 m' h') (CoAP_SetPayload (Some req) m1 q d n False h1)"
    by (rule outcome_mono[OF SetPayload_outcome]) (use assms(5,6) in \<open>auto simp: payload_ready_def\<close>)
  fix x :: "CoAP_Result_t \<times> CoAP_Message \<times> bget_state"
  assume "case x of (r, m', h') \<Rightarrow> msg_step m1 h1 m' h'"
  then show "outcome D (handled p ia) (case x of (_, m', h) \<Rightarrow> Some (HANDLER_OK, m', w\<lparr>heap := h\<rparr>))"
    using handled_step[OF assms(1-3) msg_step_trans[OF assms(4)]] by (cases x) auto
qed

text \<open>
  The zero behind a text that has been written into a fresh buffer of its length: the allocator hands out
  multiples of four bytes, so there is room for it unless the length is such a multiple.
\<close>

lemma bsize_mod:
  assumes "heap_inv h L" "p \<in> L"
  shows "bsize (Some p) h mod 4 = 0"
proof -
  obtain bl where "pool_inv h bl" "p \<in> live_of (pMemArea h) bl" using assms by (auto simp: heap_inv_def)
  then obtain n where "bsize (Some p) h = n - 4" "n mod 4 = 0" using live_block by metis
  then show ?thesis by presburger
qed

lemma get_slack:
  assumes "heap_inv h L" "coap_mem_get n h = (Some p, h')" "fits n" "n mod 4 \<noteq> 0"
  shows "n + 1 \<le> bsize (Some p) h'"
proof -
  have H: "holds h' ({#(p, n)#} + {#})"
    by (rule tradesD(1)[OF trades_get[OF assms(2,3)]]) (use assms(1) holds_heap_inv in simp)
  then obtain L' where L': "heap_inv h' L'" "p \<in> L'" using holds_heap by force
  have "n \<le> bsize (Some p) h'" using holds_size[OF H] by simp
  moreover have "n \<noteq> bsize (Some p) h'" using bsize_mod[OF L'] assms(4) by metis
  ultimately show ?thesis by simp
qed

text \<open>When the handler of \<open>wifi/config\<close> can answer a GET.\<close>

definition config_terminated :: "sdk \<Rightarrow> bool" where
  "config_terminated s \<longleftrightarrow>
    (case station_config s of
       None \<Rightarrow> True
     | Some (ssid, pw) \<Rightarrow> length (config_text ssid pw) < unat PREFERED_PAYLOAD_SIZE \<or> length (config_text ssid pw) mod 4 \<noteq> 0)"

definition server_apt :: "fnptr \<Rightarrow> CoAP_Message \<Rightarrow> server_app \<Rightarrow> bool" where
  "server_apt f req a \<longleftrightarrow> (f = WIFI_CONFIG_HANDLER \<and> Code req = REQ_GET \<longrightarrow> config_terminated (sdk_state a))"

lemma wifi_config_get_handled:
  assumes "server_inv w" "get_ia p w = Some ia" "pRespMsg ia = Some m" "length ssid \<le> 32" "length pw \<le> 64"
  shows "outcome (room (heap w) (server_need n) \<and> offers_buffer m \<and>
      (length (config_text ssid pw) < unat PREFERED_PAYLOAD_SIZE \<or> length (config_text ssid pw) mod 4 \<noteq> 0))
    (handled p ia) (wifi_config_get ssid pw req m w)"
proof -
  define total where "total = length ssid + length pw + length SSID_QUERY_PREFIX + length PW_QUERY_PREFIX + 1"
  have t: "0 < total" "total \<le> 105" using assms(4,5) by (simp_all add: total_def SSID_QUERY_PREFIX_def PW_QUERY_PREFIX_def str_def)
  let ?D = "room (heap w) (server_need n) \<and> offers_buffer m \<and>
    (length (config_text ssid pw) < unat PREFERED_PAYLOAD_SIZE \<or> length (config_text ssid pw) mod 4 \<noteq> 0)"
  let ?text = "config_text ssid pw @ [0]"
  have tx: "length (config_text ssid pw) = total" by (simp add: config_text_def total_def str_def)
  obtain L where L: "heap_inv (heap w) L" using assms(1) holds_heap by (fastforce simp: stack_inv_def good_def)
  have guard: "outcome ?D P (if B then None else q)" if "?D \<Longrightarrow> \<not> B" "outcome ?D P q" for P B and q :: "'z option"
    using that by (cases B) auto
  let ?put = "\<lambda>m. m\<lparr>PayloadData := memcpy (PayloadData m) (mem_of ?text) (length ?text)\<rparr>"
  note eq = wifi_config_get_def Let_def total_def[symmetric]
  show ?thesis
  proof (cases "unat (PayloadBufSize m) < total")
    case True
    obtain q h1 where g: "coap_mem_get (int total) (heap w) = (q, h1)" by force
    show ?thesis
    proof (cases q)
      case None
      then have "h1 = heap w" using mem.get_None g by blast
      then show ?thesis unfolding eq using True g None handled_same[OF assms(1-3)] by simp
    next
      case (Some a)
      let ?m = "m\<lparr>Payload := Some a, PayloadData := \<lambda>_. 0\<rparr>"
      have f: "fits (int total)" using t by (simp add: fits_def)
      have st: "msg_step m (heap w) (?put ?m) h1" using swap_payload_step[OF g[unfolded Some] f, of m] by simp
      have "roomy 400 h1 (?put ?m)" if ?D
      proof -
        have "room (heap w) 600" using that by (auto intro: room_mono simp: server_need_def)
        from roomy_after_get[OF inv_roomy[OF assms(1-3) this] g[unfolded Some] f] have "roomy (600 - int total - 15) h1 m"
          using t by simp
        then have "room h1 400" using t room_mono by (fastforce simp: roomy_def)
        then show ?thesis using roomy_step[OF inv_roomy[OF assms(1-3)] st] that by blast
      qed
      moreover have "\<not> int (length ?text) > bsize (Some a) h1" if ?D
      proof -
        have "total mod 4 \<noteq> 0" using that True tx by (auto simp: offers_buffer_def)
        then have "int total mod 4 \<noteq> 0" by presburger
        then show ?thesis using get_slack[OF L g[unfolded Some] f] tx by simp
      qed
      ultimately show ?thesis unfolding eq
        using True g Some config_payload[OF assms(1-3) st, where q = a and D = ?D] by (auto intro!: guard)
    qed
  next
    case False
    have r: "roomy 400 (heap w) (?put m)" if ?D
      using inv_roomy[OF assms(1-3) need_room] that by (auto simp: roomy_def)
    show ?thesis
    proof (cases "Payload m")
      case None
      then show ?thesis unfolding eq using False by (simp add: offers_buffer_def)
    next
      case (Some a)
      moreover have "\<not> int (length ?text) > int (unat (PayloadBufSize m))" if ?D
        using that False tx by (cases "total = 64") (auto simp: offers_buffer_def PREFERED_PAYLOAD_SIZE_def)
      ultimately show ?thesis unfolding eq
        using False config_payload[OF assms(1-3) _ _ r, where q = a] by (auto intro!: guard)
    qed
  qed
qed

lemma wifi_config_handler:
  assumes "server_inv w" "get_ia p w = Some ia" "pRespMsg ia = Some m"
  shows "outcome (room (heap w) (server_need n) \<and> offers_buffer m \<and> (Code req = REQ_GET \<longrightarrow> config_terminated (sdk_state (app w))))
    (handled p ia) (ResWifi_ReqHandler req m w)"
proof (cases "station_config (sdk_state (app w))")
  case None
  then show ?thesis using handled_same[OF assms] by (simp add: ResWifi_ReqHandler_def)
next
  case (Some c)
  obtain ssid pw where c: "c = (ssid, pw)" by (cases c)
  have "length ssid \<le> 32" "length pw \<le> 64" using inv_aok[OF assms(1)] Some c by (simp_all add: app_ok_def data_ok_def)
  from wifi_config_get_handled[OF assms this, of n req]
  have "outcome (room (heap w) (server_need n) \<and> offers_buffer m \<and> config_terminated (sdk_state (app w)))
    (handled p ia) (wifi_config_get ssid pw req m w)"
    using Some c by (simp add: config_terminated_def)
  with wifi_config_put_handled[OF assms, of n ssid pw req] show ?thesis
    unfolding ResWifi_ReqHandler_def Some c
    by (auto intro!: handled_room[OF assms] handled_same[OF assms] elim: outcome_mono)
qed

subsubsection \<open>The scan's result\<close>

text \<open>A response that takes over what the application owned.\<close>

lemma inv_take_over:
  assumes "stack_inv ao aok w" "get_ia p w = Some ia" "pRespMsg ia = Some m"
    "trades (msg_own (heap w) m + ao (app w)) (heap w) (msg_own (heap w) m' + ao a') (heap w)"
    "small_msg m'" "\<And>keys. aok (app w) keys \<Longrightarrow> aok a' keys"
  shows "stack_inv ao aok (set_resp p m' (w\<lparr>app := a'\<rparr>))"
    "get_ia p (set_resp p m' (w\<lparr>app := a'\<rparr>)) = Some (ia\<lparr>pRespMsg := Some m'\<rparr>)"
proof -
  obtain xs ys where s: "pInteractions w = xs @ ia # ys" "ia_addr ia = p" "p \<notin> ia_addr ` set xs" "p \<notin> ia_addr ` set ys"
    using get_ia_split[OF assms(1,2)] .
  let ?ia = "ia\<lparr>pRespMsg := Some m'\<rparr>"
  have u: "set_resp p m' (w\<lparr>app := a'\<rparr>) = w\<lparr>app := a', pInteractions := xs @ ?ia # ys\<rparr>"
    using s by (simp add: set_resp_def upd_ia_split)
  show "get_ia p (set_resp p m' (w\<lparr>app := a'\<rparr>)) = Some ?ia" unfolding u using s by (simp add: get_ia_def)
  have ok: "ia_ok (SocketCtrl w) (pResList w) ia" by (rule get_ia_ok[OF assms(1,2)])
  then have ok': "ia_ok (SocketCtrl w) (pResList w) ?ia"
    using assms(3,5) by (cases "Role ia") (auto simp: ia_ok_def)
  let ?h = "heap w"
  let ?R = "\<lambda>h. ias_own h (xs @ ys) + (ress_own (pResList w) + add_mset (p, sizeof_CoAP_Interaction) (msg_opt_own h (pReqMsg ia)))"
  have i: "good ao aok ?h (SocketCtrl w) (xs @ ia # ys) (pResList w) (ResListMembers w) (app w)"
    using assms(1) s(1) by (simp add: stack_inv_def)
  have "good ao aok ?h (SocketCtrl w) (xs @ ?ia # ys) (pResList w) (ResListMembers w) a'"
  proof (rule good_move[OF i _ _ assms(4)])
    show "ias_own ?h (xs @ ia # ys) + (ress_own (pResList w) + ao (app w)) = msg_own ?h m + ao (app w) + ?R ?h"
      using assms(3) s(2) by (simp add: ia_own_def ac_simps)
    show "steady ?R" by (intro steady_add steady_const steady_add_mset steady_ias steady_msg_opt)
    show "ias_own ?h (xs @ ?ia # ys) + (ress_own (pResList w) + ao a') = msg_own ?h m' + ao a' + ?R ?h"
      using s(2) by (simp add: ia_own_def ac_simps)
  qed (use i ok' assms(6) in \<open>auto simp: good_def\<close>)
  then show "stack_inv ao aok (set_resp p m' (w\<lparr>app := a'\<rparr>))" unfolding u by (simp add: stack_inv_def)
qed

lemma claim_bound: "holds h (add_mset (p, n) K) \<Longrightarrow> n \<le> TotalBufBytes h"
proof -
  assume H: "holds h (add_mset (p, n) K)"
  then obtain L where L: "heap_inv h L" "p \<in> L" using holds_heap by force
  have "(\<Sum>q \<in> {p}. bsize (Some q) h) \<le> TotalBufBytes h" by (rule live_sizes[OF L(1)]) (use L in auto)
  moreover have "n \<le> bsize (Some p) h" using H by (rule holds_size) simp
  ultimately show ?thesis by simp
qed

lemma idle_step:
  assumes "server_inv w" "get_ia p w = Some ia" "pRespMsg ia = Some m" "ScanState a' \<noteq> SCAN_STATE_DONE_OK"
    "\<And>keys. app_ok (app w) keys \<Longrightarrow> app_ok a' keys"
  shows "handled p ia (r, m, w\<lparr>app := a'\<rparr>)"
proof -
  have "small_msg m" using get_ia_ok[OF assms(1,2)] assms(3) by (simp add: ia_ok_def)
  moreover have "trades (msg_own (heap w) m + app_own (app w)) (heap w) (msg_own (heap w) m + app_own a') (heap w)"
    using assms(4) by (auto simp: app_own_def intro!: trades_sub)
  ultimately show ?thesis using inv_take_over[OF assms(1-3)] assms(5) by (auto simp: handled_def)
qed

lemma take_result:
  assumes "server_inv w" "get_ia p w = Some ia" "pRespMsg ia = Some m" "ScanState (app w) = SCAN_STATE_DONE_OK"
    "Payload m' = pScanResultStr (app w)" "msg_addr m' = msg_addr m" "pOptionsList m' = pOptionsList m"
    "unat (PayloadLength m') \<le> 16000"
  shows "handled p ia (r, m', w\<lparr>app := (app w)\<lparr>ScanState := SCAN_STATE_IDLE\<rparr>\<rparr>)"
proof -
  let ?a = "(app w)\<lparr>ScanState := SCAN_STATE_IDLE\<rparr>" and ?h = "heap w"
  have "small_msg m" using get_ia_ok[OF assms(1,2)] assms(3) by (simp add: ia_ok_def)
  then have sm: "small_msg m'" using assms(7,8) by (simp add: small_msg_def)
  have ao: "app_own ?a = {#}" by (simp add: app_own_def scan_states)
  have t: "trades (msg_own ?h m + app_own (app w)) ?h (msg_own ?h m' + app_own ?a) ?h"
  proof (cases "pScanResultStr (app w)")
    case None
    then show ?thesis using assms(5-7) ao by (auto intro!: trades_sub simp: msg_own_def ext_own_def)
  next
    case (Some q)
    have "0 \<le> lastScanResultLen (app w)" using inv_aok[OF assms(1)] assms(4) by (simp add: app_ok_def data_ok_def)
    then have "trades (add_mset (q, lastScanResultLen (app w)) (msg_own ?h m)) ?h (add_mset (q, 0) (msg_own ?h m)) ?h"
      by (rule trades_weaken)
    moreover have "trades (add_mset (q, 0) (msg_own ?h m)) ?h (msg_own ?h m') ?h"
      using assms(5-7) Some by (intro trades_sub) (auto simp: msg_own_def ext_own_def)
    ultimately show ?thesis using trades_trans assms(4) Some ao by (simp add: app_own_def)
  qed
  show ?thesis
    using inv_take_over[OF assms(1-3) t sm] by (auto simp: handled_def app_ok_def data_ok_def scan_states)
qed

lemma scan_length:
  assumes "server_inv w" "ScanState (app w) = SCAN_STATE_DONE_OK"
  shows "0 \<le> lastScanResultLen (app w)" "lastScanResultLen (app w) \<le> 16000"
proof -
  have ok: "data_ok (app w)" using inv_aok[OF assms(1)] by (simp add: app_ok_def)
  then show "0 \<le> lastScanResultLen (app w)" using assms(2) by (simp add: data_ok_def)
  have H: "holds (heap w) (ias_own (heap w) (pInteractions w) + (ress_own (pResList w) + app_own (app w)))"
    "TotalBufBytes (heap w) \<le> 16000" using assms(1) by (auto simp: stack_inv_def good_def)
  show "lastScanResultLen (app w) \<le> 16000"
  proof (cases "pScanResultStr (app w)")
    case None
    then show ?thesis using ok assms(2) by (simp add: data_ok_def)
  next
    case (Some q)
    then show ?thesis using H claim_bound[of "heap w" q "lastScanResultLen (app w)"] assms(2) by (fastforce simp: app_own_def)
  qed
qed

lemma scan_room:
  assumes "server_inv w" "ScanState (app w) = SCAN_STATE_DONE_OK"
  shows "lastScanResultLen (app w) \<le> bsize (pScanResultStr (app w)) (heap w)"
proof (cases "pScanResultStr (app w)")
  case None
  have "data_ok (app w)" using inv_aok[OF assms(1)] by (simp add: app_ok_def)
  then show ?thesis using assms(2) None by (simp add: data_ok_def bsize_def)
next
  case (Some q)
  have H: "holds (heap w) (ias_own (heap w) (pInteractions w) + (ress_own (pResList w) + app_own (app w)))"
    using assms(1) by (auto simp: stack_inv_def good_def)
  show ?thesis unfolding Some by (rule holds_size[OF H]) (use assms(2) Some in \<open>simp add: app_own_def\<close>)
qed

text \<open>A result that is longer than a block has the 17 bytes that the diagnostic text may need.\<close>

lemma blk2_text_length: "0 \<le> n \<Longrightarrow> n \<le> 16000 \<Longrightarrow> length (blk2_text n) \<le> 16"
  using digits_length[of 5 "nat n"] by (simp add: blk2_text_def str_def decimal_def)

lemma longer_than_block:
  assumes "GetBlock2OptionFromMsg req blk = (COAP_OK, b)" "sint (BlockSize b) < n"
  shows "17 \<le> n"
proof -
  note bs = GetBlock_bounds(2,3)[OF assms(1)]
  have e: "uint (BlockSize b) = int (unat (BlockSize b))" by simp
  have "sint (BlockSize b) = uint (BlockSize b)"
    unfolding sint_uint e by (rule signed_take_bit_int_eq_self) (use bs(2) in \<open>simp_all del: of_nat_unat\<close>)
  then show ?thesis unfolding e using bs(1) assms(2) by linarith
qed

lemma wifi_scan_handler:
  assumes "server_inv w" "get_ia p w = Some ia" "pRespMsg ia = Some m"
  shows "outcome D (handled p ia) (wifi_scan_Res_ReqHandler req m w)"
proof -
  let ?len = "lastScanResultLen (app w)"
  have idle: "handled p ia (r, m, w\<lparr>app := a'\<rparr>)"
    if "a' = (app w)\<lparr>ScanState := SCAN_STATE_IDLE\<rparr> \<or>
        a' = (app w)\<lparr>sdk_state := (sdk_state (app w))\<lparr>scanning := True\<rparr>, ScanState := SCAN_STATE_RUNNING\<rparr>" for r a'
    by (rule idle_step[OF assms]) (use that in \<open>auto simp: app_ok_def data_ok_def scan_states\<close>)
  note eq = wifi_scan_Res_ReqHandler_def Let_def
  show ?thesis
  proof (cases "Code req = REQ_GET \<and> ScanState (app w) = SCAN_STATE_DONE_OK")
    case False
    then show ?thesis unfolding eq by (auto intro!: idle handled_same[OF assms])
  next
    case True
    note len = scan_length[OF assms(1)] and t = take_result[OF assms]
    have s: "SCAN_STATE_DONE_OK \<noteq> SCAN_STATE_IDLE" "SCAN_STATE_DONE_OK \<noteq> SCAN_STATE_RUNNING" by (simp_all add: scan_states)
    have 1: "unat (of_int ?len :: u16) \<le> 16000"
    proof -
      define n where "n = nat ?len"
      have n: "?len = int n" "n \<le> 16000" using len True by (simp_all add: n_def)
      then show ?thesis by (simp add: unat_of_nat)
    qed
    have bl: "length (blk2_text ?len) \<le> 16" using blk2_text_length len True by simp
    moreover have u: "unat (of_nat k :: u16) \<le> k" for k by (simp add: unat_of_nat)
    moreover note u[of "length (blk2_text ?len)"]
    ultimately have 2: "unat (of_nat (length (blk2_text ?len)) :: u16) \<le> 16000" by linarith
    obtain found b where f: "GetBlock2OptionFromMsg req \<lparr>BlkType = 0, BlockSize = 0, MoreFlag = False, BlockNum = 0\<rparr> = (found, b)"
      by force
    let ?big = "found = COAP_OK \<and> sint (BlockSize b) < ?len"
    have room: "\<not> int (length (blk2_text ?len @ [0])) > bsize (pScanResultStr (app w)) (heap w)" if ?big
    proof -
      have "17 \<le> ?len" by (rule longer_than_block[of req _ b]) (use f that in simp_all)
      moreover have "?len \<le> bsize (pScanResultStr (app w)) (heap w)" by (rule scan_room[OF assms(1)]) (use True in simp)
      ultimately show ?thesis using bl by simp
    qed
    show ?thesis
    proof (cases ?big)
      case big: True
      note r = room[OF big]
      show ?thesis unfolding eq using True f big s r by (simp add: t 1 2)
    next
      case False
      then have e: "(found = COAP_OK \<and> sint (BlockSize b) < ?len) = False" by blast
      show ?thesis unfolding eq f prod.case e if_False using True s by (simp add: t 1)
    qed
  qed
qed

subsection \<open>The server as an application\<close>

lemma outcome_and: "outcome D P q \<Longrightarrow> outcome (D \<and> X) P q"
  by (cases q) auto

lemma server_handler:
  assumes "server_inv w" "get_ia p w = Some ia" "Role ia = COAP_ROLE_SERVER" "pRespMsg ia = Some m"
    "r \<in> set (pResList w)" "Handler r = Some f"
  shows "outcome (room (heap w) (server_need (length (pResList w))) \<and> offers_buffer m \<and> server_apt f req (app w)) (handled p ia)
    (call_handler (server_env d err_addr) f req m w)"
proof -
  have "keys_ok (res_key ` set (pResList w))" using inv_aok[OF assms(1)] by (simp add: app_ok_def)
  then have "known_handler f" using assms(5,6) by (force simp: keys_ok_def res_key_def)
  then consider "f = WELL_KNOWN" | "f = LED_HANDLER" | "f = RTC_HANDLER" | "f = ABOUT_HANDLER" | "f = WIFI_IP_HANDLER"
    | "f = WIFI_CONFIG_HANDLER" | "f = WIFI_SCAN_HANDLER" by (auto simp: known_handler_def)
  then show ?thesis
  proof cases
    case 1
    then show ?thesis using well_known_handler[OF assms(1,2,4), of err_addr req] by (simp add: server_env_def outcome_and)
  next
    case 2
    then show ?thesis using led_handler[OF assms(1,2,4,3), of "length (pResList w)" d req]
      by (auto simp: server_env_def function_numbers elim: outcome_mono)
  next
    case 3
    then show ?thesis using rtc_handler[OF assms(1,2,4)] by (simp add: server_env_def function_numbers outcome_and)
  next
    case 4
    then show ?thesis using about_handler[OF assms(1,2,4)] by (simp add: server_env_def function_numbers outcome_and)
  next
    case 5
    then show ?thesis using wifi_ip_handler[OF assms(1,2,4)] by (simp add: server_env_def function_numbers outcome_and)
  next
    case 6
    then show ?thesis using wifi_config_handler[OF assms(1,2,4), of "length (pResList w)" req]
      by (simp add: server_env_def server_apt_def function_numbers)
  next
    case 7
    then show ?thesis using wifi_scan_handler[OF assms(1,2,4)] by (simp add: server_env_def function_numbers)
  qed
qed

interpretation served: application "server_env d err_addr" app_own app_ok server_need "{}" server_apt for d err_addr
proof unfold_locales
  show "16 \<le> server_need n" for n by (simp add: server_need_def)
qed (use server_notifier[of app_ok] server_handler in
  \<open>auto simp: app_ok_def server_env_def notifier_env_def handled_def[symmetric]\<close>)

lemmas server_doWork = served.doWork_outcome

end
