(* ===== verification/Server_Start.thy ===== *)
theory Server_Start imports App_Safety begin

section \<open>The start of the server establishes the invariant\<close>

text \<open>
  \<open>init_done\<close> on the cleared machine: the pool of 4096 bytes is big enough for all seven resources, the
  result is well formed and has room for the first requests.
\<close>

subsection \<open>The path of a resource\<close>

text \<open>The segments of a path without query.\<close>

fun path_parts :: "u8 list \<Rightarrow> u8 list \<Rightarrow> u8 list list" where
  "path_parts part [] = (if part \<noteq> [] then [part] else [])"
| "path_parts part (c # cs) =
    (if c = 47 \<or> c = 32 then (if part = [] then path_parts [] cs else part # path_parts [] cs)
     else path_parts (part @ [c]) cs)"

lemma parse_path_parts:
  "63 \<notin> set cs \<Longrightarrow>
     parse_uri_path part cs opts h = fold (\<lambda>p (opts, h). append_part OPT_NUM_URI_PATH p opts h) (path_parts part cs) (opts, h)"
  by (induction cs arbitrary: part opts h) (auto simp: split_beta)

definition uri_cost :: "u8 list list \<Rightarrow> int" where
  "uri_cost ps = (\<Sum>p \<leftarrow> ps. int (length p) + 27)"

definition uri_text :: "options \<Rightarrow> u8 list" where
  "uri_text opts = concat (map (\<lambda>opt. Value opt @ [47]) opts)"

lemma append_path_part:
  assumes "append_part OPT_NUM_URI_PATH p opts h = (opts', h')" "heap_inv h L" "room h k" "length p \<le> 255"
    "int (length p) + 40 \<le> k" "\<forall>opt \<in> set opts. Number opt = OPT_NUM_URI_PATH"
  shows "uri_text opts' = uri_text opts @ p @ [47]" "\<exists>L'. heap_inv h' L'" "room h' (k - (int (length p) + 27))"
    "\<forall>opt \<in> set opts'. Number opt = OPT_NUM_URI_PATH"
proof -
  let ?n = "of_nat (length p) :: u16"
  have n: "unat ?n = length p" using assms(4) by (simp add: unat_of_nat)
  obtain res where a: "CoAP_AppendOptionToList opts OPT_NUM_URI_PATH p ?n h = (res, opts', h')"
    using assms(1) by (cases "CoAP_AppendOptionToList opts OPT_NUM_URI_PATH p ?n h") (auto simp: append_part_def)
  have c: "option_request ?n = int (length p) + 12" by (simp only: option_request_def sizeof_option_def n)
  have f: "option_request ?n + 28 \<le> k" "unat ?n \<le> 32740" using assms(4,5) n by (simp_all only: c n)
  note r = append_option_room[OF a assms(2,3) f]
  show "\<exists>L'. heap_inv h' L'" by (rule r(3))
  show "room h' (k - (int (length p) + 27))" using r(2) c by (simp add: algebra_simps)
  obtain q where q: "opts' = insert_option (mk_option q OPT_NUM_URI_PATH p ?n) opts"
    using append_option_OK a r(1) by blast
  have "takeWhile (\<lambda>opt. Number opt \<le> OPT_NUM_URI_PATH) opts = opts" "dropWhile (\<lambda>opt. Number opt \<le> OPT_NUM_URI_PATH) opts = []"
    using assms(6) by (auto simp: takeWhile_eq_all_conv dropWhile_eq_Nil_conv)
  then have "opts' = opts @ [mk_option q OPT_NUM_URI_PATH p ?n]" using q by (simp add: insert_option_def mk_option_def)
  then show "uri_text opts' = uri_text opts @ p @ [47]" "\<forall>opt \<in> set opts'. Number opt = OPT_NUM_URI_PATH"
    using assms(6) n by (auto simp: uri_text_def mk_option_def)
qed

lemma append_path_parts:
  assumes "fold (\<lambda>p (opts, h). append_part OPT_NUM_URI_PATH p opts h) ps (opts, h) = (opts', h')" "heap_inv h L" "room h k"
    "\<forall>p \<in> set ps. length p \<le> 255" "uri_cost ps + 13 \<le> k" "\<forall>opt \<in> set opts. Number opt = OPT_NUM_URI_PATH"
  shows "uri_text opts' = uri_text opts @ concat (map (\<lambda>p. p @ [47]) ps) \<and> (\<exists>L'. heap_inv h' L') \<and> room h' (k - uri_cost ps)"
  using assms
proof (induction ps arbitrary: opts h L k)
  case Nil
  then show ?case by (auto simp: uri_cost_def)
next
  case (Cons p ps)
  obtain opts1 h1 where a: "append_part OPT_NUM_URI_PATH p opts h = (opts1, h1)" by force
  have "0 \<le> uri_cost ps" by (induction ps) (simp_all add: uri_cost_def)
  then have "int (length p) + 40 \<le> k" using Cons.prems(5) by (simp add: uri_cost_def)
  note s = append_path_part[OF a Cons.prems(2,3) _ this Cons.prems(6)]
  obtain L1 where L1: "heap_inv h1 L1" using s(2) Cons.prems(4) by auto
  have "fold (\<lambda>p (opts, h). append_part OPT_NUM_URI_PATH p opts h) ps (opts1, h1) = (opts', h')" using Cons.prems(1) a by simp
  from Cons.IH[OF this L1 s(3)] Cons.prems(4,5) s(1,4) show ?case
    by (simp add: uri_cost_def algebra_simps)
qed

subsection \<open>A new resource\<close>

lemma inv_new_resource:
  assumes "stack_inv ao aok w" "trades {#} (heap w) (res_own r) h'" "res_ok (SocketCtrl w) r" "length (pResList w) < 400"
    "\<And>keys. aok (app w) keys \<Longrightarrow> aok (app w) (insert (res_key r) keys)"
  shows "stack_inv ao aok (w\<lparr>heap := h', pResList := pResList w @ [r], ResListMembers := ResListMembers w + 1\<rparr>)"
proof -
  let ?R = "\<lambda>h. ias_own h (pInteractions w) + (ress_own (pResList w) + ao (app w))"
  note g = assms(1)[unfolded stack_inv_def good_def]
  have H: "holds (heap w) ({#} + ?R (heap w))" using g by simp
  have "steady ?R" by (intro steady_add steady_const steady_ias)
  then have "trades ({#} + ?R (heap w)) (heap w) (res_own r + ?R h') h'" using assms(2) by (rule trades_steady)
  then have "holds h' (res_own r + ?R h')" "same_pool (heap w) h'"
    using tradesD(1,3)[of "{#} + ?R (heap w)" "heap w" "res_own r + ?R h'" h' "{#}"] H by auto
  moreover have "ia_ok (SocketCtrl w) (pResList w @ [r]) ia" if "ia \<in> set (pInteractions w)" for ia
    by (rule ia_ok_cong[of _ "pResList w"]) (use g that in auto)
  moreover have "unat (ResListMembers w + 1) = Suc (unat (ResListMembers w))"
    using g assms(4) by (simp add: unat_word_ariths(1))
  ultimately show ?thesis using g assms(3-5)
    by (auto simp: stack_inv_def good_def same_pool_def coap_mem_buf_highEnd_def ac_simps)
qed

text \<open>What a resource costs: itself, its description, its path.\<close>

definition resource_cost :: "u8 list \<Rightarrow> u8 list list \<Rightarrow> int" where
  "resource_cost Descr ps = 51 + (int (length Descr) + 16) + uri_cost ps"

definition link_fits :: "CoAP_ResOpts \<Rightarrow> fnptr option \<Rightarrow> u8 list \<Rightarrow> u8 list list \<Rightarrow> bool" where
  "link_fits opts nt Descr ps \<longleftrightarrow>
     (let n = length (concat (map (\<lambda>p. p @ [47]) ps))
      in if Cf opts = COAP_CF_LINK_FORMAT then n \<le> 61
         else Cf opts = COAP_CF_TEXT_PLAIN \<and> Descr \<noteq> [] \<and> n + length Descr + (if nt = None then 0 else 4) \<le> 47)"

lemma link_length:
  assumes "link_fits (Options r) (Notifier r) Descr ps" "uri_text (pUri r) = concat (map (\<lambda>p. p @ [47]) ps)"
    "pDescription r = (if Descr = [] then None else Some (d, Descr))"
  shows "case res_link r of None \<Rightarrow> False | Some l \<Rightarrow> length l \<le> 64"
proof -
  have "length (digits 0) = 1" by (simp add: digits.simps)
  then show ?thesis using assms
    by (auto simp: link_fits_def res_link_def Let_def uri_text_def[symmetric] str_title_def str_cf_def str_obs_def COAP_CF_TEXT_PLAIN_def
        split: if_splits)
qed

lemma roomy_get:
  assumes "heap_inv h L" "room h k" "fits n" "n + 28 \<le> k"
  obtains p h' where "coap_mem_get n h = (Some p, h')" "heap_inv h' (insert p L)" "room h' (k - (n + 15))"
proof -
  obtain p h' where "coap_mem_get n h = (Some p, h')" "room h' (k - n - 15)" using room_get[OF assms(1,3,2,4)] by blast
  moreover have "heap_inv h' (insert p L)" using mem.get_inv[OF calculation(1) assms(1,3)] .
  ultimately show thesis using that by (simp add: algebra_simps)
qed

lemma uri_cost_pos: "0 \<le> uri_cost ps"
  by (induction ps) (simp_all add: uri_cost_def)

lemma create_resource_ok:
  assumes inv: "stack_inv ao aok w" "room (heap w) k" "length (pResList w) < 400"
    and s: "63 \<notin> set s" "path_parts [] s = ps" "\<forall>p \<in> set ps. length p \<le> 255" "length s \<le> 32000"
    and d: "length Descr \<le> 255" "link_fits opts nt Descr ps" "resource_cost Descr ps + 28 \<le> k"
    and ok: "\<And>a keys. aok (app w) keys \<Longrightarrow> aok (app w) (insert (a, hdl, nt) keys)"
  obtains a r w' where "CoAP_CreateResource (Some s) Descr opts hdl nt w = Some (Some a, w')" "res_key r = (a, hdl, nt)"
    "w' = w\<lparr>heap := heap w', pResList := pResList w @ [r], ResListMembers := ResListMembers w + 1\<rparr>"
    "stack_inv ao aok w'" "room (heap w') (k - resource_cost Descr ps)"
proof -
  let ?len = "int (length Descr) + 1"
  obtain L where L: "heap_inv (heap w) L" using inv_heap_inv[OF inv(1)] by blast
  have f: "fits sizeof_CoAP_Res" "fits ?len" using d(1) by (simp_all add: fits_def sizeof_CoAP_Res_def)
  have c: "sizeof_CoAP_Res + 28 \<le> k" "?len + 28 \<le> k - (sizeof_CoAP_Res + 15)" "uri_cost ps + 13 \<le> k - (sizeof_CoAP_Res + 15) - (?len + 15)"
    using d(3) uri_cost_pos[of ps] by (simp_all add: resource_cost_def sizeof_CoAP_Res_def)
  obtain a h1 where a: "coap_mem_get sizeof_CoAP_Res (heap w) = (Some a, h1)" "heap_inv h1 (insert a L)" "room h1 (k - (sizeof_CoAP_Res + 15))"
    using roomy_get[OF L inv(2) f(1) c(1)] .
  obtain q h2 where q: "coap_mem_get ?len h1 = (Some q, h2)" "heap_inv h2 (insert q (insert a L))"
    "room h2 (k - (sizeof_CoAP_Res + 15) - (?len + 15))" using roomy_get[OF a(2,3) f(2) c(2)] .
  define descr h3 where "descr = (if Descr = [] then None else Some (q, Descr))" and "h3 = (if Descr = [] then h1 else h2)"
  have dh: "(if Descr \<noteq> [] then (case coap_mem_get ?len h1 of (None, h) \<Rightarrow> None | (Some d, h) \<Rightarrow> Some (Some (d, Descr), h))
     else Some (None, h1)) = Some (descr, h3)" using q(1) by (simp add: descr_def h3_def)
  have t1: "trades {#} (heap w) ({#(a, sizeof_CoAP_Res)#} + descr_own descr) h3"
  proof (cases "Descr = []")
    case True
    then show ?thesis using trades_get[OF a(1) f(1)] by (simp add: descr_def h3_def descr_own_def)
  next
    case False
    have B: "trades {#(a, sizeof_CoAP_Res)#} h1 (add_mset (q, ?len) {#(a, sizeof_CoAP_Res)#}) h2"
      using trades_frame_left[OF trades_get[OF q(1) f(2)], of "{#(a, sizeof_CoAP_Res)#}"] by (simp add: add_mset_commute)
    have C: "trades (add_mset (q, ?len) {#(a, sizeof_CoAP_Res)#}) h2 (add_mset (q, 0) {#(a, sizeof_CoAP_Res)#}) h2"
      by (rule trades_weaken) simp
    show ?thesis using trades_trans[OF trades_trans[OF trades_get[OF a(1) f(1)] B] C] False
      by (simp add: descr_def h3_def descr_own_def add_mset_commute)
  qed
  have h3: "\<exists>L. heap_inv h3 L" "room h3 (k - (sizeof_CoAP_Res + 15) - (?len + 15))"
    using a(2,3) q(2,3) room_mono[OF a(3), of "k - (sizeof_CoAP_Res + 15) - (?len + 15)"] by (auto simp: h3_def)
  obtain res uri h4 where u: "CoAP_AppendUriOptionsFromString [] (Some s) h3 = (res, uri, h4)" using prod_cases3 by blast
  then have "fold (\<lambda>p (opts, h). append_part OPT_NUM_URI_PATH p opts h) ps ([], h3) = (uri, h4)"
    using parse_path_parts[OF s(1), of "[]" "[]" h3] s(2) by (auto simp: CoAP_AppendUriOptionsFromString_def split: prod.splits)
  from append_path_parts[OF this _ h3(2) s(3) c(3)] h3(1)
  have ut: "uri_text uri = concat (map (\<lambda>p. p @ [47]) ps)" "room h4 (k - (sizeof_CoAP_Res + 15) - (?len + 15) - uri_cost ps)"
    by (auto simp: uri_text_def)
  define r where "r = \<lparr>res_addr = a, pDescription = descr, UpdateCnt = 0, Options = opts, pUri = uri,
    pListObservers = [], Handler = hdl, Notifier = nt\<rparr>"
  let ?w = "w\<lparr>heap := h4, pResList := pResList w @ [r], ResListMembers := ResListMembers w + 1\<rparr>"
  have cr: "CoAP_CreateResource (Some s) Descr opts hdl nt w = Some (Some a, ?w)"
    unfolding CoAP_CreateResource_def using a(1) dh u
    by (simp add: CoAP_AppendResourceToList_def r_def Let_def)
  have t2: "trades ({#} + ({#(a, sizeof_CoAP_Res)#} + descr_own descr)) h3 (opts_own uri + ({#(a, sizeof_CoAP_Res)#} + descr_own descr)) h4"
    using trades_frame[of "opts_own []" h3 "opts_own uri" h4 "{#(a, sizeof_CoAP_Res)#} + descr_own descr"] AppendUri_trades[OF u] s(4) by simp
  have "trades {#} (heap w) (opts_own uri + ({#(a, sizeof_CoAP_Res)#} + descr_own descr)) h4"
    by (rule trades_trans[OF t1]) (use t2 in simp)
  then have "trades {#} (heap w) (res_own r) h4" by (simp add: res_own_def r_def ac_simps)
  moreover have "res_ok (SocketCtrl w) r"
    using link_length[of r Descr ps q] d(2) ut(1) by (simp add: res_ok_def r_def descr_def)
  ultimately have "stack_inv ao aok ?w" using inv_new_resource[OF inv(1) _ _ inv(3)] ok by (simp add: res_key_def r_def)
  moreover have "room h4 (k - resource_cost Descr ps)"
    using ut(2) by (simp add: resource_cost_def sizeof_CoAP_Res_def algebra_simps)
  ultimately show thesis using that[OF cr, of r] by (simp add: res_key_def r_def)
qed

subsection \<open>\<open>init_done\<close>\<close>

lemma resource_paths:
  "path_parts [] well_known_core = [str ''.well-known'', str ''core'']"
  "path_parts [] (str ''wifi/ipconfig'') = [str ''wifi'', str ''ipconfig'']"
  "path_parts [] (str ''about/coap'') = [str ''about'', str ''coap'']"
  "path_parts [] (str ''wifi/config'') = [str ''wifi'', str ''config'']"
  "path_parts [] (str ''/rtc'') = [str ''rtc'']"
  "path_parts [] (str ''esp8266/led_gpio12'') = [str ''esp8266'', str ''led_gpio12'']"
  "path_parts [] (str ''wifi/scan'') = [str ''wifi'', str ''scan'']"
  by code_simp+

text \<open>While the resources are created the application relies on less.\<close>

definition boot_ok :: "server_app \<Rightarrow> res_key set \<Rightarrow> bool" where
  "boot_ok a keys \<longleftrightarrow> data_ok a \<and> keys_ok keys"

definition booting :: "int \<Rightarrow> nat \<Rightarrow> server_app coap \<Rightarrow> bool" where
  "booting k n w \<longleftrightarrow> stack_inv app_own boot_ok w \<and> room (heap w) k \<and> length (pResList w) = n \<and> pInteractions w = [] \<and>
     (\<forall>r \<in> set (pResList w). pListObservers r = [])"

lemma boot_create:
  assumes "booting k n w" "n < 400" "63 \<notin> set s" "path_parts [] s = ps" "\<forall>p \<in> set ps. length p \<le> 255" "length s \<le> 32000"
    "length Descr \<le> 255" "link_fits opts nt Descr ps" "resource_cost Descr ps + 28 \<le> k"
    "known_handler f" "\<forall>g. nt = Some g \<longrightarrow> known_notifier g"
  obtains a w' where "CoAP_CreateResource (Some s) Descr opts (Some f) nt w = Some (Some a, w')"
    "booting (k - resource_cost Descr ps) (Suc n) w'" "app w' = app w" "SocketCtrl w' = SocketCtrl w"
    "fst ` res_key ` set (pResList w') = insert a (fst ` res_key ` set (pResList w))"
proof -
  have ok: "boot_ok (app w) keys \<Longrightarrow> boot_ok (app w) (insert (a, Some f, nt) keys)" for a keys
    using assms(10,11) by (simp add: boot_ok_def keys_ok_def)
  have b: "stack_inv app_own boot_ok w" "room (heap w) k" "length (pResList w) < 400"
    using assms(1,2) by (auto simp: booting_def)
  obtain a r w' where c: "CoAP_CreateResource (Some s) Descr opts (Some f) nt w = Some (Some a, w')" "res_key r = (a, Some f, nt)"
    "w' = w\<lparr>heap := heap w', pResList := pResList w @ [r], ResListMembers := ResListMembers w + 1\<rparr>"
    "stack_inv app_own boot_ok w'" "room (heap w') (k - resource_cost Descr ps)"
    using create_resource_ok[OF b assms(3-9) ok] .
  have e: "pResList w' = pResList w @ [r]" "pInteractions w' = pInteractions w" "app w' = app w" "SocketCtrl w' = SocketCtrl w"
    by (subst c(3), simp)+
  have "pListObservers r = []"
    using c(1) e(1) by (auto simp: CoAP_CreateResource_def CoAP_AppendResourceToList_def Let_def
        split: prod.splits option.splits if_splits Option.bind_splits)
  then show thesis using that[OF c(1)] c(2,4,5) e assms(1) by (auto simp: booting_def)
qed

lemma boot_app_field:
  "booting k n w \<Longrightarrow> app_own a' = app_own (app w) \<Longrightarrow> data_ok a' = data_ok (app w) \<Longrightarrow> booting k n (w\<lparr>app := a'\<rparr>)"
  using inv_app[of app_own boot_ok w a'] by (simp add: booting_def boot_ok_def)

lemma boot_sockets: "booting k n w \<Longrightarrow> booting k n (w\<lparr>SocketCtrl := c\<rparr>)"
  by (auto simp: booting_def stack_inv_def good_def res_ok_def)

lemma boot_data: "app_own (boot_app flash s) = {#}" "data_ok (boot_app flash s) \<longleftrightarrow> IROM0 \<le> flash \<and>
    (case station_config s of None \<Rightarrow> True | Some (ssid, pw) \<Rightarrow> length ssid \<le> 32 \<and> length pw \<le> 64)"
  by (simp_all add: app_own_def data_ok_def boot_app_def scan_states)

lemma boot_pool:
  assumes "mem + 4096 < IROM0" "data_ok (boot_app flash s)"
  shows "booting 4092 0 ((boot_state now flash s)\<lparr>heap := coap_mem_init (Some mem) 4096 (heap (boot_state now flash s))\<rparr>)"
proof -
  let ?h = "coap_mem_init (Some mem) 4096 bget_init"
  have "pool_inv ?h [(4092, True)]" using coap_mem_init_inv(1)[of 4096 mem] by simp
  then have r: "room ?h 4092" using room_blocks by fastforce
  have "holds ?h {#}" using heap_inv_init[of 4096 mem] holds_heap_inv by simp
  moreover have "TotalBufBytes ?h = 4096" "pMemArea ?h = mem"
    by (simp_all add: coap_mem_init_def bpool_def heap_ops)
  ultimately show ?thesis using r assms boot_data(1)[of flash s]
    by (simp add: booting_def stack_inv_def good_def boot_state_def boot_ok_def keys_ok_def coap_mem_buf_highEnd_def)
qed

text \<open>Every resource takes at most 200 bytes. \<open>grown\<close>: what holds from one creation to the next.\<close>

definition grown :: "server_app coap \<Rightarrow> server_app coap \<Rightarrow> bool" where
  "grown w w' \<longleftrightarrow> SocketCtrl w' = SocketCtrl w \<and> sdk_state (app w') = sdk_state (app w) \<and>
     (\<forall>q. created q (res_key ` set (pResList w)) \<longrightarrow> created q (res_key ` set (pResList w')))"

lemma grown_trans: "grown w w' \<Longrightarrow> grown w' w'' \<Longrightarrow> grown w w''"
  by (simp add: grown_def)

definition added :: "int \<Rightarrow> nat \<Rightarrow> server_app coap \<Rightarrow> addr option \<Rightarrow> server_app coap \<Rightarrow> bool" where
  "added k n w p w' \<longleftrightarrow> booting (k - 200) (Suc n) w' \<and> grown w w' \<and> created p (res_key ` set (pResList w'))"

definition small_resource :: "u8 list \<Rightarrow> u8 list \<Rightarrow> CoAP_ResOpts \<Rightarrow> fnptr \<Rightarrow> fnptr option \<Rightarrow> bool" where
  "small_resource s Descr opts f nt \<longleftrightarrow> 63 \<notin> set s \<and> length s \<le> 32000 \<and> length Descr \<le> 255 \<and> known_handler f \<and>
     (case nt of None \<Rightarrow> True | Some g \<Rightarrow> known_notifier g) \<and>
     (let ps = path_parts [] s in (\<forall>p \<in> set ps. length p \<le> 255) \<and> link_fits opts nt Descr ps \<and> resource_cost Descr ps \<le> 200)"

lemma boot_small:
  assumes "small_resource s Descr opts f nt" "booting k n w" "n < 400" "228 \<le> k"
  shows "\<exists>a w'. CoAP_CreateResource (Some s) Descr opts (Some f) nt w = Some (Some a, w') \<and> added k n w (Some a) w' \<and> app w' = app w"
proof -
  let ?ps = "path_parts [] s"
  have a: "63 \<notin> set s" "\<forall>p \<in> set ?ps. length p \<le> 255" "length s \<le> 32000" "length Descr \<le> 255" "link_fits opts nt Descr ?ps"
    "resource_cost Descr ?ps \<le> 200" "known_handler f" "\<forall>g. nt = Some g \<longrightarrow> known_notifier g"
    using assms(1) by (auto simp: small_resource_def Let_def)
  have "resource_cost Descr ?ps + 28 \<le> k" using assms(4) a(6) by simp
  from boot_create[OF assms(2,3) a(1) refl a(2-5) this a(7,8)]
  obtain a w' where c: "CoAP_CreateResource (Some s) Descr opts (Some f) nt w = Some (Some a, w')"
    "booting (k - resource_cost Descr ?ps) (Suc n) w'" "app w' = app w" "SocketCtrl w' = SocketCtrl w"
    "fst ` res_key ` set (pResList w') = insert a (fst ` res_key ` set (pResList w))" .
  have "booting (k - 200) (Suc n) w'" using c(2) a(6) room_mono[of "heap w'" _ "k - 200"] by (fastforce simp: booting_def)
  then show ?thesis using c by (auto simp: added_def grown_def created_def)
qed

lemma small_resources:
  "small_resource well_known_core [] \<lparr>Cf = COAP_CF_LINK_FORMAT, Flags = F, ETag = E\<rparr> WELL_KNOWN None"
  "small_resource (str ''wifi/ipconfig'') (str ''ESP8266 IP configuration'') \<lparr>Cf = COAP_CF_TEXT_PLAIN, Flags = F, ETag = E\<rparr> WIFI_IP_HANDLER None"
  "small_resource (str ''about/coap'') (str ''CoAP Description'') \<lparr>Cf = COAP_CF_TEXT_PLAIN, Flags = F, ETag = E\<rparr> ABOUT_HANDLER None"
  "small_resource (str ''wifi/config'') (str ''WIFI-Parameter (protected by key)'') \<lparr>Cf = COAP_CF_TEXT_PLAIN, Flags = F, ETag = E\<rparr> WIFI_CONFIG_HANDLER None"
  "small_resource (str ''/rtc'') (str ''esp8266 RTC'') \<lparr>Cf = COAP_CF_TEXT_PLAIN, Flags = F, ETag = E\<rparr> RTC_HANDLER (Some RTC_NOTIFIER)"
  "small_resource (str ''esp8266/led_gpio12'') (str ''LED at GPIO12'') \<lparr>Cf = COAP_CF_TEXT_PLAIN, Flags = F, ETag = E\<rparr> LED_HANDLER (Some LED_NOTIFIER)"
  "small_resource (str ''wifi/scan'') (str ''result of wifi network scan'') \<lparr>Cf = COAP_CF_TEXT_PLAIN, Flags = F, ETag = E\<rparr> WIFI_SCAN_HANDLER None"
  unfolding small_resource_def resource_paths Let_def
  by (simp_all add: link_fits_def resource_cost_def uri_cost_def str_def COAP_CF_TEXT_PLAIN_def COAP_CF_LINK_FORMAT_def
    known_handler_def known_notifier_def well_known_core_def)

text \<open>The result is stored in a variable of the application.\<close>

definition keeps_data :: "(addr option \<Rightarrow> server_app \<Rightarrow> server_app) \<Rightarrow> bool" where
  "keeps_data f \<longleftrightarrow> (\<forall>p a. app_own (f p a) = app_own a \<and> data_ok (f p a) = data_ok a \<and> sdk_state (f p a) = sdk_state a)"

lemma untouched_data [simp]:
  "app_own (a\<lparr>pLed_Res := p\<rparr>) = app_own a" "app_own (a\<lparr>pRTC_Res := p\<rparr>) = app_own a" "app_own (a\<lparr>pAbout_Res := p\<rparr>) = app_own a"
  "app_own (a\<lparr>pWifi_ip_Res := p\<rparr>) = app_own a" "app_own (a\<lparr>pWifi_Res := p\<rparr>) = app_own a"
  "app_own (a\<lparr>pWifi_scan_Res := p\<rparr>) = app_own a" "app_own (a\<lparr>sdk_state := s\<rparr>) = app_own a"
  by (rule app_own_cong; simp)+

lemma keeps_stores [simp]:
  "keeps_data (\<lambda>p a. a\<lparr>pLed_Res := p\<rparr>)" "keeps_data (\<lambda>p a. a\<lparr>pRTC_Res := p\<rparr>)" "keeps_data (\<lambda>p a. a\<lparr>pAbout_Res := p\<rparr>)"
  "keeps_data (\<lambda>p a. a\<lparr>pWifi_ip_Res := p\<rparr>)" "keeps_data (\<lambda>p a. a\<lparr>pWifi_Res := p\<rparr>)" "keeps_data (\<lambda>p a. a\<lparr>pWifi_scan_Res := p\<rparr>)"
  by (simp_all add: keeps_data_def data_ok_def)

lemma boot_store:
  assumes "small_resource s Descr opts f nt" "booting k n w" "n < 400" "228 \<le> k" "keeps_data upd"
  shows "\<exists>p w'. (CoAP_CreateResource (Some s) Descr opts (Some f) nt w \<bind> (\<lambda>(p, w). Some (p, w\<lparr>app := upd p (app w)\<rparr>))) = Some (p, w') \<and>
    booting (k - 200) (Suc n) w' \<and> grown w w' \<and> created p (res_key ` set (pResList w')) \<and> app w' = upd p (app w)"
proof -
  obtain a w1 where c: "CoAP_CreateResource (Some s) Descr opts (Some f) nt w = Some (Some a, w1)" "added k n w (Some a) w1" "app w1 = app w"
    using boot_small[OF assms(1-4)] by blast
  let ?w = "w1\<lparr>app := upd (Some a) (app w1)\<rparr>"
  have u: "app_own (upd p x) = app_own x" "data_ok (upd p x) = data_ok x" "sdk_state (upd p x) = sdk_state x" for p x
    using assms(5) by (simp_all add: keeps_data_def)
  have "booting (k - 200) (Suc n) ?w"
    by (rule boot_app_field[OF _ u(1,2)]) (use c(2) in \<open>simp add: added_def\<close>)
  moreover have "grown w ?w" "created (Some a) (res_key ` set (pResList ?w))"
    using c(2) by (simp_all add: added_def grown_def u)
  moreover have "(CoAP_CreateResource (Some s) Descr opts (Some f) nt w \<bind> (\<lambda>(p, w). Some (p, w\<lparr>app := upd p (app w)\<rparr>))) = Some (Some a, ?w)"
    using c(1) by simp
  moreover have "app ?w = upd (Some a) (app w)" by (simp add: c(3))
  ultimately show ?thesis by (intro exI[of _ "Some a"] exI[of _ ?w] conjI)
qed

lemma created_grown: "created p (res_key ` set (pResList w)) \<Longrightarrow> grown w w' \<Longrightarrow> created p (res_key ` set (pResList w'))"
  by (simp add: grown_def)

lemma first_socket:
  assumes "CoAP_ESP8266_CreateInterfaceSocket False 0 (Some conn) 5683 (Some ON_NEW_PACKET) (Some SEND_DATAGRAM)
    (SocketCtrl (boot_state now flash s)) e = (i, c, e')"
  shows "RetrieveSocket2 0 c = Some 0" "RetrieveSocket conn c = Some 0" "RxCB (SocketMemory c ! 0) = Some ON_NEW_PACKET"
  using assms
  by (auto simp: boot_state_def CoAP_ESP8266_CreateInterfaceSocket_def RetrieveSocket2_def RetrieveSocket_def AllocSocket_def
      null_socket_def MAX_ACTIVE_SOCKETS_def numeral_eq_Suc Let_def)

theorem init_done_ok:
  assumes "mem + 4096 < IROM0" "IROM0 \<le> flash"
    "case station_config s of None \<Rightarrow> True | Some (ssid, pw) \<Rightarrow> length ssid \<le> 32 \<and> length pw \<le> 64"
  shows "\<exists>w e. init_done env mem conn fails (boot_state now flash s) boot_esp = Some (w, e) \<and> server_inv w \<and>
    room (heap w) 2692 \<and> length (pResList w) = 7 \<and> pInteractions w = [] \<and> (fails \<or> known_interface (SocketCtrl w) 0)"
proof -
  let ?w0 = "(boot_state now flash s)\<lparr>heap := coap_mem_init (Some mem) 4096 (heap (boot_state now flash s))\<rparr>"
  have b0: "booting 4092 0 ?w0" by (rule boot_pool[OF assms(1)]) (use assms(2,3) in \<open>simp add: boot_data\<close>)
  obtain a w1 where c1: "CoAP_InitResources ?w0 = Some (Some a, w1)" "booting 3892 (Suc 0) w1" "grown ?w0 w1" "app w1 = boot_app flash s"
    using boot_small[OF small_resources(1)[of RES_OPT_GET 0] b0] unfolding CoAP_InitResources_def added_def
    by (auto simp: boot_state_def)
  obtain i c e where sk: "CoAP_ESP8266_CreateInterfaceSocket fails 0 (Some conn) 5683 (Some ON_NEW_PACKET) (Some SEND_DATAGRAM)
    (SocketCtrl w1) boot_esp = (i, c, e)" using prod_cases3 by blast
  let ?w2 = "w1\<lparr>SocketCtrl := c\<rparr>"
  have b2: "booting 3892 (Suc 0) ?w2" by (rule boot_sockets[OF c1(2)])
  obtain p3 w3 where c3: "Create_Wifi_IPs_Resource ?w2 = Some (p3, w3)" "booting 3692 (Suc (Suc 0)) w3" "grown ?w2 w3"
    using boot_store[OF small_resources(2)[of "RES_OPT_GET" 0] b2 _ _ keeps_stores(4)] unfolding Create_Wifi_IPs_Resource_def by auto
  obtain p4 w4 where c4: "Create_About_Resource w3 = Some (p4, w4)" "booting 3492 (Suc (Suc (Suc 0))) w4" "grown w3 w4"
    using boot_store[OF small_resources(3)[of "RES_OPT_GET" 0] c3(2) _ _ keeps_stores(3)] unfolding Create_About_Resource_def by auto
  obtain p5 w5 where c5: "Create_Wifi_Config_Resource w4 = Some (p5, w5)" "booting 3292 (Suc (Suc (Suc (Suc 0)))) w5" "grown w4 w5"
    using boot_store[OF small_resources(4)[of "RES_OPT_GET OR RES_OPT_PUT" 0] c4(2) _ _ keeps_stores(5)] unfolding Create_Wifi_Config_Resource_def by auto
  obtain p6 w6 where c6: "Create_RTC_Resource w5 = Some (p6, w6)" "booting 3092 (Suc (Suc (Suc (Suc (Suc 0))))) w6" "grown w5 w6"
    "created p6 (res_key ` set (pResList w6))" "app w6 = (app w5)\<lparr>pRTC_Res := p6\<rparr>"
    using boot_store[OF small_resources(5)[of "RES_OPT_GET" 0] c5(2) _ _ keeps_stores(2)] unfolding Create_RTC_Resource_def by auto
  have led: "led env (LedState (app w6)) w6 = Some (w6\<lparr>app := (app w6)\<lparr>sdk_state := (sdk_state (app w6))\<lparr>gpio12 := LedState (app w6)\<rparr>\<rparr>\<rparr>)"
    by (simp add: led_def)
  let ?w7 = "w6\<lparr>app := (app w6)\<lparr>sdk_state := (sdk_state (app w6))\<lparr>gpio12 := LedState (app w6)\<rparr>\<rparr>\<rparr>"
  have b7: "booting 3092 (Suc (Suc (Suc (Suc (Suc 0))))) ?w7" by (rule boot_app_field[OF c6(2)]) (simp_all add: data_ok_def)
  obtain p8 w8 where c8: "Create_Led_Resource env w6 = Some (p8, w8)" "booting 2892 (Suc (Suc (Suc (Suc (Suc (Suc 0)))))) w8" "grown ?w7 w8"
    "created p8 (res_key ` set (pResList w8))" "app w8 = (app ?w7)\<lparr>pLed_Res := p8\<rparr>"
    using boot_store[OF small_resources(6)[of "RES_OPT_POST OR RES_OPT_GET" 0] b7 _ _ keeps_stores(1)] led unfolding Create_Led_Resource_def by auto
  obtain p9 w9 where c9: "Create_Wifi_Scan_Resource w8 = Some (p9, w9)" "booting 2692 (Suc (Suc (Suc (Suc (Suc (Suc (Suc 0))))))) w9" "grown w8 w9"
    "app w9 = (app w8)\<lparr>pWifi_scan_Res := p9\<rparr>"
    using boot_store[OF small_resources(7)[of "RES_OPT_GET" 0] c8(2) _ _ keeps_stores(6)] unfolding Create_Wifi_Scan_Resource_def by auto
  have "init_done env mem conn fails (boot_state now flash s) boot_esp = Some (w9, e)"
    unfolding init_done_def CoAP_Init_def using c1(1) sk c3(1) c4(1) c5(1) c6(1) c8(1) c9(1) by simp
  moreover have "created (pRTC_Res (app w9)) (res_key ` set (pResList w9))" "created (pLed_Res (app w9)) (res_key ` set (pResList w9))"
  proof -
    have "created p6 (res_key ` set (pResList ?w7))" using c6(4) by simp
    then have "created p6 (res_key ` set (pResList w9))" using created_grown c8(3) c9(3) by blast
    then show "created (pRTC_Res (app w9)) (res_key ` set (pResList w9))" using c9(4) c8(5) c6(5) by simp
    show "created (pLed_Res (app w9)) (res_key ` set (pResList w9))" using created_grown[OF c8(4) c9(3)] c9(4) c8(5) by simp
  qed
  then have "server_inv w9" using c9(2) by (auto simp: booting_def stack_inv_def good_def boot_ok_def app_ok_def)
  moreover have "fails \<or> known_interface (SocketCtrl w9) 0"
  proof -
    have "SocketCtrl w9 = c" using c3(3) c4(3) c5(3) c6(3) c8(3) c9(3) by (simp add: grown_def)
    moreover have "SocketCtrl w1 = SocketCtrl (boot_state now flash s)" using c1(3) by (simp add: grown_def)
    ultimately show ?thesis using sk first_socket[of conn now flash s boot_esp i c e] by (cases fails) (auto simp: known_interface_def)
  qed
  ultimately show ?thesis using c9(2) by (auto simp: booting_def)
qed

end
