(* ===== verification/Server_System.thy ===== *)
theory Server_System imports Server_Start begin

section \<open>The server as a whole\<close>

text \<open>
  The machine is the stack with the server's application, and the state of the ESP8266 interface. What
  can happen to it is an \<open>event\<close>: a datagram, a tick of one of the three timers, a callback of the SDK, a
  change of what the SDK answers. \<open>react\<close> is the callback the SDK then makes; it has no value when the
  code's behaviour is undefined. \<open>reachable\<close>: the states after \<open>init_done\<close> and any events.
\<close>

subsection \<open>Events\<close>

type_synonym machine = "server_app coap \<times> esp"

text \<open>What \<open>espconn_sendto\<close> answers while the event is handled comes with the event.\<close>

type_synonym sendto_fn = "espconn \<Rightarrow> NetPacket \<Rightarrow> int"

datatype event =
    Datagram sendto_fn addr "(u8 list \<times> u16) option" "u8 list" "u8 list" "u8 list"
  | Main_loop sendto_fn
  | Every_second sendto_fn
  | Clock u32
  | Scan_done "bss_info list" scan_status
  | Datagram_sent
  | Station_check station_status
  | Sdk_change sdk

text \<open>The transmit function the socket was created with, and what it does to the interface.\<close>

definition esp_driver :: "sendto_fn \<Rightarrow> NetSocketCtrl \<Rightarrow> driver" where
  "esp_driver sendto c = (\<lambda>f ifID pckt log. fst (CoAP_ESP8266_SendDatagram sendto ifID pckt c boot_esp))"

definition transmit :: "sendto_fn \<Rightarrow> server_app coap \<Rightarrow> server_app coap \<Rightarrow> esp \<Rightarrow> esp" where
  "transmit sendto w w' e =
    fold (\<lambda>(ifID, pckt) e. snd (CoAP_ESP8266_SendDatagram sendto ifID pckt (SocketCtrl w) e)) (drop (length (sent w)) (sent w')) e"

definition machine_env :: "addr \<Rightarrow> sendto_fn \<Rightarrow> server_app coap \<Rightarrow> server_app env" where
  "machine_env err sendto w = server_env (esp_driver sendto (SocketCtrl w)) err"

text \<open>\<open>err\<close>: the address of a text on the stack; \<open>mac_text\<close>: the SDK's format of hardware addresses; \<open>mac\<close>: the machine's.\<close>

fun react :: "addr \<Rightarrow> (u8 list \<Rightarrow> u8 list) \<Rightarrow> u8 list \<Rightarrow> event \<Rightarrow> machine \<Rightarrow> machine option" where
  "react err mac_text mac (Datagram sendto handle rinfo local_ip junk pdata) (w, e) =
     map_option (\<lambda>w'. (w', transmit sendto w w' e)) (udp_recv_cb (machine_env err sendto w) handle rinfo local_ip junk pdata w)"
| "react err mac_text mac (Main_loop sendto) (w, e) =
     map_option (\<lambda>w'. (w', transmit sendto w w' e)) (mainLoopTimer_cb (machine_env err sendto w) e w)"
| "react err mac_text mac (Every_second sendto) (w, e) =
     map_option (\<lambda>w'. (w', transmit sendto w w' e)) (rtc_notify_cb (machine_env err sendto w) w)"
| "react err mac_text mac (Clock system_time) (w, e) = Some (w\<lparr>rtc_1Hz := hal_rtc_1Hz_Cnt system_time\<rparr>, e)"
| "react err mac_text mac (Scan_done stations status) (w, e) = map_option (\<lambda>w'. (w', e)) (scan_done mac_text stations status w)"
| "react err mac_text mac Datagram_sent (w, e) = Some (w, udp_sent_cb e)"
| "react err mac_text mac (Station_check status) (w, e) = Some (w, snd (connection_timer_cb mac status e))"
| "react err mac_text mac (Sdk_change s) (w, e) = Some (w\<lparr>app := (app w)\<lparr>sdk_state := s\<rparr>\<rparr>, e)"

text \<open>
  What is known of the events: the stored credentials fit the arrays of the SDK; a scan's result is not longer
  than a request of the allocator can be; a datagram does not end inside its token (else the parser reads past it).
\<close>

definition config_fits :: "sdk \<Rightarrow> bool" where
  "config_fits s \<longleftrightarrow> (case station_config s of None \<Rightarrow> True | Some (ssid, pw) \<Rightarrow> length ssid \<le> 32 \<and> length pw \<le> 64)"

fun proper :: "(u8 list \<Rightarrow> u8 list) \<Rightarrow> event \<Rightarrow> bool" where
  "proper mac_text (Datagram sendto handle rinfo local_ip junk pdata) \<longleftrightarrow> length pdata \<le> 65530 \<and>
     (4 \<le> length pdata \<longrightarrow> 4 + unat (pdata ! 0 AND 15) \<le> length pdata)"
| "proper mac_text (Scan_done stations status) \<longleftrightarrow> length (concat (map (bss_line mac_text) stations)) \<le> 32000"
| "proper mac_text (Sdk_change s) \<longleftrightarrow> config_fits s"
| "proper mac_text _ \<longleftrightarrow> True"

inductive reachable :: "addr \<Rightarrow> (u8 list \<Rightarrow> u8 list) \<Rightarrow> u8 list \<Rightarrow> machine \<Rightarrow> bool" for err mac_text mac where
  boot: "mem + 4096 < IROM0 \<Longrightarrow> IROM0 \<le> flash \<Longrightarrow> config_fits s \<Longrightarrow>
    init_done env mem conn fails (boot_state now flash s) boot_esp = Some m \<Longrightarrow> reachable err mac_text mac m"
| event: "reachable err mac_text mac m \<Longrightarrow> proper mac_text ev \<Longrightarrow> react err mac_text mac ev m = Some m' \<Longrightarrow>
    reachable err mac_text mac m'"

inductive_cases reachableE: "reachable err mac_text mac m"

subsection \<open>Every event keeps the invariant\<close>

lemma socket_known:
  assumes "RetrieveSocket handle c = Some i"
  shows "known_interface c (sock_ifID (SocketMemory c ! i))"
proof -
  have "i < length (SocketMemory c)" "Alive (SocketMemory c ! i)"
    using find_socket_Some[OF assms[unfolded RetrieveSocket_def]] by simp_all
  then have "\<exists>s \<in> set (SocketMemory c). Alive s \<and> sock_ifID s = sock_ifID (SocketMemory c ! i)" by (intro bexI[of _ "SocketMemory c ! i"]) simp_all
  then have "find_socket (\<lambda>s. Alive s \<and> sock_ifID s = sock_ifID (SocketMemory c ! i)) 0 (SocketMemory c) \<noteq> None"
    unfolding find_socket_None by blast
  then show ?thesis unfolding known_interface_def RetrieveSocket2_def .
qed

lemma receive_inv:
  assumes "server_inv w" "proper mac_text (Datagram sendto handle rinfo local_ip junk pdata)"
    "udp_recv_cb env handle rinfo local_ip junk pdata w = Some w'"
  shows "server_inv w'"
proof (cases "RetrieveSocket handle (SocketCtrl w)")
  case None
  then show ?thesis using assms(1,3) by (auto simp: udp_recv_cb_def split: Option.bind_splits)
next
  case (Some i)
  let ?s = "SocketMemory (SocketCtrl w) ! i"
  obtain ri where r: "CoAP_onNewPacketHandler env (sock_ifID ?s) (udp_packet junk ri local_ip (NetPort (EpLocal ?s)) pdata) w = Some w'"
    using assms(3) Some by (auto simp: udp_recv_cb_def Let_def split: Option.bind_splits if_splits)
  have "complete_datagram (udp_packet junk ri local_ip (NetPort (EpLocal ?s)) pdata)"
    using assms(2) by (auto simp: complete_datagram_def udp_packet_def unat_of_nat mem_of_def)
  from outcome_SomeD[OF onNewPacket_outcome[OF assms(1) socket_known[OF Some] this] r] show ?thesis .
qed

lemma work_inv: "server_inv w \<Longrightarrow> mainLoopTimer_cb (server_env d err) e w = Some w' \<Longrightarrow> server_inv w'"
  using outcome_SomeD[OF served.doWork_outcome] by (auto simp: mainLoopTimer_cb_def split: if_splits)

lemma created_resource:
  assumes "stack_inv ao aok w" "created q (res_key ` set (pResList w))"
  obtains p r where "q = Some p" "get_res p w = Some r"
proof -
  obtain r where "r \<in> set (pResList w)" "q = Some (res_addr r)" using assms(2) by (auto simp: created_def res_key_def)
  then show thesis using that get_res_member[OF inv_distinct(2)[OF assms(1)]] by blast
qed

lemma notify_outcome:
  assumes "server_inv w"
  shows "outcome True server_inv (rtc_notify_cb (server_env d err) w)"
proof -
  have "created (pRTC_Res (app w)) (res_key ` set (pResList w))" using inv_aok[OF assms] by (simp add: app_ok_def)
  then obtain p r where "pRTC_Res (app w) = Some p" "get_res p w = Some r" using created_resource[OF assms] by blast
  then show ?thesis using served.NotifyResourceObservers_outcome[OF assms, of p r d err] unfolding rtc_notify_cb_def
    by (auto intro!: outcome_snd elim: outcome_mono)
qed

lemma inv_app_move:
  assumes "stack_inv ao aok w" "trades (ao (app w)) (heap w) (ao a') h'" "\<And>keys. aok (app w) keys \<Longrightarrow> aok a' keys"
  shows "stack_inv ao aok (w\<lparr>heap := h', app := a'\<rparr>)"
proof -
  let ?R = "\<lambda>h. ias_own h (pInteractions w) + ress_own (pResList w)"
  have g: "good ao aok (heap w) (SocketCtrl w) (pInteractions w) (pResList w) (ResListMembers w) (app w)"
    using assms(1) by (simp add: stack_inv_def)
  have "good ao aok h' (SocketCtrl w) (pInteractions w) (pResList w) (ResListMembers w) a'"
    by (rule good_move[OF g _ _ assms(2), where R = ?R])
      (use g assms(3) in \<open>auto intro!: steady_add simp: good_def ac_simps\<close>)
  then show ?thesis by (simp add: stack_inv_def)
qed

lemma get_zero: "coap_mem_get 0 h = coap_mem_get 1 h"
proof -
  have "round_request 0 = round_request 1" by (simp add: round_request_def SizeQ_def)
  then have "bget 0 h = bget 1 h" by (simp add: bget_def)
  then show ?thesis by (simp add: coap_mem_get_def)
qed

lemma get_result_buffer:
  assumes "coap_mem_get (int n) h = (q, h')" "n \<le> 32000"
  shows "trades {#} h (case q of None \<Rightarrow> {#} | Some p \<Rightarrow> {#(p, int n)#}) h'"
proof (cases n)
  case 0
  have "trades {#} h (case q of None \<Rightarrow> {#} | Some p \<Rightarrow> {#(p, 1)#}) h'"
    by (rule trades_get_opt) (use assms(1) 0 get_zero in \<open>simp_all add: fits_def\<close>)
  moreover have "trades {#(p, 1)#} h' {#(p, 0)#} h'" for p by (rule trades_weaken) simp
  ultimately show ?thesis using 0 trades_trans by (cases q) auto
next
  case (Suc k)
  then show ?thesis using trades_get_opt[OF assms(1)] assms(2) by (simp add: fits_def)
qed

lemma scan_inv:
  assumes "server_inv w" "length (concat (map (bss_line mac_text) stations)) \<le> 32000" "scan_done mac_text stations status w = Some w'"
  shows "server_inv w'"
proof -
  let ?text = "concat (map (bss_line mac_text) stations)"
  consider (ok) "status = SCAN_OK" | (failed) "status = SCAN_FAIL \<or> status = SCAN_CANCEL" | (other) "w' = w"
    using assms(3) by (auto simp: scan_done_def split: if_splits)
  then show ?thesis
  proof cases
    case ok
    obtain q h where g: "coap_mem_get (int (length ?text)) (heap w) = (q, h)" by force
    let ?a = "(app w)\<lparr>lastScanResultLen := int (length ?text), pScanResultStr := q, scanResult := mem_of ?text, ScanState := SCAN_STATE_DONE_OK\<rparr>"
    have w': "w' = w\<lparr>heap := h, app := ?a\<rparr>" "q = None \<Longrightarrow> stations = []"
      using assms(3) ok g by (auto simp: scan_done_def Let_def split: if_splits)
    have "trades {#} (heap w) (app_own ?a) h"
      using get_result_buffer[OF g assms(2)] by (cases q) (simp_all add: app_own_def)
    then have "trades (app_own (app w)) (heap w) (app_own ?a) h"
      using trades_trans[OF trades_sub[of "{#}" "app_own (app w)" "heap w"]] by simp
    then show ?thesis unfolding w'(1) by (rule inv_app_move[OF assms(1)]) (use w'(2) in \<open>auto simp: app_ok_def data_ok_def\<close>)
  next
    case failed
    let ?a = "(app w)\<lparr>ScanState := SCAN_STATE_DONE_FAIL\<rparr>"
    have "w' = w\<lparr>heap := heap w, app := ?a\<rparr>" using assms(3) failed by (auto simp: scan_done_def)
    moreover have "trades (app_own (app w)) (heap w) (app_own ?a) (heap w)"
      by (rule trades_sub) (simp add: app_own_def scan_states)
    ultimately show ?thesis using inv_app_move[OF assms(1), of ?a "heap w"] by (simp add: app_ok_def data_ok_def scan_states)
  qed (use assms(1) in simp)
qed

theorem react_inv:
  assumes "server_inv w" "proper mac_text ev" "react err mac_text mac ev (w, e) = Some (w', e')"
  shows "server_inv w'"
proof (cases ev)
  case (Datagram sendto handle rinfo local_ip junk pdata)
  then show ?thesis using assms(3) receive_inv[OF assms(1) assms(2)[unfolded Datagram]] by (auto simp: machine_env_def)
next
  case (Main_loop sendto)
  then show ?thesis using assms(3) work_inv[OF assms(1)] by (auto simp: machine_env_def)
next
  case (Every_second sendto)
  then show ?thesis using assms(3) outcome_SomeD[OF notify_outcome[OF assms(1)]] by (auto simp: machine_env_def)
next
  case (Scan_done stations status)
  then show ?thesis using assms(2,3) scan_inv[OF assms(1)] by auto
next
  case (Sdk_change s)
  then show ?thesis using assms(2,3) inv_app[OF assms(1), of "(app w)\<lparr>sdk_state := s\<rparr>"]
    by (auto simp: app_ok_def data_ok_def config_fits_def)
qed (use assms(1,3) in auto)

theorem reachable_inv: "reachable err mac_text mac m \<Longrightarrow> server_inv (fst m)"
proof (induction rule: reachable.induct)
  case (boot mem flash s env conn fails now m)
  then show ?case using init_done_ok[of mem flash s env conn fails now] by (fastforce simp: config_fits_def)
next
  case (event m ev m')
  then show ?case using react_inv by (metis prod.collapse)
qed

subsection \<open>The server runs on\<close>

text \<open>
  When the code's behaviour is defined: the SDK tells the sender of a datagram, and the socket is one of those the
  server made; a turn of the loop has the memory a handler may ask for, its interaction has a response buffer that
  is offered to the handler, is no notification that cannot be sent, and no request of the server's own with a
  callback (this server makes none), and it is no GET of \<open>wifi/config\<close> while the text of the stored credentials
  is as long as the offered buffer, or longer and a multiple of four bytes (\<open>unfit\<close>, \<open>server_apt\<close>); each line of a
  scan's result fits the buffer of 128 bytes, the result fits into the pool, and its length is not a multiple of
  four. Without the conditions on the lengths the zero behind the text is written outside its buffer.
\<close>

fun ready :: "addr \<Rightarrow> (u8 list \<Rightarrow> u8 list) \<Rightarrow> event \<Rightarrow> machine \<Rightarrow> bool" where
  "ready err mac_text (Datagram sendto handle rinfo local_ip junk pdata) (w, e) \<longleftrightarrow> rinfo \<noteq> None \<and>
     (\<forall>i. RetrieveSocket handle (SocketCtrl w) = Some i \<longrightarrow> RxCB (SocketMemory (SocketCtrl w) ! i) = Some ON_NEW_PACKET)"
| "ready err mac_text (Main_loop sendto) (w, e) \<longleftrightarrow> TxSocketIdle e \<longrightarrow>
     enough_memory server_need w \<and>
     (case pInteractions w of [] \<Rightarrow> True
      | ia # _ \<Rightarrow> \<not> cramped ia \<and> \<not> unfit server_apt ia w \<and> \<not> risky_notification (machine_env err sendto w) ia w \<and> RespCB ia = None)"
| "ready err mac_text (Scan_done stations status) (w, e) \<longleftrightarrow> status = SCAN_OK \<and> stations \<noteq> [] \<longrightarrow>
     list_all (\<lambda>b. length (bss_line mac_text b) < sizeof_temp) stations \<and>
     fst (coap_mem_get0 (int (length (concat (map (bss_line mac_text) stations)))) (heap w)) \<noteq> None \<and>
     length (concat (map (bss_line mac_text) stations)) mod 4 \<noteq> 0"
| "ready err mac_text _ _ \<longleftrightarrow> True"

lemma receive_defined:
  assumes "server_inv w" "proper mac_text (Datagram sendto handle rinfo local_ip junk pdata)"
    "ready err mac_text (Datagram sendto handle rinfo local_ip junk pdata) (w, e)"
  shows "\<exists>w'. udp_recv_cb env handle rinfo local_ip junk pdata w = Some w'"
proof (cases "RetrieveSocket handle (SocketCtrl w)")
  case None
  then show ?thesis using assms(3) by (auto simp: udp_recv_cb_def)
next
  case (Some i)
  let ?s = "SocketMemory (SocketCtrl w) ! i"
  obtain ri where ri: "rinfo = Some ri" using assms(3) by auto
  have cb: "RxCB ?s = Some ON_NEW_PACKET" using assms(3) Some by simp
  have "complete_datagram (udp_packet junk ri local_ip (NetPort (EpLocal ?s)) pdata)"
    using assms(2) by (auto simp: complete_datagram_def udp_packet_def unat_of_nat mem_of_def)
  from outcome_defined[OF onNewPacket_outcome[OF assms(1) socket_known[OF Some] this] TrueI, of env] show ?thesis
    using Some ri cb by (auto simp: udp_recv_cb_def)
qed

lemma scan_defined:
  assumes "server_inv w" "proper mac_text (Scan_done stations status)" "ready err mac_text (Scan_done stations status) (w, e)"
  shows "\<exists>w'. scan_done mac_text stations status w = Some w'"
proof (cases "status = SCAN_OK \<and> stations \<noteq> []")
  case True
  let ?n = "length (concat (map (bss_line mac_text) stations))"
  have n: "?n mod 4 \<noteq> 0" "?n \<le> 32000" using assms(2,3) True by simp_all
  then have f: "fits (int ?n)" by (cases "?n = 0") (simp_all add: fits_def)
  obtain p h where g: "coap_mem_get (int ?n) (heap w) = (Some p, h)"
    using assms(3) True by (cases "coap_mem_get (int ?n) (heap w)") auto
  obtain L where L: "heap_inv (heap w) L" using assms(1) holds_heap by (fastforce simp: stack_inv_def good_def)
  have "int ?n mod 4 \<noteq> 0" using n(1) by presburger
  then have "int ?n + 1 \<le> bsize (Some p) h" by (rule get_slack[OF L g f])
  then show ?thesis using assms(3) True g by (simp add: scan_done_def Let_def)
qed (auto simp: scan_done_def Let_def split: prod.splits)

lemma react_defined:
  assumes "server_inv w" "proper mac_text ev" "ready err mac_text ev (w, e)"
  shows "\<exists>m'. react err mac_text mac ev (w, e) = Some m'"
proof (cases ev)
  case (Datagram sendto handle rinfo local_ip junk pdata)
  from receive_defined[OF assms(1) assms(2)[unfolded Datagram] assms(3)[unfolded Datagram], of "machine_env err sendto w"]
  show ?thesis unfolding Datagram by auto
next
  case (Main_loop sendto)
  have "\<exists>w'. CoAP_doWork (machine_env err sendto w) w = Some w'" if "TxSocketIdle e"
    unfolding machine_env_def
    by (rule outcome_defined[OF served.doWork_outcome[OF assms(1)], THEN exE])
      (use assms(3) that in \<open>auto simp: Main_loop machine_env_def split: list.splits\<close>)
  then show ?thesis by (auto simp: Main_loop mainLoopTimer_cb_def)
next
  case (Every_second sendto)
  then show ?thesis using outcome_defined[OF notify_outcome[OF assms(1)] TrueI] by (auto simp: machine_env_def)
next
  case (Scan_done stations status)
  from scan_defined[OF assms(1) assms(2,3)[unfolded Scan_done]] show ?thesis by (auto simp: Scan_done)
qed simp_all

text \<open>A server that has just started.\<close>

definition demo_sdk :: sdk where
  "demo_sdk = \<lparr>station_ip = None, softap_ip = None, station_config = None, accepts_config = True, scanning = False, gpio12 = False\<rparr>"

lemma demo_boot:
  "\<exists>w e. reachable 0 id [] (w, e) \<and> room (heap w) 2692 \<and> length (pResList w) = 7 \<and> pInteractions w = []"
proof -
  have s: "config_fits demo_sdk" by (simp add: config_fits_def demo_sdk_def)
  have m: "(4096 :: addr) + 4096 < IROM0" by (simp add: IROM0_def)
  from init_done_ok[OF m order.refl s[unfolded config_fits_def], of undefined 8 False 0] obtain w e where
    w: "init_done undefined 4096 8 False (boot_state 0 IROM0 demo_sdk) boot_esp = Some (w, e)"
      "room (heap w) 2692" "length (pResList w) = 7" "pInteractions w = []" by blast
  from reachable.boot[OF m order.refl s w(1)] w(2-4) show ?thesis by blast
qed

text \<open>
  C2: in every state the server can reach, after \<open>init_done\<close> and any events, the stack is well formed: all buffers
  it names (messages and options of interactions, observers, resources, the scan result) are live, distinct and
  large enough for what they hold, interactions and resources have different addresses, every interaction has the
  messages, the observer and the known interface that its role and state need, and the handlers and notifiers of
  the resources are functions of the server.
\<close>

theorem server_states_well_formed:
  assumes "reachable err mac_text mac (w, e)"
  shows "stack_inv app_own app_ok w \<and>
    (\<exists>L. heap_inv (heap w) L \<and> fst ` set_mset (ias_own (heap w) (pInteractions w) + (ress_own (pResList w) + app_own (app w))) \<subseteq> L) \<and>
    distinct (map ia_addr (pInteractions w)) \<and> distinct (map res_addr (pResList w)) \<and>
    (\<forall>ia \<in> set (pInteractions w). ia_ok (SocketCtrl w) (pResList w) ia) \<and> (\<forall>r \<in> set (pResList w). res_ok (SocketCtrl w) r)"
proof -
  have i: "stack_inv app_own app_ok w" using reachable_inv[OF assms] by simp
  then show ?thesis using inv_distinct[OF i] by (auto simp: stack_inv_def good_def holds_def ia_addrs_def)
qed

lemma server_states_well_formed_witness:
  "\<exists>w e. reachable 0 id [] (w, e) \<and> pInteractions w = [] \<and> length (pResList w) = 7 \<and> distinct (map res_addr (pResList w))"
proof -
  obtain w e where b: "reachable 0 id [] (w, e)" "pInteractions w = []" "length (pResList w) = 7" using demo_boot by blast
  from server_states_well_formed[OF b(1)] show ?thesis using b by blast
qed



text \<open>
  C40: \<open>init_done\<close> starts the server. With its 4096 bytes of static memory below the mapped flash and credentials
  that fit, it succeeds: all seven resources are registered, no interaction is pending, 2692 bytes can still be
  asked of the pool, and unless the SDK cannot create the connection the interface 0 is known.
\<close>

theorem server_starts:
  assumes "mem + 4096 < IROM0" "IROM0 \<le> flash" "config_fits s"
  shows "\<exists>w e. init_done env mem conn fails (boot_state now flash s) boot_esp = Some (w, e) \<and> stack_inv app_own app_ok w \<and>
    room (heap w) 2692 \<and> length (pResList w) = 7 \<and> pInteractions w = [] \<and> (fails \<or> known_interface (SocketCtrl w) 0)"
  using init_done_ok[OF assms(1,2)] assms(3) unfolding config_fits_def by blast

lemma server_starts_witness:
  "\<exists>w e. init_done (server_env (\<lambda>_ _ _ _. True) 0) 4096 8 False (boot_state 0 IROM0 demo_sdk) boot_esp = Some (w, e) \<and>
     length (pResList w) = 7 \<and> known_interface (SocketCtrl w) 0"
proof -
  have s: "config_fits demo_sdk" by (simp add: config_fits_def demo_sdk_def)
  have m: "(4096 :: addr) + 4096 < IROM0" by (simp add: IROM0_def)
  from server_starts[OF m order.refl s, of "server_env (\<lambda>_ _ _ _. True) 0" 8 False 0] show ?thesis by blast
qed

end
