(* ===== verification/Client_Pdu.thy ===== *)
theory Client_Pdu imports Prelude "HOL-Library.Monad_Syntax" begin

section \<open>The client's messages (\<open>client/Coap.cpp\<close>, \<open>client/Coap.h\<close>)\<close>

text \<open>
  The class \<open>CoapPDU\<close> keeps a message as the bytes that go on the wire and edits them in place. The buffer
  is \<open>pdu\<close>, at address \<open>pdu_addr\<close>; \<open>payloadPointer\<close> is an address, so that it can be compared with where the
  buffer lies after a \<open>realloc\<close>. An operation has no value (\<open>None\<close>) when the code reads or writes outside
  the buffer. \<open>realloc\<close> is a parameter: for an address and a size it answers with the new address and what the
  added bytes hold, or with no memory. Messages for the debug log are left out.
\<close>

type_synonym realloc_fn = "addr \<Rightarrow> int \<Rightarrow> (addr \<times> (nat \<Rightarrow> u8)) option"

record CoapPDU =
  pdu_addr :: addr
  pdu :: "u8 list"
  pduLength :: int
  constructedFromBuffer :: bool
  bufferLength :: int
  payloadPointer :: "addr option"
  payloadLength :: int
  numOptions :: int
  maxAddedOptionNumber :: u16

definition COAP_HDR_SIZE :: int where "COAP_HDR_SIZE = 4"
definition COAP_OPTION_HDR_BYTE :: int where "COAP_OPTION_HDR_BYTE = 1"

definition COAP_OPTION_URI_PATH :: u16 where "COAP_OPTION_URI_PATH = 11"
definition COAP_OPTION_CONTENT_FORMAT :: u16 where "COAP_OPTION_CONTENT_FORMAT = 12"
definition COAP_OPTION_URI_QUERY :: u16 where "COAP_OPTION_URI_QUERY = 15"

text \<open>\<open>CoapPDU::Type\<close>: the values are those of the header's bits.\<close>

definition COAP_CONFIRMABLE :: u8 where "COAP_CONFIRMABLE = 0x00"
definition COAP_NON_CONFIRMABLE :: u8 where "COAP_NON_CONFIRMABLE = 0x10"
definition COAP_ACKNOWLEDGEMENT :: u8 where "COAP_ACKNOWLEDGEMENT = 0x20"
definition COAP_RESET :: u8 where "COAP_RESET = 0x30"

lemmas pdu_types = COAP_CONFIRMABLE_def COAP_NON_CONFIRMABLE_def COAP_ACKNOWLEDGEMENT_def COAP_RESET_def

subsection \<open>The buffer\<close>

definition rd :: "CoapPDU \<Rightarrow> int \<Rightarrow> u8 option" where
  "rd p i = (if 0 \<le> i \<and> i < int (length (pdu p)) then Some (pdu p ! nat i) else None)"

definition wr :: "int \<Rightarrow> u8 \<Rightarrow> CoapPDU \<Rightarrow> CoapPDU option" where
  "wr i b p = (if 0 \<le> i \<and> i < int (length (pdu p)) then Some (p\<lparr>pdu := (pdu p)[nat i := b]\<rparr>) else None)"

text \<open>\<open>memcpy\<close> of \<open>n\<close> bytes of \<open>src\<close> to the place \<open>i\<close> of the buffer.\<close>

definition copy_in :: "int \<Rightarrow> u8 list \<Rightarrow> nat \<Rightarrow> CoapPDU \<Rightarrow> CoapPDU option" where
  "copy_in i src n p =
    (if n = 0 then Some p
     else if n \<le> length src \<and> 0 \<le> i \<and> i + int n \<le> int (length (pdu p))
     then Some (p\<lparr>pdu := take (nat i) (pdu p) @ take n src @ drop (nat i + n) (pdu p)\<rparr>) else None)"

definition load16 :: "CoapPDU \<Rightarrow> int \<Rightarrow> u16 option" where
  "load16 p i = do { a \<leftarrow> rd p i; b \<leftarrow> rd p (i + 1); Some (push_bit 8 (ucast a) OR ucast b) }"

definition store16 :: "int \<Rightarrow> u16 \<Rightarrow> CoapPDU \<Rightarrow> CoapPDU option" where
  "store16 i v p = do { p \<leftarrow> wr i (ucast (drop_bit 8 v)) p; wr (i + 1) (ucast v) p }"

text \<open>\<open>realloc\<close> of the buffer when the object owns it, the check against its size when it does not.\<close>

definition ensure_space :: "realloc_fn \<Rightarrow> int \<Rightarrow> CoapPDU \<Rightarrow> CoapPDU option" where
  "ensure_space realloc n p =
    (if \<not> constructedFromBuffer p then
       (case realloc (pdu_addr p) n of
          None \<Rightarrow> None
        | Some (a, junk) \<Rightarrow>
            Some (p\<lparr>pdu_addr := a, bufferLength := n,
                     pdu := map (\<lambda>i. if i < length (pdu p) then pdu p ! i else junk i) [0..<nat n]\<rparr>))
     else if n > bufferLength p then None else Some p)"

subsection \<open>Header\<close>

definition setVersion :: "u8 \<Rightarrow> CoapPDU \<Rightarrow> (int \<times> CoapPDU) option" where
  "setVersion version p =
    (if version > 3 then Some (0, p)
     else do { b \<leftarrow> rd p 0; p \<leftarrow> wr 0 ((b AND 0x3F) OR push_bit 6 version) p; Some (1, p) })"

definition getVersion :: "CoapPDU \<Rightarrow> u8 option" where
  "getVersion p = do { b \<leftarrow> rd p 0; Some (drop_bit 6 (b AND 0xC0)) }"

definition setType :: "u8 \<Rightarrow> CoapPDU \<Rightarrow> CoapPDU option" where
  "setType mt p = do { b \<leftarrow> rd p 0; wr 0 ((b AND 0xCF) OR mt) p }"

definition getType :: "CoapPDU \<Rightarrow> u8 option" where
  "getType p = do { b \<leftarrow> rd p 0; Some (b AND 0x30) }"

definition setTokenLength :: "u8 \<Rightarrow> CoapPDU \<Rightarrow> (int \<times> CoapPDU) option" where
  "setTokenLength tokenLength p =
    (if tokenLength > 8 then Some (1, p)
     else do { b \<leftarrow> rd p 0; p \<leftarrow> wr 0 ((b AND 0xF0) OR tokenLength) p; Some (0, p) })"

definition getTokenLength :: "CoapPDU \<Rightarrow> int option" where
  "getTokenLength p = do { b \<leftarrow> rd p 0; Some (int (unat (b AND 0x0F))) }"

definition getTokenPointer :: "CoapPDU \<Rightarrow> addr option option" where
  "getTokenPointer p = do { n \<leftarrow> getTokenLength p; Some (if n = 0 then None else Some (pdu_addr p + 4)) }"

definition setCode :: "u8 \<Rightarrow> CoapPDU \<Rightarrow> CoapPDU option" where
  "setCode code p = wr 1 code p"

definition getCode :: "CoapPDU \<Rightarrow> u8 option" where
  "getCode p = rd p 1"

definition setMessageID :: "u16 \<Rightarrow> CoapPDU \<Rightarrow> CoapPDU option" where
  "setMessageID messageID p = store16 2 messageID p"

definition getMessageID :: "CoapPDU \<Rightarrow> u16 option" where
  "getMessageID p = load16 p 2"

definition COAP_UNDEFINED_CODE :: u8 where "COAP_UNDEFINED_CODE = 0xFF"

definition httpStatusToCode :: "int \<Rightarrow> u8" where
  "httpStatusToCode httpStatus =
    (case map_of
       [(1, 0x01), (2, 0x02), (3, 0x03), (4, 0x04),
        (201, 0x41), (202, 0x42), (203, 0x43), (204, 0x44), (205, 0x45),
        (400, 0x80), (401, 0x81), (402, 0x82), (403, 0x83), (404, 0x84), (405, 0x85), (406, 0x86),
        (412, 0x8C), (413, 0x8D), (415, 0x8F),
        (500, 0xA0), (501, 0xA1), (502, 0xA2), (503, 0xA3), (504, 0xA4), (505, 0xA5)] httpStatus of
       None \<Rightarrow> COAP_UNDEFINED_CODE | Some c \<Rightarrow> c)"

subsection \<open>Construction\<close>

text \<open>\<open>calloc\<close> gives the new object its four bytes at \<open>a\<close>; the code does not look whether it got them.\<close>

definition newPDU :: "addr \<Rightarrow> CoapPDU option" where
  "newPDU a = map_option snd (setVersion 1
    \<lparr>pdu_addr = a, pdu = replicate 4 0, pduLength = 4, constructedFromBuffer = False, bufferLength = 4,
     payloadPointer = None, payloadLength = 0, numOptions = 0, maxAddedOptionNumber = 0\<rparr>)"

text \<open>An object over the bytes \<open>buffer\<close> at \<open>a\<close>, of which the first \<open>len\<close> are a message.\<close>

definition PDU_in_buffer :: "addr \<Rightarrow> u8 list \<Rightarrow> int \<Rightarrow> int \<Rightarrow> CoapPDU option" where
  "PDU_in_buffer a buffer bufLen len =
    (let p = \<lparr>pdu_addr = a, pdu = buffer, pduLength = len, constructedFromBuffer = True, bufferLength = bufLen,
              payloadPointer = None, payloadLength = 0, numOptions = 0, maxAddedOptionNumber = 0\<rparr>
     in if len = 0 then
          do { p \<leftarrow> wr 0 0 (p\<lparr>pduLength := 4\<rparr>); p \<leftarrow> wr 1 0 p; p \<leftarrow> wr 2 0 p; p \<leftarrow> wr 3 0 p;
               map_option snd (setVersion 1 p) }
        else Some p)"

definition PDU_of_bytes :: "addr \<Rightarrow> u8 list \<Rightarrow> int \<Rightarrow> CoapPDU option" where
  "PDU_of_bytes a bytes len = PDU_in_buffer a bytes len len"

definition reset :: "CoapPDU \<Rightarrow> (int \<times> CoapPDU) option" where
  "reset p = do {
     p \<leftarrow> copy_in 0 (replicate (nat (bufferLength p)) 0) (nat (bufferLength p)) p;
     Some (0, p\<lparr>pduLength := 4, numOptions := 0, maxAddedOptionNumber := 0, payloadPointer := None, payloadLength := 0\<rparr>) }"

definition setPDULength :: "int \<Rightarrow> CoapPDU \<Rightarrow> CoapPDU" where
  "setPDULength len p = p\<lparr>pduLength := len\<rparr>"

subsection \<open>Reading options\<close>

definition computeExtraBytes :: "u16 \<Rightarrow> int" where
  "computeExtraBytes n = (if n < 13 then 0 else if n < 269 then 1 else 2)"

definition upperNibble :: "u8 \<Rightarrow> u8" where "upperNibble h = drop_bit 4 (h AND 0xF0)"
definition lowerNibble :: "u8 \<Rightarrow> u8" where "lowerNibble h = h AND 0x0F"

definition getOptionDelta :: "CoapPDU \<Rightarrow> int \<Rightarrow> u16 option" where
  "getOptionDelta p i = do {
     h \<leftarrow> rd p i;
     let delta = (ucast (upperNibble h) :: u16);
     if delta < 13 then Some delta
     else if delta = 13 then do { b \<leftarrow> rd p (i + 1); Some (ucast b + 13) }
     else if delta = 14 then do { v \<leftarrow> load16 p (i + 1); Some (v + 269) }
     else Some delta }"

definition getOptionValueLength :: "CoapPDU \<Rightarrow> int \<Rightarrow> u16 option" where
  "getOptionValueLength p i = do {
     h \<leftarrow> rd p i;
     let delta = (ucast (upperNibble h) :: u16);
     let len = (ucast (lowerNibble h) :: u16);
     if len < 13 then Some len
     else
       let offset = (if delta = 13 then 2 else if delta = 14 then 3 else 1) in
       if len = 13 then do { b \<leftarrow> rd p (i + offset); Some (ucast b + 13) }
       else do { v \<leftarrow> load16 p (i + offset); Some (v + 269) } }"

text \<open>The length of an option on the wire, as the parsing loops compute it.\<close>

definition option_total :: "u16 \<Rightarrow> u16 \<Rightarrow> int" where
  "option_total optionDelta optionValueLength =
     1 + computeExtraBytes optionDelta + computeExtraBytes optionValueLength + int (unat optionValueLength)"

lemma computeExtraBytes_nonneg [simp]: "0 \<le> computeExtraBytes n"
  by (simp add: computeExtraBytes_def)

lemma option_total_pos [simp]: "0 < option_total d l"
proof -
  have "0 \<le> int (unat l)" by simp
  then show ?thesis unfolding option_total_def
    using computeExtraBytes_nonneg[of d] computeExtraBytes_nonneg[of l] by linarith
qed

text \<open>
  The loop of \<open>validate\<close>. Result 1: the message is well formed, 0: it is not.
\<close>

function validate_loop :: "int \<Rightarrow> int \<Rightarrow> int \<Rightarrow> CoapPDU \<Rightarrow> (int \<times> CoapPDU) option" where
  "validate_loop optionPos bytesRemaining n p =
    (if \<not> bytesRemaining > 0
     then Some (1, p\<lparr>payloadPointer := None, payloadLength := 0, numOptions := n\<rparr>)
     else do {
       optionHeader \<leftarrow> rd p optionPos;
       if optionHeader = 0xFF then
         (if bytesRemaining > 1
          then Some (1, p\<lparr>payloadPointer := Some (pdu_addr p + optionPos + 1), payloadLength := bytesRemaining - 1,
                          numOptions := n\<rparr>)
          else Some (0, p\<lparr>payloadPointer := None, payloadLength := 0\<rparr>))
       else
         let upper = upperNibble optionHeader; lower = lowerNibble optionHeader in
         if upper = 0x0F \<or> lower = 0x0F then Some (0, p)
         else if computeExtraBytes (ucast upper) > bytesRemaining - 1 then Some (0, p)
         else if computeExtraBytes (ucast upper) + computeExtraBytes (ucast lower) > bytesRemaining - 1
         then Some (0, p)
         else do {
           optionDelta \<leftarrow> getOptionDelta p optionPos;
           optionValueLength \<leftarrow> getOptionValueLength p optionPos;
           let totalLength = option_total optionDelta optionValueLength;
           if optionPos + totalLength > pduLength p then Some (0, p)
           else validate_loop (optionPos + totalLength) (bytesRemaining - totalLength) (n + 1) p } })"
  by pat_completeness auto

termination
  by (relation "measure (\<lambda>(optionPos, bytesRemaining, n, p). nat bytesRemaining)")
    simp_all

declare validate_loop.simps [simp del]

definition valid_pdu_code :: "u8 \<Rightarrow> bool" where
  "valid_pdu_code code \<longleftrightarrow> \<not> (0x1F < code \<and> code < 0x41 \<or> 0x45 < code \<and> code < 0x80 \<or> 0x86 < code \<and> code < 0x8C \<or>
     code = 0x8E \<or> 0x8F < code \<and> code < 0xA0 \<or> 0xA5 < code)"

definition validate :: "CoapPDU \<Rightarrow> (int \<times> CoapPDU) option" where
  "validate p =
    (if pduLength p < 4 then Some (0, p)
     else do {
       version \<leftarrow> getVersion p;
       if version \<noteq> 1 then Some (0, p)
       else do {
         tokenLength \<leftarrow> getTokenLength p;
         if tokenLength < 0 \<or> tokenLength > 8 then Some (0, p)
         else if COAP_HDR_SIZE + tokenLength > pduLength p then Some (0, p)
         else do {
           code \<leftarrow> getCode p;
           if \<not> valid_pdu_code code then Some (0, p)
           else
             let optionPos = COAP_HDR_SIZE + tokenLength in
             if optionPos = pduLength p then Some (1, p\<lparr>numOptions := 0, payloadLength := 0\<rparr>)
             else validate_loop optionPos (pduLength p - optionPos) 0 p } } })"

record CoapOption =
  opt_delta :: u16
  opt_number :: u16
  opt_valueLength :: u16
  opt_totalLength :: int
  opt_pointer :: addr
  opt_valuePointer :: addr

fun getOptions_loop :: "nat \<Rightarrow> int \<Rightarrow> u16 \<Rightarrow> CoapPDU \<Rightarrow> CoapOption list option" where
  "getOptions_loop 0 optionPos number p = Some []"
| "getOptions_loop (Suc n) optionPos number p = do {
     delta \<leftarrow> getOptionDelta p optionPos;
     len \<leftarrow> getOptionValueLength p optionPos;
     let number = number + delta;
     let total = option_total delta len;
     os \<leftarrow> getOptions_loop n (optionPos + total) number p;
     Some (\<lparr>opt_delta = delta, opt_number = number, opt_valueLength = len, opt_totalLength = total,
            opt_pointer = pdu_addr p + optionPos, opt_valuePointer = pdu_addr p + (optionPos + total - int (unat len))\<rparr> # os) }"

text \<open>The result is a null pointer (\<open>Some None\<close>) when there are no options or no memory for them (\<open>mem\<close>).\<close>

definition getOptions :: "bool \<Rightarrow> CoapPDU \<Rightarrow> CoapOption list option option" where
  "getOptions mem p =
    (if numOptions p = 0 then Some None
     else if \<not> mem then Some None
     else do {
       t \<leftarrow> getTokenLength p;
       os \<leftarrow> getOptions_loop (nat (numOptions p)) (COAP_HDR_SIZE + t) 0 p;
       Some (Some os) })"

end
