(* ===== verification/Client_Edit.thy ===== *)
theory Client_Edit imports Client_Pdu begin

section \<open>Editing a message of the client (\<open>client/Coap.cpp\<close>)\<close>

text \<open>
  The functions that insert options, token and payload into the bytes of a \<open>CoapPDU\<close>. The results are the
  return code of the function and the object; \<open>None\<close> is an access outside the buffer.
\<close>

subsection \<open>Moving bytes\<close>

fun shift_up_loop :: "nat \<Rightarrow> int \<Rightarrow> int \<Rightarrow> CoapPDU \<Rightarrow> CoapPDU option" where
  "shift_up_loop 0 dest src p = Some p"
| "shift_up_loop (Suc n) dest src p = do { b \<leftarrow> rd p src; p \<leftarrow> wr dest b p; shift_up_loop n (dest - 1) (src - 1) p }"

text \<open>A negative amount makes the loop run through the whole memory.\<close>

definition shiftPDUUp :: "int \<Rightarrow> int \<Rightarrow> CoapPDU \<Rightarrow> CoapPDU option" where
  "shiftPDUUp shiftOffset shiftAmount p =
    (if shiftAmount < 0 then None
     else shift_up_loop (nat shiftAmount) (pduLength p - 1) (pduLength p - 1 - shiftOffset) p)"

fun shift_down_loop :: "nat \<Rightarrow> int \<Rightarrow> int \<Rightarrow> CoapPDU \<Rightarrow> CoapPDU option" where
  "shift_down_loop 0 dest src p = Some p"
| "shift_down_loop (Suc n) dest src p = do { b \<leftarrow> rd p src; p \<leftarrow> wr dest b p; shift_down_loop n (dest + 1) (src + 1) p }"

definition shiftPDUDown :: "int \<Rightarrow> int \<Rightarrow> int \<Rightarrow> CoapPDU \<Rightarrow> CoapPDU option" where
  "shiftPDUDown startLocation shiftOffset shiftAmount p =
    (if shiftAmount < 0 then None
     else shift_down_loop (nat shiftAmount) startLocation (startLocation + shiftOffset) p)"

subsection \<open>Options\<close>

text \<open>
  The delta of the option whose header is at \<open>h\<close>, over a cleared upper half of the header; the code is there
  twice, in \<open>setOptionDelta\<close> and in \<open>insertOption\<close>. The first result is where the last byte was written.
\<close>

definition put_delta :: "int \<Rightarrow> u16 \<Rightarrow> CoapPDU \<Rightarrow> (int \<times> CoapPDU) option" where
  "put_delta h optionDelta p = do {
     b \<leftarrow> rd p h;
     if optionDelta < 13 then do { p \<leftarrow> wr h (b OR ucast (push_bit 4 optionDelta)) p; Some (h, p) }
     else if optionDelta < 269 then
       do { p \<leftarrow> wr h (b OR 0xD0) p; p \<leftarrow> wr (h + 1) (ucast (optionDelta - 13)) p; Some (h + 1, p) }
     else
       do { p \<leftarrow> wr h (b OR 0xE0) p; p \<leftarrow> store16 (h + 1) (optionDelta - 269) p; Some (h + 2, p) } }"

definition setOptionDelta :: "int \<Rightarrow> u16 \<Rightarrow> CoapPDU \<Rightarrow> CoapPDU option" where
  "setOptionDelta optionPosition optionDelta p = do {
     b \<leftarrow> rd p optionPosition;
     p \<leftarrow> wr optionPosition (b AND 0x0F) p;
     map_option snd (put_delta optionPosition optionDelta p) }"

text \<open>
  The length field of the header at \<open>h\<close>, behind the byte at \<open>i\<close>. A long length is decremented in place, and
  the caller goes on with what is left.
\<close>

definition put_length :: "int \<Rightarrow> int \<Rightarrow> u16 \<Rightarrow> CoapPDU \<Rightarrow> (int \<times> u16 \<times> CoapPDU) option" where
  "put_length h i optionValueLength p = do {
     b \<leftarrow> rd p h;
     if optionValueLength < 13 then
       do { p \<leftarrow> wr h (b OR ucast (optionValueLength AND 0x000F)) p; Some (i, optionValueLength, p) }
     else if optionValueLength < 269 then
       do { p \<leftarrow> wr h (b OR 0x0D) p; p \<leftarrow> wr (i + 1) (ucast (optionValueLength - 13)) p; Some (i + 1, optionValueLength, p) }
     else
       do { p \<leftarrow> wr h (b OR 0x0E) p;
            let optionValueLength = optionValueLength - 269;
            p \<leftarrow> store16 (i + 1) optionValueLength p;
            Some (i + 2, optionValueLength, p) } }"

definition insertOption :: "int \<Rightarrow> u16 \<Rightarrow> u16 \<Rightarrow> u8 list \<Rightarrow> CoapPDU \<Rightarrow> (int \<times> CoapPDU) option" where
  "insertOption insertionPosition optionDelta optionValueLength optionValue p = do {
     p \<leftarrow> wr insertionPosition 0 p;
     (i, p) \<leftarrow> put_delta insertionPosition optionDelta p;
     (i, len, p) \<leftarrow> put_length insertionPosition i optionValueLength p;
     p \<leftarrow> copy_in (i + 1) optionValue (unat len) p;
     Some (0, p) }"

text \<open>The result: where the option goes, and the number of the option before it.\<close>

function find_position_loop :: "u16 \<Rightarrow> int \<Rightarrow> u16 \<Rightarrow> u16 \<Rightarrow> CoapPDU \<Rightarrow> (int \<times> u16) option" where
  "find_position_loop optionNumber optionPos current prev p =
    (if \<not> optionPos < pduLength p then Some (optionPos, prev)
     else do {
       b \<leftarrow> rd p optionPos;
       if b = 0xFF then Some (optionPos, prev)
       else do {
         optionDelta \<leftarrow> getOptionDelta p optionPos;
         let current = current + optionDelta;
         optionValueLength \<leftarrow> getOptionValueLength p optionPos;
         if current > optionNumber then Some (optionPos, prev)
         else find_position_loop optionNumber (optionPos + option_total optionDelta optionValueLength) current current p } })"
  by pat_completeness auto

termination
  by (relation "measure (\<lambda>(optionNumber, optionPos, current, prev, p). nat (pduLength p - optionPos))") simp_all

declare find_position_loop.simps [simp del]

definition findInsertionPosition :: "u16 \<Rightarrow> CoapPDU \<Rightarrow> (int \<times> u16) option" where
  "findInsertionPosition optionNumber p = do {
     t \<leftarrow> getTokenLength p;
     if optionNumber \<ge> maxAddedOptionNumber p \<or> pduLength p = COAP_HDR_SIZE + t
     then Some (pduLength p, maxAddedOptionNumber p)
     else find_position_loop optionNumber (COAP_HDR_SIZE + t) 0 0 p }"

text \<open>The two cases of \<open>addOption\<close>: behind all bytes of the message, or in front of an option.\<close>

definition add_option_at_end ::
  "realloc_fn \<Rightarrow> u16 \<Rightarrow> u16 \<Rightarrow> u16 \<Rightarrow> u16 \<Rightarrow> u8 list \<Rightarrow> CoapPDU \<Rightarrow> (int \<times> CoapPDU) option" where
  "add_option_at_end realloc number optionDelta optionLength optionValueLength optionValue p =
    (let insertionPosition = pduLength p;
         newLength = pduLength p + int (unat optionLength);
         p = p\<lparr>maxAddedOptionNumber := number\<rparr>
     in case ensure_space realloc newLength p of
          None \<Rightarrow> Some (1, p)
        | Some p \<Rightarrow> do {
            (r, p) \<leftarrow> insertOption insertionPosition optionDelta optionValueLength optionValue (p\<lparr>pduLength := newLength\<rparr>);
            Some (0, p\<lparr>numOptions := numOptions p + 1\<rparr>) })"

definition add_option_before ::
  "realloc_fn \<Rightarrow> int \<Rightarrow> u16 \<Rightarrow> u16 \<Rightarrow> u16 \<Rightarrow> u16 \<Rightarrow> u16 \<Rightarrow> u8 list \<Rightarrow> CoapPDU \<Rightarrow> (int \<times> CoapPDU) option" where
  "add_option_before realloc insertionPosition prevOptionNumber number optionDelta optionLength optionValueLength optionValue p = do {
     delta \<leftarrow> getOptionDelta p insertionPosition;
     let nextOptionDelta = int (unat delta);
     let nextOptionNumber = int (unat prevOptionNumber) + nextOptionDelta;
     let nextOptionDeltaBytes = computeExtraBytes (word_of_int nextOptionDelta);
     let newNextOptionDelta = nextOptionNumber - int (unat number);
     let newNextOptionDeltaBytes = computeExtraBytes (word_of_int newNextOptionDelta);
     let optionDeltaAdjustment = newNextOptionDeltaBytes - nextOptionDeltaBytes;
     let mallocLength = int (unat optionLength) + optionDeltaAdjustment;
     let newLength = pduLength p + mallocLength;
     case ensure_space realloc newLength p of
       None \<Rightarrow> Some (1, p)
     | Some p \<Rightarrow> do {
         p \<leftarrow> shiftPDUUp mallocLength (newLength - (insertionPosition + mallocLength)) (p\<lparr>pduLength := newLength\<rparr>);
         let nextHeaderPos = insertionPosition + mallocLength;
         b \<leftarrow> rd p nextHeaderPos;
         let newHeaderPos = nextHeaderPos - optionDeltaAdjustment;
         p \<leftarrow> wr newHeaderPos b p;
         p \<leftarrow> setOptionDelta newHeaderPos (word_of_int newNextOptionDelta) p;
         (r, p) \<leftarrow> insertOption insertionPosition optionDelta optionValueLength optionValue p;
         Some (0, p\<lparr>numOptions := numOptions p + 1\<rparr>) } }"

definition addOption :: "realloc_fn \<Rightarrow> u16 \<Rightarrow> u16 \<Rightarrow> u8 list \<Rightarrow> CoapPDU \<Rightarrow> (int \<times> CoapPDU) option" where
  "addOption realloc insertedOptionNumber optionValueLength optionValue p = do {
     (insertionPosition, prevOptionNumber) \<leftarrow> findInsertionPosition insertedOptionNumber p;
     let optionDelta = insertedOptionNumber - prevOptionNumber;
     let optionLength = (word_of_int (COAP_OPTION_HDR_BYTE + computeExtraBytes optionDelta +
           computeExtraBytes optionValueLength + int (unat optionValueLength)) :: u16);
     if insertionPosition = pduLength p
     then add_option_at_end realloc insertedOptionNumber optionDelta optionLength optionValueLength optionValue p
     else add_option_before realloc insertionPosition prevOptionNumber insertedOptionNumber optionDelta optionLength
            optionValueLength optionValue p }"

subsection \<open>Token\<close>

text \<open>\<open>oldPDULength\<close> is a \<open>uint8_t\<close>.\<close>

definition setToken :: "realloc_fn \<Rightarrow> u8 list option \<Rightarrow> u8 \<Rightarrow> CoapPDU \<Rightarrow> (int \<times> CoapPDU) option" where
  "setToken realloc token tokenLength p =
    (case token of
       None \<Rightarrow> Some (1, p)
     | Some token \<Rightarrow>
         if tokenLength = 0 then Some (1, p)
         else do {
           oldTokenLength \<leftarrow> getTokenLength p;
           if int (unat tokenLength) = oldTokenLength then
             do { p \<leftarrow> copy_in 4 token (unat tokenLength) p; Some (0, p) }
           else
             let oldPDULength = int (unat (word_of_int (pduLength p) :: u8));
                 newLength = pduLength p - oldTokenLength + int (unat tokenLength);
                 p = p\<lparr>pduLength := newLength\<rparr>
             in if newLength > oldPDULength then
                  (case ensure_space realloc newLength p of
                     None \<Rightarrow> Some (1, p\<lparr>pduLength := oldPDULength\<rparr>)
                   | Some p \<Rightarrow> do {
                       p \<leftarrow> shiftPDUUp (newLength - oldPDULength) (newLength - int (unat tokenLength) - COAP_HDR_SIZE) p;
                       p \<leftarrow> copy_in 4 token (unat tokenLength) p;
                       (r, p) \<leftarrow> setTokenLength tokenLength p;
                       Some (0, p) })
                else do {
                  p \<leftarrow> copy_in 4 token (unat tokenLength) p;
                  p \<leftarrow> shiftPDUDown (COAP_HDR_SIZE + int (unat tokenLength)) (oldPDULength - newLength)
                         (oldPDULength - oldTokenLength - COAP_HDR_SIZE) p;
                  case (if constructedFromBuffer p then Some p else ensure_space realloc newLength p) of
                    None \<Rightarrow> Some (1, p)
                  | Some p \<Rightarrow> do { (r, p) \<leftarrow> setTokenLength tokenLength p; Some (0, p) } } })"

subsection \<open>Payload\<close>

text \<open>The pointer to the space for the payload, a null pointer when there is none.\<close>

definition mallocPayload :: "realloc_fn \<Rightarrow> int \<Rightarrow> CoapPDU \<Rightarrow> (addr option \<times> CoapPDU) option" where
  "mallocPayload realloc len p =
    (if len = 0 then Some (None, p)
     else if len = payloadLength p then Some (payloadPointer p, p)
     else
       let markerSpace = (if payloadLength p \<noteq> 0 then 0 else 1);
           payloadSpace = (if payloadLength p \<noteq> 0 then len - payloadLength p else len);
           newLen = pduLength p + payloadSpace + markerSpace
       in case ensure_space realloc newLen p of
            None \<Rightarrow> Some (None, p)
          | Some p \<Rightarrow>
              (case payloadPointer p of
                 None \<Rightarrow> do {
                   q \<leftarrow> wr (pduLength p) 0xFF p;
                   let pp = pdu_addr p + pduLength p + 1;
                   Some (Some pp, q\<lparr>payloadPointer := Some pp, pduLength := newLen, payloadLength := len\<rparr>) }
               | Some pp \<Rightarrow> Some (Some pp, p\<lparr>pduLength := newLen, payloadLength := len\<rparr>)))"

definition setPayload :: "realloc_fn \<Rightarrow> u8 list option \<Rightarrow> int \<Rightarrow> CoapPDU \<Rightarrow> (int \<times> CoapPDU) option" where
  "setPayload realloc payload len p =
    (case payload of
       None \<Rightarrow> Some (1, p)
     | Some payload \<Rightarrow> do {
         (q, p) \<leftarrow> mallocPayload realloc len p;
         case q of
           None \<Rightarrow> Some (1, p)
         | Some pp \<Rightarrow>
             if len < 0 then None
             else do { p \<leftarrow> copy_in (pp - pdu_addr p) payload (nat len) p; Some (0, p) } })"

text \<open>The bytes the copy holds; a null pointer when there is no payload or no memory for the copy (\<open>mem\<close>).\<close>

definition getPayloadCopy :: "bool \<Rightarrow> CoapPDU \<Rightarrow> u8 list option option" where
  "getPayloadCopy mem p =
    (if payloadLength p = 0 then Some None
     else if \<not> mem then Some None
     else do {
       pp \<leftarrow> payloadPointer p;
       let i = pp - pdu_addr p;
       if 0 \<le> i \<and> 0 \<le> payloadLength p \<and> i + payloadLength p \<le> int (length (pdu p))
       then Some (Some (take (nat (payloadLength p)) (drop (nat i) (pdu p)))) else None })"

subsection \<open>Content format and URI\<close>

text \<open>\<open>CoapPDU::ContentFormat\<close>\<close>

definition COAP_CONTENT_FORMAT_TEXT_PLAIN :: u16 where "COAP_CONTENT_FORMAT_TEXT_PLAIN = 0"
definition COAP_CONTENT_FORMAT_APP_LINK :: u16 where "COAP_CONTENT_FORMAT_APP_LINK = 40"
definition COAP_CONTENT_FORMAT_APP_XML :: u16 where "COAP_CONTENT_FORMAT_APP_XML = 41"
definition COAP_CONTENT_FORMAT_APP_OCTET :: u16 where "COAP_CONTENT_FORMAT_APP_OCTET = 42"
definition COAP_CONTENT_FORMAT_APP_EXI :: u16 where "COAP_CONTENT_FORMAT_APP_EXI = 47"
definition COAP_CONTENT_FORMAT_APP_JSON :: u16 where "COAP_CONTENT_FORMAT_APP_JSON = 50"

lemmas content_formats = COAP_CONTENT_FORMAT_TEXT_PLAIN_def COAP_CONTENT_FORMAT_APP_LINK_def
  COAP_CONTENT_FORMAT_APP_XML_def COAP_CONTENT_FORMAT_APP_OCTET_def COAP_CONTENT_FORMAT_APP_EXI_def
  COAP_CONTENT_FORMAT_APP_JSON_def

definition setContentFormat :: "realloc_fn \<Rightarrow> u16 \<Rightarrow> CoapPDU \<Rightarrow> (int \<times> CoapPDU) option" where
  "setContentFormat realloc format p =
    (let add = (\<lambda>len c. do { (r, p) \<leftarrow> addOption realloc COAP_OPTION_CONTENT_FORMAT len c p; Some (if r \<noteq> 0 then 1 else 0, p) })
     in if format = COAP_CONTENT_FORMAT_TEXT_PLAIN then add 0 []
        else if format \<in> {COAP_CONTENT_FORMAT_APP_JSON, COAP_CONTENT_FORMAT_APP_EXI, COAP_CONTENT_FORMAT_APP_XML,
                          COAP_CONTENT_FORMAT_APP_OCTET, COAP_CONTENT_FORMAT_APP_LINK} then add 1 [ucast format]
        else if format \<le> 0xff then add 1 [ucast format]
        else add 2 [ucast (drop_bit 8 format), ucast format])"

text \<open>\<open>strchr\<close>, from the start of \<open>s\<close>; no value when \<open>s\<close> ends before it is terminated.\<close>

fun strchr :: "u8 \<Rightarrow> u8 list \<Rightarrow> nat option option" where
  "strchr c [] = None"
| "strchr c (x # xs) =
    (if x = c then Some (Some 0) else if x = 0 then Some None else map_option (map_option Suc) (strchr c xs))"

definition char_at :: "u8 list \<Rightarrow> nat \<Rightarrow> u8 option" where
  "char_at s i = (if i < length s then Some (s ! i) else None)"

text \<open>
  The loop of \<open>setURI\<close>; \<open>uri\<close> is the string with its terminating zero, \<open>startP\<close> a place in it. \<open>47\<close>, \<open>63\<close>, \<open>38\<close>
  are slash, question mark and ampersand. No value also when the loop never ends.
\<close>

partial_function (option) setURI_loop ::
  "realloc_fn \<Rightarrow> u8 list \<Rightarrow> int \<Rightarrow> nat \<Rightarrow> u8 \<Rightarrow> u16 \<Rightarrow> CoapPDU \<Rightarrow> (int \<times> CoapPDU) option" where
  "setURI_loop realloc uri urilen startP splitChar optionType p = do {
     c \<leftarrow> char_at uri startP;
     if c = 0 then Some (0, p)
     else do {
       c' \<leftarrow> char_at uri (startP + 1);
       if c' = 0 then Some (0, p)
       else
         let startP = (if c = splitChar then startP + 1 else startP) in do {
           slash \<leftarrow> strchr splitChar (drop startP uri);
           query \<leftarrow> (if slash = None then strchr 63 (drop startP uri) else Some None);
           let endP = (case slash of Some k \<Rightarrow> int (startP + k)
                       | None \<Rightarrow> (case query of Some k \<Rightarrow> int (startP + k) | None \<Rightarrow> urilen));
           (r, p) \<leftarrow> addOption realloc optionType (word_of_int (endP - int startP)) (drop startP uri) p;
           if r \<noteq> 0 then Some (1, p)
           else if query \<noteq> None
           then setURI_loop realloc uri urilen (nat endP + 1) 38 COAP_OPTION_URI_QUERY p
           else setURI_loop realloc uri urilen (nat endP) splitChar optionType p } } }"

definition setURI :: "realloc_fn \<Rightarrow> u8 list option \<Rightarrow> int \<Rightarrow> CoapPDU \<Rightarrow> (int \<times> CoapPDU) option" where
  "setURI realloc uri urilen p =
    (case uri of
       None \<Rightarrow> Some (1, p)
     | Some uri \<Rightarrow>
         if urilen \<le> 0 then Some (1, p)
         else if urilen = 1 then do { (r, p) \<leftarrow> addOption realloc COAP_OPTION_URI_PATH 1 uri p; Some (0, p) }
         else setURI_loop realloc uri urilen 0 47 COAP_OPTION_URI_PATH p)"

definition addURIQuery :: "realloc_fn \<Rightarrow> u8 list \<Rightarrow> CoapPDU \<Rightarrow> (int \<times> CoapPDU) option" where
  "addURIQuery realloc query p = do {
     n \<leftarrow> strchr 0 query;
     addOption realloc COAP_OPTION_URI_QUERY (of_nat (the n)) query p }"

text \<open>
  \<open>getURI\<close> writes to the memory \<open>dst\<close> and to \<open>*outLen\<close>; a missing one is a null pointer. \<open>k\<close> is the place the
  next byte goes to.
\<close>

definition put_char :: "nat \<Rightarrow> u8 \<Rightarrow> u8 list \<Rightarrow> u8 list option" where
  "put_char k c dst = (if k < length dst then Some (dst[k := c]) else None)"

definition bytes_at :: "CoapPDU \<Rightarrow> addr \<Rightarrow> nat \<Rightarrow> u8 list option" where
  "bytes_at p q n =
    (let i = q - pdu_addr p
     in if 0 \<le> i \<and> i + int n \<le> int (length (pdu p)) then Some (take n (drop (nat i) (pdu p))) else None)"

type_synonym uri_result = "int \<times> u8 list option \<times> int option"

fun getURI_loop ::
  "CoapPDU \<Rightarrow> int \<Rightarrow> int \<Rightarrow> CoapOption list \<Rightarrow> nat \<Rightarrow> int \<Rightarrow> u8 \<Rightarrow> bool \<Rightarrow> u8 list \<Rightarrow> uri_result option" where
  "getURI_loop p dstlen out [] k bytesLeft separator firstQuery dst = do {
     dst \<leftarrow> put_char (k - 1) 0 dst;
     Some (0, Some dst, Some (dstlen - 1 - (bytesLeft + 1))) }"
| "getURI_loop p dstlen out (o1 # os) k bytesLeft separator firstQuery dst =
    (if opt_number o1 = COAP_OPTION_URI_PATH \<or> opt_number o1 = COAP_OPTION_URI_QUERY then
       let oLen = unat (opt_valueLength o1); query = (opt_number o1 = COAP_OPTION_URI_QUERY) in do {
         dst \<leftarrow> (if query \<and> firstQuery then put_char (k - 1) 63 dst else Some dst);
         let firstQuery = (firstQuery \<and> \<not> query);
         let separator = (if query then 38 else separator);
         if int oLen > bytesLeft then Some (1, Some dst, Some out)
         else do {
           v \<leftarrow> bytes_at p (opt_valuePointer o1) oLen;
           if v = [47] then do { dst \<leftarrow> put_char k 0 dst; Some (0, Some dst, Some 1) }
           else if k + oLen > length dst then None
           else
             let dst = take k dst @ v @ drop (k + oLen) dst in
             if bytesLeft - int oLen \<ge> 1 then do {
               dst \<leftarrow> put_char (k + oLen) separator dst;
               getURI_loop p dstlen out os (k + oLen + 1) (bytesLeft - int oLen - 1) separator firstQuery dst }
             else Some (1, Some dst, Some out) } }
     else getURI_loop p dstlen out os k bytesLeft separator firstQuery dst)"

definition getURI :: "bool \<Rightarrow> u8 list option \<Rightarrow> int \<Rightarrow> int option \<Rightarrow> CoapPDU \<Rightarrow> uri_result option" where
  "getURI mem dst dstlen outLen p =
    (case (outLen, dst) of
       (None, _) \<Rightarrow> Some (1, dst, None)
     | (Some out, None) \<Rightarrow> Some (1, None, Some 0)
     | (Some out, Some dst) \<Rightarrow>
         if dstlen \<le> 0 then do { dst \<leftarrow> put_char 0 0 dst; Some (1, Some dst, Some 0) }
         else if numOptions p = 0 then do { dst \<leftarrow> put_char 0 0 dst; Some (0, Some dst, Some 0) }
         else do {
           options \<leftarrow> getOptions mem p;
           case options of
             None \<Rightarrow> do { dst \<leftarrow> put_char 0 0 dst; Some (0, Some dst, Some 0) }
           | Some options \<Rightarrow>
               if dstlen - 1 \<ge> 1 then do {
                 dst \<leftarrow> put_char 0 47 dst;
                 getURI_loop p dstlen out options 1 (dstlen - 2) 47 True dst }
               else Some (1, Some dst, Some out) })"

end
