(* ===== verification/Client_Queue.thy ===== *)
theory Client_Queue imports Client_Edit begin

section \<open>The client's queue and transaction ids (\<open>client/Queue.cpp\<close>, \<open>client/Hash.cpp\<close>)\<close>

text \<open>
  The queue holds the messages that wait for a response, as a list in the order of the \<open>next\<close> pointers. The
  time \<open>q_t\<close> of the first node is when it is due, that of any other the distance to the node before it. A node
  owns its message; the request it belongs to is named by a number.
\<close>

record coap_queue =
  q_t :: u32
  retransmit_cnt :: u8
  q_timeout :: u32
  q_id :: int
  q_pdu :: CoapPDU
  q_req :: nat

definition COAP_INVALID_TID :: int where "COAP_INVALID_TID = - 1"

subsection \<open>The queue\<close>

text \<open>The search for the place of a node, which is already relative to the node before this part of the queue.\<close>

fun insert_node :: "coap_queue \<Rightarrow> coap_queue list \<Rightarrow> coap_queue list" where
  "insert_node node [] = [node]"
| "insert_node node (q # qs) =
    (if q_t q \<le> q_t node then q # insert_node (node\<lparr>q_t := q_t node - q_t q\<rparr>) qs
     else node # q\<lparr>q_t := q_t q - q_t node\<rparr> # qs)"

fun coapAddNode :: "coap_queue list \<Rightarrow> coap_queue \<Rightarrow> coap_queue list" where
  "coapAddNode [] node = [node]"
| "coapAddNode (q # qs) node =
    (if q_t node < q_t q then node # q\<lparr>q_t := q_t q - q_t node\<rparr> # qs
     else q # insert_node (node\<lparr>q_t := q_t node - q_t q\<rparr>) qs)"

fun find_node :: "int \<Rightarrow> coap_queue list \<Rightarrow> coap_queue option" where
  "find_node nodeId [] = None"
| "find_node nodeId (q # qs) = (if q_id q \<noteq> nodeId then find_node nodeId qs else Some q)"

text \<open>
  After its loop the code reads \<open>node->id\<close>; when the loop has run off the end of the queue, \<open>node\<close> is a null
  pointer (no value here).
\<close>

definition coapGetNodeById :: "coap_queue list \<Rightarrow> int \<Rightarrow> coap_queue option option" where
  "coapGetNodeById queue nodeId =
    (if queue = [] then Some None
     else (case find_node nodeId queue of None \<Rightarrow> None | Some node \<Rightarrow> Some (Some node)))"

definition later :: "u32 \<Rightarrow> coap_queue list \<Rightarrow> coap_queue list" where
  "later t qs = (case qs of [] \<Rightarrow> [] | q # qs \<Rightarrow> q\<lparr>q_t := q_t q + t\<rparr> # qs)"

fun coapRemoveNode :: "coap_queue list \<Rightarrow> int \<Rightarrow> int \<times> coap_queue list" where
  "coapRemoveNode [] nodeId = (0, [])"
| "coapRemoveNode (q # qs) nodeId =
    (if q_id q = nodeId then (1, later (q_t q) qs)
     else (case coapRemoveNode qs nodeId of (r, qs) \<Rightarrow> (r, q # qs)))"

definition coapPopNext :: "coap_queue list \<Rightarrow> coap_queue option \<times> coap_queue list" where
  "coapPopNext queue = (case queue of [] \<Rightarrow> (None, []) | q # qs \<Rightarrow> (Some q, qs))"

text \<open>The loop of \<open>coapQueueSize\<close> starts at a pointer that was never set.\<close>

definition coapQueueSize :: "coap_queue list \<Rightarrow> int option" where
  "coapQueueSize queue = (if queue = [] then Some 0 else None)"

subsection \<open>Transaction ids\<close>

type_synonym coap_key = "u8 \<times> u8 \<times> u8 \<times> u8"

fun hash_byte :: "u8 \<Rightarrow> coap_key \<Rightarrow> coap_key" where
  "hash_byte s (h0, h1, h2, h3) =
    (push_bit 7 h0 + h0 + s,
     (push_bit 7 h1 OR drop_bit 1 h0) + h1,
     (push_bit 7 h2 OR drop_bit 1 h1) + h2,
     (push_bit 7 h3 OR drop_bit 1 h2) + h3)"

definition coap_hash :: "u8 list \<Rightarrow> coap_key \<Rightarrow> coap_key" where
  "coap_hash s h = fold hash_byte s h"

text \<open>The bytes of a 32 bit value in the memory of the target.\<close>

definition bytes32 :: "u32 \<Rightarrow> u8 list" where
  "bytes32 v = [ucast v, ucast (drop_bit 8 v), ucast (drop_bit 16 v), ucast (drop_bit 24 v)]"

definition key_id :: "coap_key \<Rightarrow> int" where
  "key_id h = (case h of (h0, h1, h2, h3) \<Rightarrow>
     (push_bit 8 (uint h0) OR uint h1) XOR (push_bit 8 (uint h2) OR uint h3))"

definition createTransactionID :: "u32 \<Rightarrow> u32 \<Rightarrow> CoapPDU \<Rightarrow> int option" where
  "createTransactionID ip port p = do {
     message_id \<leftarrow> getMessageID p;
     Some (key_id (coap_hash [ucast message_id, ucast (drop_bit 8 message_id)]
             (coap_hash (bytes32 ip) (coap_hash (bytes32 port) (0, 0, 0, 0))))) }"

end
