(* ===== verification/Client_Facts.thy ===== *)
theory Client_Facts imports Client_Edit Options_Codec begin

section \<open>Options in the client's messages\<close>

text \<open>
  The bytes of an option list, as the client writes them (\<open>encs\<close>), and what the reading and the writing
  functions of \<open>CoapPDU\<close> do on them. The encoding of a field is the one of the server, \<open>opt_nibble\<close> and
  \<open>opt_ext\<close>.
\<close>

definition enc_head :: "u16 \<Rightarrow> u16 \<Rightarrow> u8 list" where
  "enc_head d n = (push_bit 4 (opt_nibble d) OR opt_nibble n) # opt_ext d @ opt_ext n"

definition enc :: "u16 \<Rightarrow> u16 \<times> u8 list \<Rightarrow> u8 list" where
  "enc prev x = enc_head (fst x - prev) (of_nat (length (snd x))) @ snd x"

fun encs :: "u16 \<Rightarrow> (u16 \<times> u8 list) list \<Rightarrow> u8 list" where
  "encs prev [] = []"
| "encs prev (x # xs) = enc prev x @ encs (fst x) xs"

subsection \<open>Access to the buffer\<close>

lemma rd_at [simp]: "pdu p = A @ x # R \<Longrightarrow> rd p (int (length A)) = Some x"
  by (simp add: rd_def)

lemma wr_at: "pdu p = A @ x # R \<Longrightarrow> wr (int (length A)) b p = Some (p\<lparr>pdu := A @ b # R\<rparr>)"
  by (simp add: wr_def)

lemma rd_off: "pdu p = A @ xs @ R \<Longrightarrow> k < length xs \<Longrightarrow> rd p (int (length A) + int k) = Some (xs ! k)"
  by (simp add: rd_def nth_append nat_add_distrib)

lemma wr_off: "pdu p = A @ xs @ R \<Longrightarrow> k < length xs \<Longrightarrow> wr (int (length A) + int k) b p = Some (p\<lparr>pdu := A @ xs[k := b] @ R\<rparr>)"
  by (simp add: wr_def nat_add_distrib list_update_append)

lemma copy_in_at:
  assumes "pdu p = A @ G @ R" "length G = n" "n \<le> length src"
  shows "copy_in (int (length A)) src n p = Some (p\<lparr>pdu := A @ take n src @ R\<rparr>)"
  using assms by (auto simp: copy_in_def nat_add_distrib)

lemma load16_off:
  assumes "pdu p = A @ xs @ R" "Suc k < length xs"
  shows "load16 p (int (length A) + int k) = Some (push_bit 8 (ucast (xs ! k)) OR ucast (xs ! Suc k))"
  using rd_off[OF assms(1), of k] rd_off[OF assms(1), of "Suc k"] assms(2) by (simp add: load16_def ac_simps)

subsection \<open>Reading an option's header\<close>

lemma ucast8_16:
  "(ucast (x :: u8) :: u16) < 13 \<longleftrightarrow> x < 13" "(ucast x :: u16) = 13 \<longleftrightarrow> x = 13" "(ucast x :: u16) = 14 \<longleftrightarrow> x = 14"
proof -
  have "unat x < 2 ^ 16" using u8_less[of x] by (rule less_trans) simp
  then have "unat (ucast x :: u16) = unat x" by (simp add: unsigned_ucast_eq unsigned_take_bit_eq take_bit_nat_eq_self)
  then show "(ucast x :: u16) < 13 \<longleftrightarrow> x < 13" "(ucast x :: u16) = 13 \<longleftrightarrow> x = 13" "(ucast x :: u16) = 14 \<longleftrightarrow> x = 14"
    by (simp_all add: word_less_nat_alt word_unat_eq_iff)
qed

lemma nibble_cases:
  "opt_nibble v < 13 \<longleftrightarrow> v < 13" "opt_nibble v = 13 \<longleftrightarrow> \<not> v < 13 \<and> v < 269" "opt_nibble v = 14 \<longleftrightarrow> \<not> v < 269"
proof -
  have "opt_nibble v < 13" if "v < 13" using that by (simp add: opt_nibble_def word_less_nat_alt unat_ucast8)
  moreover have "v < 13 \<Longrightarrow> v < 269" by (simp add: word_less_nat_alt)
  ultimately show "opt_nibble v < 13 \<longleftrightarrow> v < 13" "opt_nibble v = 13 \<longleftrightarrow> \<not> v < 13 \<and> v < 269" "opt_nibble v = 14 \<longleftrightarrow> \<not> v < 269"
    by (auto simp: opt_nibble_def split: if_splits)
qed

lemma head_nibbles:
  "upperNibble (push_bit 4 (opt_nibble d) OR opt_nibble n) = opt_nibble d"
  "lowerNibble (push_bit 4 (opt_nibble d) OR opt_nibble n) = opt_nibble n"
proof -
  have "drop_bit 4 (x AND 0xF0) = drop_bit 4 x" for x :: u8
  proof -
    have m: "(0xF0 :: u8) = NOT (mask 4)" by (simp add: mask_eq_exp_minus_1)
    show ?thesis unfolding m by (rule bit_word_eqI) (auto simp: bit_simps dest: bit_imp_le_length)
  qed
  then show "upperNibble (push_bit 4 (opt_nibble d) OR opt_nibble n) = opt_nibble d"
    "lowerNibble (push_bit 4 (opt_nibble d) OR opt_nibble n) = opt_nibble n"
    using pack_header(1,2) unfolding upperNibble_def lowerNibble_def by metis+
qed

lemma head_read:
  assumes "pdu p = A @ enc_head d n @ R"
  shows "\<exists>h. rd p (int (length A)) = Some h \<and> upperNibble h = opt_nibble d \<and> lowerNibble h = opt_nibble n \<and> h \<noteq> 0xFF"
proof -
  have "rd p (int (length A)) = Some (push_bit 4 (opt_nibble d) OR opt_nibble n)"
    using assms by (simp add: enc_head_def)
  then show ?thesis using head_nibbles pack_header(3) by blast
qed

text \<open>The value of a field, from its nibble and the extended bytes.\<close>

lemma ext_value:
  "\<not> v < 13 \<Longrightarrow> v < 269 \<Longrightarrow> opt_ext v = [ucast v - 13] \<and> ucast (ucast v - 13 :: u8) + 13 = v"
  "\<not> v < 269 \<Longrightarrow> \<exists>a b. opt_ext v = [a, b] \<and> (push_bit 8 (ucast a) OR ucast b) + 269 = v"
proof -
  have b: "has_bytes (mem_of (opt_ext v)) (unat (0 :: u16)) (opt_ext v)" using has_bytes_mem_of by simp
  have e: "opt_ext v = (if v < 13 then [] else if v < 269 then [ucast v - 13]
    else [ucast (drop_bit 8 (v - 269)), ucast ((v - 269) AND 0xff)])" by (rule opt_ext_def)
  note r = read_ext_pack[OF b]
  show "opt_ext v = [ucast v - 13] \<and> ucast (ucast v - 13 :: u8) + 13 = v" if "\<not> v < 13" "v < 269"
    using that r e by (simp add: read_ext_def opt_nibble_def mem_of_def)
  show "\<exists>a b. opt_ext v = [a, b] \<and> (push_bit 8 (ucast a) OR ucast b) + 269 = v" if "\<not> v < 269"
  proof -
    have "\<not> v < 13" using that by (auto simp: word_less_nat_alt)
    then show ?thesis using that r e by (simp add: read_ext_def opt_nibble_def mem_of_def)
  qed
qed

lemma read_delta:
  assumes "pdu p = A @ enc_head d n @ R"
  shows "getOptionDelta p (int (length A)) = Some d"
proof -
  have p: "pdu p = A @ ((push_bit 4 (opt_nibble d) OR opt_nibble n) # opt_ext d) @ opt_ext n @ R"
    using assms by (simp add: enc_head_def)
  note off = rd_off[OF p, of 1] load16_off[OF p, of 1]
  obtain h where h: "rd p (int (length A)) = Some h" "upperNibble h = opt_nibble d" using head_read[OF assms] by blast
  consider "d < 13" | "\<not> d < 13" "d < 269" | "\<not> d < 269" by blast
  then show ?thesis
  proof cases
    case 1
    then have "opt_nibble d = ucast d" "unat d < 256" by (simp_all add: opt_nibble_def word_less_nat_alt)
    then show ?thesis using 1 h by (simp add: getOptionDelta_def Let_def ucast_ucast8)
  next
    case 2
    then have "opt_nibble d = 13" using nibble_cases by blast
    then show ?thesis using 2 h off(1) ext_value(1)[of d] by (simp add: getOptionDelta_def Let_def)
  next
    case 3
    then have "opt_nibble d = 14" using nibble_cases by blast
    moreover obtain a b where "opt_ext d = [a, b]" "(push_bit 8 (ucast a) OR ucast b) + 269 = d" using ext_value(2)[OF 3] by blast
    ultimately show ?thesis using h off(2) by (simp add: getOptionDelta_def Let_def)
  qed
qed

lemma read_length:
  assumes "pdu p = A @ enc_head d n @ R"
  shows "getOptionValueLength p (int (length A)) = Some n"
proof -
  obtain h where h: "rd p (int (length A)) = Some h" "upperNibble h = opt_nibble d" "lowerNibble h = opt_nibble n"
    using head_read[OF assms] by blast
  have p: "pdu p = A @ ((push_bit 4 (opt_nibble d) OR opt_nibble n) # opt_ext d @ opt_ext n) @ R" using assms by (simp add: enc_head_def)
  have o: "(if opt_nibble d = 13 then 2 else if opt_nibble d = 14 then 3 else 1 :: int) = int (Suc (length (opt_ext d)))"
    using nibble_cases[of d] by (auto simp: opt_ext_def)
  note off = rd_off[OF p, of "Suc (length (opt_ext d))"] load16_off[OF p, of "Suc (length (opt_ext d))"]
  consider "n < 13" | "\<not> n < 13" "n < 269" | "\<not> n < 269" by blast
  then show ?thesis
  proof cases
    case 1
    then have "opt_nibble n = ucast n" "unat n < 256" by (simp_all add: opt_nibble_def word_less_nat_alt)
    then show ?thesis using 1 h by (simp add: getOptionValueLength_def Let_def ucast_ucast8)
  next
    case 2
    then have "opt_nibble n = 13" using nibble_cases by blast
    then show ?thesis using 2 h off(1) ext_value(1)[of n] o
      by (auto simp: getOptionValueLength_def Let_def ucast8_16 nth_append split: if_splits)
  next
    case 3
    then have "opt_nibble n = 14" using nibble_cases by blast
    moreover obtain a b where "opt_ext n = [a, b]" "(push_bit 8 (ucast a) OR ucast b) + 269 = n" using ext_value(2)[OF 3] by blast
    ultimately show ?thesis using h off(2) o
      by (auto simp: getOptionValueLength_def Let_def ucast8_16 nth_append split: if_splits)
  qed
qed

subsection \<open>Writing an option\<close>

lemma ext_length: "length (opt_ext v) = (if v < 13 then 0 else if v < 269 then 1 else 2)"
  by (simp add: opt_ext_def)

lemma u8_low: "(ucast ((v :: u16) AND 0xff) :: u8) = ucast v"
proof -
  have m: "(0xff :: u16) = mask 8" by (simp add: mask_eq_exp_minus_1)
  show ?thesis unfolding m by (rule bit_word_eqI) (auto simp: bit_simps)
qed

lemma small_nibble:
  assumes "v < 13"
  shows "(ucast (push_bit 4 v) :: u8) = push_bit 4 (opt_nibble v)" "(ucast (v AND 0x000F) :: u8) = opt_nibble v"
proof -
  have n: "opt_nibble v = ucast v" "unat v < 2 ^ 4" using assms by (simp_all add: opt_nibble_def word_less_nat_alt)
  have m: "(0x000F :: u16) = mask 4" by (simp add: mask_eq_exp_minus_1)
  show "(ucast (push_bit 4 v) :: u8) = push_bit 4 (opt_nibble v)" unfolding n(1)
    by (rule bit_word_eqI) (auto simp: bit_simps)
  show "(ucast (v AND 0x000F) :: u8) = opt_nibble v" unfolding n(1) m
    by (rule bit_word_eqI) (auto simp: bit_simps dest: bit_small[OF n(2)])
qed

lemma u8_minus:
  assumes "\<not> (v :: u16) < 13"
  shows "(ucast (v - 13) :: u8) = ucast v - 13"
proof -
  have "unat (v - 13) = unat v - 13" using unat_sub[of 13 v] assms by (simp add: not_less)
  then have "(ucast (v - 13) :: u8) = of_nat (unat v - 13)" by (metis of_nat_unat)
  then show ?thesis using assms by (simp add: word_less_nat_alt)
qed

lemma butlast_cons: "L \<noteq> [] \<Longrightarrow> butlast L @ last L # X = L @ X"
  using append_butlast_last_id[of L] by (metis append.assoc append_Cons append_Nil)

lemma wr_next:
  assumes "pdu p = A @ b # G @ R" "length G = 1"
  shows "wr (int (length A) + 1) c p = Some (p\<lparr>pdu := A @ b # c # R\<rparr>)"
proof -
  obtain g where "G = [g]" using assms(2) by (auto simp: length_Suc_conv)
  then have "pdu p = (A @ [b]) @ g # R" using assms(1) by simp
  from wr_at[OF this, of c] show ?thesis by (simp add: add.commute)
qed

lemma store_next:
  assumes "pdu p = A @ b # G @ R" "length G = 2"
  shows "store16 (int (length A) + 1) v p = Some (p\<lparr>pdu := A @ b # ucast (drop_bit 8 v) # ucast v # R\<rparr>)"
proof -
  obtain g g' where "G = [g, g']" using assms(2) by (auto simp: length_Suc_conv eval_nat_numeral)
  then have p: "pdu p = (A @ [b]) @ g # g' # R" using assms(1) by simp
  have q: "pdu (p\<lparr>pdu := (A @ [b]) @ ucast (drop_bit 8 v) # g' # R\<rparr>) = (A @ [b, ucast (drop_bit 8 v)]) @ g' # R" by simp
  show ?thesis using wr_at[OF p, of "ucast (drop_bit 8 v)"] wr_at[OF q, of "ucast v"] by (simp add: store16_def ac_simps)
qed

lemma put_delta_at:
  assumes "pdu p = A @ b # G @ R" "length G = length (opt_ext d)"
  shows "put_delta (int (length A)) d p =
    Some (int (length A) + int (length (opt_ext d)), p\<lparr>pdu := A @ (b OR push_bit 4 (opt_nibble d)) # opt_ext d @ R\<rparr>)"
proof -
  have rd: "rd p (int (length A)) = Some b" using assms(1) by simp
  note wr = wr_at[OF assms(1)]
  have p: "pdu (p\<lparr>pdu := A @ c # G @ R\<rparr>) = A @ c # G @ R" for c by simp
  consider "d < 13" | "\<not> d < 13" "d < 269" | "\<not> d < 269" "\<not> d < 13" by (auto simp: word_less_nat_alt)
  then show ?thesis
  proof cases
    case 1
    then show ?thesis using rd wr assms(2) by (simp add: put_delta_def small_nibble opt_ext_def)
  next
    case 2
    then have "opt_ext d = [ucast (d - 13)]" "length G = 1" "push_bit 4 (opt_nibble d) = 0xD0"
      using 2 assms(2) by (simp_all add: opt_ext_def opt_nibble_def u8_minus)
    then show ?thesis using rd wr wr_next[OF p] 2 by (simp add: put_delta_def)
  next
    case 3
    then have "opt_ext d = [ucast (drop_bit 8 (d - 269)), ucast (d - 269)]" "length G = 2" "push_bit 4 (opt_nibble d) = 0xE0"
      using assms(2) by (simp_all add: opt_ext_def opt_nibble_def u8_low)
    then show ?thesis using rd wr store_next[OF p] 3 by (simp add: put_delta_def)
  qed
qed

lemma put_length_at:
  assumes "pdu p = A @ b # E @ G @ R" "length G = length (opt_ext n)"
  shows "put_length (int (length A)) (int (length A) + int (length E)) n p =
    Some (int (length A) + int (length E) + int (length (opt_ext n)), if n < 269 then n else n - 269,
      p\<lparr>pdu := A @ (b OR opt_nibble n) # E @ opt_ext n @ R\<rparr>)"
proof -
  have rd: "rd p (int (length A)) = Some b" using assms(1) by simp
  note wr = wr_at[OF assms(1)]
  have p: "pdu (p\<lparr>pdu := A @ c # E @ G @ R\<rparr>) = butlast (A @ c # E) @ last (A @ c # E) # G @ R" for c
    by (subst butlast_cons) simp_all
  have len: "int (length (butlast (A @ c # E))) = int (length A) + int (length E)" for c by simp
  have shape: "butlast (A @ c # E) @ last (A @ c # E) # X = A @ c # E @ X" for c X by (subst butlast_cons) simp_all
  note next1 = wr_next[OF p, unfolded len shape] and next2 = store_next[OF p, unfolded len shape]
  consider "n < 13" "n < 269" | "\<not> n < 13" "n < 269" | "\<not> n < 269" "\<not> n < 13" by (auto simp: word_less_nat_alt)
  then show ?thesis
  proof cases
    case 1
    then show ?thesis using rd wr assms(2) by (simp add: put_length_def small_nibble opt_ext_def)
  next
    case 2
    then have "opt_ext n = [ucast (n - 13)]" "length G = 1" "opt_nibble n = 0x0D"
      using 2 assms(2) by (simp_all add: opt_ext_def opt_nibble_def u8_minus)
    then show ?thesis using rd wr next1 2 by (simp add: put_length_def)
  next
    case 3
    then have "opt_ext n = [ucast (drop_bit 8 (n - 269)), ucast (n - 269)]" "length G = 2" "opt_nibble n = 0x0E"
      using assms(2) by (simp_all add: opt_ext_def opt_nibble_def u8_low)
    then show ?thesis using rd wr next2 3 by (simp add: put_length_def Let_def)
  qed
qed

text \<open>
  Of a value of 269 bytes or more \<open>insertOption\<close> copies all but the last 269: the variable that holds the
  length has been decremented when it reaches the \<open>memcpy\<close>.
\<close>

definition copied :: "u16 \<Rightarrow> nat" where
  "copied n = (if n < 269 then unat n else unat n - 269)"

lemma insertOption_at:
  assumes "pdu p = A @ G @ R" "length G = length (enc_head d n) + copied n" "copied n \<le> length v"
  shows "insertOption (int (length A)) d n v p = Some (0, p\<lparr>pdu := A @ enc_head d n @ take (copied n) v @ R\<rparr>)"
proof -
  obtain x D L V where G: "G = x # D @ L @ V" "length D = length (opt_ext d)" "length L = length (opt_ext n)" "length V = copied n"
  proof
    let ?D = "take (length (opt_ext d)) (tl G)" and ?T = "drop (length (opt_ext d)) (tl G)"
    show "G = hd G # ?D @ take (length (opt_ext n)) ?T @ drop (length (opt_ext n)) ?T"
      using assms(2) by (cases G) (simp_all add: enc_head_def del: drop_drop)
  qed (use assms(2) in \<open>simp_all add: enc_head_def\<close>)
  have p: "pdu p = A @ x # D @ L @ V @ R" using assms(1) G(1) by simp
  let ?p1 = "p\<lparr>pdu := A @ 0 # D @ L @ V @ R\<rparr>"
  let ?h1 = "push_bit 4 (opt_nibble d)" and ?h = "push_bit 4 (opt_nibble d) OR opt_nibble n"
  let ?p2 = "p\<lparr>pdu := A @ ?h1 # opt_ext d @ L @ V @ R\<rparr>" and ?p3 = "p\<lparr>pdu := A @ ?h # opt_ext d @ opt_ext n @ V @ R\<rparr>"
  have w: "wr (int (length A)) 0 p = Some ?p1" using wr_at[OF p] by simp
  have d: "put_delta (int (length A)) d ?p1 = Some (int (length A) + int (length (opt_ext d)), ?p2)"
    using put_delta_at[of ?p1 A 0 D "L @ V @ R" d] G(2) by simp
  have l: "put_length (int (length A)) (int (length A) + int (length (opt_ext d))) n ?p2 =
    Some (int (length A) + int (length (opt_ext d)) + int (length (opt_ext n)), if n < 269 then n else n - 269, ?p3)"
    using put_length_at[of ?p2 A ?h1 "opt_ext d" L "V @ R" n] G(3) by simp
  have k: "unat (if n < 269 then n else n - 269) = copied n"
    using unat_sub[of 269 n] by (auto simp: copied_def not_less word_less_nat_alt word_le_nat_alt)
  have "pdu ?p3 = (A @ enc_head d n) @ V @ R" by (simp add: enc_head_def)
  from copy_in_at[OF this G(4) assms(3)] have
    "copy_in (int (length A) + int (length (opt_ext d)) + int (length (opt_ext n)) + 1) v (copied n) ?p3 =
      Some (p\<lparr>pdu := A @ enc_head d n @ take (copied n) v @ R\<rparr>)"
    by (simp add: enc_head_def ac_simps)
  then show ?thesis using w d l k by (simp add: insertOption_def)
qed

lemma total_enc: "option_total d n = int (length (enc_head d n)) + int (unat n)"
  by (simp add: option_total_def enc_head_def computeExtraBytes_def opt_ext_def)

subsection \<open>The message in its buffer\<close>

definition in_buffer :: "CoapPDU \<Rightarrow> bool" where
  "in_buffer p \<longleftrightarrow> 0 \<le> pduLength p \<and> pduLength p \<le> int (length (pdu p)) \<and> bufferLength p = int (length (pdu p)) \<and>
     (\<not> constructedFromBuffer p \<longrightarrow> pduLength p = bufferLength p)"

definition pdu_bytes :: "CoapPDU \<Rightarrow> u8 list" where
  "pdu_bytes p = take (nat (pduLength p)) (pdu p)"

lemma in_buffer_split: "in_buffer p \<Longrightarrow> pdu p = pdu_bytes p @ drop (nat (pduLength p)) (pdu p) \<and> pduLength p = int (length (pdu_bytes p))"
  by (auto simp: in_buffer_def pdu_bytes_def)

lemma in_bufferI:
  assumes "pdu p = B @ S" "pduLength p = int (length B)" "bufferLength p = int (length (pdu p))" "\<not> constructedFromBuffer p \<longrightarrow> S = []"
  shows "in_buffer p" "pdu_bytes p = B"
  using assms by (auto simp: in_buffer_def pdu_bytes_def)

text \<open>What making room leaves: the old bytes, the added ones \<open>T\<close>, and the rest \<open>S\<close> of a foreign buffer.\<close>

lemma ensure_space_Some:
  assumes "in_buffer p" "ensure_space realloc n p = Some q" "pduLength p \<le> n"
  shows "\<exists>a T S. q = p\<lparr>pdu_addr := a, pdu := pdu_bytes p @ T @ S, bufferLength := int (length (pdu_bytes p @ T @ S))\<rparr> \<and>
    int (length T) = n - pduLength p \<and> (\<not> constructedFromBuffer p \<longrightarrow> S = []) \<and>
    (\<not> constructedFromBuffer p \<longrightarrow> (\<exists>junk. realloc (pdu_addr p) n = Some (a, junk) \<and> T = map junk [length (pdu p)..<nat n]))"
proof (cases "constructedFromBuffer p")
  case True
  let ?k = "nat (pduLength p)" and ?m = "nat (n - pduLength p)"
  have q: "q = p" and n: "n \<le> int (length (pdu p))"
    using assms(1,2) True by (auto simp: ensure_space_def in_buffer_def split: if_splits)
  have "pdu p = pdu_bytes p @ take ?m (drop ?k (pdu p)) @ drop (?m + ?k) (pdu p)"
    unfolding pdu_bytes_def drop_drop[symmetric] append_take_drop_id ..
  moreover have "int (length (take ?m (drop ?k (pdu p)))) = n - pduLength p"
    using assms(1,3) n by (auto simp: in_buffer_def)
  ultimately show ?thesis using True assms(1) unfolding q
    by (intro exI[of _ "pdu_addr p"] exI[of _ "take ?m (drop ?k (pdu p))"] exI[of _ "drop (?m + ?k) (pdu p)"])
      (simp add: in_buffer_def)
next
  case False
  then obtain a junk where r: "realloc (pdu_addr p) n = Some (a, junk)"
    and q: "q = p\<lparr>pdu_addr := a, bufferLength := n,
      pdu := map (\<lambda>i. if i < length (pdu p) then pdu p ! i else junk i) [0..<nat n]\<rparr>"
    using assms(2) by (auto simp: ensure_space_def split: option.splits)
  have len: "pduLength p = int (length (pdu p))" "pdu_bytes p = pdu p" using assms(1) False by (simp_all add: in_buffer_def pdu_bytes_def)
  then have "[0..<nat n] = [0..<length (pdu p)] @ [length (pdu p)..<nat n]"
    using assms(3) upt_add_eq_append[of 0 "length (pdu p)" "nat n - length (pdu p)"] by simp
  then have "pdu q = pdu p @ map junk [length (pdu p)..<nat n]"
    unfolding q by (auto intro!: nth_equalityI simp: map_nth nth_append)
  then show ?thesis using False r len assms(3) q
    by (intro exI[of _ a] exI[of _ "map junk [length (pdu p)..<nat n]"] exI[of _ "[]"]) simp
qed

lemma shift_up_at:
  assumes "pdu p = A @ M @ T @ D" "length T = k"
  shows "shift_up_loop (length M) (int (length A + length M + k) - 1) (int (length A + length M) - 1) p =
    Some (p\<lparr>pdu := A @ take k (M @ T) @ M @ D\<rparr>)"
  using assms
proof (induction M arbitrary: T D p rule: rev_induct)
  case Nil
  then show ?case by simp
next
  case (snoc m M)
  let ?q = "p\<lparr>pdu := A @ M @ take k (m # T) @ m # D\<rparr>"
  have r: "rd p (int (length (A @ M))) = Some m" by (rule rd_at[where R = "T @ D"]) (use snoc.prems(1) in simp)
  have u: "(m # T)[k := m] = take k (m # T) @ [m]"
    using upd_conv_take_nth_drop[of k "m # T" m] snoc.prems(2) by (simp del: list_update.simps)
  have "pdu p = (A @ M) @ (m # T) @ D" using snoc.prems(1) by simp
  from wr_off[OF this, of k m, unfolded u] have w: "wr (int (length (A @ M)) + int k) m p = Some ?q"
    using snoc.prems(2) by simp
  have i: "shift_up_loop (length M) (int (length A + length M + k) - 1) (int (length A + length M) - 1) ?q =
    Some (?q\<lparr>pdu := A @ take k (M @ take k (m # T)) @ M @ m # D\<rparr>)"
    by (rule snoc.IH) (use snoc.prems(2) in simp_all)
  show ?case using r w i by (simp add: add.assoc add.commute[of 1] min_def)
qed

end
