(* ===== verification/Client_Options.thy ===== *)
theory Client_Options imports Client_Facts Message_Facts begin

section \<open>Adding options to the client's messages\<close>

text \<open>
  \<open>addOption\<close> edits the bytes in place: it makes room in front of the next option, rewrites the delta of that
  option and puts the new one in between. \<open>add_option_correct\<close> says what that is on the level of lists:
  \<open>client_msg hdr tok opts tail p\<close> means that the bytes of \<open>p\<close> are a header, a token, the option list \<open>opts\<close>, and
  \<open>tail\<close>, and the option goes into \<open>opts\<close> behind those of the same or a lower number.
\<close>

subsection \<open>Rewriting the next option\<close>

lemma setOptionDelta_at:
  assumes "pdu p = A @ b # G @ opt_ext n @ R" "length G = length (opt_ext d)" "lowerNibble b = opt_nibble n"
  shows "setOptionDelta (int (length A)) d p = Some (p\<lparr>pdu := A @ enc_head d n @ R\<rparr>)"
proof -
  let ?q = "p\<lparr>pdu := A @ opt_nibble n # G @ opt_ext n @ R\<rparr>"
  have "rd p (int (length A)) = Some b" using assms(1) by simp
  moreover have "wr (int (length A)) (opt_nibble n) p = Some ?q" using wr_at[OF assms(1)] .
  moreover have "put_delta (int (length A)) d ?q =
    Some (int (length A) + int (length (opt_ext d)), ?q\<lparr>pdu := A @ (opt_nibble n OR push_bit 4 (opt_nibble d)) # opt_ext d @ opt_ext n @ R\<rparr>)"
    by (rule put_delta_at[where G = G]) (use assms(2) in simp_all)
  moreover have "b AND 0x0F = opt_nibble n" using assms(3) by (simp add: lowerNibble_def)
  ultimately show ?thesis unfolding setOptionDelta_def by (simp add: enc_head_def or.commute)
qed

lemma ext_shrinks:
  assumes "prev \<le> num" "num < nxt"
  shows "length (opt_ext (nxt - num)) \<le> length (opt_ext (nxt - prev))"
    "length (opt_ext (nxt - prev)) \<le> length (opt_ext (nxt - num)) + 1 + length (opt_ext (num - prev))"
proof -
  have u: "unat (nxt - num) = unat nxt - unat num" "unat (nxt - prev) = unat nxt - unat prev" "unat (num - prev) = unat num - unat prev"
    using assms by (simp_all add: unat_sub less_imp_le)
  have le: "unat prev \<le> unat num" "unat num < unat nxt" using assms by (simp_all add: word_le_nat_alt word_less_nat_alt)
  show "length (opt_ext (nxt - num)) \<le> length (opt_ext (nxt - prev))"
    "length (opt_ext (nxt - prev)) \<le> length (opt_ext (nxt - num)) + 1 + length (opt_ext (num - prev))"
    using le unfolding ext_length word_less_nat_alt u by auto
qed

definition same_fields :: "CoapPDU \<Rightarrow> CoapPDU \<Rightarrow> bool" where
  "same_fields p q \<longleftrightarrow> constructedFromBuffer q = constructedFromBuffer p \<and> payloadPointer q = payloadPointer p \<and>
     payloadLength q = payloadLength p"

text \<open>What is stored for a value \<open>v\<close>: its copied part, and then what was in the memory.\<close>

definition stored :: "u8 list \<Rightarrow> u8 list \<Rightarrow> bool" where
  "stored v v' \<longleftrightarrow> length v' = length v \<and> (let k = copied (of_nat (length v)) in take k v' = take k v)"

lemma stored_short: "stored v v' \<Longrightarrow> length v < 269 \<Longrightarrow> v' = v"
  by (auto simp: stored_def copied_def Let_def word_less_nat_alt unat_of_nat_u16)

lemma insertOption_stored:
  assumes "pdu p = A @ G @ R" "length G = length (enc_head d n) + unat n" "length v = unat n"
  shows "insertOption (int (length A)) d n v p = Some (0, p\<lparr>pdu := A @ enc_head d n @
      (take (copied n) v @ drop (length (enc_head d n) + copied n) G) @ R\<rparr>)"
    "stored v (take (copied n) v @ drop (length (enc_head d n) + copied n) G)"
proof -
  let ?k = "length (enc_head d n) + copied n"
  have le: "copied n \<le> unat n" by (simp add: copied_def)
  have n: "of_nat (length v) = n" using assms(3) by simp
  have "pdu p = A @ take ?k G @ drop ?k G @ R" using assms(1) by simp
  from insertOption_at[OF this] show "insertOption (int (length A)) d n v p = Some (0, p\<lparr>pdu := A @ enc_head d n @
      (take (copied n) v @ drop (length (enc_head d n) + copied n) G) @ R\<rparr>)" using assms(2,3) le by simp
  show "stored v (take (copied n) v @ drop (length (enc_head d n) + copied n) G)"
    using assms(2,3) le by (simp add: stored_def n)
qed

text \<open>
  Making room in front of an option: its header and what follows (\<open>M\<close>) go up by \<open>m\<close>, then its header goes up
  further, by the bytes its delta field loses.
\<close>

lemma open_gap:
  assumes "pdu q = A @ enc_head d n @ R @ T @ S" "length T = m" "pduLength q = int (length (A @ enc_head d n @ R @ T))"
    and le: "length (opt_ext d') \<le> length (opt_ext d)"
  defines "k \<equiv> length (opt_ext d) - length (opt_ext d')"
  shows "\<exists>q1 q2 b G. shiftPDUUp (int m) (pduLength q - (int (length A) + int m)) q = Some q1 \<and>
    rd q1 (int (length A) + int m) = Some b \<and> wr (int (length A) + int m + int k) b q1 = Some q2 \<and>
    setOptionDelta (int (length A) + int m + int k) d' q2 = Some (q\<lparr>pdu := A @ G @ enc_head d' n @ R @ S\<rparr>) \<and> length G = m + k"
proof -
  let ?b = "push_bit 4 (opt_nibble d) OR opt_nibble n"
  let ?M = "enc_head d n @ R"
  define X where "X = take m (enc_head d n @ R @ T)"
  let ?q1 = "q\<lparr>pdu := A @ X @ ?M @ S\<rparr>"
  have X: "length X = m" using assms(2) by (simp add: X_def)
  have "pdu q = A @ ?M @ T @ S" using assms(1) by simp
  note sh = shift_up_at[OF this assms(2)]
  have amount: "nat (pduLength q - (int (length A) + int m)) = length ?M" "pduLength q = int (length A + length ?M + m)"
    using assms(2,3) by simp_all
  have s: "shiftPDUUp (int m) (pduLength q - (int (length A) + int m)) q = Some ?q1"
    unfolding shiftPDUUp_def amount(1) using sh assms(2) by (simp add: amount(2) X_def algebra_simps)
  define Y where "Y = take k (?b # opt_ext d)"
  define Z where "Z = drop (Suc k) (?b # opt_ext d)"
  have YZ: "length Y = k" "length Z = length (opt_ext d')" using le by (simp_all add: Y_def Z_def k_def)
  have u: "(?b # opt_ext d)[k := ?b] = Y @ ?b # Z"
    unfolding Y_def Z_def by (rule upd_conv_take_nth_drop) (simp add: k_def)
  have p1: "pdu ?q1 = (A @ X) @ (?b # opt_ext d) @ opt_ext n @ R @ S" by (simp add: enc_head_def)
  have la: "int (length (A @ X)) = int (length A) + int m" using X by simp
  have r: "rd ?q1 (int (length A) + int m) = Some ?b"
    unfolding la[symmetric] by (rule rd_at[where R = "opt_ext d @ opt_ext n @ R @ S"]) (simp add: enc_head_def)
  let ?q2 = "q\<lparr>pdu := (A @ X @ Y) @ ?b # Z @ opt_ext n @ R @ S\<rparr>"
  have w: "wr (int (length A) + int m + int k) ?b ?q1 = Some ?q2"
    using wr_off[OF p1, of k ?b, unfolded la u] by (simp add: k_def)
  have "setOptionDelta (int (length (A @ X @ Y))) d' ?q2 = Some (?q2\<lparr>pdu := (A @ X @ Y) @ enc_head d' n @ R @ S\<rparr>)"
    by (rule setOptionDelta_at[where G = Z]) (use YZ head_nibbles in simp_all)
  then have "setOptionDelta (int (length A) + int m + int k) d' ?q2 = Some (q\<lparr>pdu := A @ (X @ Y) @ enc_head d' n @ R @ S\<rparr>)"
    using X YZ(1) by (simp add: add.assoc)
  then show ?thesis using s r w X YZ(1) by (intro exI[of _ ?q1] exI[of _ ?q2] exI[of _ ?b] exI[of _ "X @ Y"]) simp
qed

lemma extra_bytes_ext: "computeExtraBytes d = int (length (opt_ext d))"
  by (simp add: computeExtraBytes_def ext_length)

lemma add_before_at:
  assumes "in_buffer p" "pdu_bytes p = A @ enc_head (nxt - prev) ln @ R" "prev \<le> num" "num < nxt" "length v = unat len"
    "length (enc_head (num - prev) len) + unat len < 65536"
  defines "new \<equiv> \<lambda>v'. A @ enc_head (num - prev) len @ v' @ enc_head (nxt - num) ln @ R"
  shows "\<exists>r q. add_option_before realloc (int (length A)) prev num (num - prev)
        (of_nat (length (enc_head (num - prev) len) + unat len)) len v p = Some (r, q) \<and>
    (if ensure_space realloc (int (length (new v))) p = None then r = 1 \<and> q = p
     else r = 0 \<and> in_buffer q \<and> (\<exists>v'. stored v v' \<and> pdu_bytes q = new v') \<and> numOptions q = numOptions p + 1 \<and>
       maxAddedOptionNumber q = maxAddedOptionNumber p \<and> same_fields p q)"
proof -
  define L where "L = length (enc_head (num - prev) len) + unat len"
  define k where "k = length (opt_ext (nxt - prev)) - length (opt_ext (nxt - num))"
  define m where "m = L - k"
  note ext = ext_shrinks[OF assms(3,4)]
  have plen: "pduLength p = int (length (pdu_bytes p))" and pdu: "pdu p = pdu_bytes p @ drop (nat (pduLength p)) (pdu p)"
    using in_buffer_split[OF assms(1)] by blast+
  have kL: "k \<le> L" using ext(2) by (simp add: k_def L_def enc_head_def)
  have u: "unat (of_nat L :: u16) = L" unfolding L_def using assms(6) by (rule unat_of_nat_u16)
  have delta: "getOptionDelta p (int (length A)) = Some (nxt - prev)"
    by (rule read_delta[where R = "R @ drop (nat (pduLength p)) (pdu p)"]) (subst pdu, simp add: assms(2))
  have nums: "int (unat prev) + int (unat (nxt - prev)) - int (unat num) = int (unat (nxt - num))"
    using assms(3,4) by (simp add: unat_sub less_imp_le of_nat_diff word_le_nat_alt word_less_nat_alt)
  have adj: "computeExtraBytes (nxt - num) - computeExtraBytes (nxt - prev) = - int k"
    using ext(1) by (simp add: extra_bytes_ext k_def)
  have m: "int L - int k = int m" using kL by (simp add: m_def)
  have n: "int (length (new v)) = pduLength p + int m"
    using kL ext(1) assms(2,5) unfolding plen by (simp add: new_def m_def L_def k_def enc_head_def)
  show ?thesis
  proof (cases "ensure_space realloc (pduLength p + int m) p")
    case None
    then show ?thesis using delta nums adj u m n unfolding L_def[symmetric] by (simp add: add_option_before_def Let_def)
  next
    case (Some q)
    have "pduLength p \<le> pduLength p + int m" by simp
    from ensure_space_Some[OF assms(1) Some this] obtain a T S where
      T: "q = p\<lparr>pdu_addr := a, pdu := pdu_bytes p @ T @ S, bufferLength := int (length (pdu_bytes p @ T @ S))\<rparr>"
      "length T = m" "\<not> constructedFromBuffer p \<longrightarrow> S = []" by fastforce
    let ?q = "q\<lparr>pduLength := pduLength p + int m\<rparr>"
    have q: "pdu ?q = A @ enc_head (nxt - prev) ln @ R @ T @ S" "pduLength ?q = int (length (A @ enc_head (nxt - prev) ln @ R @ T))"
      using T(2) assms(2) plen by (simp_all add: T(1))
    from open_gap[OF q(1) T(2) q(2) ext(1)] obtain q1 q2 b G where
      g: "shiftPDUUp (int m) (pduLength p + int m - (int (length A) + int m)) ?q = Some q1" "rd q1 (int (length A) + int m) = Some b"
      "wr (int (length A) + int m + int k) b q1 = Some q2"
      "setOptionDelta (int (length A) + int m + int k) (nxt - num) q2 = Some (?q\<lparr>pdu := A @ G @ enc_head (nxt - num) ln @ R @ S\<rparr>)"
      "length G = m + k" by (auto simp: k_def)
    let ?q3 = "?q\<lparr>pdu := A @ G @ enc_head (nxt - num) ln @ R @ S\<rparr>"
    have "pdu ?q3 = A @ G @ enc_head (nxt - num) ln @ R @ S" "length G = length (enc_head (num - prev) len) + unat len"
      using g(5) kL by (simp_all add: m_def L_def)
    note ins = insertOption_stored[OF this assms(5)]
    define v' where "v' = take (copied len) v @ drop (length (enc_head (num - prev) len) + copied len) G"
    let ?r = "?q3\<lparr>pdu := new v' @ S, numOptions := numOptions q + 1\<rparr>"
    have "add_option_before realloc (int (length A)) prev num (num - prev) (of_nat L) len v p = Some (0, ?r)"
      using delta nums adj u m Some g(1-4) ins(1) unfolding add_option_before_def Let_def
      by (simp add: v'_def new_def)
    moreover have "length v' = unat len" using ins(2) assms(5) by (simp add: stored_def v'_def)
    then have len: "int (length (new v')) = pduLength p + int m" using n assms(5) by (simp add: new_def)
    then have "pdu ?r = new v' @ S" "pduLength ?r = int (length (new v'))" "bufferLength ?r = int (length (pdu ?r))"
      using T(2) plen by (simp_all add: T(1))
    from in_bufferI[OF this] have "in_buffer ?r" "pdu_bytes ?r = new v'" using T(3) by (simp_all add: T(1))
    moreover have "stored v v'" using ins(2) by (simp add: v'_def)
    moreover have "numOptions ?r = numOptions p + 1" "maxAddedOptionNumber ?r = maxAddedOptionNumber p" "same_fields p ?r"
      by (simp_all add: T(1) same_fields_def)
    ultimately show ?thesis unfolding L_def[symmetric] n using Some by (intro exI[of _ 0] exI[of _ ?r]) auto
  qed
qed

lemma add_at_end_at:
  assumes "in_buffer p" "length v = unat len" "length (enc_head d len) + unat len < 65536"
  defines "new \<equiv> \<lambda>v'. pdu_bytes p @ enc_head d len @ v'"
  shows "\<exists>r q. add_option_at_end realloc num d (of_nat (length (enc_head d len) + unat len)) len v p = Some (r, q) \<and>
    maxAddedOptionNumber q = num \<and>
    (if ensure_space realloc (int (length (new v))) p = None then r = 1 \<and> q = p\<lparr>maxAddedOptionNumber := num\<rparr>
     else r = 0 \<and> in_buffer q \<and> (\<exists>v'. stored v v' \<and> pdu_bytes q = new v') \<and> numOptions q = numOptions p + 1 \<and> same_fields p q)"
proof -
  define L where "L = length (enc_head d len) + unat len"
  let ?p = "p\<lparr>maxAddedOptionNumber := num\<rparr>"
  have plen: "pduLength p = int (length (pdu_bytes p))" using in_buffer_split[OF assms(1)] by simp
  have u: "unat (of_nat L :: u16) = L" using assms(3) unfolding L_def by (rule unat_of_nat_u16)
  have n: "int (length (new v)) = pduLength p + int L" using assms(2) plen by (simp add: new_def L_def)
  have in_p: "in_buffer ?p" "pdu_bytes ?p = pdu_bytes p" using assms(1) by (simp_all add: in_buffer_def pdu_bytes_def)
  have es: "ensure_space realloc m ?p = map_option (\<lambda>q. q\<lparr>maxAddedOptionNumber := num\<rparr>) (ensure_space realloc m p)" for m
    by (auto simp: ensure_space_def split: option.splits)
  show ?thesis
  proof (cases "ensure_space realloc (int (length (new v))) p")
    case None
    then show ?thesis using es[of "int (length (new v))"] u n unfolding L_def[symmetric] by (simp add: add_option_at_end_def Let_def)
  next
    case (Some q0)
    then obtain q where q: "ensure_space realloc (pduLength ?p + int L) ?p = Some q"
      using es[of "int (length (new v))"] n by auto
    have "pduLength ?p \<le> pduLength ?p + int L" by simp
    from ensure_space_Some[OF in_p(1) q this] obtain a T S where
      T: "q = ?p\<lparr>pdu_addr := a, pdu := pdu_bytes p @ T @ S, bufferLength := int (length (pdu_bytes p @ T @ S))\<rparr>"
      "length T = L" "\<not> constructedFromBuffer p \<longrightarrow> S = []"
      unfolding in_p(2) by fastforce
    define v' where "v' = take (copied len) v @ drop (length (enc_head d len) + copied len) T"
    let ?q = "q\<lparr>pduLength := pduLength p + int L\<rparr>"
    have "pdu ?q = pdu_bytes p @ T @ S" by (simp add: T(1))
    note ins = insertOption_stored[OF this _ assms(2), of d]
    have b: "insertOption (pduLength p) d len v ?q = Some (0, ?q\<lparr>pdu := pdu_bytes p @ enc_head d len @ v' @ S\<rparr>)" "stored v v'"
      using ins T(2) plen by (simp_all add: L_def v'_def)
    let ?r = "?q\<lparr>pdu := pdu_bytes p @ enc_head d len @ v' @ S, numOptions := numOptions q + 1\<rparr>"
    have "length v' = unat len" using b(2) assms(2) by (simp add: stored_def)
    then have len: "pduLength p + int L = int (length (new v'))" "pdu_bytes p @ enc_head d len @ v' @ S = new v' @ S"
      "length (pdu_bytes p) + length T = length (new v')"
      using T(2) plen by (simp_all add: new_def L_def)
    have r: "pdu ?r = new v' @ S" "pduLength ?r = int (length (new v'))" using len(1,2) by simp_all
    have "bufferLength ?r = int (length (pdu ?r))" unfolding r(1) using len(3) by (simp add: T(1))
    from in_bufferI[OF r this] have "in_buffer ?r" "pdu_bytes ?r = new v'" using T(3) by (simp_all add: T(1))
    moreover have "add_option_at_end realloc num d (of_nat L) len v p = Some (0, ?r)"
      using q b(1) unfolding add_option_at_end_def Let_def u by simp
    moreover have "maxAddedOptionNumber ?r = num" "numOptions ?r = numOptions p + 1" "same_fields p ?r"
      by (simp_all add: T(1) same_fields_def)
    ultimately show ?thesis unfolding L_def[symmetric] using b(2) Some by (intro exI[of _ 0] exI[of _ ?r]) auto
  qed
qed

subsection \<open>The option list\<close>

fun last_num :: "u16 \<Rightarrow> (u16 \<times> u8 list) list \<Rightarrow> u16" where
  "last_num prev [] = prev"
| "last_num prev (x # xs) = last_num (fst x) xs"

lemma encs_append: "encs prev (xs @ ys) = encs prev xs @ encs (last_num prev xs) ys"
  by (induction xs arbitrary: prev) auto

lemma last_num_append [simp]: "last_num prev (xs @ ys) = last_num (last_num prev xs) ys"
  by (induction xs arbitrary: prev) auto

lemma last_num_last: "last_num prev xs = (if xs = [] then prev else fst (last xs))"
  by (induction xs arbitrary: prev) auto

lemma last_num_ge: "sorted (map fst xs) \<Longrightarrow> x \<in> set xs \<Longrightarrow> fst x \<le> last_num prev xs"
  by (cases xs rule: rev_cases) (auto simp: sorted_append)

text \<open>A new option goes behind those of the same number.\<close>

definition insert_opt :: "u16 \<times> u8 list \<Rightarrow> (u16 \<times> u8 list) list \<Rightarrow> (u16 \<times> u8 list) list" where
  "insert_opt x xs = takeWhile (\<lambda>y. fst y \<le> fst x) xs @ x # dropWhile (\<lambda>y. fst y \<le> fst x) xs"

definition sized :: "(u16 \<times> u8 list) list \<Rightarrow> bool" where
  "sized opts \<longleftrightarrow> (\<forall>x \<in> set opts. length (snd x) < 65536)"

lemma enc_length: "length (snd x) < 65536 \<Longrightarrow> int (length (enc prev x)) = option_total (fst x - prev) (of_nat (length (snd x)))"
  by (simp add: total_enc enc_def unat_of_nat_u16)

lemma find_position_at:
  assumes "pdu p = A @ encs prev (xs @ y # ys) @ S" "\<forall>x \<in> set xs. fst x \<le> num" "num < fst y" "sized (xs @ y # ys)"
    "int (length (A @ encs prev (xs @ y # ys))) \<le> pduLength p"
  shows "find_position_loop num (int (length A)) prev prev p = Some (int (length (A @ encs prev xs)), last_num prev xs)"
  using assms
proof (induction xs arbitrary: A prev)
  case Nil
  have p: "pdu p = A @ enc_head (fst y - prev) (of_nat (length (snd y))) @ snd y @ encs (fst y) ys @ S"
    using Nil.prems(1) by (simp add: enc_def)
  have "int (length A) < pduLength p" using Nil.prems(5) by (simp add: enc_def enc_head_def)
  moreover obtain h where "rd p (int (length A)) = Some h" "h \<noteq> 0xFF" using head_read[OF p] by blast
  ultimately show ?case using read_delta[OF p] read_length[OF p] Nil.prems(3)
    by (simp add: find_position_loop.simps[of num "int (length A)"] Let_def)
next
  case (Cons x xs)
  have p: "pdu p = A @ enc_head (fst x - prev) (of_nat (length (snd x))) @ snd x @ encs (fst x) (xs @ y # ys) @ S"
    using Cons.prems(1) by (simp add: enc_def)
  have len: "int (length A) < pduLength p" using Cons.prems(5) by (simp add: enc_def enc_head_def)
  obtain h where h: "rd p (int (length A)) = Some h" "h \<noteq> 0xFF" using head_read[OF p] by blast
  have "find_position_loop num (int (length (A @ enc prev x))) (fst x) (fst x) p =
      Some (int (length ((A @ enc prev x) @ encs (fst x) xs)), last_num (fst x) xs)"
    by (rule Cons.IH) (use Cons.prems in \<open>auto simp: sized_def\<close>)
  moreover have "int (length A) + option_total (fst x - prev) (of_nat (length (snd x))) = int (length (A @ enc prev x))"
    using Cons.prems(4) enc_length[of x prev] by (simp add: sized_def)
  moreover have "\<not> num < fst x" using Cons.prems(2) by auto
  ultimately show ?case using read_delta[OF p] read_length[OF p] len h
    by (simp add: find_position_loop.simps[of num "int (length A)"] Let_def)
qed

text \<open>
  The bytes of a message: header, token, options, and what follows them (\<open>tail\<close>: nothing, or the marker and
  the payload).
\<close>

definition client_msg :: "u8 list \<Rightarrow> u8 list \<Rightarrow> (u16 \<times> u8 list) list \<Rightarrow> u8 list \<Rightarrow> CoapPDU \<Rightarrow> bool" where
  "client_msg hdr tok opts tail p \<longleftrightarrow> in_buffer p \<and> pdu_bytes p = hdr @ tok @ encs 0 opts @ tail \<and>
     length hdr = 4 \<and> unat (hdr ! 0 AND 0x0F) = length tok \<and> sorted (map fst opts) \<and> sized opts \<and>
     maxAddedOptionNumber p = last_num 0 opts \<and> numOptions p = int (length opts)"

lemma client_msg_pdu:
  assumes "client_msg hdr tok opts tail p"
  shows "\<exists>S. pdu p = hdr @ tok @ encs 0 opts @ tail @ S" "pduLength p = int (length (hdr @ tok @ encs 0 opts @ tail))"
proof -
  have "in_buffer p" and b: "pdu_bytes p = hdr @ tok @ encs 0 opts @ tail" using assms by (simp_all add: client_msg_def)
  then have "pdu p = pdu_bytes p @ drop (nat (pduLength p)) (pdu p)" and len: "pduLength p = int (length (pdu_bytes p))"
    using in_buffer_split by blast+
  then show "\<exists>S. pdu p = hdr @ tok @ encs 0 opts @ tail @ S" unfolding b by (metis append.assoc)
  show "pduLength p = int (length (hdr @ tok @ encs 0 opts @ tail))" using len unfolding b .
qed

lemma token_length_at:
  assumes "client_msg hdr tok opts tail p"
  shows "getTokenLength p = Some (int (length tok))"
proof -
  obtain S where "pdu p = hdr @ tok @ encs 0 opts @ tail @ S" using client_msg_pdu(1)[OF assms] by blast
  moreover obtain a hs where h: "hdr = a # hs" using assms by (cases hdr) (auto simp: client_msg_def)
  moreover have "int (unat (a AND 0x0F)) = int (length tok)" using assms h by (simp add: client_msg_def)
  ultimately show ?thesis using rd_at[of p "[]" a] by (simp add: getTokenLength_def)
qed

lemma after_insertion: "sorted (map fst xs) \<Longrightarrow> y \<in> set (dropWhile (\<lambda>y. fst y \<le> n) xs) \<Longrightarrow> n < fst y"
  by (induction xs) (auto split: if_splits)

lemma insert_opt_sorted: "sorted (map fst opts) \<Longrightarrow> sorted (map fst (insert_opt x opts))"
proof -
  let ?P = "\<lambda>y. fst y \<le> fst x"
  assume s: "sorted (map fst opts)"
  then have "sorted (map fst (takeWhile ?P opts @ dropWhile ?P opts))" by simp
  then have "sorted (map fst (takeWhile ?P opts))" "sorted (map fst (dropWhile ?P opts))"
    unfolding map_append sorted_append by blast+
  then show ?thesis using after_insertion[OF s, of _ "fst x"]
    by (fastforce simp: insert_opt_def sorted_append dest: set_takeWhileD)
qed

lemma insert_opt_end: "sorted (map fst opts) \<Longrightarrow> last_num 0 opts \<le> fst x \<Longrightarrow> insert_opt x opts = opts @ [x]"
proof -
  assume s: "sorted (map fst opts)" "last_num 0 opts \<le> fst x"
  then have "\<forall>y \<in> set opts. fst y \<le> fst x" using last_num_ge order_trans by blast
  then have "takeWhile (\<lambda>y. fst y \<le> fst x) opts = opts" "dropWhile (\<lambda>y. fst y \<le> fst x) opts = []"
    using takeWhile_eq_all_conv dropWhile_eq_Nil_conv by blast+
  then show ?thesis by (simp add: insert_opt_def)
qed

lemma insert_opt_split:
  assumes "sorted (map fst opts)" "num < last_num 0 opts"
  shows "\<exists>xs y ys. opts = xs @ y # ys \<and> (\<forall>x \<in> set xs. fst x \<le> num) \<and> num < fst y \<and>
    (\<forall>v. insert_opt (num, v) opts = xs @ (num, v) # y # ys)"
proof -
  let ?P = "\<lambda>y :: u16 \<times> u8 list. fst y \<le> num"
  have "dropWhile ?P opts \<noteq> []"
  proof
    assume "dropWhile ?P opts = []"
    then have "\<forall>x \<in> set opts. fst x \<le> num" by (simp add: dropWhile_eq_Nil_conv)
    then have "opts = [] \<or> fst (last opts) \<le> num" using last_in_set by blast
    then show False using assms(2) by (auto simp: last_num_last split: if_splits)
  qed
  then obtain y ys where y: "dropWhile ?P opts = y # ys" by (cases "dropWhile ?P opts") auto
  then have "num < fst y" using after_insertion[OF assms(1), of y num] by simp
  moreover have "opts = takeWhile ?P opts @ y # ys" using takeWhile_dropWhile_id[of ?P opts] y by simp
  moreover have "\<forall>x \<in> set (takeWhile ?P opts). fst x \<le> num" by (auto dest: set_takeWhileD)
  moreover have "insert_opt (num, v) opts = takeWhile ?P opts @ (num, v) # y # ys" for v using y by (simp add: insert_opt_def)
  ultimately show ?thesis by blast
qed

lemma client_msg_insert:
  assumes "client_msg hdr tok opts tail p" "in_buffer q" "stored v v'" "length v < 65536"
    "pdu_bytes q = hdr @ tok @ encs 0 (insert_opt (num, v') opts) @ tail"
    "numOptions q = numOptions p + 1" "maxAddedOptionNumber q = max num (last_num 0 opts)"
  shows "client_msg hdr tok (insert_opt (num, v') opts) tail q"
proof -
  have s: "sorted (map fst opts)" using assms(1) by (simp add: client_msg_def)
  have "length (insert_opt x opts) = Suc (length opts)" for x
    using arg_cong[OF takeWhile_dropWhile_id[of "\<lambda>y. fst y \<le> fst x" opts], of length] unfolding length_append
    by (simp add: insert_opt_def)
  moreover have "last_num 0 (insert_opt (num, v') opts) = max num (last_num 0 opts)"
  proof (cases "num < last_num 0 opts")
    case True
    obtain xs y ys where "opts = xs @ y # ys" "insert_opt (num, v') opts = xs @ (num, v') # y # ys"
      using insert_opt_split[OF s True] by blast
    then show ?thesis using True by (auto simp: max_def)
  next
    case False
    then show ?thesis using insert_opt_end[OF s, of "(num, v')"] by (simp add: max_def)
  qed
  moreover have "sized (insert_opt (num, v') opts)"
    using assms(1,3,4) by (auto simp: client_msg_def sized_def insert_opt_def stored_def dest: set_takeWhileD set_dropWhileD)
  ultimately show ?thesis using assms(1,2,5,6,7) insert_opt_sorted[OF s] by (simp add: client_msg_def)
qed

lemma option_length_word:
  "(word_of_int (COAP_OPTION_HDR_BYTE + computeExtraBytes d + computeExtraBytes n + int (unat n)) :: u16) =
    of_nat (length (enc_head d n) + unat n)"
proof -
  have "COAP_OPTION_HDR_BYTE + computeExtraBytes d + computeExtraBytes n + int (unat n) = int (length (enc_head d n) + unat n)"
    using total_enc[of d n] by (simp add: option_total_def COAP_OPTION_HDR_BYTE_def)
  then show ?thesis by (simp only: of_int_of_nat_eq)
qed

lemma enc_stored: "stored v v' \<Longrightarrow> enc prev (num, v') = enc_head (num - prev) (of_nat (length v)) @ v'"
  by (simp add: enc_def stored_def)

lemma add_option_correct:
  assumes c: "client_msg hdr tok opts tail p" and v: "length v \<le> 65530" and tail: "tail \<noteq> [] \<longrightarrow> num < last_num 0 opts"
  defines "new \<equiv> \<lambda>v'. hdr @ tok @ encs 0 (insert_opt (num, v') opts) @ tail"
  shows "\<exists>r q. addOption realloc num (of_nat (length v)) v p = Some (r, q) \<and>
    (if ensure_space realloc (int (length (new v))) p = None then r = 1 \<and> q = p\<lparr>maxAddedOptionNumber := max num (last_num 0 opts)\<rparr>
     else r = 0 \<and> (\<exists>v'. stored v v' \<and> client_msg hdr tok (insert_opt (num, v') opts) tail q) \<and> same_fields p q)"
proof -
  let ?n = "of_nat (length v) :: u16"
  have n: "unat ?n = length v" using v by (simp add: unat_of_nat_u16)
  have big: "length (enc_head d ?n) + unat ?n < 65536" for d using n v by (simp add: enc_head_def ext_length)
  have inb: "in_buffer p" and by_: "pdu_bytes p = hdr @ tok @ encs 0 opts @ tail" and s: "sorted (map fst opts)"
    and h4: "length hdr = 4" and mx: "maxAddedOptionNumber p = last_num 0 opts"
    using c by (simp_all add: client_msg_def)
  note len = client_msg_pdu(2)[OF c] and tk = token_length_at[OF c]
  show ?thesis
  proof (cases "num < last_num 0 opts")
    case False
    then have t: "tail = []" using tail by blast
    have pos: "findInsertionPosition num p = Some (pduLength p, last_num 0 opts)"
      using tk mx False by (simp add: findInsertionPosition_def not_less)
    have e: "insert_opt (num, w) opts = opts @ [(num, w)]" for w using insert_opt_end[OF s, of "(num, w)"] False by (simp add: not_less)
    have nw: "new w = pdu_bytes p @ enc_head (num - last_num 0 opts) ?n @ w" if "stored v w" for w
      using enc_stored[OF that] by (simp add: new_def e by_ t encs_append)
    have sv: "stored v v" by (simp add: stored_def)
    have add: "addOption realloc num ?n v p = add_option_at_end realloc num (num - last_num 0 opts)
        (of_nat (length (enc_head (num - last_num 0 opts) ?n) + unat ?n)) ?n v p"
      using pos unfolding addOption_def by (simp only: bind.bind_lunit prod.case Let_def option_length_word if_True simp_thms)
    from add_at_end_at[OF inb n[symmetric] big, of realloc num "num - last_num 0 opts"] obtain r q where
      r: "addOption realloc num ?n v p = Some (r, q)" "maxAddedOptionNumber q = num"
      "if ensure_space realloc (int (length (new v))) p = None then r = 1 \<and> q = p\<lparr>maxAddedOptionNumber := num\<rparr>
       else r = 0 \<and> in_buffer q \<and> (\<exists>v'. stored v v' \<and> pdu_bytes q = pdu_bytes p @ enc_head (num - last_num 0 opts) ?n @ v') \<and>
         numOptions q = numOptions p + 1 \<and> same_fields p q"
      unfolding add nw[OF sv] by blast
    show ?thesis
    proof (cases "ensure_space realloc (int (length (new v))) p = None")
      case True
      then show ?thesis using r False by (simp add: max_def)
    next
      case grown: False
      then obtain v' where v': "stored v v'" "pdu_bytes q = new v'" using r(3) nw by auto
      then have "client_msg hdr tok (insert_opt (num, v') opts) tail q"
        using client_msg_insert[OF c _ v'(1), of q num] v v'(2) r(2,3) grown False by (simp add: new_def max_def)
      then show ?thesis using grown r(1,3) v'(1) by auto
    qed
  next
    case True
    obtain xs y ys where o: "opts = xs @ y # ys" "\<forall>x \<in> set xs. fst x \<le> num" "num < fst y"
      "\<And>w. insert_opt (num, w) opts = xs @ (num, w) # y # ys" using insert_opt_split[OF s True] by blast
    have mm: "max num (last_num 0 opts) = last_num 0 opts" using True by (auto simp: max_def)
    let ?A = "hdr @ tok @ encs 0 xs" and ?prev = "last_num 0 xs" and ?ln = "of_nat (length (snd y)) :: u16"
    obtain S where p: "pdu p = hdr @ tok @ encs 0 opts @ tail @ S" using client_msg_pdu(1)[OF c] by blast
    have "find_position_loop num (int (length (hdr @ tok))) 0 0 p = Some (int (length ((hdr @ tok) @ encs 0 xs)), ?prev)"
      by (rule find_position_at[where y = y and ys = ys and S = "tail @ S"]) (use p o len c in \<open>simp_all add: client_msg_def\<close>)
    moreover have "pduLength p \<noteq> COAP_HDR_SIZE + int (length tok)" "\<not> maxAddedOptionNumber p \<le> num"
      using len h4 mx True by (simp_all add: o(1) encs_append enc_def enc_head_def COAP_HDR_SIZE_def not_le)
    ultimately have pos: "findInsertionPosition num p = Some (int (length ?A), ?prev)"
      using tk h4 by (simp add: findInsertionPosition_def COAP_HDR_SIZE_def add.assoc)
    have "int (length ?A) \<noteq> pduLength p" using len by (simp add: o(1) encs_append enc_def enc_head_def)
    then have add: "addOption realloc num ?n v p = add_option_before realloc (int (length ?A)) ?prev num (num - ?prev)
        (of_nat (length (enc_head (num - ?prev) ?n) + unat ?n)) ?n v p"
      using pos unfolding addOption_def by (simp only: bind.bind_lunit prod.case Let_def option_length_word if_False)
    have "pdu_bytes p = ?A @ enc_head (fst y - ?prev) ?ln @ snd y @ encs (fst y) ys @ tail"
      by (simp add: by_ o(1) encs_append enc_def)
    moreover have "?prev \<le> num" using o(2) by (cases xs rule: rev_cases) auto
    moreover have nw: "new w = ?A @ enc_head (num - ?prev) ?n @ w @ enc_head (fst y - num) ?ln @ snd y @ encs (fst y) ys @ tail"
      if "stored v w" for w
      using enc_stored[OF that] by (simp add: new_def o(4) encs_append enc_def[of num])
    moreover have sv: "stored v v" by (simp add: stored_def)
    ultimately obtain r q where r: "addOption realloc num ?n v p = Some (r, q)"
      "if ensure_space realloc (int (length (new v))) p = None then r = 1 \<and> q = p
       else r = 0 \<and> in_buffer q \<and> (\<exists>v'. stored v v' \<and> pdu_bytes q =
           ?A @ enc_head (num - ?prev) ?n @ v' @ enc_head (fst y - num) ?ln @ snd y @ encs (fst y) ys @ tail) \<and>
         numOptions q = numOptions p + 1 \<and> maxAddedOptionNumber q = maxAddedOptionNumber p \<and> same_fields p q"
      using add_before_at[OF inb _ _ o(3) n[symmetric] big, of ?A ?prev ?ln "snd y @ encs (fst y) ys @ tail" realloc]
      unfolding add nw[OF sv] by blast
    show ?thesis
    proof (cases "ensure_space realloc (int (length (new v))) p = None")
      case none: True
      then show ?thesis using r mm mx by simp
    next
      case grown: False
      then obtain v' where v': "stored v v'" "pdu_bytes q = new v'" using r(2) nw by auto
      then have "client_msg hdr tok (insert_opt (num, v') opts) tail q"
        using client_msg_insert[OF c _ v'(1), of q num] v v'(2) r(2) grown mm mx by (simp add: new_def)
      then show ?thesis using grown r v'(1) by auto
    qed
  qed
qed

subsection \<open>The properties\<close>

text \<open>
  C30: \<open>addOption\<close> inserts an option where it belongs. Let the object hold the bytes of a message with the ordered
  options \<open>opts\<close> and the last number added. For a value shorter than 269 bytes, at the end of the message or in
  front of a larger number, either the new message does not fit into the memory and nothing but the last number is
  changed, or the bytes are those of the message with the option behind those with smaller and equal numbers, the
  delta of its successor corrected; header, token, what follows the options, the payload fields are unchanged.
\<close>

theorem add_option_inserts:
  assumes "client_msg hdr tok opts tail p" "length v < 269" "tail \<noteq> [] \<longrightarrow> num < last_num 0 opts"
  defines "opts' \<equiv> takeWhile (\<lambda>x. fst x \<le> num) opts @ (num, v) # dropWhile (\<lambda>x. fst x \<le> num) opts"
  shows "\<exists>r q. addOption realloc num (of_nat (length v)) v p = Some (r, q) \<and>
    (if ensure_space realloc (int (length (hdr @ tok @ encs 0 opts' @ tail))) p = None
     then r = 1 \<and> q = p\<lparr>maxAddedOptionNumber := max num (last_num 0 opts)\<rparr>
     else r = 0 \<and> client_msg hdr tok opts' tail q \<and> pdu_bytes q = hdr @ tok @ encs 0 opts' @ tail \<and>
       constructedFromBuffer q = constructedFromBuffer p \<and> payloadPointer q = payloadPointer p \<and> payloadLength q = payloadLength p)"
proof -
  have len: "length v \<le> 65530" using assms(2) by simp
  have o: "opts' = insert_opt (num, v) opts" by (simp add: opts'_def insert_opt_def)
  have st: "client_msg hdr tok (insert_opt (num, v) opts) tail q"
    if "\<exists>v'. stored v v' \<and> client_msg hdr tok (insert_opt (num, v') opts) tail q" for q
    using that stored_short[OF _ assms(2)] by blast
  obtain r q where rq: "addOption realloc num (of_nat (length v)) v p = Some (r, q)"
    "if ensure_space realloc (int (length (hdr @ tok @ encs 0 (insert_opt (num, v) opts) @ tail))) p = None
     then r = 1 \<and> q = p\<lparr>maxAddedOptionNumber := max num (last_num 0 opts)\<rparr>
     else r = 0 \<and> (\<exists>v'. stored v v' \<and> client_msg hdr tok (insert_opt (num, v') opts) tail q) \<and> same_fields p q"
    using add_option_correct[OF assms(1) len assms(3), of realloc] by blast
  have by_: "client_msg hdr tok (insert_opt (num, v) opts) tail q \<Longrightarrow> pdu_bytes q = hdr @ tok @ encs 0 (insert_opt (num, v) opts) @ tail"
    by (simp add: client_msg_def)
  show ?thesis
  proof (cases "ensure_space realloc (int (length (hdr @ tok @ encs 0 (insert_opt (num, v) opts) @ tail))) p = None")
    case True
    then show ?thesis unfolding o using rq by (intro exI[of _ r] exI[of _ q]) (simp only: if_True simp_thms)
  next
    case False
    have "r = 0" "client_msg hdr tok (insert_opt (num, v) opts) tail q" "same_fields p q"
      using rq(2) st[of q] unfolding if_not_P[OF False] by blast+
    then show ?thesis unfolding o if_not_P[OF False] same_fields_def using rq(1) by_ by blast
  qed
qed

definition demo_pdu :: CoapPDU where
  "demo_pdu = \<lparr>pdu_addr = 8, pdu = [0x40, 1, 0, 7, 0xB1, 97], pduLength = 6, constructedFromBuffer = False, bufferLength = 6,
     payloadPointer = None, payloadLength = 0, numOptions = 1, maxAddedOptionNumber = 11\<rparr>"

lemma demo_pdu_msg: "client_msg [0x40, 1, 0, 7] [] [(11, [97])] [] demo_pdu"
  by (simp add: client_msg_def demo_pdu_def in_buffer_def pdu_bytes_def enc_def enc_head_def opt_nibble_def opt_ext_def sized_def)

lemma add_option_inserts_witness:
  "\<exists>q. addOption (\<lambda>a n. Some (a, \<lambda>_. 0)) 6 1 [5] demo_pdu = Some (0, q) \<and>
     pdu_bytes q = [0x40, 1, 0, 7, 0x61, 5, 0x51, 97]"
  using add_option_inserts[OF demo_pdu_msg, of "[5]" 6 "\<lambda>a n. Some (a, \<lambda>_. 0)"]
  by (auto simp: ensure_space_def demo_pdu_def enc_def enc_head_def opt_nibble_def opt_ext_def)

text \<open>
  C39: a value of 269 bytes or more is not stored completely. \<open>insertOption\<close> subtracts 269 from the length before it
  copies: of the place the option has been given, the last 269 bytes \<open>old\<close> keep what was there before, although the
  length in the message covers them.
\<close>

theorem long_value_not_stored:
  assumes "pdu p = A @ G @ old @ R" "length v = unat n" "269 \<le> unat n" "length old = 269"
    "length G + 269 = length (enc_head d n) + unat n"
  shows "insertOption (int (length A)) d n v p =
    Some (0, p\<lparr>pdu := A @ enc_head d n @ take (unat n - 269) v @ old @ R\<rparr>)"
proof -
  have "copied n = unat n - 269" using assms(3) by (simp add: copied_def word_less_nat_alt)
  then show ?thesis using insertOption_at[OF assms(1), of d n v] assms(2-5) by simp
qed

lemma long_value_not_stored_witness:
  "\<exists>q. insertOption 0 1 300 (replicate 300 1) (demo_pdu\<lparr>pdu := replicate 303 0\<rparr>) = Some (0, q) \<and>
     pdu q = [0x1E, 0, 31] @ replicate 31 1 @ replicate 269 0"
proof -
  have h: "enc_head 1 300 = [0x1E, 0, 31]" by (simp add: enc_head_def opt_nibble_def opt_ext_def)
  have "replicate 303 (0 :: u8) = [] @ replicate 34 0 @ replicate 269 0 @ []" by (simp flip: replicate_add)
  then show ?thesis
    using long_value_not_stored[of "demo_pdu\<lparr>pdu := replicate 303 0\<rparr>" "[]" "replicate 34 0" "replicate 269 0" "[]" "replicate 300 1" 300 1]
    unfolding h by simp
qed

end
