(* ===== verification/Client_Read.thy ===== *)
theory Client_Read imports Client_Options begin

section \<open>Reading messages of the client\<close>

text \<open>
  \<open>validate\<close> and \<open>getOptions\<close> on the bytes of a well formed message, and on any bytes.
\<close>

subsection \<open>Well formed messages\<close>

text \<open>The check that the extended bytes are there counts one byte for the nibble 14, which has two.\<close>

lemma nibble_extra: "computeExtraBytes (ucast (opt_nibble v)) \<le> computeExtraBytes v" "opt_nibble v \<noteq> 15"
proof -
  have u: "unat (ucast (opt_nibble v) :: u16) = unat (opt_nibble v)"
    using opt_nibble_le[of v] by (simp add: unsigned_ucast_eq unsigned_take_bit_eq take_bit_nat_eq_self)
  show "opt_nibble v \<noteq> 15" using opt_nibble_le[of v] by auto
  show "computeExtraBytes (ucast (opt_nibble v)) \<le> computeExtraBytes v"
    using nibble_cases[of v] opt_nibble_le[of v] u by (auto simp: computeExtraBytes_def word_less_nat_alt)
qed

lemma validate_loop_encs:
  assumes "pdu p = A @ encs prev xs @ payload_tail pl @ S" "sized xs"
    "pduLength p = int (length (A @ encs prev xs @ payload_tail pl))"
    "r = int (length (encs prev xs @ payload_tail pl))"
  shows "validate_loop (int (length A)) r n p = Some (1,
    p\<lparr>payloadPointer := (if pl = [] then None else Some (pdu_addr p + int (length (A @ encs prev xs)) + 1)),
      payloadLength := int (length pl), numOptions := n + int (length xs)\<rparr>)"
  using assms
proof (induction xs arbitrary: A prev r n)
  case Nil
  then show ?case
  proof (cases pl)
    case (Cons b bs)
    then have "rd p (int (length A)) = Some 0xFF" using Nil by (simp add: payload_tail_def)
    then show ?thesis using Nil Cons by (simp add: validate_loop.simps[of "int (length A)"] payload_tail_def add.assoc)
  qed (simp add: validate_loop.simps[of "int (length A)"] payload_tail_def)
next
  case (Cons x xs)
  let ?d = "fst x - prev" and ?l = "of_nat (length (snd x)) :: u16"
  have p: "pdu p = A @ enc_head ?d ?l @ snd x @ encs (fst x) xs @ payload_tail pl @ S"
    using Cons.prems(1) by (simp add: enc_def)
  obtain h where h: "rd p (int (length A)) = Some h" "upperNibble h = opt_nibble ?d" "lowerNibble h = opt_nibble ?l" "h \<noteq> 0xFF"
    using head_read[OF p] by blast
  have tot: "option_total ?d ?l = int (length (enc prev x))" using Cons.prems(2) enc_length[of x prev] by (simp add: sized_def)
  have r: "r = int (length (enc prev x)) + int (length (encs (fst x) xs @ payload_tail pl))" using Cons.prems(4) by simp
  have "computeExtraBytes (ucast (opt_nibble ?d)) + computeExtraBytes (ucast (opt_nibble ?l)) \<le> option_total ?d ?l - 1"
    using nibble_extra(1)[of ?d] nibble_extra(1)[of ?l] unfolding option_total_def by linarith
  then have e: "\<not> computeExtraBytes (ucast (opt_nibble ?d)) + computeExtraBytes (ucast (opt_nibble ?l)) > r - 1"
    "\<not> computeExtraBytes (ucast (opt_nibble ?d)) > r - 1"
    using r computeExtraBytes_nonneg[of "ucast (opt_nibble ?l)"] unfolding tot by linarith+
  have pos: "r > 0" using r tot option_total_pos[of ?d ?l] by linarith
  have fits: "\<not> int (length A) + option_total ?d ?l > pduLength p" using Cons.prems(3) unfolding tot by simp
  have "validate_loop (int (length (A @ enc prev x))) (r - option_total ?d ?l) (n + 1) p = Some (1,
    p\<lparr>payloadPointer := (if pl = [] then None else Some (pdu_addr p + int (length ((A @ enc prev x) @ encs (fst x) xs)) + 1)),
      payloadLength := int (length pl), numOptions := n + 1 + int (length xs)\<rparr>)"
    by (rule Cons.IH) (use Cons.prems r tot in \<open>simp_all add: sized_def\<close>)
  then show ?case using h e pos fits read_delta[OF p] read_length[OF p] nibble_extra(2)
    unfolding validate_loop.simps[of "int (length A)"] tot by (simp add: Let_def tot ac_simps)
qed

text \<open>The options as \<open>getOptions\<close> describes them.\<close>

definition read_option :: "CoapPDU \<Rightarrow> CoapOption \<Rightarrow> u16 \<times> u8 list \<Rightarrow> bool" where
  "read_option p r x \<longleftrightarrow> opt_number r = fst x \<and> unat (opt_valueLength r) = length (snd x) \<and>
     bytes_at p (opt_valuePointer r) (length (snd x)) = Some (snd x)"

lemma getOptions_loop_encs:
  assumes "pdu p = A @ encs prev xs @ S" "sized xs"
  shows "\<exists>os. getOptions_loop (length xs) (int (length A)) prev p = Some os \<and> list_all2 (read_option p) os xs"
  using assms
proof (induction xs arbitrary: A prev)
  case (Cons x xs)
  let ?d = "fst x - prev" and ?l = "of_nat (length (snd x)) :: u16"
  have p: "pdu p = A @ enc_head ?d ?l @ snd x @ encs (fst x) xs @ S" using Cons.prems(1) by (simp add: enc_def)
  have l: "unat ?l = length (snd x)" using Cons.prems(2) by (simp add: sized_def unat_of_nat_u16)
  have tot: "option_total ?d ?l = int (length (enc prev x))" using Cons.prems(2) enc_length[of x prev] by (simp add: sized_def)
  obtain os where os: "getOptions_loop (length xs) (int (length (A @ enc prev x))) (fst x) p = Some os" "list_all2 (read_option p) os xs"
    using Cons.IH[of "A @ enc prev x" "fst x"] Cons.prems by (auto simp: sized_def)
  have "bytes_at p (pdu_addr p + (int (length A) + option_total ?d ?l - int (length (snd x)))) (length (snd x)) = Some (snd x)"
    using p unfolding tot by (simp add: bytes_at_def enc_def nat_add_distrib)
  moreover have "int (unat ?l) = int (length (snd x))" using l by simp
  ultimately have "read_option p \<lparr>opt_delta = ?d, opt_number = fst x, opt_valueLength = ?l, opt_totalLength = option_total ?d ?l,
      opt_pointer = pdu_addr p + int (length A),
      opt_valuePointer = pdu_addr p + (int (length A) + option_total ?d ?l - int (unat ?l))\<rparr> x"
    using l by (simp add: read_option_def)
  then show ?case using os read_delta[OF p] read_length[OF p] tot by (simp add: Let_def)
qed simp

text \<open>The header of a message that \<open>validate\<close> lets pass.\<close>

definition valid_header :: "u8 list \<Rightarrow> bool" where
  "valid_header hdr \<longleftrightarrow> length hdr = 4 \<and> drop_bit 6 (hdr ! 0 AND 0xC0) = 1 \<and> unat (hdr ! 0 AND 0x0F) \<le> 8 \<and> valid_pdu_code (hdr ! 1)"

definition validated :: "u8 list \<Rightarrow> u8 list \<Rightarrow> (u16 \<times> u8 list) list \<Rightarrow> u8 list \<Rightarrow> CoapPDU \<Rightarrow> CoapPDU" where
  "validated hdr tok xs pl p = p\<lparr>payloadPointer := (if pl = [] then None else Some (pdu_addr p + int (length (hdr @ tok @ encs 0 xs)) + 1)),
    payloadLength := int (length pl), numOptions := int (length xs)\<rparr>"

lemma rd_header:
  assumes "pdu p = hdr @ R" "i < length hdr"
  shows "rd p (int i) = Some (hdr ! i)"
  using rd_off[of p "[]" hdr R i] assms by simp

lemma rd_first: "pdu p = hdr @ R \<Longrightarrow> length hdr = 4 \<Longrightarrow> rd p 0 = Some (hdr ! 0) \<and> rd p 1 = Some (hdr ! 1)"
  using rd_header[of p hdr R 0] rd_header[of p hdr R 1] by (cases hdr) auto

lemma validate_own:
  assumes "pdu p = hdr @ tok @ encs 0 xs @ payload_tail pl @ S" "pduLength p = int (length (hdr @ tok @ encs 0 xs @ payload_tail pl))"
    "valid_header hdr" "unat (hdr ! 0 AND 0x0F) = length tok" "sized xs" "payloadPointer p = None"
  shows "validate p = Some (1, validated hdr tok xs pl p)"
proof -
  have "rd p 0 = Some (hdr ! 0)" "rd p 1 = Some (hdr ! 1)"
    using rd_first[OF assms(1)] assms(3) by (auto simp: valid_header_def)
  moreover have t: "int (unat (hdr ! 0 AND 0x0F)) = int (length tok)" using assms(4) by simp
  ultimately have h: "getVersion p = Some 1" "getTokenLength p = Some (int (length tok))" "getCode p = Some (hdr ! 1)"
    using assms(3) by (simp_all add: getVersion_def getTokenLength_def getCode_def valid_header_def)
  have l: "length hdr = 4" "length tok \<le> 8" "valid_pdu_code (hdr ! 1)" using assms(3,4) by (simp_all add: valid_header_def)
  have "pdu p = (hdr @ tok) @ encs 0 xs @ payload_tail pl @ S" using assms(1) by simp
  note loop = validate_loop_encs[OF this assms(5)]
  show ?thesis
  proof (cases "encs 0 xs @ payload_tail pl = []")
    case True
    then have "xs = []" "pl = []" by (auto simp: payload_tail_def enc_def enc_head_def neq_Nil_conv split: if_splits)
        (cases xs; simp add: enc_def enc_head_def)
    then show ?thesis using h l assms(2,6) by (simp add: validate_def validated_def COAP_HDR_SIZE_def payload_tail_def Let_def)
  next
    case False
    have "validate_loop (COAP_HDR_SIZE + int (length tok)) (pduLength p - (COAP_HDR_SIZE + int (length tok))) 0 p =
        Some (1, validated hdr tok xs pl p)"
      using loop[of "pduLength p - (COAP_HDR_SIZE + int (length tok))" 0] assms(2) l
      by (simp add: validated_def COAP_HDR_SIZE_def add.assoc)
    moreover have "COAP_HDR_SIZE + int (length tok) \<noteq> pduLength p"
      using assms(2) l False by (cases "encs 0 xs"; cases "payload_tail pl") (auto simp: COAP_HDR_SIZE_def)
    ultimately show ?thesis using h l assms(2) by (simp add: validate_def COAP_HDR_SIZE_def Let_def)
  qed
qed

lemma getOptions_own:
  assumes "pdu p = hdr @ tok @ encs 0 xs @ S" "length hdr = 4" "unat (hdr ! 0 AND 0x0F) = length tok" "sized xs"
    "numOptions p = int (length xs)"
  shows "if xs = [] then getOptions True p = Some None
    else \<exists>os. getOptions True p = Some (Some os) \<and> list_all2 (read_option p) os xs"
proof -
  have "rd p 0 = Some (hdr ! 0)" using rd_first[OF assms(1,2)] by simp
  moreover have "int (unat (hdr ! 0 AND 0x0F)) = int (length tok)" using assms(3) by simp
  ultimately have t: "getTokenLength p = Some (int (length tok))" by (simp add: getTokenLength_def)
  have "pdu p = (hdr @ tok) @ encs 0 xs @ S" using assms(1) by simp
  from getOptions_loop_encs[OF this assms(4)] show ?thesis
    using t assms(2,5) by (auto simp: getOptions_def COAP_HDR_SIZE_def)
qed

lemma payload_copy_at:
  assumes "pdu q = A @ pl @ R" "pl \<noteq> []" "payloadPointer q = Some (pdu_addr q + int (length A))" "payloadLength q = int (length pl)"
  shows "getPayloadCopy True q = Some (Some pl)"
  using assms by (simp add: getPayloadCopy_def Let_def)

subsection \<open>Any bytes\<close>

lemma rd_total: "0 \<le> i \<Longrightarrow> i < int (length (pdu p)) \<Longrightarrow> \<exists>b. rd p i = Some b"
  by (simp add: rd_def)

lemma load16_total: "0 \<le> i \<Longrightarrow> i + 1 < int (length (pdu p)) \<Longrightarrow> \<exists>v. load16 p i = Some v"
  by (simp add: load16_def rd_def)

lemma big_nibble: "\<not> (ucast (x :: u8) :: u16) < 13 \<Longrightarrow> computeExtraBytes (ucast x) \<ge> 1"
  by (simp add: computeExtraBytes_def)

text \<open>The fields of a header are read without a bounds check of their own; the check before asks for one byte each.\<close>

lemma fields_total:
  assumes "rd p i = Some h" "0 \<le> i" "i + r \<le> n" "n + 2 \<le> int (length (pdu p))"
    "computeExtraBytes (ucast (upperNibble h)) + computeExtraBytes (ucast (lowerNibble h)) \<le> r - 1"
  shows "(\<exists>d. getOptionDelta p i = Some d) \<and> (\<exists>l. getOptionValueLength p i = Some l)"
proof -
  let ?u = "ucast (upperNibble h) :: u16" and ?l = "ucast (lowerNibble h) :: u16"
  have r: "1 \<le> r" using assms(5) computeExtraBytes_nonneg[of ?u] computeExtraBytes_nonneg[of ?l] by linarith
  have b: "\<not> ?u < 13 \<Longrightarrow> 2 \<le> r" "\<not> ?l < 13 \<Longrightarrow> 2 \<le> r" "\<not> ?u < 13 \<Longrightarrow> \<not> ?l < 13 \<Longrightarrow> 3 \<le> r"
    using assms(5) big_nibble[of "upperNibble h"] big_nibble[of "lowerNibble h"]
      computeExtraBytes_nonneg[of ?u] computeExtraBytes_nonneg[of ?l] by linarith+
  have "\<exists>d. getOptionDelta p i = Some d"
  proof (cases "?u < 13")
    case True
    then show ?thesis using assms(1) by (simp add: getOptionDelta_def Let_def)
  next
    case False
    then obtain x v where "rd p (i + 1) = Some x" "load16 p (i + 1) = Some v"
      using rd_total[of "i + 1" p] load16_total[of "i + 1" p] assms(2-4) b(1) by force
    then show ?thesis using assms(1) False by (simp add: getOptionDelta_def Let_def)
  qed
  moreover have "\<exists>l. getOptionValueLength p i = Some l"
  proof (cases "?l < 13")
    case True
    then show ?thesis using assms(1) by (simp add: getOptionValueLength_def Let_def)
  next
    case False
    define off where "off = (if ?u = 13 then 2 else if ?u = 14 then 3 else 1 :: int)"
    have "i + off + 1 < int (length (pdu p))" "0 \<le> i + off"
      using assms(2-4) b(2) b(3) False by (auto simp: off_def)
    then obtain x v where "rd p (i + off) = Some x" "load16 p (i + off) = Some v"
      using rd_total[of "i + off" p] load16_total[of "i + off" p] by force
    then show ?thesis using assms(1) False by (simp add: getOptionValueLength_def Let_def off_def[symmetric])
  qed
  ultimately show ?thesis ..
qed

definition inside :: "CoapPDU \<Rightarrow> addr \<Rightarrow> int \<Rightarrow> bool" where
  "inside p a n \<longleftrightarrow> pdu_addr p \<le> a \<and> a + n \<le> pdu_addr p + pduLength p"

definition safe_options :: "CoapPDU \<Rightarrow> nat \<Rightarrow> int \<Rightarrow> bool" where
  "safe_options p k i \<longleftrightarrow> (\<forall>num. \<exists>os. getOptions_loop k i num p = Some os \<and>
     (\<forall>o1 \<in> set os. inside p (opt_valuePointer o1) (int (unat (opt_valueLength o1)))))"

lemma safe_options_step:
  assumes "getOptionDelta p i = Some d" "getOptionValueLength p i = Some l" "0 \<le> i" "\<not> i + option_total d l > pduLength p"
    "safe_options p k (i + option_total d l)"
  shows "safe_options p (Suc k) i"
  unfolding safe_options_def
proof
  fix num
  let ?t = "option_total d l"
  obtain os where os: "getOptions_loop k (i + ?t) (num + d) p = Some os"
    "\<forall>o1 \<in> set os. inside p (opt_valuePointer o1) (int (unat (opt_valueLength o1)))"
    using assms(5) unfolding safe_options_def by blast
  have "0 \<le> ?t - int (unat l)"
    using computeExtraBytes_nonneg[of d] computeExtraBytes_nonneg[of l] by (simp add: option_total_def)
  then have "inside p (pdu_addr p + (i + ?t - int (unat l))) (int (unat l))" using assms(3,4) by (simp add: inside_def)
  then show "\<exists>os. getOptions_loop (Suc k) i num p = Some os \<and>
    (\<forall>o1 \<in> set os. inside p (opt_valuePointer o1) (int (unat (opt_valueLength o1))))"
    using os assms(1,2) by (simp add: Let_def)
qed

lemma validate_loop_any:
  assumes "0 \<le> i" "i + r = pduLength p" "pduLength p + 2 \<le> int (length (pdu p))"
  shows "\<exists>c q. validate_loop i r n p = Some (c, q) \<and> (c = 0 \<or> c = 1) \<and> (c = 1 \<longrightarrow>
    (\<exists>k. numOptions q = n + int k \<and> safe_options p k i) \<and>
    (payloadLength q = 0 \<or> (\<exists>a. payloadPointer q = Some a \<and> 0 \<le> payloadLength q \<and> inside p a (payloadLength q))) \<and>
    q = p\<lparr>payloadPointer := payloadPointer q, payloadLength := payloadLength q, numOptions := numOptions q\<rparr>)"
  using assms
proof (induction i r n p rule: validate_loop.induct)
  case (1 i r n p)
  show ?case
  proof (cases "r > 0")
    case False
    then show ?thesis by (simp add: validate_loop.simps[of i] safe_options_def exI[of _ 0])
  next
    case r: True
    obtain h where h: "rd p i = Some h" using rd_total[of i p] 1(2-4) r by force
    show ?thesis
    proof (cases "h = 0xFF")
      case True
      then show ?thesis using h r 1(2,3) by (auto simp: validate_loop.simps[of i] safe_options_def inside_def intro!: exI[of _ 0])
    next
      case nff: False
      let ?u = "upperNibble h" and ?l = "lowerNibble h"
      show ?thesis
      proof (cases "?u = 15 \<or> ?l = 15 \<or> computeExtraBytes (ucast ?u) > r - 1 \<or>
          computeExtraBytes (ucast ?u) + computeExtraBytes (ucast ?l) > r - 1")
        case True
        then show ?thesis using h r nff unfolding validate_loop.simps[of i] by (auto simp: Let_def)
      next
        case ok: False
        then obtain d l where dl: "getOptionDelta p i = Some d" "getOptionValueLength p i = Some l"
          using fields_total[OF h 1(2) _ 1(4), of r] 1(3) by auto
        let ?t = "option_total d l"
        have step: "validate_loop i r n p = (if i + ?t > pduLength p then Some (0, p) else validate_loop (i + ?t) (r - ?t) (n + 1) p)"
          using h r nff ok dl unfolding validate_loop.simps[of i] by (simp add: Let_def)
        show ?thesis
        proof (cases "i + ?t > pduLength p")
          case True
          then show ?thesis using step by auto
        next
          case fits: False
          have "0 \<le> i + ?t" "i + ?t + (r - ?t) = pduLength p" using 1(2,3) option_total_pos[of d l] by linarith+
          then obtain c q where ih: "validate_loop (i + ?t) (r - ?t) (n + 1) p = Some (c, q)" "c = 0 \<or> c = 1"
            "c = 1 \<Longrightarrow> \<exists>k. numOptions q = n + 1 + int k \<and> safe_options p k (i + ?t)"
            "c = 1 \<Longrightarrow> payloadLength q = 0 \<or> (\<exists>a. payloadPointer q = Some a \<and> 0 \<le> payloadLength q \<and> inside p a (payloadLength q))"
            "c = 1 \<Longrightarrow> q = p\<lparr>payloadPointer := payloadPointer q, payloadLength := payloadLength q, numOptions := numOptions q\<rparr>"
            using 1(1)[of h ?u ?l d l ?t] h r nff ok dl fits 1(4) by fastforce
          have "safe_options p (Suc k) i" if "safe_options p k (i + ?t)" for k
            by (rule safe_options_step[OF dl 1(2) fits that])
          then have "\<exists>k. numOptions q = n + int k \<and> safe_options p k i" if "c = 1"
            using ih(3)[OF that] by (metis add.assoc of_nat_Suc)
          then show ?thesis using step fits ih by auto
        qed
      qed
    qed
  qed
qed

lemma getOptions_loop_cong: "pdu q = pdu p \<Longrightarrow> pdu_addr q = pdu_addr p \<Longrightarrow> getOptions_loop k i num q = getOptions_loop k i num p"
proof (induction k arbitrary: i num)
  case (Suc k)
  have "rd q = rd p" using Suc.prems(1) by (auto simp: rd_def)
  note r = this
  have "getOptionDelta q i = getOptionDelta p i" "getOptionValueLength q i = getOptionValueLength p i" for i
    unfolding getOptionDelta_def getOptionValueLength_def load16_def r by (rule refl)+
  then show ?case using Suc by simp
qed simp

text \<open>What \<open>getOptions\<close> and the payload accessors hand out after a successful \<open>validate\<close>.\<close>

definition readable :: "CoapPDU \<Rightarrow> bool" where
  "readable q \<longleftrightarrow>
     (\<exists>os. getOptions True q = Some os \<and>
       (\<forall>o1 \<in> set (case os of None \<Rightarrow> [] | Some xs \<Rightarrow> xs). inside q (opt_valuePointer o1) (int (unat (opt_valueLength o1))))) \<and>
     (payloadLength q = 0 \<or> (\<exists>a. payloadPointer q = Some a \<and> 0 \<le> payloadLength q \<and> inside q a (payloadLength q)))"

lemma validate_any:
  assumes "pduLength p + 2 \<le> int (length (pdu p))"
  shows "\<exists>c q. validate p = Some (c, q) \<and> (c = 0 \<or> c = 1) \<and> (c = 1 \<longrightarrow> readable q)"
proof (cases "pduLength p < 4")
  case True
  then show ?thesis by (simp add: validate_def)
next
  case False
  then obtain a b where ab: "rd p 0 = Some a" "rd p 1 = Some b" using rd_total[of 0 p] rd_total[of 1 p] assms by force
  let ?t = "int (unat (a AND 0x0F))"
  have h: "getVersion p = Some (drop_bit 6 (a AND 0xC0))" "getTokenLength p = Some ?t" "getCode p = Some b"
    using ab by (simp_all add: getVersion_def getTokenLength_def getCode_def)
  show ?thesis
  proof (cases "drop_bit 6 (a AND 0xC0) \<noteq> 1 \<or> ?t < 0 \<or> ?t > 8 \<or> COAP_HDR_SIZE + ?t > pduLength p \<or> \<not> valid_pdu_code b")
    case True
    then show ?thesis using h False unfolding validate_def by auto
  next
    case ok: False
    then have v: "validate p = (if COAP_HDR_SIZE + ?t = pduLength p then Some (1, p\<lparr>numOptions := 0, payloadLength := 0\<rparr>)
        else validate_loop (COAP_HDR_SIZE + ?t) (pduLength p - (COAP_HDR_SIZE + ?t)) 0 p)"
      using h False unfolding validate_def by (simp add: Let_def)
    show ?thesis
    proof (cases "COAP_HDR_SIZE + ?t = pduLength p")
      case True
      then show ?thesis unfolding v by (simp add: readable_def getOptions_def)
    next
      case False
      have "0 \<le> COAP_HDR_SIZE + ?t" by (simp add: COAP_HDR_SIZE_def)
      from validate_loop_any[OF this _ assms, of "pduLength p - (COAP_HDR_SIZE + ?t)" 0] obtain c q where
        l: "validate_loop (COAP_HDR_SIZE + ?t) (pduLength p - (COAP_HDR_SIZE + ?t)) 0 p = Some (c, q)" "c = 0 \<or> c = 1"
        "c = 1 \<Longrightarrow> \<exists>k. numOptions q = int k \<and> safe_options p k (COAP_HDR_SIZE + ?t)"
        "c = 1 \<Longrightarrow> payloadLength q = 0 \<or> (\<exists>a. payloadPointer q = Some a \<and> 0 \<le> payloadLength q \<and> inside p a (payloadLength q))"
        "c = 1 \<Longrightarrow> q = p\<lparr>payloadPointer := payloadPointer q, payloadLength := payloadLength q, numOptions := numOptions q\<rparr>"
        by auto
      have "readable q" if c: "c = 1"
      proof -
        obtain k where k: "numOptions q = int k" "safe_options p k (COAP_HDR_SIZE + ?t)" using l(3)[OF c] by blast
        have same: "pdu q = pdu p" "pdu_addr q = pdu_addr p" "pduLength q = pduLength p" by (subst l(5)[OF c], simp)+
        then have "rd q = rd p" "inside q = inside p" by (simp_all add: fun_eq_iff rd_def inside_def)
        then have "getTokenLength q = Some ?t" "inside q = inside p" using h(2) by (simp_all add: getTokenLength_def)
        moreover obtain os where "getOptions_loop k (COAP_HDR_SIZE + ?t) 0 p = Some os"
          "\<forall>o1 \<in> set os. inside p (opt_valuePointer o1) (int (unat (opt_valueLength o1)))"
          using k(2) unfolding safe_options_def by blast
        ultimately show ?thesis using k(1) l(4)[OF c] getOptions_loop_cong[OF same(1,2)] by (simp add: readable_def getOptions_def)
      qed
      then show ?thesis unfolding v using l(1,2) False by auto
    qed
  qed
qed

subsection \<open>The properties\<close>

text \<open>
  C31: \<open>validate\<close> protects the reader. Whatever the datagram, when two bytes behind it may be read, \<open>validate\<close> is
  defined and answers 0 or 1; after a 1, \<open>getOptions\<close> is defined, every value it points to lies inside the
  datagram, and so does the payload.
\<close>

theorem validate_protects:
  assumes "pduLength p + 2 \<le> int (length (pdu p))"
  shows "\<exists>r q. validate p = Some (r, q) \<and> (r = 0 \<or> r = 1) \<and> (r = 1 \<longrightarrow>
    (\<exists>os. getOptions True q = Some os \<and>
      (\<forall>o1 \<in> set (case os of None \<Rightarrow> [] | Some xs \<Rightarrow> xs). pdu_addr q \<le> opt_valuePointer o1 \<and>
         opt_valuePointer o1 + int (unat (opt_valueLength o1)) \<le> pdu_addr q + pduLength q)) \<and>
    (payloadLength q = 0 \<or> (\<exists>a. payloadPointer q = Some a \<and> 0 \<le> payloadLength q \<and> pdu_addr q \<le> a \<and>
       a + payloadLength q \<le> pdu_addr q + pduLength q)))"
  using validate_any[OF assms] unfolding readable_def inside_def by blast

lemma validate_protects_witness:
  "\<exists>p r q. PDU_of_bytes 0 [0x60, 0x45, 0, 1, 0xE0, 9, 9] 5 = Some p \<and> validate p = Some (r, q) \<and> (r = 0 \<or> r = 1)"
proof -
  obtain p where p: "PDU_of_bytes 0 [0x60, 0x45, 0, 1, 0xE0, 9, 9] 5 = Some p" "pduLength p + 2 \<le> int (length (pdu p))"
    by (simp add: PDU_of_bytes_def PDU_in_buffer_def)
  from validate_protects[OF p(2)] p(1) show ?thesis by blast
qed

text \<open>
  Without those two bytes \<open>validate\<close> reads past the datagram: an option header that announces a delta of two
  bytes counts as one byte longer only, so a datagram that ends with it, or with its first byte, is read on behind.
\<close>

lemma validate_reads_past_end:
  "\<exists>p. PDU_of_bytes a [0x60, 0x45, mid1, mid2, 0xE0, x] 6 = Some p \<and> validate p = None"
  by (simp add: PDU_of_bytes_def PDU_in_buffer_def validate_def getVersion_def getTokenLength_def getCode_def rd_def
      valid_pdu_code_def COAP_HDR_SIZE_def validate_loop.simps Let_def upperNibble_def lowerNibble_def computeExtraBytes_def
      getOptionDelta_def load16_def)

end
