(* ===== verification/Client_Print.thy ===== *)
theory Client_Print imports Client_Read begin

section \<open>Printing a message (\<open>client/Coap.cpp\<close>)\<close>

text \<open>
  \<open>printHuman\<close> reads a whole message. The result is the text it prints, line by line; there is none when it reads
  outside the message's memory or through a null pointer. \<open>char\<close> is unsigned, as on the ESP8266.
\<close>

subsection \<open>Conversions of \<open>printf\<close>\<close>

fun dec :: "nat \<Rightarrow> string" where
  "dec n = (if n < 10 then [char_of (48 + n)] else dec (n div 10) @ [char_of (48 + n mod 10)])"

declare dec.simps [simp del]

definition dec_int :: "int \<Rightarrow> string" where
  "dec_int i = (if i < 0 then CHR 0x2D # dec (nat (- i)) else dec (nat i))"

text \<open>\<open>%.2d\<close> and \<open>%.2x\<close> of a byte.\<close>

definition dec2 :: "u8 \<Rightarrow> string" where
  "dec2 b = (if unat b < 10 then CHR 0x30 # dec (unat b) else dec (unat b))"

definition hex_digit :: "nat \<Rightarrow> char" where
  "hex_digit n = (if n < 10 then char_of (48 + n) else char_of (87 + n))"

definition hex2 :: "u8 \<Rightarrow> string" where
  "hex2 b = [hex_digit (unat b div 16), hex_digit (unat b mod 16)]"

definition info :: "string \<Rightarrow> string" where
  "info s = s @ [CHR 0x0A]"

subsection \<open>Names\<close>

definition type_name :: "u8 \<Rightarrow> string" where
  "type_name t =
    (if t = COAP_CONFIRMABLE then info ''Confirmable''
     else if t = COAP_NON_CONFIRMABLE then info ''Non-Confirmable''
     else if t = COAP_ACKNOWLEDGEMENT then info ''Acknowledgement''
     else if t = COAP_RESET then info ''Reset'' else [])"

definition code_names :: "(u8 \<times> string) list" where
  "code_names =
    [(0x00, ''0.00 Empty''), (0x01, ''0.01 GET''), (0x02, ''0.02 POST''), (0x03, ''0.03 PUT''), (0x04, ''0.04 DELETE''),
     (0x41, ''2.01 Created''), (0x42, ''2.02 Deleted''), (0x43, ''2.03 Valid''), (0x44, ''2.04 Changed''), (0x45, ''2.05 Content''),
     (0x80, ''4.00 Bad Request''), (0x81, ''4.01 Unauthorized''), (0x82, ''4.02 Bad Option''), (0x83, ''4.03 Forbidden''),
     (0x84, ''4.04 Not Found''), (0x85, ''4.05 Method Not Allowed''), (0x86, ''4.06 Not Acceptable''),
     (0x8C, ''4.12 Precondition Failed''), (0x8D, ''4.13 Request Entity Too Large''), (0x8F, ''4.15 Unsupported Content-Format''),
     (0xA0, ''5.00 Internal Server Error''), (0xA1, ''5.01 Not Implemented''), (0xA2, ''5.02 Bad Gateway''),
     (0xA3, ''5.03 Service Unavailable''), (0xA4, ''5.04 Gateway Timeout''), (0xA5, ''5.05 Proxying Not Supported'')]"

definition code_name :: "u8 \<Rightarrow> string" where
  "code_name code =
    (case map_of code_names code of None \<Rightarrow> ''Undefined Code '' @ dec (unat code) | Some s \<Rightarrow> s)"

definition option_names :: "(u16 \<times> string) list" where
  "option_names =
    [(1, ''IF_MATCH''), (3, ''URI_HOST''), (4, ''ETAG''), (5, ''IF_NONE_MATCH''), (6, ''OBSERVE''), (7, ''URI_PORT''),
     (8, ''LOCATION_PATH''), (11, ''URI_PATH''), (12, ''CONTENT_FORMAT''), (14, ''MAX_AGE''), (15, ''URI_QUERY''), (17, ''ACCEPT''),
     (20, ''LOCATION_QUERY''), (35, ''PROXY_URI''), (39, ''PROXY_SCHEME''), (27, ''BLOCK1''), (23, ''BLOCK2''), (60, ''SIZE1''),
     (28, ''SIZE2'')]"

definition option_name :: "u16 \<Rightarrow> string" where
  "option_name num = (case map_of option_names num of None \<Rightarrow> ''Unknown option'' | Some s \<Rightarrow> s)"

subsection \<open>The parts of a message\<close>

definition char_text :: "(u8 \<Rightarrow> string) \<Rightarrow> u8 \<Rightarrow> string" where
  "char_text fmt c = (if c \<ge> 0x21 \<and> c \<le> 0x7E \<or> c = 0x20 then [char_of (unat c)] else CHR 0x5C # fmt c)"

definition value_text :: "(u8 \<Rightarrow> string) \<Rightarrow> u8 list \<Rightarrow> string" where
  "value_text fmt bs = ''   Value: '' @ [CHR 0x22] @ concat (map (char_text fmt) bs) @ info [CHR 0x22]"

definition token_text :: "CoapPDU \<Rightarrow> string option" where
  "token_text p = do {
     tokenLength \<leftarrow> getTokenLength p;
     if tokenLength = 0 then Some (info ''No token.'')
     else do {
       bs \<leftarrow> bytes_at p (pdu_addr p + COAP_HDR_SIZE) (nat tokenLength);
       Some (info (''Token of '' @ dec_int tokenLength @ '' bytes.'') @ info ''   Value: 0x'' @ concat (map (\<lambda>b. info (hex2 b)) bs) @
         info '' '') } }"

text \<open>The option at the index \<open>i\<close> of the array, which may be null.\<close>

definition option_text :: "CoapPDU \<Rightarrow> CoapOption list option \<Rightarrow> nat \<Rightarrow> string option" where
  "option_text p options i =
    (case options of
       None \<Rightarrow> None
     | Some os \<Rightarrow>
         if i \<ge> length os then None
         else do {
           let o1 = os ! i;
           bs \<leftarrow> bytes_at p (opt_valuePointer o1) (unat (opt_valueLength o1));
           Some (info (''OPTION ('' @ dec (i + 1) @ ''/'' @ dec_int (numOptions p) @ '')'') @
             info (''   Option number (delta): '' @ dec (unat (opt_number o1)) @ '' ('' @ dec (unat (opt_delta o1)) @ '')'') @
             info ''   Name: '' @ info (option_name (opt_number o1)) @
             info (''   Value length: '' @ dec (unat (opt_valueLength o1))) @ value_text dec2 bs) })"

fun options_text :: "CoapPDU \<Rightarrow> CoapOption list option \<Rightarrow> nat list \<Rightarrow> string option" where
  "options_text p options [] = Some []"
| "options_text p options (i # is) = do {
     s \<leftarrow> option_text p options i;
     t \<leftarrow> options_text p options is;
     Some (s @ t) }"

definition payload_text :: "CoapPDU \<Rightarrow> string option" where
  "payload_text p =
    (if payloadLength p = 0 then Some (info ''No payload.'')
     else (case payloadPointer p of
             None \<Rightarrow> None
           | Some a \<Rightarrow> do {
               bs \<leftarrow> bytes_at p a (nat (payloadLength p));
               Some (info (''Payload of '' @ dec_int (payloadLength p) @ '' bytes'') @ value_text hex2 bs) }))"

text \<open>\<open>mem\<close> says whether there is memory for the array of options.\<close>

definition printHuman :: "bool \<Rightarrow> CoapPDU \<Rightarrow> string option" where
  "printHuman mem p = do {
     version \<leftarrow> getVersion p;
     t \<leftarrow> getType p;
     tokenLength \<leftarrow> getTokenLength p;
     code \<leftarrow> getCode p;
     messageID \<leftarrow> getMessageID p;
     token \<leftarrow> token_text p;
     options \<leftarrow> getOptions mem p;
     opts \<leftarrow> options_text p options [0..<nat (numOptions p)];
     payload \<leftarrow> payload_text p;
     let count = info (dec_int (numOptions p) @ '' options:'');
     Some (info ''__________________'' @
       (if constructedFromBuffer p then info (''PDU was constructed from buffer of '' @ dec_int (bufferLength p) @ '' bytes'') else []) @
       info (''PDU is '' @ dec_int (pduLength p) @ '' bytes long'') @
       info (''CoAP Version: '' @ dec (unat version)) @ info ''Message Type: '' @ type_name t @
       info (''Token length: '' @ dec_int tokenLength) @ info ''Code: '' @ info (code_name code) @
       info (''Message ID: '' @ dec (unat messageID)) @ token @
       (if options = None then info ''NO options'' else count) @ count @ opts @ payload @
       info ''__________________'') }"

subsection \<open>Dumps\<close>

definition bit_text :: "u8 \<Rightarrow> string" where
  "bit_text b = concat (map (\<lambda>m. if b AND m \<noteq> 0 then ''1'' else ''0'') [0x80, 0x40, 0x20, 0x10, 0x08, 0x04, 0x02, 0x01])"

definition CRLF :: string where "CRLF = [CHR 0x0D, CHR 0x0A]"

definition printPDUAsCArray :: "CoapPDU \<Rightarrow> string option" where
  "printPDUAsCArray p = do {
     bs \<leftarrow> bytes_at p (pdu_addr p) (nat (pduLength p));
     Some (''const uint8_t array[] = {'' @ CRLF @ ''   '' @ concat (map (\<lambda>b. ''0x'' @ hex2 b @ '', '') bs) @ CRLF @ ''};'' @ CRLF) }"

text \<open>Every fourth byte begins a line with its number.\<close>

definition dump_text :: "string \<Rightarrow> (u8 \<Rightarrow> string) \<Rightarrow> u8 list \<Rightarrow> string" where
  "dump_text sep fmt bs = concat (map (\<lambda>(i, b).
     (if i mod 4 = 0 then CRLF @ (if i < 10 then CHR 0x30 # dec i else dec i) @ sep else []) @ fmt b @ '' '') (List.enumerate 0 bs))"

definition printHex :: "CoapPDU \<Rightarrow> string option" where
  "printHex p = do {
     bs \<leftarrow> bytes_at p (pdu_addr p) (nat (pduLength p));
     Some (''Hexd dump of PDU len:'' @ dec_int (pduLength p) @ CRLF @ dump_text '': '' hex2 bs @ CRLF) }"

definition printBin :: "CoapPDU \<Rightarrow> string option" where
  "printBin p = do {
     bs \<leftarrow> bytes_at p (pdu_addr p) (nat (pduLength p));
     Some (''Bin dump of PDU len:'' @ dec_int (pduLength p) @ CRLF @ dump_text '' '' bit_text bs @ CRLF) }"

subsection \<open>Where the payload lies\<close>

lemma validate_loop_payload:
  assumes "validate_loop i r n p = Some (1, q)" "i + r = pduLength p"
  shows "pdu q = pdu p \<and> pdu_addr q = pdu_addr p \<and> pduLength q = pduLength p \<and> n \<le> numOptions q \<and>
    (0 < payloadLength q \<longrightarrow> (\<exists>off. payloadPointer q = Some (pdu_addr p + off) \<and> i < off \<and> off + payloadLength q = pduLength p))"
  using assms
proof (induction i r n p rule: validate_loop.induct)
  case (1 i r n p)
  show ?case
  proof (cases "r > 0")
    case False
    then show ?thesis using "1.prems"(1) by (subst (asm) validate_loop.simps) auto
  next
    case True
    obtain h where h: "rd p i = Some h" using "1.prems"(1) True by (subst (asm) validate_loop.simps) (auto split: Option.bind_splits)
    show ?thesis
    proof (cases "h = 0xFF")
      case True
      then show ?thesis using "1.prems" \<open>r > 0\<close> h
        by (subst (asm) validate_loop.simps) (auto split: if_splits intro!: exI[of _ "i + 1"])
    next
      case False
      obtain d k where dk: "getOptionDelta p i = Some d" "getOptionValueLength p i = Some k"
        "\<not> i + option_total d k > pduLength p"
        "validate_loop (i + option_total d k) (r - option_total d k) (n + 1) p = Some (1, q)"
        "\<not> (upperNibble h = 0x0F \<or> lowerNibble h = 0x0F)" "\<not> computeExtraBytes (ucast (upperNibble h)) > r - 1"
        "\<not> computeExtraBytes (ucast (upperNibble h)) + computeExtraBytes (ucast (lowerNibble h)) > r - 1"
        using "1.prems"(1) True False h
        by (subst (asm) validate_loop.simps) (auto simp: Let_def split: if_splits Option.bind_splits)
      have ih: "pdu q = pdu p \<and> pdu_addr q = pdu_addr p \<and> pduLength q = pduLength p \<and> n + 1 \<le> numOptions q \<and>
          (0 < payloadLength q \<longrightarrow> (\<exists>off. payloadPointer q = Some (pdu_addr p + off) \<and> i + option_total d k < off \<and>
            off + payloadLength q = pduLength p))"
        using "1.IH"[OF _ h False refl refl dk(5-7,1,2) refl dk(3,4)] True "1.prems"(2) by simp
      show ?thesis
      proof (intro conjI impI)
        assume "0 < payloadLength q"
        then obtain off where off: "payloadPointer q = Some (pdu_addr p + off)" "i + option_total d k < off" "off + payloadLength q = pduLength p"
          using ih by blast
        have "i < off" using option_total_pos[of d k] off(2) by linarith
        with off(1,3) show "\<exists>off. payloadPointer q = Some (pdu_addr p + off) \<and> i < off \<and> off + payloadLength q = pduLength p"
          by blast
      qed (use ih in simp_all)
    qed
  qed
qed

lemma validate_payload:
  assumes "validate p = Some (1, q)"
  shows "pdu q = pdu p \<and> pdu_addr q = pdu_addr p \<and> pduLength q = pduLength p \<and> 0 \<le> numOptions q \<and>
    (0 < payloadLength q \<longrightarrow> (\<exists>off. payloadPointer q = Some (pdu_addr p + off) \<and> 4 < off \<and> off + payloadLength q = pduLength p))"
proof -
  obtain t where t: "getTokenLength p = Some t" "0 \<le> t" "COAP_HDR_SIZE + t = pduLength p \<and> q = p\<lparr>numOptions := 0, payloadLength := 0\<rparr> \<or>
      validate_loop (COAP_HDR_SIZE + t) (pduLength p - (COAP_HDR_SIZE + t)) 0 p = Some (1, q)"
    using assms by (auto simp: validate_def Let_def not_less split: if_splits Option.bind_splits)
  from t(3) show ?thesis
  proof
    assume "validate_loop (COAP_HDR_SIZE + t) (pduLength p - (COAP_HDR_SIZE + t)) 0 p = Some (1, q)"
    from validate_loop_payload[OF this] t(2) show ?thesis by (force simp: COAP_HDR_SIZE_def)
  qed simp
qed

subsection \<open>A validated message can be read\<close>

text \<open>
  The options are read where \<open>validate\<close> has read them, so nothing behind the message needs to be readable for
  them: when the answer was 1, all the fields were.
\<close>

lemma validate_loop_one:
  assumes "validate_loop i r n p = Some (1, q)" "0 \<le> i" "i + r = pduLength p"
  shows "(\<exists>k. numOptions q = n + int k \<and> safe_options p k i) \<and>
    (payloadLength q = 0 \<or> (\<exists>a. payloadPointer q = Some a \<and> 0 \<le> payloadLength q \<and> inside p a (payloadLength q)))"
  using assms
proof (induction i r n p rule: validate_loop.induct)
  case (1 i r n p)
  show ?case
  proof (cases "r > 0")
    case False
    then show ?thesis using "1.prems"(1) by (subst (asm) validate_loop.simps) (auto simp: safe_options_def intro!: exI[of _ 0])
  next
    case True
    obtain h where h: "rd p i = Some h" using "1.prems"(1) True by (subst (asm) validate_loop.simps) (auto split: Option.bind_splits)
    show ?thesis
    proof (cases "h = 0xFF")
      case True
      then have "numOptions q = n + int 0" "payloadPointer q = Some (pdu_addr p + i + 1)" "payloadLength q = r - 1" "0 < r - 1"
        using "1.prems" \<open>r > 0\<close> h by (subst (asm) validate_loop.simps, auto split: if_splits)+
      moreover have "safe_options p 0 i" by (simp add: safe_options_def)
      moreover have "inside p (pdu_addr p + i + 1) (r - 1)" using "1.prems"(2,3) by (simp add: inside_def)
      ultimately show ?thesis by (intro conjI exI[of _ 0] disjI2 exI[of _ "pdu_addr p + i + 1"]) simp_all
    next
      case False
      obtain d k where dk: "getOptionDelta p i = Some d" "getOptionValueLength p i = Some k"
        "\<not> i + option_total d k > pduLength p"
        "validate_loop (i + option_total d k) (r - option_total d k) (n + 1) p = Some (1, q)"
        "\<not> (upperNibble h = 0x0F \<or> lowerNibble h = 0x0F)" "\<not> computeExtraBytes (ucast (upperNibble h)) > r - 1"
        "\<not> computeExtraBytes (ucast (upperNibble h)) + computeExtraBytes (ucast (lowerNibble h)) > r - 1"
        using "1.prems"(1) True False h
        by (subst (asm) validate_loop.simps) (auto simp: Let_def split: if_splits Option.bind_splits)
      have "0 \<le> i + option_total d k" using "1.prems"(2) option_total_pos[of d k] by linarith
      then obtain m where m: "numOptions q = n + 1 + int m" "safe_options p m (i + option_total d k)"
        and pl: "payloadLength q = 0 \<or> (\<exists>a. payloadPointer q = Some a \<and> 0 \<le> payloadLength q \<and> inside p a (payloadLength q))"
        using "1.IH"[OF _ h False refl refl dk(5-7,1,2) refl dk(3,4)] True "1.prems"(3) by auto
      from m(1) have "numOptions q = n + int (Suc m)" by simp
      moreover have "safe_options p (Suc m) i" by (rule safe_options_step[OF dk(1,2) "1.prems"(2) dk(3) m(2)])
      ultimately show ?thesis using pl by blast
    qed
  qed
qed

lemma validated_readable:
  assumes "validate p = Some (1, q)"
  shows "readable q"
proof -
  note same = validate_payload[OF assms]
  obtain t where t: "getTokenLength p = Some t" "0 \<le> t" "COAP_HDR_SIZE + t = pduLength p \<and> q = p\<lparr>numOptions := 0, payloadLength := 0\<rparr> \<or>
      validate_loop (COAP_HDR_SIZE + t) (pduLength p - (COAP_HDR_SIZE + t)) 0 p = Some (1, q)"
    using assms by (auto simp: validate_def Let_def not_less split: if_splits Option.bind_splits)
  from t(3) show ?thesis
  proof
    assume l: "validate_loop (COAP_HDR_SIZE + t) (pduLength p - (COAP_HDR_SIZE + t)) 0 p = Some (1, q)"
    have "0 \<le> COAP_HDR_SIZE + t" using t(2) by (simp add: COAP_HDR_SIZE_def)
    from validate_loop_one[OF l this] obtain k where k: "numOptions q = int k" "safe_options p k (COAP_HDR_SIZE + t)"
      "payloadLength q = 0 \<or> (\<exists>a. payloadPointer q = Some a \<and> 0 \<le> payloadLength q \<and> inside p a (payloadLength q))" by auto
    have "rd q = rd p" "inside q = inside p" using same by (simp_all add: fun_eq_iff rd_def inside_def)
    then have "getTokenLength q = Some t" "inside q = inside p" using t(1) by (simp_all add: getTokenLength_def)
    moreover obtain os where "getOptions_loop k (COAP_HDR_SIZE + t) 0 p = Some os"
      "\<forall>o1 \<in> set os. inside p (opt_valuePointer o1) (int (unat (opt_valueLength o1)))"
      using k(2) unfolding safe_options_def by blast
    ultimately show ?thesis using k(1,3) same getOptions_loop_cong[of q p] by (simp add: readable_def getOptions_def)
  qed (simp add: readable_def getOptions_def)
qed

subsection \<open>A readable message can be printed\<close>

lemma getOptions_loop_length: "getOptions_loop k i num p = Some os \<Longrightarrow> length os = k"
  by (induction k arbitrary: i num os) (auto simp: Let_def split: Option.bind_splits)

lemma bytes_inside:
  assumes "inside q a n" "0 \<le> n" "pduLength q \<le> int (length (pdu q))"
  shows "\<exists>bs. bytes_at q a (nat n) = Some bs"
  using assms by (simp add: inside_def bytes_at_def Let_def)

lemma options_text_defined:
  assumes "\<forall>i \<in> set is. i < length os" "\<forall>o1 \<in> set os. inside p (opt_valuePointer o1) (int (unat (opt_valueLength o1)))"
    "pduLength p \<le> int (length (pdu p))"
  shows "\<exists>s. options_text p (Some os) is = Some s"
  using assms(1)
proof (induction "is")
  case (Cons i "is")
  then have "os ! i \<in> set os" by simp
  then obtain bs where "bytes_at p (opt_valuePointer (os ! i)) (unat (opt_valueLength (os ! i))) = Some bs"
    using assms(2,3) bytes_inside[of p "opt_valuePointer (os ! i)" "int (unat (opt_valueLength (os ! i)))"] by auto
  then show ?case using Cons by (auto simp: option_text_def Let_def)
qed simp

text \<open>What is printed lies inside the message; only without memory for the options is there nothing to print them from.\<close>

lemma printed:
  assumes "readable q" "pduLength q \<le> int (length (pdu q))" "4 \<le> pduLength q" "0 \<le> numOptions q"
    "getTokenLength q = Some t" "COAP_HDR_SIZE + t \<le> pduLength q"
  shows "printHuman mem q = None \<longleftrightarrow> \<not> mem \<and> numOptions q \<noteq> 0"
proof -
  have t0: "0 \<le> t" using assms(5) by (auto simp: getTokenLength_def split: Option.bind_splits)
  have rd: "\<exists>b. rd q i = Some b" if "0 \<le> i" "i < 4" for i using assms(2,3) that by (simp add: rd_def)
  obtain b0 b1 b2 b3 where b: "rd q 0 = Some b0" "rd q 1 = Some b1" "rd q 2 = Some b2" "rd q 3 = Some b3"
    using rd[of 0] rd[of 1] rd[of 2] rd[of 3] by auto
  have "\<exists>bs. bytes_at q (pdu_addr q + COAP_HDR_SIZE) (nat t) = Some bs"
    using t0 assms(2,6) by (simp add: bytes_at_def Let_def COAP_HDR_SIZE_def)
  then have "\<exists>token. token_text q = Some token" using assms(5) by (cases "t = 0") (auto simp: token_text_def)
  then obtain token where token: "token_text q = Some token" by blast
  have "\<exists>payload. payload_text q = Some payload"
  proof (cases "payloadLength q = 0")
    case False
    then obtain a where a: "payloadPointer q = Some a" "0 \<le> payloadLength q" "inside q a (payloadLength q)"
      using assms(1) by (auto simp: readable_def)
    then have "\<exists>bs. bytes_at q a (nat (payloadLength q)) = Some bs" using bytes_inside assms(2) by simp
    then show ?thesis using a(1) by (auto simp: payload_text_def)
  qed (simp add: payload_text_def)
  then obtain payload where payload: "payload_text q = Some payload" by blast
  obtain os where os: "getOptions True q = Some os"
    "\<forall>o1 \<in> set (case os of None \<Rightarrow> [] | Some xs \<Rightarrow> xs). inside q (opt_valuePointer o1) (int (unat (opt_valueLength o1)))"
    using assms(1) by (auto simp: readable_def)
  have all: "\<exists>opts. options_text q os [0..<nat (numOptions q)] = Some opts"
  proof (cases "numOptions q = 0")
    case False
    then obtain xs where xs: "os = Some xs" "getOptions_loop (nat (numOptions q)) (COAP_HDR_SIZE + t) 0 q = Some xs"
      using os(1) assms(5) by (cases os) (auto simp: getOptions_def split: Option.bind_splits)
    note getOptions_loop_length[OF xs(2)]
    then show ?thesis using options_text_defined[of "[0..<nat (numOptions q)]" xs q] xs(1) os(2) assms(2) by auto
  qed simp
  show ?thesis
  proof (cases "mem \<or> numOptions q = 0")
    case True
    then have "getOptions mem q = Some os" using os(1) by (auto simp: getOptions_def)
    moreover obtain opts where "options_text q os [0..<nat (numOptions q)] = Some opts" using all by blast
    moreover have "getVersion q = Some (drop_bit 6 (b0 AND 0xC0))" "getType q = Some (b0 AND 0x30)" "getCode q = Some b1"
      "getMessageID q = Some (push_bit 8 (ucast b2) OR ucast b3)"
      using b by (simp_all add: getVersion_def getType_def getCode_def getMessageID_def load16_def)
    ultimately have "\<exists>s. printHuman mem q = Some s" using assms(5) token payload unfolding printHuman_def Let_def by simp
    then show ?thesis using True by auto
  next
    case False
    then have "nat (numOptions q) \<noteq> 0" using assms(4) by simp
    then have "options_text q None [0..<nat (numOptions q)] = None" by (cases "nat (numOptions q)") (simp_all add: upt_conv_Cons option_text_def del: upt_Suc)
    then show ?thesis using False
      by (auto simp: printHuman_def getOptions_def split: Option.bind_splits)
  qed
qed

lemma validated_header:
  assumes "validate p = Some (1, q)"
  shows "4 \<le> pduLength q" "\<exists>t. getTokenLength q = Some t \<and> COAP_HDR_SIZE + t \<le> pduLength q" "0 \<le> numOptions q"
    "pdu q = pdu p" "pdu_addr q = pdu_addr p" "pduLength q = pduLength p"
proof -
  note v = validate_payload[OF assms]
  obtain t where t: "getTokenLength p = Some t" "0 \<le> t" "COAP_HDR_SIZE + t \<le> pduLength p"
    using assms by (auto simp: validate_def Let_def not_less split: if_splits Option.bind_splits)
  have "rd q = rd p" using v by (simp add: fun_eq_iff rd_def)
  then show "\<exists>t. getTokenLength q = Some t \<and> COAP_HDR_SIZE + t \<le> pduLength q" using t v by (simp add: getTokenLength_def)
  show "4 \<le> pduLength q" using t v by (simp add: COAP_HDR_SIZE_def)
qed (use validate_payload[OF assms] in simp_all)

lemma validated_printed:
  assumes "pduLength p \<le> int (length (pdu p))" "validate p = Some (1, q)"
  shows "printHuman mem q = None \<longleftrightarrow> \<not> mem \<and> numOptions q \<noteq> 0"
proof -
  note h = validated_header[OF assms(2)]
  obtain t where "getTokenLength q = Some t" "COAP_HDR_SIZE + t \<le> pduLength q" using h(2) by blast
  from printed[OF validated_readable[OF assms(2)] _ h(1,3) this] show ?thesis using h assms(1) by simp
qed

text \<open>A message that was built, and not parsed.\<close>

lemma encs_inside:
  assumes "pdu p = A @ encs prev xs @ S" "sized xs" "int (length (A @ encs prev xs)) \<le> pduLength p"
  shows "\<exists>os. getOptions_loop (length xs) (int (length A)) prev p = Some os \<and>
    (\<forall>o1 \<in> set os. inside p (opt_valuePointer o1) (int (unat (opt_valueLength o1))))"
  using assms
proof (induction xs arbitrary: A prev)
  case (Cons x xs)
  let ?d = "fst x - prev" and ?l = "of_nat (length (snd x)) :: u16"
  have p: "pdu p = A @ enc_head ?d ?l @ snd x @ encs (fst x) xs @ S" using Cons.prems(1) by (simp add: enc_def)
  have l: "int (unat ?l) = int (length (snd x))" using Cons.prems(2) by (simp add: sized_def unat_of_nat_u16)
  have tot: "option_total ?d ?l = int (length (enc prev x))" using Cons.prems(2) enc_length[of x prev] by (simp add: sized_def)
  obtain os where os: "getOptions_loop (length xs) (int (length (A @ enc prev x))) (fst x) p = Some os"
    "\<forall>o1 \<in> set os. inside p (opt_valuePointer o1) (int (unat (opt_valueLength o1)))"
    using Cons.IH[of "A @ enc prev x" "fst x"] Cons.prems by (auto simp: sized_def)
  have "inside p (pdu_addr p + (int (length A) + option_total ?d ?l - int (unat ?l))) (int (unat ?l))"
    unfolding tot l using Cons.prems(3) by (simp add: inside_def enc_def)
  then show ?case using os read_delta[OF p] read_length[OF p] tot by (simp add: Let_def)
qed simp

lemma own_printed:
  assumes "pdu p = hdr @ tok @ encs 0 xs @ S" "length hdr = 4" "unat (hdr ! 0 AND 0x0F) = length tok" "sized xs"
    "numOptions p = int (length xs)" "int (length (hdr @ tok @ encs 0 xs)) \<le> pduLength p" "pduLength p \<le> int (length (pdu p))"
    "payloadLength p = 0 \<or> (\<exists>a. payloadPointer p = Some a \<and> 0 \<le> payloadLength p \<and> inside p a (payloadLength p))"
  shows "\<exists>s. printHuman True p = Some s"
proof -
  have "rd p 0 = Some (hdr ! 0)" using rd_first[OF assms(1,2)] by simp
  moreover have "int (unat (hdr ! 0 AND 0x0F)) = int (length tok)" using assms(3) by simp
  ultimately have t: "getTokenLength p = Some (int (length tok))" by (simp add: getTokenLength_def)
  have "pdu p = (hdr @ tok) @ encs 0 xs @ S" using assms(1) by simp
  from encs_inside[OF this assms(4)] assms(6) obtain os where
    os: "getOptions_loop (length xs) (COAP_HDR_SIZE + int (length tok)) 0 p = Some os"
    "\<forall>o1 \<in> set os. inside p (opt_valuePointer o1) (int (unat (opt_valueLength o1)))"
    using assms(2) by (auto simp: COAP_HDR_SIZE_def)
  have "readable p" using os t assms(5,8) by (auto simp: readable_def getOptions_def)
  from printed[OF this assms(7) _ _ t, of True] show ?thesis using assms(2,5,6) by (auto simp: COAP_HDR_SIZE_def)
qed



end
