(* ===== verification/Coap_Client.thy ===== *)
theory Coap_Client imports Client_Queue Client_Print begin

section \<open>The client (\<open>client/CoapRequest.cpp\<close>, \<open>client/CoapClient.cpp\<close>)\<close>

text \<open>
  The client sends requests, keeps them in its queue until a response arrives or the timer has fired often
  enough, and tells the caller. What Sming and the SDK answer are arguments: whether \<open>connect\<close> succeeds, the
  clock, \<open>rand\<close>, the parsed URL, the name service, the heap. A callback of the caller is a number, and its
  calls are logged in \<open>calls\<close>; what a callback itself asks of the client is the next event. \<open>sent_pdus\<close> logs
  the datagrams with the request they were sent through. What the code prints of a message is computed, since it
  reads the message for it, and not kept; \<open>COAP_DEBUG\<close> is defined.
\<close>

subsection \<open>Requests\<close>

text \<open>
  A request is a \<open>UdpConnection\<close> of Sming; \<open>udp_open\<close> says that it has its connection \<open>udp\<close>: it gets one when it is
  made, and \<open>close\<close> gives it back and leaves a null pointer. Only an open request receives.
\<close>

record CoapRequest =
  req_ip :: u32
  req_port :: int
  tid :: int
  connected :: bool
  udp_open :: bool

definition new_request :: "u32 \<Rightarrow> int \<Rightarrow> CoapRequest" where
  "new_request ip port = \<lparr>req_ip = ip, req_port = port, tid = COAP_INVALID_TID, connected = False, udp_open = True\<rparr>"

text \<open>
  \<open>sendPDU\<close>; \<open>conn\<close> says whether \<open>connect\<close> would succeed. A connected socket has the address of the request and
  the lower 16 bits of its port. The result: transaction id, request, and the datagram that is sent. There is none
  when the request was closed: then the code reads through the null pointer \<open>udp\<close>.
\<close>

definition sendPDU :: "bool \<Rightarrow> CoapPDU \<Rightarrow> CoapRequest \<Rightarrow> (int \<times> CoapRequest \<times> u8 list) option" where
  "sendPDU conn p req =
    (if \<not> udp_open req then None
     else let req = (if \<not> connected req \<and> conn then req\<lparr>connected := True\<rparr> else req);
         port = (if connected req then ucast (word_of_int (req_port req) :: u16) else word_of_int (req_port req)) :: u32
     in do {
       t \<leftarrow> createTransactionID (req_ip req) port p;
       bytes \<leftarrow> (if 0 \<le> pduLength p \<and> pduLength p \<le> int (length (pdu p)) then Some (take (nat (pduLength p)) (pdu p)) else None);
       Some (t, req\<lparr>tid := t\<rparr>, bytes) })"

subsection \<open>State\<close>

record coap_client =
  pQueue :: "coap_queue list"
  message_id :: u16
  callbacks :: "int \<rightharpoonup> nat"
  basetime :: u32
  timer :: "u32 option"
  requests :: "CoapRequest list"
  calls :: "(nat \<times> bool \<times> CoapPDU) list"
  sent_pdus :: "(nat \<times> u8 list) list"
  freed :: "addr list"

definition new_client :: "u16 \<Rightarrow> coap_client" where
  "new_client random = \<lparr>pQueue = [], message_id = random, callbacks = Map.empty, basetime = 0, timer = None,
     requests = [], calls = [], sent_pdus = [], freed = []\<rparr>"

text \<open>
  The destructor of \<open>CoapPDU\<close> gives the bytes of an object back that was not made from a buffer. The class has no
  copy constructor, and a callback takes its message by value: the copy has the pointer of the original, and
  its destructor gives the same bytes back when the call is over. \<open>freed\<close> logs what destructors give back.
\<close>

definition destroy_pdu :: "CoapPDU \<Rightarrow> coap_client \<Rightarrow> coap_client" where
  "destroy_pdu p c = (if constructedFromBuffer p then c else c\<lparr>freed := freed c @ [pdu_addr p]\<rparr>)"

definition coapDeleteNode :: "coap_queue \<Rightarrow> coap_client \<Rightarrow> coap_client" where
  "coapDeleteNode node c = destroy_pdu (q_pdu node) c"

definition call_back :: "int \<Rightarrow> bool \<Rightarrow> CoapPDU \<Rightarrow> coap_client \<Rightarrow> coap_client" where
  "call_back t successful p c =
    (case callbacks c t of None \<Rightarrow> c | Some f \<Rightarrow> destroy_pdu p (c\<lparr>calls := calls c @ [(f, successful, p)]\<rparr>))"

text \<open>Sending through the request \<open>r\<close> of the client.\<close>

definition send_through :: "bool \<Rightarrow> nat \<Rightarrow> CoapPDU \<Rightarrow> coap_client \<Rightarrow> (int \<times> coap_client) option" where
  "send_through conn r p c =
    (if r < length (requests c) then do {
       (t, req, bytes) \<leftarrow> sendPDU conn p (requests c ! r);
       Some (t, c\<lparr>requests := (requests c)[r := req], sent_pdus := sent_pdus c @ [(r, bytes)]\<rparr>) }
     else None)"

definition close_request :: "nat \<Rightarrow> coap_client \<Rightarrow> coap_client" where
  "close_request r c = c\<lparr>requests := (requests c)[r := (requests c ! r)\<lparr>udp_open := False\<rparr>]\<rparr>"

subsection \<open>The timer\<close>

definition SYS_TIME_MAX :: u32 where "SYS_TIME_MAX = 0xFFFFFFFF div 1000"
definition COAP_DEFAULT_RESPONSE_TIMEOUT :: u32 where "COAP_DEFAULT_RESPONSE_TIMEOUT = 2"
definition COAP_TICKS_PER_SECOND :: u32 where "COAP_TICKS_PER_SECOND = 1000"
definition COAP_DEFAULT_MAX_RETRANSMIT :: u8 where "COAP_DEFAULT_MAX_RETRANSMIT = 4"

definition timerRestart :: "coap_client \<Rightarrow> coap_client" where
  "timerRestart c = (case pQueue c of [] \<Rightarrow> c | q # qs \<Rightarrow> c\<lparr>timer := Some (q_t q)\<rparr>)"

definition timerStop :: "coap_client \<Rightarrow> coap_client" where
  "timerStop c = c\<lparr>timer := None\<rparr>"

text \<open>\<open>time\<close> is what \<open>system_get_time\<close> returns, in microseconds.\<close>

definition timerElapsed :: "u32 \<Rightarrow> coap_client \<Rightarrow> u32 \<times> coap_client" where
  "timerElapsed time c =
    (let now = time div 1000;
         diff = (if now \<ge> basetime c then now - basetime c else now + SYS_TIME_MAX - basetime c)
     in (diff, c\<lparr>basetime := now\<rparr>))"

definition timerUpdate :: "u32 \<Rightarrow> coap_client \<Rightarrow> coap_client" where
  "timerUpdate time c =
    (case timerElapsed time c of (diff, c) \<Rightarrow>
       (case pQueue c of
          [] \<Rightarrow> c
        | q # qs \<Rightarrow> c\<lparr>pQueue := q\<lparr>q_t := (if q_t q \<ge> diff then q_t q - diff else 0)\<rparr> # qs\<rparr>))"

text \<open>The timer is started for one shot: when it has fired it is no longer armed.\<close>

definition timerTick :: "bool \<Rightarrow> coap_client \<Rightarrow> coap_client option" where
  "timerTick conn c =
    (case coapPopNext (pQueue c) of
       (None, _) \<Rightarrow> None
     | (Some node, qs) \<Rightarrow> do {
         ty \<leftarrow> getType (q_pdu node);
         let c = c\<lparr>pQueue := qs, timer := None\<rparr>;
         c \<leftarrow> (if ty = COAP_NON_CONFIRMABLE then Some (coapDeleteNode node (call_back (q_id node) False (q_pdu node) c))
              else if retransmit_cnt node < COAP_DEFAULT_MAX_RETRANSMIT then
                let cnt = retransmit_cnt node + 1;
                    node = node\<lparr>retransmit_cnt := cnt, q_t := push_bit (unat cnt) (q_timeout node)\<rparr>
                in do {
                  (t, c) \<leftarrow> send_through conn (q_req node) (q_pdu node) c;
                  Some (if t = COAP_INVALID_TID then coapDeleteNode node c
                        else c\<lparr>pQueue := coapAddNode (pQueue c) (node\<lparr>q_id := t\<rparr>)\<rparr>) }
              else Some (coapDeleteNode node (call_back (q_id node) False (q_pdu node) c)));
         Some (timerRestart c) })"

subsection \<open>Sending a request\<close>

definition response_timeout :: "u32 \<Rightarrow> u32" where
  "response_timeout r = COAP_DEFAULT_RESPONSE_TIMEOUT * COAP_TICKS_PER_SECOND +
     drop_bit 1 COAP_DEFAULT_RESPONSE_TIMEOUT * drop_bit 8 (COAP_TICKS_PER_SECOND * (r AND 0xFF))"

text \<open>\<open>mem\<close>: there is memory for the node; \<open>r\<close>: what \<open>rand\<close> returns; \<open>i\<close>: the number of the request.\<close>

definition doRequest :: "bool \<Rightarrow> bool \<Rightarrow> u32 \<Rightarrow> u32 \<Rightarrow> nat \<Rightarrow> CoapPDU \<Rightarrow> coap_client \<Rightarrow> (int \<times> coap_client) option" where
  "doRequest mem conn r time i p c =
    (if \<not> mem then Some (COAP_INVALID_TID, c)
     else do {
       ty \<leftarrow> getType p;
       let timeout = (if ty = COAP_CONFIRMABLE then response_timeout r else COAP_DEFAULT_RESPONSE_TIMEOUT * COAP_TICKS_PER_SECOND);
       _ \<leftarrow> printHex p;
       (t, c) \<leftarrow> send_through conn i p c;
       let c = timerUpdate time (timerStop c);
       let node = \<lparr>q_t = timeout, retransmit_cnt = 0, q_timeout = timeout, q_id = t, q_pdu = p, q_req = i\<rparr>;
       Some (t, timerRestart (c\<lparr>pQueue := coapAddNode (pQueue c) node\<rparr>)) })"

text \<open>\<open>path\<close>: path and query of the URL, terminated by a zero; \<open>a\<close>: where \<open>calloc\<close> put the bytes of the object.\<close>

definition builPDU :: "realloc_fn \<Rightarrow> addr \<Rightarrow> u8 \<Rightarrow> u8 \<Rightarrow> u8 list \<Rightarrow> u16 \<Rightarrow> u8 list \<Rightarrow> coap_client \<Rightarrow> (CoapPDU \<times> coap_client) option" where
  "builPDU realloc a conn_type method path format payload c = do {
     p \<leftarrow> newPDU a;
     (r, p) \<leftarrow> setVersion 1 p;
     p \<leftarrow> setType conn_type p;
     p \<leftarrow> setCode method p;
     (r, p) \<leftarrow> setToken realloc (Some [3, 2, 1, 1, 0]) 4 p;
     p \<leftarrow> setMessageID (message_id c) p;
     (r, p) \<leftarrow> setURI realloc (Some path) (int (length path) - 1) p;
     (r, p) \<leftarrow> setContentFormat realloc format p;
     (r, p) \<leftarrow> (if payload = [] then Some (0, p) else setPayload realloc (Some payload) (int (length payload)) p);
     Some (p, c\<lparr>message_id := message_id c + 1\<rparr>) }"

record URL =
  Host :: "u8 list"
  Port :: int
  PathWithQuery :: "u8 list"

datatype dns_result = Dns_ok u32 | Dns_in_progress | Dns_error

definition COAP_DEFAULT_PORT :: int where "COAP_DEFAULT_PORT = 5683"

record client_env =
  env_realloc :: realloc_fn
  env_calloc :: addr
  env_node_memory :: bool
  env_option_memory :: bool
  env_connects :: bool
  env_random :: u32
  env_dns :: "u8 list \<Rightarrow> dns_result"

text \<open>
  The result of \<open>request\<close> itself is 0, or what a debug function returns. \<open>env_option_memory\<close>: there is memory for the
  array of options while the message is printed.
\<close>

definition request :: "client_env \<Rightarrow> u32 \<Rightarrow> u8 \<Rightarrow> u8 \<Rightarrow> URL \<Rightarrow> u16 \<Rightarrow> u8 list \<Rightarrow> nat \<Rightarrow> coap_client \<Rightarrow> coap_client option" where
  "request env time conn_type method url format payload callback c =
    (let conn_type = (if conn_type \<noteq> COAP_CONFIRMABLE \<and> conn_type \<noteq> COAP_NON_CONFIRMABLE then COAP_CONFIRMABLE else conn_type);
         port = (if Port url = 80 then COAP_DEFAULT_PORT else Port url)
     in if Host url = [] then Some c
        else (case env_dns env (Host url) of
            Dns_ok ip \<Rightarrow> do {
              (p, c) \<leftarrow> builPDU (env_realloc env) (env_calloc env) conn_type method (PathWithQuery url) format payload c;
              _ \<leftarrow> printHuman (env_option_memory env) p;
              let i = length (requests c);
              let c = c\<lparr>requests := requests c @ [new_request ip port]\<rparr>;
              (t, c) \<leftarrow> doRequest (env_node_memory env) (env_connects env) (env_random env) time i p c;
              Some (c\<lparr>callbacks := (callbacks c)(t \<mapsto> callback)\<rparr>) }
          | Dns_in_progress \<Rightarrow> Some c
          | Dns_error \<Rightarrow> Some c))"

definition COAP_GET :: u8 where "COAP_GET = 1"
definition COAP_POST :: u8 where "COAP_POST = 2"
definition COAP_PUT :: u8 where "COAP_PUT = 3"
definition COAP_DELETE :: u8 where "COAP_DELETE = 4"

definition client_get :: "client_env \<Rightarrow> u32 \<Rightarrow> u8 \<Rightarrow> URL \<Rightarrow> nat \<Rightarrow> coap_client \<Rightarrow> coap_client option" where
  "client_get env time connType url callback = request env time connType COAP_GET url COAP_CONTENT_FORMAT_TEXT_PLAIN [] callback"

definition client_post :: "client_env \<Rightarrow> u32 \<Rightarrow> u8 \<Rightarrow> URL \<Rightarrow> u16 \<Rightarrow> u8 list \<Rightarrow> nat \<Rightarrow> coap_client \<Rightarrow> coap_client option" where
  "client_post env time connType url format payload callback = request env time connType COAP_POST url format payload callback"

definition client_put :: "client_env \<Rightarrow> u32 \<Rightarrow> u8 \<Rightarrow> URL \<Rightarrow> u16 \<Rightarrow> u8 list \<Rightarrow> nat \<Rightarrow> coap_client \<Rightarrow> coap_client option" where
  "client_put env time connType url format payload callback = request env time connType COAP_PUT url format payload callback"

definition client_del :: "client_env \<Rightarrow> u32 \<Rightarrow> u8 \<Rightarrow> URL \<Rightarrow> nat \<Rightarrow> coap_client \<Rightarrow> coap_client option" where
  "client_del env time connType url callback = request env time connType COAP_DELETE url COAP_CONTENT_FORMAT_TEXT_PLAIN [] callback"

definition client_observe :: "client_env \<Rightarrow> u32 \<Rightarrow> u8 \<Rightarrow> URL \<Rightarrow> nat \<Rightarrow> coap_client \<Rightarrow> coap_client option" where
  "client_observe env time connType url callback = request env time connType COAP_GET url COAP_CONTENT_FORMAT_TEXT_PLAIN [] callback"

subsection \<open>A response\<close>

definition COAP_RESPONSE_CLASS :: "u8 \<Rightarrow> u8" where "COAP_RESPONSE_CLASS c = drop_bit 5 c"

text \<open>
  \<open>onResponse\<close> for the request \<open>i\<close>; no value when the queue has no node of its transaction id, see \<open>coapGetNodeById\<close>.
  A response that the caller has been told of closes the request.
\<close>

definition onResponse :: "u32 \<Rightarrow> bool \<Rightarrow> nat \<Rightarrow> CoapPDU \<Rightarrow> coap_client \<Rightarrow> coap_client option" where
  "onResponse time successful i p c =
    (if \<not> i < length (requests c) then None
     else if \<not> successful then Some c
     else
       let t = tid (requests c ! i) in do {
         _ \<leftarrow> getType p;
         node \<leftarrow> coapGetNodeById (pQueue c) t;
         (case node of
             None \<Rightarrow> Some c
           | Some node \<Rightarrow> do {
               _ \<leftarrow> getType (q_pdu node);
               let c = timerStop c;
               let c = (if callbacks c t \<noteq> None then
                          let c = call_back t True p c;
                              c = close_request i (c\<lparr>callbacks := (callbacks c)(t := None)\<rparr>)
                          in coapDeleteNode node (c\<lparr>pQueue := snd (coapRemoveNode (pQueue c) t)\<rparr>)
                        else c);
               let c = timerRestart (timerUpdate time c);
               code \<leftarrow> getCode p;
               _ \<leftarrow> (if COAP_RESPONSE_CLASS code = 2 \<or> COAP_RESPONSE_CLASS code \<ge> 4 then printHex p else Some []);
               Some c }) })"

text \<open>
  \<open>onReceive\<close> of \<open>CoapRequest\<close>: \<open>data\<close> is the datagram, \<open>behind\<close> the memory after it; \<open>mem\<close>: there is memory for the
  array of options while the message is printed.
\<close>

definition onReceive :: "bool \<Rightarrow> u32 \<Rightarrow> addr \<Rightarrow> nat \<Rightarrow> u8 list \<Rightarrow> u8 list \<Rightarrow> coap_client \<Rightarrow> coap_client option" where
  "onReceive mem time a i data behind c = do {
     p \<leftarrow> PDU_of_bytes a (data @ behind) (int (length data));
     (r, p) \<leftarrow> validate p;
     if r \<noteq> 1 then onResponse time False i p c
     else do { _ \<leftarrow> printHuman mem p; onResponse time True i p c } }"

end
