(* ===== verification/Client_Build.thy ===== *)
theory Client_Build imports Coap_Client begin

section \<open>Building a request\<close>

text \<open>
  What \<open>builPDU\<close> makes of a URL, a content format and a payload, when the heap does not run out: the header,
  the client's token, the options and the payload. \<open>uri_text\<close> is the text of a path and a query, \<open>uri_options\<close>
  the options it stands for.
\<close>

subsection \<open>Options of an object that owns its bytes\<close>

definition never_fails :: "realloc_fn \<Rightarrow> bool" where
  "never_fails realloc \<longleftrightarrow> (\<forall>a n. realloc a n \<noteq> None)"

definition owned_msg :: "u8 list \<Rightarrow> u8 list \<Rightarrow> (u16 \<times> u8 list) list \<Rightarrow> CoapPDU \<Rightarrow> bool" where
  "owned_msg hdr tok opts p \<longleftrightarrow> client_msg hdr tok opts [] p \<and> \<not> constructedFromBuffer p \<and>
     payloadPointer p = None \<and> payloadLength p = 0"

lemma ensure_owned: "never_fails r \<Longrightarrow> \<not> constructedFromBuffer p \<Longrightarrow> ensure_space r n p \<noteq> None"
  by (auto simp: ensure_space_def never_fails_def split: option.splits)

lemma copy_in_take: "k \<le> n \<Longrightarrow> n \<le> length src \<Longrightarrow> copy_in i (take n src) k p = copy_in i src k p"
  by (simp add: copy_in_def min_def)

lemma put_length_le: "put_length h i n p = Some (j, k, q) \<Longrightarrow> unat k \<le> unat n"
  by (auto simp: put_length_def Let_def unat_sub not_less split: Option.bind_splits if_splits)

lemma insertOption_take:
  assumes "unat n \<le> length src"
  shows "insertOption i d n (take (unat n) src) p = insertOption i d n src p"
proof -
  have "copy_in (j + 1) (take (unat n) src) (unat k) q' = copy_in (j + 1) src (unat k) q'"
    if "put_length i i' n q = Some (j, k, q')" for i' j k q q'
    using copy_in_take[OF put_length_le[OF that] assms] .
  then show ?thesis unfolding insertOption_def by (auto intro!: Option.bind_cong)
qed

lemma addOption_take:
  assumes "unat n \<le> length src"
  shows "addOption realloc num n src p = addOption realloc num n (take (unat n) src) p"
  unfolding addOption_def add_option_at_end_def add_option_before_def insertOption_take[OF assms] ..

lemma add_owned:
  assumes "owned_msg hdr tok opts p" "never_fails realloc" "length v < 269" "take (length v) src = v"
  shows "\<exists>q. addOption realloc num (of_nat (length v)) src p = Some (0, q) \<and> owned_msg hdr tok (insert_opt (num, v) opts) q"
proof -
  have le: "length v \<le> length src" using assms(4) by (metis length_take min.cobounded1)
  have c: "client_msg hdr tok opts [] p" and o: "\<not> constructedFromBuffer p" using assms(1) by (simp_all add: owned_msg_def)
  have n: "unat (of_nat (length v) :: u16) = length v" using assms(3) by (simp add: unat_of_nat_u16)
  have "addOption realloc num (of_nat (length v)) src p = addOption realloc num (of_nat (length v)) v p"
    using addOption_take[of "of_nat (length v)" src] le n assms(4) by simp
  moreover obtain q v' where "addOption realloc num (of_nat (length v)) v p = Some (0, q)" "stored v v'"
    "client_msg hdr tok (insert_opt (num, v') opts) [] q" "same_fields p q"
    using add_option_correct[OF c, of v num realloc] assms(3) ensure_owned[OF assms(2) o] by auto
  ultimately show ?thesis using stored_short[of v v'] assms(1,3) by (auto simp: owned_msg_def same_fields_def)
qed

lemma owned_sorted: "owned_msg hdr tok opts p \<Longrightarrow> sorted (map fst opts)"
  by (simp add: owned_msg_def client_msg_def)

lemma append_owned:
  assumes "owned_msg hdr tok opts p" "never_fails realloc" "length v < 269" "take (length v) src = v" "last_num 0 opts \<le> num"
  shows "\<exists>q. addOption realloc num (of_nat (length v)) src p = Some (0, q) \<and> owned_msg hdr tok (opts @ [(num, v)]) q"
  using add_owned[OF assms(1-4), of num] insert_opt_end[OF owned_sorted[OF assms(1)], of "(num, v)"] assms(5) by simp

subsection \<open>The URI\<close>

definition plain :: "u8 list \<Rightarrow> bool" where
  "plain s \<longleftrightarrow> s \<noteq> [] \<and> length s < 269 \<and> 0 \<notin> set s \<and> 47 \<notin> set s \<and> 63 \<notin> set s \<and> 38 \<notin> set s"

definition path_text :: "u8 list list \<Rightarrow> u8 list" where
  "path_text segs = concat (map (\<lambda>s. 47 # s) segs)"

definition query_text :: "u8 list list \<Rightarrow> u8 list" where
  "query_text qs = (case qs of [] \<Rightarrow> [] | q # qs \<Rightarrow> 63 # q @ concat (map (\<lambda>s. 38 # s) qs))"

definition uri_text :: "u8 list list \<Rightarrow> u8 list list \<Rightarrow> u8 list" where
  "uri_text segs qs = path_text segs @ query_text qs @ [0]"

lemma strchr_at: "c \<notin> set s \<Longrightarrow> 0 \<notin> set s \<Longrightarrow> strchr c (s @ c # R) = Some (Some (length s))"
  by (induction s) auto

lemma strchr_none: "c \<notin> set s \<Longrightarrow> 0 \<notin> set s \<Longrightarrow> c \<noteq> 0 \<Longrightarrow> strchr c (s @ [0]) = Some None"
  by (induction s) auto

lemma strchr_total: "0 \<in> set s \<Longrightarrow> \<exists>b. strchr c s = Some b"
  by (induction s) auto

text \<open>One round of the loop: a segment \<open>s\<close>, with or without its separator in front.\<close>

lemma uri_round:
  assumes uri: "uri = pre @ lead @ s @ rest" "lead @ s @ rest = x # y # zs" "x \<noteq> 0" "y \<noteq> 0"
    and lead: "lead = [sep] \<or> lead = [] \<and> x \<noteq> sep"
    and a: "strchr sep (s @ rest) = Some a" and b: "strchr 63 (s @ rest) = Some b"
    and e: "a = Some (length s) \<or> a = None \<and> (b = Some (length s) \<or> b = None \<and> rest = [0])"
  shows "setURI_loop realloc uri (int (length uri) - 1) (length pre) sep ty p = do {
     (r, p) \<leftarrow> addOption realloc ty (of_nat (length s)) (s @ rest) p;
     if r \<noteq> 0 then Some (1, p)
     else if a = None \<and> b \<noteq> None
     then setURI_loop realloc uri (int (length uri) - 1) (length (pre @ lead @ s) + 1) 38 COAP_OPTION_URI_QUERY p
     else setURI_loop realloc uri (int (length uri) - 1) (length (pre @ lead @ s)) sep ty p }"
proof -
  have u: "uri = pre @ x # y # zs" using uri(1,2) by simp
  have c: "char_at uri (length pre) = Some x" "char_at uri (length pre + 1) = Some y"
    unfolding u by (simp_all add: char_at_def nth_append)
  have start: "(if x = sep then length pre + 1 else length pre) = length (pre @ lead)" using uri(2) lead by auto
  have d: "drop (length (pre @ lead)) uri = s @ rest" by (simp add: uri(1))
  define q where "q = (if a = None then b else None)"
  have q: "(if a = None then strchr 63 (s @ rest) else Some None) = Some q" using b by (simp add: q_def)
  define endP where "endP = (case a of Some k \<Rightarrow> int (length (pre @ lead) + k)
    | None \<Rightarrow> (case q of Some k \<Rightarrow> int (length (pre @ lead) + k) | None \<Rightarrow> int (length uri) - 1))"
  have stop: "endP = int (length (pre @ lead @ s))" using e uri(1) by (auto simp: endP_def q_def)
  have len: "(word_of_int (endP - int (length (pre @ lead))) :: u16) = of_nat (length s)" by (simp add: stop)
  have nat_stop: "nat endP = length (pre @ lead @ s)" by (simp add: stop)
  have "q \<noteq> None \<longleftrightarrow> a = None \<and> b \<noteq> None" by (auto simp: q_def)
  then show ?thesis
    using uri(3,4) by (subst setURI_loop.simps)
      (simp only: c bind.bind_lunit if_False Let_def start d a q endP_def[symmetric] len nat_stop simp_thms)
qed

text \<open>The end of the string ends the loop.\<close>

lemma uri_done: "uri = pre @ [0] \<Longrightarrow> setURI_loop realloc uri n (length pre) sep ty p = Some (0, p)"
  by (subst setURI_loop.simps) (simp add: char_at_def nth_append)

abbreviation query_tail :: "u8 list list \<Rightarrow> u8 list" where
  "query_tail qs \<equiv> concat (map (\<lambda>s. 38 # s) qs)"

lemma query_tail_chars: "\<forall>q \<in> set qs. plain q \<Longrightarrow> c \<in> set (query_tail qs) \<Longrightarrow> c \<noteq> 0 \<and> c \<noteq> 47 \<and> c \<noteq> 63"
  by (auto simp: plain_def split: if_splits)

text \<open>Where a query ends: at the next ampersand or at the end; there is no further question mark.\<close>

lemma query_ends:
  assumes "plain q" "\<forall>q \<in> set qs. plain q"
  shows "strchr 38 (q @ query_tail qs @ [0]) = Some (if qs = [] then None else Some (length q))"
    "strchr 63 (q @ query_tail qs @ [0]) = Some None" "qs = [] \<Longrightarrow> query_tail qs @ [0] = [0]"
proof -
  show "strchr 38 (q @ query_tail qs @ [0]) = Some (if qs = [] then None else Some (length q))"
    using strchr_at[of 38 q] strchr_none[of 38 q] assms(1) by (cases qs) (auto simp: plain_def)
  show "strchr 63 (q @ query_tail qs @ [0]) = Some None"
    using strchr_none[of 63 "q @ query_tail qs"] assms(1) query_tail_chars[OF assms(2)] by (auto simp: plain_def)
qed simp

lemma plain_Cons: "plain s \<Longrightarrow> \<exists>y zs. s = y # zs \<and> y \<noteq> 0 \<and> y \<noteq> 38 \<and> y \<noteq> 47"
  by (cases s) (auto simp: plain_def)

lemma query_step:
  assumes "uri = pre @ lead @ q @ query_tail qs @ [0]" "plain q" "\<forall>q \<in> set qs. plain q"
    "lead = [38] \<or> lead = [] \<and> (2 \<le> length q \<or> qs \<noteq> [])" "owned_msg hdr tok opts p" "last_num 0 opts \<le> 15" "never_fails realloc"
  shows "\<exists>p'. setURI_loop realloc uri (int (length uri) - 1) (length pre) 38 COAP_OPTION_URI_QUERY p =
      setURI_loop realloc uri (int (length uri) - 1) (length (pre @ lead @ q)) 38 COAP_OPTION_URI_QUERY p' \<and>
    owned_msg hdr tok (opts @ [(15, q)]) p'"
proof -
  note ends = query_ends[OF assms(2,3)]
  have xy: "\<exists>x y zs. lead @ q @ query_tail qs @ [0] = x # y # zs \<and> x \<noteq> 0 \<and> y \<noteq> 0 \<and> (lead = [38] \<or> lead = [] \<and> x \<noteq> 38)"
  proof (cases "lead = [38]")
    case True
    then show ?thesis using plain_Cons[OF assms(2)] by auto
  next
    case False
    then have "lead = []" "2 \<le> length q \<or> qs \<noteq> []" using assms(4) by auto
    moreover obtain x xs where "q = x # xs" "x \<noteq> 0" "x \<noteq> 38" "0 \<notin> set xs" using assms(2) by (cases q) (auto simp: plain_def)
    ultimately show ?thesis by (cases xs; cases qs) auto
  qed
  then obtain x y zs where x: "lead @ q @ query_tail qs @ [0] = x # y # zs" "x \<noteq> 0" "y \<noteq> 0" "lead = [38] \<or> lead = [] \<and> x \<noteq> 38" by blast
  have len: "length q < 269" using assms(2) by (simp add: plain_def)
  have "take (length q) (q @ query_tail qs @ [0]) = q" by simp
  from append_owned[OF assms(5,7) len this assms(6)] obtain p' where
    p': "addOption realloc 15 (of_nat (length q)) (q @ query_tail qs @ [0]) p = Some (0, p')" "owned_msg hdr tok (opts @ [(15, q)]) p'"
    by blast
  have "setURI_loop realloc uri (int (length uri) - 1) (length pre) 38 COAP_OPTION_URI_QUERY p =
      setURI_loop realloc uri (int (length uri) - 1) (length (pre @ lead @ q)) 38 COAP_OPTION_URI_QUERY p'"
    by (subst uri_round[OF assms(1) x ends(1,2)]) (use ends(3) p'(1) in \<open>auto simp: COAP_OPTION_URI_QUERY_def\<close>)
  then show ?thesis using p'(2) by blast
qed

lemma query_loop:
  assumes "uri = pre @ query_tail qs @ [0]" "\<forall>q \<in> set qs. plain q" "owned_msg hdr tok opts p" "last_num 0 opts \<le> 15" "never_fails realloc"
  shows "\<exists>p'. setURI_loop realloc uri (int (length uri) - 1) (length pre) 38 COAP_OPTION_URI_QUERY p = Some (0, p') \<and>
    owned_msg hdr tok (opts @ map (Pair 15) qs) p'"
  using assms
proof (induction qs arbitrary: pre opts p)
  case Nil
  then show ?case using uri_done[of uri pre] by simp
next
  case (Cons q qs)
  have "uri = pre @ [38] @ q @ query_tail qs @ [0]" using Cons.prems(1) by simp
  from query_step[OF this _ _ _ Cons.prems(3-5)] Cons.prems(2) obtain p1 where
    p1: "setURI_loop realloc uri (int (length uri) - 1) (length pre) 38 COAP_OPTION_URI_QUERY p =
      setURI_loop realloc uri (int (length uri) - 1) (length (pre @ [38] @ q)) 38 COAP_OPTION_URI_QUERY p1"
    "owned_msg hdr tok (opts @ [(15, q)]) p1" by auto
  have "\<exists>p'. setURI_loop realloc uri (int (length uri) - 1) (length (pre @ [38] @ q)) 38 COAP_OPTION_URI_QUERY p1 = Some (0, p') \<and>
    owned_msg hdr tok ((opts @ [(15, q)]) @ map (Pair 15) qs) p'"
    by (rule Cons.IH) (use Cons.prems p1(2) in simp_all)
  then show ?case using p1(1) by simp
qed

definition uri_options :: "u8 list list \<Rightarrow> u8 list list \<Rightarrow> (u16 \<times> u8 list) list" where
  "uri_options segs qs = map (Pair 11) segs @ map (Pair 15) qs"

text \<open>A query that consists of one character is lost, see \<open>setURI_loop\<close>: hence the condition on the first.\<close>

definition good_queries :: "u8 list list \<Rightarrow> bool" where
  "good_queries qs \<longleftrightarrow> (\<forall>q \<in> set qs. plain q) \<and> (\<forall>q. qs = [q] \<longrightarrow> 2 \<le> length q)"

lemma path_step:
  assumes "uri = pre @ path_text (s # segs) @ query_text qs @ [0]" "plain s" "\<forall>s \<in> set segs. plain s" "good_queries qs"
    "owned_msg hdr tok opts p" "last_num 0 opts \<le> 11" "never_fails realloc"
  shows "\<exists>p'. owned_msg hdr tok (opts @ [(11, s)]) p' \<and>
    setURI_loop realloc uri (int (length uri) - 1) (length pre) 47 COAP_OPTION_URI_PATH p =
      (if segs = [] \<and> qs \<noteq> []
       then setURI_loop realloc uri (int (length uri) - 1) (length (pre @ 47 # s @ [63])) 38 COAP_OPTION_URI_QUERY p'
       else setURI_loop realloc uri (int (length uri) - 1) (length (pre @ 47 # s)) 47 COAP_OPTION_URI_PATH p')"
proof -
  let ?rest = "path_text segs @ query_text qs @ [0]"
  have s: "47 \<notin> set s" "63 \<notin> set s" "0 \<notin> set s" "length s < 269" using assms(2) by (simp_all add: plain_def)
  have q: "c \<in> set (query_text qs) \<Longrightarrow> c \<noteq> 0 \<and> c \<noteq> 47" for c
    using assms(4) query_tail_chars[of "tl qs" c] by (cases qs) (auto simp: query_text_def good_queries_def plain_def)
  obtain b where b: "strchr 63 (s @ ?rest) = Some b" using strchr_total[of "s @ ?rest" 63] by auto
  have ends: "\<exists>a. strchr 47 (s @ ?rest) = Some a \<and> (a = Some (length s) \<or> a = None \<and> (b = Some (length s) \<or> b = None \<and> ?rest = [0])) \<and>
    (a = None \<and> b \<noteq> None \<longleftrightarrow> segs = [] \<and> qs \<noteq> [])"
  proof (cases segs)
    case (Cons s' ss)
    then show ?thesis using strchr_at[of 47 s] s by (auto simp: path_text_def)
  next
    case Nil
    have "strchr 47 ((s @ query_text qs) @ [0]) = Some None" by (rule strchr_none) (use s q in auto)
    moreover have "b = (if qs = [] then None else Some (length s))"
      using b strchr_none[of 63 s] strchr_at[of 63 s] s Nil by (cases qs) (auto simp: path_text_def query_text_def)
    ultimately show ?thesis using Nil by (cases qs) (auto simp: path_text_def query_text_def)
  qed
  then obtain a where a: "strchr 47 (s @ ?rest) = Some a" "a = Some (length s) \<or> a = None \<and> (b = Some (length s) \<or> b = None \<and> ?rest = [0])"
    "a = None \<and> b \<noteq> None \<longleftrightarrow> segs = [] \<and> qs \<noteq> []" by blast
  have uri: "uri = pre @ [47] @ s @ ?rest" using assms(1) by (simp add: path_text_def)
  obtain y zs where y: "[47] @ s @ ?rest = 47 # y # zs" "y \<noteq> 0" using plain_Cons[OF assms(2)] by auto
  have "take (length s) (s @ ?rest) = s" by simp
  from append_owned[OF assms(5,7) s(4) this assms(6)] obtain p' where
    p': "addOption realloc 11 (of_nat (length s)) (s @ ?rest) p = Some (0, p')" "owned_msg hdr tok (opts @ [(11, s)]) p'"
    by blast
  have "setURI_loop realloc uri (int (length uri) - 1) (length pre) 47 COAP_OPTION_URI_PATH p =
      (if segs = [] \<and> qs \<noteq> []
       then setURI_loop realloc uri (int (length uri) - 1) (length (pre @ 47 # s @ [63])) 38 COAP_OPTION_URI_QUERY p'
       else setURI_loop realloc uri (int (length uri) - 1) (length (pre @ 47 # s)) 47 COAP_OPTION_URI_PATH p')"
    by (subst uri_round[OF uri y(1) _ y(2) _ a(1) b a(2)])
      (use a(3) p'(1) in \<open>auto simp: COAP_OPTION_URI_PATH_def\<close>)
  then show ?thesis using p'(2) by blast
qed

lemma path_loop:
  assumes "uri = pre @ path_text segs @ query_text qs @ [0]" "\<forall>s \<in> set segs. plain s" "good_queries qs" "segs = [] \<longrightarrow> qs = []"
    "owned_msg hdr tok opts p" "last_num 0 opts \<le> 11" "never_fails realloc"
  shows "\<exists>p'. setURI_loop realloc uri (int (length uri) - 1) (length pre) 47 COAP_OPTION_URI_PATH p = Some (0, p') \<and>
    owned_msg hdr tok (opts @ uri_options segs qs) p'"
  using assms
proof (induction segs arbitrary: pre opts p)
  case Nil
  then show ?case using uri_done[of uri pre] by (simp add: path_text_def query_text_def uri_options_def)
next
  case (Cons s segs)
  from path_step[OF Cons.prems(1) _ _ Cons.prems(3,5-7)] Cons.prems(2) obtain p1 where
    p1: "owned_msg hdr tok (opts @ [(11, s)]) p1"
    "setURI_loop realloc uri (int (length uri) - 1) (length pre) 47 COAP_OPTION_URI_PATH p =
      (if segs = [] \<and> qs \<noteq> []
       then setURI_loop realloc uri (int (length uri) - 1) (length (pre @ 47 # s @ [63])) 38 COAP_OPTION_URI_QUERY p1
       else setURI_loop realloc uri (int (length uri) - 1) (length (pre @ 47 # s)) 47 COAP_OPTION_URI_PATH p1)" by auto
  show ?case
  proof (cases "segs = [] \<and> qs \<noteq> []")
    case False
    have "\<exists>p'. setURI_loop realloc uri (int (length uri) - 1) (length (pre @ 47 # s)) 47 COAP_OPTION_URI_PATH p1 = Some (0, p') \<and>
      owned_msg hdr tok ((opts @ [(11, s)]) @ uri_options segs qs) p'"
      by (rule Cons.IH) (use Cons.prems p1(1) False in \<open>auto simp: path_text_def\<close>)
    then show ?thesis using p1(2) False by (auto simp: uri_options_def)
  next
    case True
    then obtain q rest where qs: "qs = q # rest" by (cases qs) auto
    have uri: "uri = (pre @ 47 # s @ [63]) @ [] @ q @ query_tail rest @ [0]"
      using Cons.prems(1) True qs by (simp add: path_text_def query_text_def)
    have good: "plain q" "\<forall>q \<in> set rest. plain q" "[] = [38 :: u8] \<or> [] = ([] :: u8 list) \<and> (2 \<le> length q \<or> rest \<noteq> [])"
      using Cons.prems(3) qs by (auto simp: good_queries_def)
    have "last_num 0 (opts @ [(11, s)]) \<le> 15" by simp
    from query_step[OF uri good p1(1) this Cons.prems(7)] obtain p2 where
      p2: "setURI_loop realloc uri (int (length uri) - 1) (length (pre @ 47 # s @ [63])) 38 COAP_OPTION_URI_QUERY p1 =
        setURI_loop realloc uri (int (length uri) - 1) (length ((pre @ 47 # s @ [63]) @ [] @ q)) 38 COAP_OPTION_URI_QUERY p2"
      "owned_msg hdr tok ((opts @ [(11, s)]) @ [(15, q)]) p2" by blast
    have "\<exists>p'. setURI_loop realloc uri (int (length uri) - 1) (length (pre @ 47 # s @ 63 # q)) 38 COAP_OPTION_URI_QUERY p2 = Some (0, p') \<and>
      owned_msg hdr tok (((opts @ [(11, s)]) @ [(15, q)]) @ map (Pair 15) rest) p'"
      by (rule query_loop) (use uri good(2) p2(2) Cons.prems(7) in simp_all)
    then show ?thesis using p1(2) p2(1) True qs by (simp add: uri_options_def)
  qed
qed

text \<open>\<open>setURI\<close> on the text of a path and a query.\<close>

lemma set_uri_owned:
  assumes "segs \<noteq> []" "\<forall>s \<in> set segs. plain s" "good_queries qs" "owned_msg hdr tok [] p" "never_fails realloc"
  shows "\<exists>q. setURI realloc (Some (uri_text segs qs)) (int (length (uri_text segs qs)) - 1) p = Some (0, q) \<and>
    owned_msg hdr tok (uri_options segs qs) q"
proof -
  have "uri_text segs qs = [] @ path_text segs @ query_text qs @ [0]" by (simp add: uri_text_def)
  from path_loop[OF this assms(2,3) _ assms(4) _ assms(5)] assms(1) obtain q where
    "setURI_loop realloc (uri_text segs qs) (int (length (uri_text segs qs)) - 1) 0 47 COAP_OPTION_URI_PATH p = Some (0, q)"
    "owned_msg hdr tok (uri_options segs qs) q" by auto
  moreover have "3 \<le> length (uri_text segs qs)"
    using assms(1,2) by (cases segs) (auto simp: uri_text_def path_text_def plain_def Suc_le_eq)
  ultimately show ?thesis by (simp add: setURI_def)
qed

subsection \<open>The whole request\<close>

text \<open>The header of a request and the token of this client.\<close>

definition request_header :: "u8 \<Rightarrow> u8 \<Rightarrow> u16 \<Rightarrow> u8 list" where
  "request_header ty method mid = [0x44 OR ty, method, ucast (drop_bit 8 mid), ucast mid]"

definition CLIENT_TOKEN :: "u8 list" where "CLIENT_TOKEN = [3, 2, 1, 1]"

definition request_options :: "u8 list list \<Rightarrow> u8 list list \<Rightarrow> u16 \<Rightarrow> (u16 \<times> u8 list) list" where
  "request_options segs qs format =
     map (Pair 11) segs @ (12, if format = 0 then [] else [ucast format]) # map (Pair 15) qs"

lemma fresh_request:
  assumes "never_fails realloc" "ty = COAP_CONFIRMABLE \<or> ty = COAP_NON_CONFIRMABLE"
  shows "\<exists>p p1 p2 p3 p4 p5. newPDU a = Some p \<and> setVersion 1 p = Some (1, p1) \<and> setType ty p1 = Some p2 \<and> setCode method p2 = Some p3 \<and>
    setToken realloc (Some [3, 2, 1, 1, 0]) 4 p3 = Some (0, p4) \<and> setMessageID mid p4 = Some p5 \<and>
    owned_msg (request_header ty method mid) CLIENT_TOKEN [] p5"
proof -
  define P where "P = (\<lambda>a (bs :: u8 list). \<lparr>pdu_addr = a, pdu = bs, pduLength = int (length bs), constructedFromBuffer = False,
    bufferLength = int (length bs), payloadPointer = None, payloadLength = 0, numOptions = 0, maxAddedOptionNumber = 0\<rparr>)"
  have zeros: "replicate 4 (0 :: u8) = [0, 0, 0, 0]" by (simp add: eval_nat_numeral)
  have 1: "newPDU a = Some (P a [0x40, 0, 0, 0])" "setVersion 1 (P a [0x40, 0, 0, 0]) = Some (1, P a [0x40, 0, 0, 0])"
    using zeros by (simp_all add: newPDU_def setVersion_def rd_def wr_def P_def)
  have 2: "setType ty (P a [0x40, 0, 0, 0]) = Some (P a [0x40 OR ty, 0, 0, 0])"
    "setCode method (P a [0x40 OR ty, 0, 0, 0]) = Some (P a [0x40 OR ty, method, 0, 0])"
    by (simp_all add: setType_def setCode_def rd_def wr_def P_def)
  have eight: "[0..<8] = [0, 1, 2, 3, 4, 5, 6, 7]" by (simp add: upt_rec)
  obtain a' junk where r: "realloc a 8 = Some (a', junk)" using assms(1) by (fastforce simp: never_fails_def)
  have 3: "setToken realloc (Some [3, 2, 1, 1, 0]) 4 (P a [0x40 OR ty, method, 0, 0]) = Some (0, P a' [0x44 OR ty, method, 0, 0, 3, 2, 1, 1])"
    using assms(2)
    by (auto simp: pdu_types setToken_def getTokenLength_def setTokenLength_def ensure_space_def r P_def rd_def wr_def shiftPDUUp_def
        copy_in_def COAP_HDR_SIZE_def Let_def eight)
  have 4: "setMessageID mid (P a' [0x44 OR ty, method, 0, 0, 3, 2, 1, 1]) = Some (P a' (request_header ty method mid @ CLIENT_TOKEN))"
    by (simp add: setMessageID_def store16_def wr_def P_def request_header_def CLIENT_TOKEN_def)
  have "owned_msg (request_header ty method mid) CLIENT_TOKEN [] (P a' (request_header ty method mid @ CLIENT_TOKEN))"
    using assms(2) by (auto simp: owned_msg_def client_msg_def in_buffer_def pdu_bytes_def P_def request_header_def CLIENT_TOKEN_def
        sized_def pdu_types)
  then show ?thesis using 1 2 3 4 by blast
qed

lemma content_format_owned:
  assumes "owned_msg hdr tok (uri_options segs qs) p" "never_fails realloc" "format \<le> 0xff"
  shows "\<exists>q. setContentFormat realloc format p = Some (0, q) \<and> owned_msg hdr tok (request_options segs qs format) q"
proof -
  let ?v = "if format = 0 then [] else [ucast format] :: u8 list"
  have "takeWhile (\<lambda>y. fst y \<le> 12) (uri_options segs qs) = map (Pair 11) segs"
    "dropWhile (\<lambda>y. fst y \<le> 12) (uri_options segs qs) = map (Pair 15) qs"
    unfolding uri_options_def by (subst takeWhile_append2 dropWhile_append2; cases qs; auto)+
  then have ins: "insert_opt (12, ?v) (uri_options segs qs) = request_options segs qs format"
    by (simp add: insert_opt_def request_options_def)
  have "length ?v < 269" "take (length ?v) ?v = ?v" by simp_all
  from add_owned[OF assms(1,2) this, of 12] obtain q where
    "addOption realloc 12 (of_nat (length ?v)) ?v p = Some (0, q)" "owned_msg hdr tok (request_options segs qs format) q"
    unfolding ins by blast
  then show ?thesis using assms(3)
    by (cases "format = 0") (auto simp: setContentFormat_def Let_def content_formats COAP_OPTION_CONTENT_FORMAT_def)
qed

lemma payload_owned:
  assumes "owned_msg hdr tok opts p" "never_fails realloc" "payload \<noteq> []"
  shows "\<exists>q. setPayload realloc (Some payload) (int (length payload)) p = Some (0, q) \<and>
    client_msg hdr tok opts (payload_tail payload) q \<and> \<not> constructedFromBuffer q \<and>
    (\<exists>a. payloadPointer q = Some a \<and> 0 \<le> payloadLength q \<and> inside q a (payloadLength q))"
proof -
  let ?B = "pdu_bytes p" and ?n = "pduLength p + int (length payload) + 1"
  have c: "client_msg hdr tok opts [] p" and o: "\<not> constructedFromBuffer p" "payloadPointer p = None" "payloadLength p = 0"
    using assms(1) by (simp_all add: owned_msg_def)
  have inb: "in_buffer p" using c by (simp add: client_msg_def)
  have plen: "pduLength p = int (length ?B)" using in_buffer_split[OF inb] by blast
  obtain q where q: "ensure_space realloc ?n p = Some q" using ensure_owned[OF assms(2) o(1)] by blast
  have "pduLength p \<le> ?n" by simp
  from ensure_space_Some[OF inb q this] o(1) obtain a' T where
    T: "q = p\<lparr>pdu_addr := a', pdu := ?B @ T, bufferLength := int (length (?B @ T))\<rparr>" "int (length T) = int (length payload) + 1"
    by auto
  then obtain t T' where t: "T = t # T'" "length T' = length payload" by (cases T) auto
  have q1: "wr (pduLength p) 0xFF q = Some (q\<lparr>pdu := ?B @ 0xFF # T'\<rparr>)"
    unfolding plen by (rule wr_at) (simp add: T(1) t(1))
  let ?q = "q\<lparr>pdu := ?B @ 0xFF # T', payloadPointer := Some (a' + pduLength p + 1), pduLength := ?n, payloadLength := int (length payload)\<rparr>"
  have m: "mallocPayload realloc (int (length payload)) p = Some (Some (a' + pduLength p + 1), ?q)"
    using q q1 o assms(3) by (simp add: mallocPayload_def Let_def T(1))
  have "pdu ?q = (?B @ [0xFF]) @ T' @ []" by simp
  from copy_in_at[OF this t(2), of payload] have
    cp: "copy_in (a' + pduLength p + 1 - pdu_addr ?q) payload (length payload) ?q = Some (?q\<lparr>pdu := ?B @ 0xFF # payload\<rparr>)"
    by (simp add: T(1) plen add.commute)
  have s: "setPayload realloc (Some payload) (int (length payload)) p = Some (0, ?q\<lparr>pdu := ?B @ 0xFF # payload\<rparr>)"
    using m cp by (simp add: setPayload_def)
  let ?r = "?q\<lparr>pdu := ?B @ 0xFF # payload\<rparr>"
  have "pdu ?r = (?B @ 0xFF # payload) @ []" "pduLength ?r = int (length (?B @ 0xFF # payload))"
    "bufferLength ?r = int (length (pdu ?r))" using t plen by (simp_all add: T(1))
  from in_bufferI[OF this] have "in_buffer ?r" "pdu_bytes ?r = ?B @ 0xFF # payload" by simp_all
  moreover have "maxAddedOptionNumber ?r = maxAddedOptionNumber p" "numOptions ?r = numOptions p" by (simp_all add: T(1))
  ultimately have "client_msg hdr tok opts (payload_tail payload) ?r"
    using c assms(3) by (simp add: client_msg_def payload_tail_def)
  moreover have "\<not> constructedFromBuffer ?r" using o(1) by (simp add: T(1))
  moreover have "payloadPointer ?r = Some (a' + pduLength p + 1) \<and> 0 \<le> payloadLength ?r \<and>
      inside ?r (a' + pduLength p + 1) (payloadLength ?r)"
    using plen by (simp add: T(1) inside_def)
  ultimately show ?thesis using s by blast
qed

lemma build_request:
  assumes "never_fails realloc" "ty = COAP_CONFIRMABLE \<or> ty = COAP_NON_CONFIRMABLE" "segs \<noteq> []" "\<forall>s \<in> set segs. plain s"
    "good_queries qs" "format \<le> 0xff"
  shows "\<exists>p. builPDU realloc a ty method (uri_text segs qs) format payload c = Some (p, c\<lparr>message_id := message_id c + 1\<rparr>) \<and>
    client_msg (request_header ty method (message_id c)) CLIENT_TOKEN (request_options segs qs format) (payload_tail payload) p \<and>
    \<not> constructedFromBuffer p \<and>
    (payloadLength p = 0 \<or> (\<exists>a. payloadPointer p = Some a \<and> 0 \<le> payloadLength p \<and> inside p a (payloadLength p)))"
proof -
  let ?hdr = "request_header ty method (message_id c)"
  obtain p p1 p2 p3 p4 p5 where f: "newPDU a = Some p" "setVersion 1 p = Some (1, p1)" "setType ty p1 = Some p2" "setCode method p2 = Some p3"
    "setToken realloc (Some [3, 2, 1, 1, 0]) 4 p3 = Some (0, p4)" "setMessageID (message_id c) p4 = Some p5"
    "owned_msg ?hdr CLIENT_TOKEN [] p5" using fresh_request[OF assms(1,2)] by metis
  obtain p6 where u: "setURI realloc (Some (uri_text segs qs)) (int (length (uri_text segs qs)) - 1) p5 = Some (0, p6)"
    "owned_msg ?hdr CLIENT_TOKEN (uri_options segs qs) p6" using set_uri_owned[OF assms(3-5) f(7) assms(1)] by blast
  obtain p7 where cf: "setContentFormat realloc format p6 = Some (0, p7)" "owned_msg ?hdr CLIENT_TOKEN (request_options segs qs format) p7"
    using content_format_owned[OF u(2) assms(1,6)] by blast
  show ?thesis
  proof (cases "payload = []")
    case True
    then show ?thesis using f u cf by (simp add: builPDU_def owned_msg_def payload_tail_def)
  next
    case False
    then obtain p8 where "setPayload realloc (Some payload) (int (length payload)) p7 = Some (0, p8)"
      "client_msg ?hdr CLIENT_TOKEN (request_options segs qs format) (payload_tail payload) p8" "\<not> constructedFromBuffer p8"
      "\<exists>a. payloadPointer p8 = Some a \<and> 0 \<le> payloadLength p8 \<and> inside p8 a (payloadLength p8)"
      using payload_owned[OF cf(2) assms(1)] by blast
    then show ?thesis using f u cf False by (simp add: builPDU_def)
  qed
qed

lemma built_printed:
  assumes "client_msg hdr tok opts pl p"
    "payloadLength p = 0 \<or> (\<exists>a. payloadPointer p = Some a \<and> 0 \<le> payloadLength p \<and> inside p a (payloadLength p))"
  shows "\<exists>s. printHuman True p = Some s" "\<exists>s. printHex p = Some s"
proof -
  have inb: "in_buffer p" and b: "pdu_bytes p = hdr @ tok @ encs 0 opts @ pl" using assms(1) by (simp_all add: client_msg_def)
  obtain T where t: "pdu p = pdu_bytes p @ T" "pduLength p = int (length (pdu_bytes p))" using in_buffer_split[OF inb] by blast
  have "pdu p = hdr @ tok @ encs 0 opts @ (pl @ T)" using t(1) b by simp
  from own_printed[OF this] show "\<exists>s. printHuman True p = Some s" using assms t b by (simp add: client_msg_def)
  show "\<exists>s. printHex p = Some s" using t by (simp add: printHex_def bytes_at_def Let_def)
qed

end
