(* ===== verification/Client_Server.thy ===== *)
theory Client_Server imports Client_Build Message_Props begin

section \<open>The client and the server understand each other\<close>

text \<open>
  Two programs of the repository write and read the same format: the C++ client edits the bytes of a
  \<open>CoapPDU\<close>, the C server packs and parses \<open>CoAP_Message_t\<close>. Here the two models meet: what the client builds
  is the datagram the server would build of the same message, and the other way round.
\<close>

subsection \<open>The same bytes\<close>

definition to_option :: "u16 \<times> u8 list \<Rightarrow> CoAP_option" where
  "to_option x = mk_option 0 (fst x) (snd x) (of_nat (length (snd x)))"

lemma pack_to_option: "sized xs \<Longrightarrow> pack_options_loop prev (map to_option xs) = encs prev xs"
proof (induction xs arbitrary: prev)
  case (Cons x xs)
  then show ?case by (simp add: to_option_def pack_option_Cons enc_def enc_head_def sized_def unat_of_nat_u16)
qed simp

lemma encs_content: "list_all opt_wf opts \<Longrightarrow> pack_options_loop prev opts = encs prev (map content opts)"
proof (induction opts arbitrary: prev)
  case (Cons opt opts)
  then have "length (Value opt) = unat (Length opt)" by (simp add: opt_wf_def)
  then show ?case using Cons by (simp add: pack_option_Cons enc_def enc_head_def content_def)
qed simp

text \<open>The server's view of a request of the client.\<close>

definition request_msg :: "u8 \<Rightarrow> u8 \<Rightarrow> u16 \<Rightarrow> (u16 \<times> u8 list) list \<Rightarrow> u8 list \<Rightarrow> CoAP_Message" where
  "request_msg ty method mid opts payload =
    (CoAP_InitToEmptyResetMsg 0)\<lparr>Type := (if ty = COAP_CONFIRMABLE then CON else NON), Code := method, MessageID := mid,
      Token64 := 0x01010203, pOptionsList := map to_option opts, PayloadLength := of_nat (length payload), PayloadData := mem_of payload\<rparr>"

lemma client_token: "getTokenByteCount 0x01010203 = 4" "token_bytes 0x01010203 4 = CLIENT_TOKEN"
proof -
  have four: "[0..<4] = [0, 1, 2, 3]" by (simp add: upt_rec)
  show "getTokenByteCount 0x01010203 = 4" by (simp add: getTokenByteCount_def)
  show "token_bytes 0x01010203 4 = CLIENT_TOKEN" by (simp add: token_bytes_def four CLIENT_TOKEN_def)
qed

lemma request_datagram:
  assumes "ty = COAP_CONFIRMABLE \<or> ty = COAP_NON_CONFIRMABLE" "method \<noteq> 0" "sized opts" "length payload < 65536"
  shows "fst (CoAP_BuildDatagram (request_msg ty method mid opts payload)) =
    request_header ty method mid @ CLIENT_TOKEN @ encs 0 opts @ payload_tail payload"
proof -
  let ?m = "request_msg ty method mid opts payload"
  have "Code ?m \<noteq> EMPTY" using assms(2) by (simp add: request_msg_def message_codes)
  note lay = built_layout[OF this]
  have f: "Token64 ?m = 0x01010203" "pOptionsList ?m = map to_option opts" "Code ?m = method" "MessageID ?m = mid"
    by (simp_all add: request_msg_def)
  have "payload_bytes ?m = payload"
    using assms(4) by (auto simp: payload_bytes_def request_msg_def read_bytes_def mem_of_def unat_of_nat_u16 intro!: nth_equalityI)
  moreover have "push_bit 6 (COAP_VERSION AND 3) OR push_bit 4 (type_num (Type ?m) AND 3) OR (of_nat 4 AND 15) = 0x44 OR ty"
    using assms(1) by (auto simp: request_msg_def COAP_VERSION_def pdu_types)
  moreover have "(ucast (mid AND 0xff) :: u8) = ucast mid" by (rule u8_low)
  ultimately show ?thesis
    unfolding lay f client_token pack_to_option[OF assms(3)] by (simp add: request_header_def)
qed

lemma to_option_simps [simp]:
  "Number (to_option x) = fst x" "Length (to_option x) = of_nat (length (snd x))"
  "length (snd x) < 65536 \<Longrightarrow> Value (to_option x) = snd x" "length (snd x) < 65536 \<Longrightarrow> content (to_option x) = x"
  by (simp_all add: to_option_def content_def unat_of_nat_u16)

lemma request_wire:
  assumes "ty = COAP_CONFIRMABLE \<or> ty = COAP_NON_CONFIRMABLE" "method \<in> {1, 2, 3, 4}" "sorted (map fst opts)" "opts \<noteq> []"
    "\<forall>x \<in> set opts. length (snd x) \<le> MAX_OPTION_VALUE_SIZE" "length payload \<le> MAX_PAYLOAD_SIZE" "length (encs 0 opts) \<le> 65000"
  shows "wire_msg (request_msg ty method mid opts payload)"
proof -
  let ?m = "request_msg ty method mid opts payload"
  have sz: "sized opts" using assms(5) by (fastforce simp: sized_def MAX_OPTION_VALUE_SIZE_def)
  have u: "unat (of_nat (length (snd x)) :: u16) = length (snd x)" if "x \<in> set opts" for x
    using sz that by (simp add: sized_def unat_of_nat_u16)
  have p: "length payload < 65536" "unat (of_nat (length payload) :: u16) = length payload"
    using assms(6) by (simp_all add: MAX_PAYLOAD_SIZE_def unat_of_nat_u16)
  have "packable 0 (map to_option opts)"
    using assms(3,5) u sz by (auto simp: packable_def list_all_iff opt_wf_def comp_def sized_def)
  moreover have "valid_code method" "method \<noteq> EMPTY" "method \<noteq> 0" using assms(2) by (auto simp: valid_code_def message_codes)
  moreover have "length (fst (CoAP_BuildDatagram ?m)) < 65536"
    using assms(2,6,7) unfolding request_datagram[OF assms(1) \<open>method \<noteq> 0\<close> sz p(1)]
    by (auto simp: request_header_def CLIENT_TOKEN_def payload_tail_def MAX_PAYLOAD_SIZE_def)
  ultimately show ?thesis using assms(4,6) p(2) by (simp add: wire_msg_def request_msg_def)
qed

lemma request_contents: "sized opts \<Longrightarrow> map content (map to_option opts) = opts"
  by (induction opts) (simp_all add: sized_def)

lemma encs_length: "length (encs prev xs) \<le> (\<Sum>x\<leftarrow>xs. 5 + length (snd x))"
proof (induction xs arbitrary: prev)
  case (Cons x xs)
  have "length (enc prev x) \<le> 5 + length (snd x)" by (simp add: enc_def enc_head_def ext_length)
  then show ?case using Cons[of "fst x"] by simp
qed simp

lemma uri_text_length: "length (uri_text segs qs) = Suc ((\<Sum>s\<leftarrow>segs. Suc (length s)) + (\<Sum>s\<leftarrow>qs. Suc (length s)))"
  by (cases qs) (simp_all add: uri_text_def path_text_def query_text_def length_concat comp_def)

lemma request_options_facts:
  assumes "\<forall>s \<in> set segs. plain s" "good_queries qs"
  shows "sorted (map fst (request_options segs qs format))" "x \<in> set (request_options segs qs format) \<Longrightarrow> length (snd x) < 269"
    "length (encs 0 (request_options segs qs format)) \<le> 5 * length (uri_text segs qs) + 6"
proof -
  show "sorted (map fst (request_options segs qs format))"
    by (auto simp: request_options_def sorted_append comp_def map_replicate_const)
  show "x \<in> set (request_options segs qs format) \<Longrightarrow> length (snd x) < 269"
    using assms by (auto simp: request_options_def plain_def good_queries_def)
  have le: "(\<Sum>s\<leftarrow>xs. 5 + length s) \<le> 5 * (\<Sum>s\<leftarrow>xs. Suc (length s))" for xs :: "u8 list list"
    by (induction xs) auto
  define A B where "A = (\<Sum>s\<leftarrow>segs. Suc (length s))" "B = (\<Sum>s\<leftarrow>qs. Suc (length s))"
  define A' B' where "A' = (\<Sum>s\<leftarrow>segs. 5 + length s)" "B' = (\<Sum>s\<leftarrow>qs. 5 + length s)"
  have "length (encs 0 (request_options segs qs format)) \<le> A' + B' + 6"
    unfolding A'_B'_def using encs_length[of 0 "request_options segs qs format"] by (auto simp: request_options_def comp_def split: if_splits)
  then show "length (encs 0 (request_options segs qs format)) \<le> 5 * length (uri_text segs qs) + 6"
    using le[of segs] le[of qs] unfolding uri_text_length A_B_def[symmetric] A'_B'_def[symmetric] by simp
qed

subsection \<open>From the client to the server\<close>

text \<open>
  C4: a request the client builds is understood by the server. For every confirmable or non confirmable
  request of one of the four methods, whose path and query are not empty and free of separators, whose content
  format has one byte and whose payload has at most 256, \<open>builPDU\<close> makes a datagram that the server's parser
  takes in, when it has the memory, as a message of the same type, method and message id, with the client's
  token, exactly the options of path, content format and query, and the same payload.
\<close>

theorem client_request_parsed_by_server:
  assumes "never_fails realloc" "ty = COAP_CONFIRMABLE \<or> ty = COAP_NON_CONFIRMABLE" "method \<in> {1, 2, 3, 4}"
    "segs \<noteq> []" "\<forall>s \<in> set segs. plain s" "good_queries qs" "format \<le> 0xff" "length payload \<le> MAX_PAYLOAD_SIZE"
    "length (uri_text segs qs) \<le> 10000" "heap_inv (heap w) L"
  shows "\<exists>p. builPDU realloc a ty method (uri_text segs qs) format payload c = Some (p, c\<lparr>message_id := message_id c + 1\<rparr>) \<and>
    pdu_bytes p = request_header ty method (message_id c) @ CLIENT_TOKEN @ encs 0 (request_options segs qs format) @ payload_tail payload \<and>
    (\<forall>src n. has_bytes src 0 (pdu_bytes p) \<longrightarrow> unat n = length (pdu_bytes p) \<longrightarrow>
      (\<exists>res r w'. CoAP_ParseMessageFromDatagram src n w = Some (res, r, w') \<and>
        (res = COAP_ERR_OUT_OF_MEMORY \<and> r = None \<and>
           \<not> room (heap w) (msg_room (request_msg ty method (message_id c) (request_options segs qs format) payload)) \<or>
         res = COAP_OK \<and> (\<exists>m. r = Some m \<and> Type m = (if ty = COAP_CONFIRMABLE then CON else NON) \<and> Code m = method \<and>
           MessageID m = message_id c \<and> Token64 m = 0x01010203 \<and>
           map content (pOptionsList m) = request_options segs qs format \<and> payload_bytes m = payload))))"
proof -
  let ?opts = "request_options segs qs format" and ?m = "request_msg ty method (message_id c) (request_options segs qs format) payload"
  note o = request_options_facts[OF assms(5,6), where format = format]
  have le: "\<forall>x \<in> set ?opts. length (snd x) \<le> MAX_OPTION_VALUE_SIZE" using o(2) by (fastforce simp: MAX_OPTION_VALUE_SIZE_def)
  have sz: "sized ?opts" using o(2) by (fastforce simp: sized_def)
  have "?opts \<noteq> []" "length (encs 0 ?opts) \<le> 65000" using o(3) assms(9) by (simp_all add: request_options_def)
  note wm = request_wire[OF assms(2,3) o(1) this(1) le assms(8) this(2), of "message_id c"]
  have pl: "length payload < 65536" "unat (of_nat (length payload) :: u16) = length payload" and "method \<noteq> 0"
    using assms(3,8) by (auto simp: MAX_PAYLOAD_SIZE_def unat_of_nat_u16)
  note dg = request_datagram[OF assms(2) \<open>method \<noteq> 0\<close> sz pl(1), of "message_id c"]
  obtain p where p: "builPDU realloc a ty method (uri_text segs qs) format payload c = Some (p, c\<lparr>message_id := message_id c + 1\<rparr>)"
    "client_msg (request_header ty method (message_id c)) CLIENT_TOKEN ?opts (payload_tail payload) p"
    using build_request[OF assms(1,2,4-7)] by blast
  have bytes: "pdu_bytes p = fst (CoAP_BuildDatagram ?m)" unfolding dg using p(2) by (simp add: client_msg_def)
  have view: "Type m' = (if ty = COAP_CONFIRMABLE then CON else NON) \<and> Code m' = method \<and> MessageID m' = message_id c \<and>
      Token64 m' = 0x01010203 \<and> map content (pOptionsList m') = ?opts \<and> payload_bytes m' = payload" if "same_message ?m m'" for m'
  proof -
    have "payload_bytes ?m = payload"
      using pl by (auto simp: payload_bytes_def request_msg_def read_bytes_def mem_of_def intro!: nth_equalityI)
    then show ?thesis using that request_contents[OF sz] by (simp add: same_message_def) (simp add: request_msg_def)
  qed
  show ?thesis
  proof (rule exI[of _ p], intro conjI allI impI, rule p(1), use p(2) in \<open>simp add: client_msg_def\<close>)
    fix src :: memory and n :: u16
    assume "has_bytes src 0 (pdu_bytes p)" "unat n = length (pdu_bytes p)"
    from build_parse[OF wm this[unfolded bytes] assms(10)] view
    show "\<exists>res r w'. CoAP_ParseMessageFromDatagram src n w = Some (res, r, w') \<and>
        (res = COAP_ERR_OUT_OF_MEMORY \<and> r = None \<and> \<not> room (heap w) (msg_room ?m) \<or>
         res = COAP_OK \<and> (\<exists>m. r = Some m \<and> Type m = (if ty = COAP_CONFIRMABLE then CON else NON) \<and> Code m = method \<and>
           MessageID m = message_id c \<and> Token64 m = 0x01010203 \<and> map content (pOptionsList m) = ?opts \<and> payload_bytes m = payload))"
      by fast
  qed
qed

lemma client_request_parsed_by_server_witness:
  "\<exists>p. builPDU (\<lambda>a n. Some (a, \<lambda>_. 0)) 0 COAP_CONFIRMABLE COAP_GET [47, 108, 101, 100, 0] 0 [] (new_client 7) =
      Some (p, new_client 8) \<and> pdu_bytes p = [0x44, 1, 0, 7, 3, 2, 1, 1, 0xB3, 108, 101, 100, 0x10] \<and>
    (\<exists>res r w'. CoAP_ParseMessageFromDatagram (mem_of (pdu_bytes p)) 13 demo_hal = Some (res, r, w') \<and>
      (res = COAP_OK \<longrightarrow> (\<exists>m. r = Some m \<and> Code m = 1 \<and> map content (pOptionsList m) = [(11, [108, 101, 100]), (12, [])])))"
proof -
  have l: "uri_text [[108, 101, 100]] [] = [47, 108, 101, 100, 0]" by (simp add: uri_text_def path_text_def query_text_def)
  have o: "request_options [[108, 101, 100]] [] 0 = [(11, [108, 101, 100]), (12, [])]" by (simp add: request_options_def)
  have h: "never_fails (\<lambda>a n. Some (a, \<lambda>_. 0 :: u8))" "\<forall>s \<in> set [[108, 101, 100 :: u8]]. plain s" "good_queries []"
    by (simp_all add: never_fails_def plain_def good_queries_def)
  have i: "heap_inv (heap demo_hal) {}" using demo_heap_inv by (simp add: demo_hal_def)
  have c: "(COAP_CONFIRMABLE :: u8) = COAP_CONFIRMABLE \<or> COAP_CONFIRMABLE = COAP_NON_CONFIRMABLE" "COAP_GET \<in> {1, 2, 3, 4}"
    "[[108, 101, 100 :: u8]] \<noteq> []" "(0 :: u16) \<le> 0xff" "length ([] :: u8 list) \<le> MAX_PAYLOAD_SIZE"
    "length (uri_text [[108, 101, 100]] []) \<le> 10000" by (simp_all add: COAP_GET_def l)
  from client_request_parsed_by_server[OF h(1) c(1-3) h(2,3) c(4-6) i, of 0 "new_client 7", unfolded l o] show ?thesis
  proof (elim exE conjE, goal_cases)
    case (1 p)
    have b: "pdu_bytes p = [0x44, 1, 0, 7, 3, 2, 1, 1, 0xB3, 108, 101, 100, 0x10]"
      using 1(2) by (simp add: request_header_def new_client_def pdu_types COAP_GET_def CLIENT_TOKEN_def enc_def enc_head_def
          opt_nibble_def opt_ext_def payload_tail_def)
    have "has_bytes (mem_of (pdu_bytes p)) 0 (pdu_bytes p)" "unat (13 :: u16) = length (pdu_bytes p)"
      using b by (simp_all add: has_bytes_def mem_of_def)
    from 1(3)[rule_format, OF this] have "\<exists>res r w'. CoAP_ParseMessageFromDatagram (mem_of (pdu_bytes p)) 13 demo_hal = Some (res, r, w') \<and>
      (res = COAP_OK \<longrightarrow> (\<exists>m. r = Some m \<and> Code m = 1 \<and> map content (pOptionsList m) = [(11, [108, 101, 100]), (12, [])]))"
    proof (elim exE conjE disjE, goal_cases)
      case (1 res r w')
      then show ?case by (intro exI conjI) (assumption, simp)
    next
      case (2 res r w' m)
      then show ?case unfolding COAP_GET_def
        by (intro exI[of _ res] exI[of _ r] exI[of _ w'] conjI impI exI[of _ m]) assumption+
    qed
    moreover have "builPDU (\<lambda>a n. Some (a, \<lambda>_. 0)) 0 COAP_CONFIRMABLE COAP_GET [47, 108, 101, 100, 0] 0 [] (new_client 7) = Some (p, new_client 8)"
      using 1(1) by (simp add: new_client_def)
    ultimately show ?case using b by (intro exI[of _ p]) simp
  qed
qed

subsection \<open>From the server to the client\<close>

text \<open>
  C5: a datagram the server builds is accepted by the client's \<open>validate\<close>, whatever lies behind it in memory, when
  its code is one the client knows; type, code, message id and token read back as the message's own,
  \<open>getOptions\<close> lists exactly its options and the payload accessors show its payload.
\<close>

theorem server_datagram_read_by_client:
  assumes "wire_msg m" "valid_pdu_code (Code m)"
  defines "d \<equiv> fst (CoAP_BuildDatagram m)" and "k \<equiv> getTokenByteCount (Token64 m)"
  shows "\<exists>p q. PDU_of_bytes a (d @ behind) (int (length d)) = Some p \<and> validate p = Some (1, q) \<and>
    getVersion q = Some 1 \<and> getType q = Some (push_bit 4 (type_num (Type m))) \<and> getCode q = Some (Code m) \<and>
    getMessageID q = Some (MessageID m) \<and> getTokenLength q = Some (int k) \<and> bytes_at q (pdu_addr q + 4) k = Some (token_bytes (Token64 m) k) \<and>
    (if pOptionsList m = [] then getOptions True q = Some None
     else \<exists>os. getOptions True q = Some (Some os) \<and> list_all2 (read_option q) os (map content (pOptionsList m))) \<and>
    getPayloadCopy True q = Some (if payload_bytes m = [] then None else Some (payload_bytes m))"
proof -
  let ?hdr = "[push_bit 6 (COAP_VERSION AND 3) OR push_bit 4 (type_num (Type m) AND 3) OR (of_nat k AND 15), Code m,
    ucast (drop_bit 8 (MessageID m)), ucast (MessageID m AND 0xff)]"
  let ?tok = "token_bytes (Token64 m) k" and ?xs = "map content (pOptionsList m)" and ?pl = "payload_bytes m"
  have "Code m \<noteq> EMPTY" and pk: "packable 0 (pOptionsList m)" using assms(1) by (simp_all add: wire_msg_def)
  have "list_all opt_wf (pOptionsList m)" using pk by (auto simp: packable_def list_all_iff)
  from built_layout[OF \<open>Code m \<noteq> EMPTY\<close>] have d: "d = ?hdr @ ?tok @ encs 0 ?xs @ payload_tail ?pl"
    unfolding d_def k_def encs_content[OF \<open>list_all opt_wf (pOptionsList m)\<close>] .
  have k8: "k \<le> 8" unfolding k_def by (rule getTokenByteCount_le)
  note hb = header_byte[OF k8, of "Type m"]
  let ?p = "\<lparr>pdu_addr = a, pdu = d @ behind, pduLength = int (length d), constructedFromBuffer = True, bufferLength = int (length d),
    payloadPointer = None, payloadLength = 0, numOptions = 0, maxAddedOptionNumber = 0\<rparr>"
  have p: "PDU_of_bytes a (d @ behind) (int (length d)) = Some ?p" by (simp add: PDU_of_bytes_def PDU_in_buffer_def d)
  have bytes: "pdu ?p = ?hdr @ ?tok @ encs 0 ?xs @ payload_tail ?pl @ behind" by (simp add: d)
  have sz: "sized ?xs" using pk by (fastforce simp: sized_def packable_def list_all_iff opt_wf_def content_def MAX_OPTION_VALUE_SIZE_def)
  have vh: "valid_header ?hdr" "unat (?hdr ! 0 AND 0x0F) = length ?tok"
  proof -
    have "drop_bit 6 (b AND 0xC0) = drop_bit 6 b" for b :: u8
    proof -
      have m: "(0xC0 :: u8) = NOT (mask 6)" by (simp add: mask_eq_exp_minus_1)
      show ?thesis unfolding m by (rule bit_word_eqI) (auto simp: bit_simps dest: bit_imp_le_length)
    qed
    then show "valid_header ?hdr" "unat (?hdr ! 0 AND 0x0F) = length ?tok"
      using hb(1,2) k8 assms(2) unfolding valid_header_def COAP_VERSION_def by (simp_all only: nth_Cons_0 nth_Cons_Suc One_nat_def length_token_bytes) simp
  qed
  have v: "validate ?p = Some (1, validated ?hdr ?tok ?xs ?pl ?p)" by (rule validate_own[OF bytes _ vh sz]) (simp_all add: d)
  let ?q = "validated ?hdr ?tok ?xs ?pl ?p"
  have q: "pdu ?q = ?hdr @ ?tok @ encs 0 ?xs @ payload_tail ?pl @ behind" "pdu_addr ?q = a" "numOptions ?q = int (length ?xs)"
    "payloadLength ?q = int (length ?pl)" by (simp_all add: validated_def d)
  have opts: "if pOptionsList m = [] then getOptions True ?q = Some None
     else \<exists>os. getOptions True ?q = Some (Some os) \<and> list_all2 (read_option ?q) os ?xs"
    using getOptions_own[OF q(1) _ vh(2) sz q(3)] by simp
  have r: "rd ?q 0 = Some (?hdr ! 0)" "rd ?q 1 = Some (?hdr ! 1)" "rd ?q 2 = Some (?hdr ! 2)" "rd ?q 3 = Some (?hdr ! 3)"
    using rd_first[OF q(1)] rd_header[OF q(1), of 2] rd_header[OF q(1), of 3] by simp_all
  have mid: "getMessageID ?q = Some (MessageID m)"
    using r(3,4) u16_of_bytes[of "MessageID m"] by (simp add: getMessageID_def load16_def)
  have ty: "getType ?q = Some (push_bit 4 (type_num (Type m)))"
  proof -
    have "k \<in> {0, 1, 2, 3, 4, 5, 6, 7, 8}" using k8 by auto
    then have "?hdr ! 0 AND 0x30 = push_bit 4 (type_num (Type m))" by (cases "Type m"; auto simp: COAP_VERSION_def)
    then show ?thesis using r(1) by (simp add: getType_def)
  qed
  have tok: "bytes_at ?q (pdu_addr ?q + 4) k = Some ?tok"
    unfolding bytes_at_def q(1,2) by (simp add: Let_def eval_nat_numeral)
  have hd: "getVersion ?q = Some 1" "getCode ?q = Some (Code m)" "getTokenLength ?q = Some (int k)"
  proof -
    have "drop_bit 6 (?hdr ! 0 AND 0xC0) = 1" using vh(1) unfolding valid_header_def by blast
    then show "getVersion ?q = Some 1" using r(1) unfolding getVersion_def by (simp only: bind.bind_lunit)
    show "getCode ?q = Some (Code m)" using r(2) by (simp add: getCode_def)
    have "int (unat (?hdr ! 0 AND 0x0F)) = int k" unfolding vh(2) by simp
    then show "getTokenLength ?q = Some (int k)" using r(1) unfolding getTokenLength_def by (simp only: bind.bind_lunit)
  qed
  have pl: "getPayloadCopy True ?q = Some (if ?pl = [] then None else Some ?pl)"
  proof (cases "?pl = []")
    case False
    have "pdu ?q = (?hdr @ ?tok @ encs 0 ?xs @ [0xFF]) @ ?pl @ behind" unfolding q(1) using False by (simp add: payload_tail_def)
    moreover have "payloadPointer ?q = Some (pdu_addr ?q + int (length (?hdr @ ?tok @ encs 0 ?xs @ [0xFF])))"
      using False by (simp add: validated_def)
    ultimately have "getPayloadCopy True ?q = Some (Some ?pl)" by (rule payload_copy_at[OF _ False _ q(4)])
    then show ?thesis using False by (simp only: if_False)
  qed (simp add: getPayloadCopy_def validated_def)
  show ?thesis using p v hd ty mid tok opts pl by blast
qed

lemma server_datagram_read_by_client_witness:
  "\<exists>p q. PDU_of_bytes 8 (fst (CoAP_BuildDatagram demo_msg)) (int (length (fst (CoAP_BuildDatagram demo_msg)))) = Some p \<and>
    validate p = Some (1, q) \<and> getCode q = Some 1 \<and> getMessageID q = Some 0x1234"
proof -
  have c: "Code demo_msg = 1" "MessageID demo_msg = 0x1234" by (simp_all add: demo_msg_def message_codes)
  then have "valid_pdu_code (Code demo_msg)" by (simp add: valid_pdu_code_def)
  from server_datagram_read_by_client[OF demo_wire_msg this, of 8 "[]"] c show ?thesis by auto
qed

end
