(* ===== verification/Client_Props.thy ===== *)
theory Client_Props imports Client_Build "HOL-Library.Multiset" begin

section \<open>The client's queue and its timer\<close>

text \<open>
  The queue of relative times implements a list of deadlines; while nothing arrives, every tick of the timer sends
  the first message again, until after a number of ticks that is bounded beforehand the first message has no
  transmission left, and its caller is told.
\<close>

subsection \<open>Deadlines\<close>

text \<open>\<open>due b\<close>: the nodes of a queue with their absolute times, when the first is relative to \<open>b\<close>.\<close>

fun due :: "nat \<Rightarrow> coap_queue list \<Rightarrow> (nat \<times> coap_queue) list" where
  "due b [] = []"
| "due b (q # qs) = (b + unat (q_t q), q\<lparr>q_t := 0\<rparr>) # due (b + unat (q_t q)) qs"

definition insert_due :: "nat \<times> coap_queue \<Rightarrow> (nat \<times> coap_queue) list \<Rightarrow> (nat \<times> coap_queue) list" where
  "insert_due x xs = takeWhile (\<lambda>y. fst y \<le> fst x) xs @ x # dropWhile (\<lambda>y. fst y \<le> fst x) xs"

lemma due_ge: "x \<in> set (due b qs) \<Longrightarrow> b \<le> fst x"
  by (induction qs arbitrary: b) (auto intro: add_leD1 dest!: meta_spec)

lemma due_sorted: "sorted (map fst (due b qs))"
  by (induction qs arbitrary: b) (auto dest: due_ge)

lemma insert_node_due: "due b (insert_node n qs) = insert_due (b + unat (q_t n), n\<lparr>q_t := 0\<rparr>) (due b qs)"
proof (induction qs arbitrary: b n)
  case (Cons q qs)
  show ?case
  proof (cases "q_t q \<le> q_t n")
    case True
    then have "unat (q_t n - q_t q) = unat (q_t n) - unat (q_t q)" "unat (q_t q) \<le> unat (q_t n)"
      by (simp_all add: unat_sub word_le_nat_alt)
    then show ?thesis using Cons[of "b + unat (q_t q)" "n\<lparr>q_t := q_t n - q_t q\<rparr>"] True by (simp add: insert_due_def)
  next
    case False
    then have "unat (q_t q - q_t n) = unat (q_t q) - unat (q_t n)" "unat (q_t n) < unat (q_t q)"
      by (simp_all add: unat_sub not_le less_imp_le word_less_nat_alt)
    then show ?thesis using False by (simp add: insert_due_def)
  qed
qed (simp add: insert_due_def)

lemma add_node_insert: "coapAddNode qs n = insert_node n qs"
  by (cases qs) (auto simp: not_less)

definition total_time :: "coap_queue list \<Rightarrow> nat" where
  "total_time qs = (\<Sum>q\<leftarrow>qs. unat (q_t q))"

lemma later_due: "total_time (q # qs) < 2 ^ 32 \<Longrightarrow> due b (later (q_t q) qs) = due (b + unat (q_t q)) qs"
proof (cases qs)
  case (Cons a as)
  assume "total_time (q # qs) < 2 ^ 32"
  then have "unat (q_t a + q_t q) = unat (q_t q) + unat (q_t a)"
    using Cons by (simp add: total_time_def unat_word_ariths)
  then show ?thesis using Cons by (simp add: later_def add.assoc)
qed (simp add: later_def)

lemma remove_node_due:
  assumes "total_time qs < 2 ^ 32" "distinct (map q_id qs)"
  shows "due b (snd (coapRemoveNode qs i)) = filter (\<lambda>x. q_id (snd x) \<noteq> i) (due b qs)"
  using assms
proof (induction qs arbitrary: b)
  case (Cons q qs)
  have keep: "filter (\<lambda>x. q_id (snd x) \<noteq> i) (due b qs) = due b qs" if "i \<notin> q_id ` set qs" for b
    using that by (induction qs arbitrary: b) auto
  show ?case
  proof (cases "q_id q = i")
    case True
    then show ?thesis using Cons.prems later_due[OF Cons.prems(1), of b] keep by auto
  next
    case False
    then show ?thesis using Cons.IH[of "b + unat (q_t q)"] Cons.prems
      by (cases "coapRemoveNode qs i") (simp add: total_time_def)
  qed
qed simp

subsection \<open>Transaction ids\<close>

lemma key_id_bounds: "0 \<le> key_id h \<and> key_id h < 65536"
proof -
  obtain h0 h1 h2 h3 where h: "h = (h0, h1, h2, h3)" by (cases h) auto
  have u: "0 \<le> uint x \<and> uint x < 2 ^ 8" for x :: u8 using uint_bounded[of x] by simp
  have "take_bit 16 (key_id h) = key_id h"
    unfolding key_id_def h prod.case
    by (rule bit_eqI) (use u in \<open>auto simp: bit_simps dest: bit_imp_le_length\<close>)
  then show ?thesis using take_bit_nonnegative[of 16 "key_id h"] take_bit_int_less_exp[of 16 "key_id h"] by simp
qed

lemma tid_valid: "createTransactionID ip port p = Some t \<Longrightarrow> 0 \<le> t \<and> t < 65536"
proof -
  assume t: "createTransactionID ip port p = Some t"
  then obtain m where "getMessageID p = Some m" by (auto simp: createTransactionID_def split: Option.bind_splits)
  with t have "t = key_id (coap_hash [ucast m, ucast (drop_bit 8 m)] (coap_hash (bytes32 ip) (coap_hash (bytes32 port) (0, 0, 0, 0))))"
    by (simp add: createTransactionID_def)
  then show ?thesis using key_id_bounds by simp
qed

subsection \<open>Nodes\<close>

text \<open>What the timer relies on: the message of a node is readable and its request names the node's transaction.\<close>

definition node_ok :: "CoapRequest list \<Rightarrow> coap_queue \<Rightarrow> bool" where
  "node_ok reqs n \<longleftrightarrow> q_req n < length reqs \<and> 0 \<le> req_port (reqs ! q_req n) \<and> req_port (reqs ! q_req n) < 65536 \<and>
     createTransactionID (req_ip (reqs ! q_req n)) (word_of_int (req_port (reqs ! q_req n))) (q_pdu n) = Some (q_id n) \<and>
     (\<exists>ty. getType (q_pdu n) = Some ty) \<and> 0 \<le> pduLength (q_pdu n) \<and> pduLength (q_pdu n) \<le> int (length (pdu (q_pdu n))) \<and>
     retransmit_cnt n \<le> COAP_DEFAULT_MAX_RETRANSMIT \<and> \<not> constructedFromBuffer (q_pdu n)"

definition same_targets :: "CoapRequest list \<Rightarrow> CoapRequest list \<Rightarrow> bool" where
  "same_targets reqs reqs' \<longleftrightarrow> length reqs' = length reqs \<and>
     (\<forall>i < length reqs. req_ip (reqs' ! i) = req_ip (reqs ! i) \<and> req_port (reqs' ! i) = req_port (reqs ! i))"

lemma node_ok_targets: "node_ok reqs n \<Longrightarrow> same_targets reqs reqs' \<Longrightarrow> node_ok reqs' n"
  by (auto simp: node_ok_def same_targets_def)

lemma node_ok_time: "node_ok reqs (n\<lparr>q_t := t\<rparr>) = node_ok reqs n"
  by (simp add: node_ok_def)

text \<open>What sending changes of the requests.\<close>

definition sent_by :: "nat \<Rightarrow> bool \<Rightarrow> int \<Rightarrow> CoapRequest list \<Rightarrow> CoapRequest list" where
  "sent_by r conn t reqs = reqs[r := (reqs ! r)\<lparr>connected := connected (reqs ! r) \<or> conn, tid := t\<rparr>]"

lemma sent_by_nth:
  "i < length reqs \<Longrightarrow> req_ip (sent_by r k t reqs ! i) = req_ip (reqs ! i) \<and> req_port (sent_by r k t reqs ! i) = req_port (reqs ! i) \<and>
     udp_open (sent_by r k t reqs ! i) = udp_open (reqs ! i) \<and> tid (sent_by r k t reqs ! i) = (if i = r then t else tid (reqs ! i)) \<and>
     connected (sent_by r k t reqs ! i) = (if i = r then connected (reqs ! i) \<or> k else connected (reqs ! i))"
  by (cases "r < length reqs") (auto simp: sent_by_def nth_list_update)

lemma sent_by_length [simp]: "length (sent_by r k t reqs) = length reqs"
  by (simp add: sent_by_def)

lemma sent_by_targets [simp]: "same_targets reqs (sent_by r k t reqs)"
  by (simp add: same_targets_def sent_by_nth)

lemma send_through_ok:
  assumes "q_req n < length (requests c)" "0 \<le> req_port (requests c ! q_req n)" "req_port (requests c ! q_req n) < 65536"
    "createTransactionID (req_ip (requests c ! q_req n)) (word_of_int (req_port (requests c ! q_req n))) (q_pdu n) = Some t"
    "0 \<le> pduLength (q_pdu n)" "pduLength (q_pdu n) \<le> int (length (pdu (q_pdu n)))" "udp_open (requests c ! q_req n)"
  shows "send_through conn (q_req n) (q_pdu n) c = Some (t, c\<lparr>requests := sent_by (q_req n) conn t (requests c),
      sent_pdus := sent_pdus c @ [(q_req n, pdu_bytes (q_pdu n))]\<rparr>)"
proof -
  let ?r = "requests c ! q_req n"
  have low: "(ucast (word_of_int (req_port ?r) :: u16) :: u32) = word_of_int (req_port ?r)"
  proof -
    obtain k where k: "req_port ?r = int k" "k < 65536" using assms(2,3) by (metis nonneg_int_cases of_nat_less_numeral_iff)
    then show ?thesis by (simp add: word_unat_eq_iff unsigned_ucast_eq unsigned_take_bit_eq unat_of_nat take_bit_nat_eq_self)
  qed
  define r1 where "r1 = (if \<not> connected ?r \<and> conn then ?r\<lparr>connected := True\<rparr> else ?r)"
  have r1: "req_ip r1 = req_ip ?r" "req_port r1 = req_port ?r" by (simp_all add: r1_def)
  have "sendPDU conn (q_pdu n) ?r = Some (t, r1\<lparr>tid := t\<rparr>, pdu_bytes (q_pdu n))"
    using assms(4-7) r1 low by (simp add: sendPDU_def Let_def r1_def[symmetric] pdu_bytes_def)
  moreover have "r1\<lparr>tid := t\<rparr> = ?r\<lparr>connected := connected ?r \<or> conn, tid := t\<rparr>" by (simp add: r1_def)
  ultimately show ?thesis using assms(1) by (simp add: send_through_def sent_by_def)
qed

text \<open>A closed request cannot send.\<close>

lemma send_closed: "\<not> udp_open (requests c ! r) \<Longrightarrow> send_through conn r p c = None"
  by (simp add: send_through_def sendPDU_def)

subsection \<open>One tick\<close>

abbreviation non :: "coap_queue \<Rightarrow> bool" where
  "non n \<equiv> getType (q_pdu n) = Some COAP_NON_CONFIRMABLE"

text \<open>
  The transmissions a node still has and what they send; what its caller is told in the end, and how often its bytes are
  given back then.
\<close>

definition tries :: "coap_queue \<Rightarrow> nat" where
  "tries n = (if non n then 0 else 4 - unat (retransmit_cnt n))"

definition failures :: "(int \<rightharpoonup> nat) \<Rightarrow> coap_queue \<Rightarrow> (nat \<times> bool \<times> CoapPDU) list" where
  "failures cbs n = (case cbs (q_id n) of None \<Rightarrow> [] | Some f \<Rightarrow> [(f, False, q_pdu n)])"

definition releases :: "(int \<rightharpoonup> nat) \<Rightarrow> coap_queue \<Rightarrow> addr list" where
  "releases cbs n = replicate (if cbs (q_id n) = None then 1 else 2) (pdu_addr (q_pdu n))"

definition repeats :: "coap_queue \<Rightarrow> (nat \<times> u8 list) list" where
  "repeats n = replicate (tries n) (q_req n, pdu_bytes (q_pdu n))"

lemma per_node_time [simp]:
  "tries (n\<lparr>q_t := t\<rparr>) = tries n" "failures cbs (n\<lparr>q_t := t\<rparr>) = failures cbs n" "repeats (n\<lparr>q_t := t\<rparr>) = repeats n"
  "releases cbs (n\<lparr>q_t := t\<rparr>) = releases cbs n"
  by (simp_all add: tries_def failures_def repeats_def releases_def split: option.splits)

lemma repeats_none: "tries n = 0 \<Longrightarrow> repeats n = []"
  by (simp add: repeats_def)

lemma insert_node_mset:
  assumes "\<And>n t. g (n\<lparr>q_t := t\<rparr>) = g n"
  shows "mset (map g (insert_node n qs)) = add_mset (g n) (mset (map g qs))"
  by (induction qs arbitrary: n) (simp_all add: assms)

lemma insert_node_length: "length (insert_node n qs) = Suc (length qs)"
  by (induction qs arbitrary: n) simp_all

lemma insert_node_all: "(\<forall>x \<in> set (insert_node n qs). node_ok r x) \<longleftrightarrow> node_ok r n \<and> (\<forall>x \<in> set qs. node_ok r x)"
  by (induction qs arbitrary: n) (auto simp: node_ok_time)

lemma sum_list_mset: "sum_list (map g xs) = \<Sum>\<^sub># (mset (map g xs))" for g :: "'a \<Rightarrow> nat"
  by (induction xs) simp_all

lemma concat_mset: "mset (concat (map g xs)) = \<Sum>\<^sub># (mset (map (\<lambda>x. mset (g x)) xs))"
  by (induction xs) simp_all

lemma concat_insert:
  assumes "\<And>n t. g (n\<lparr>q_t := t\<rparr>) = g n"
  shows "mset (concat (map g (insert_node n qs))) = mset (g n) + mset (concat (map g qs))"
  unfolding concat_mset by (subst insert_node_mset) (simp_all add: assms)

lemma restart_fields [simp]:
  "pQueue (timerRestart c) = pQueue c" "requests (timerRestart c) = requests c" "callbacks (timerRestart c) = callbacks c"
  "calls (timerRestart c) = calls c" "sent_pdus (timerRestart c) = sent_pdus c"
  "freed (timerRestart c) = freed c" "message_id (timerRestart c) = message_id c" "timer (timerRestart c) = (if pQueue c = [] then timer c else Some (q_t (hd (pQueue c))))"
  by (simp_all add: timerRestart_def split: list.splits)

lemma destroy_fields [simp]:
  "pQueue (destroy_pdu p c) = pQueue c" "requests (destroy_pdu p c) = requests c" "callbacks (destroy_pdu p c) = callbacks c"
  "sent_pdus (destroy_pdu p c) = sent_pdus c" "timer (destroy_pdu p c) = timer c"
  "calls (destroy_pdu p c) = calls c"
  by (simp_all add: destroy_pdu_def)

lemma delete_fields [simp]:
  "pQueue (coapDeleteNode n c) = pQueue c" "requests (coapDeleteNode n c) = requests c" "callbacks (coapDeleteNode n c) = callbacks c"
  "sent_pdus (coapDeleteNode n c) = sent_pdus c" "timer (coapDeleteNode n c) = timer c" "calls (coapDeleteNode n c) = calls c"
  by (simp_all add: coapDeleteNode_def)

lemma call_back_fields [simp]:
  "pQueue (call_back t b p c) = pQueue c" "requests (call_back t b p c) = requests c" "callbacks (call_back t b p c) = callbacks c"
  "sent_pdus (call_back t b p c) = sent_pdus c" "timer (call_back t b p c) = timer c"
  by (simp_all add: call_back_def split: option.splits)

text \<open>The node at the front has no transmission left: its caller is told.\<close>

lemma tick_gives_up:
  assumes "pQueue c = n # qs" "node_ok (requests c) n" "tries n = 0"
  shows "\<exists>c'. timerTick conn c = Some c' \<and> pQueue c' = qs \<and> requests c' = requests c \<and> callbacks c' = callbacks c \<and>
    sent_pdus c' = sent_pdus c \<and> calls c' = calls c @ failures (callbacks c) n \<and> freed c' = freed c @ releases (callbacks c) n \<and>
    timer c' = (if qs = [] then None else Some (q_t (hd qs)))"
proof -
  obtain ty where ty: "getType (q_pdu n) = Some ty" using assms(2) by (auto simp: node_ok_def)
  have "ty = COAP_NON_CONFIRMABLE \<or> \<not> retransmit_cnt n < COAP_DEFAULT_MAX_RETRANSMIT"
    using assms(3) ty by (auto simp: tries_def COAP_DEFAULT_MAX_RETRANSMIT_def word_less_nat_alt split: if_splits)
  then have "timerTick conn c = Some (timerRestart (coapDeleteNode n (call_back (q_id n) False (q_pdu n) (c\<lparr>pQueue := qs, timer := None\<rparr>))))"
    using assms(1) ty by (auto simp: timerTick_def coapPopNext_def Let_def)
  moreover have "calls (call_back (q_id n) False (q_pdu n) (c\<lparr>pQueue := qs, timer := None\<rparr>)) = calls c @ failures (callbacks c) n"
    by (simp add: failures_def call_back_def split: option.splits)
  moreover have "freed (coapDeleteNode n (call_back (q_id n) False (q_pdu n) (c\<lparr>pQueue := qs, timer := None\<rparr>))) = freed c @ releases (callbacks c) n"
    using assms(2) by (simp add: node_ok_def releases_def coapDeleteNode_def destroy_pdu_def call_back_def eval_nat_numeral split: option.splits)
  ultimately show ?thesis by simp
qed

text \<open>The node at the front is sent again and waits twice as long as before.\<close>

lemma tick_repeats:
  assumes "pQueue c = n # qs" "node_ok (requests c) n" "tries n \<noteq> 0" "udp_open (requests c ! q_req n)"
  shows "\<exists>c' n'. timerTick conn c = Some c' \<and> pQueue c' = insert_node n' qs \<and> requests c' = sent_by (q_req n) conn (q_id n) (requests c) \<and>
    callbacks c' = callbacks c \<and> sent_pdus c' = sent_pdus c @ [(q_req n, pdu_bytes (q_pdu n))] \<and> calls c' = calls c \<and> freed c' = freed c \<and>
    q_id n' = q_id n \<and> q_req n' = q_req n \<and> q_pdu n' = q_pdu n \<and>
    timer c' = Some (q_t (hd (pQueue c'))) \<and> node_ok (requests c') n' \<and> tries n = Suc (tries n') \<and> repeats n = (q_req n, pdu_bytes (q_pdu n)) # repeats n'"
proof -
  obtain ty where ty: "getType (q_pdu n) = Some ty" using assms(2) by (auto simp: node_ok_def)
  have t: "ty \<noteq> COAP_NON_CONFIRMABLE" "retransmit_cnt n < COAP_DEFAULT_MAX_RETRANSMIT"
    using assms(3) ty by (auto simp: tries_def COAP_DEFAULT_MAX_RETRANSMIT_def word_less_nat_alt split: if_splits)
  let ?n = "n\<lparr>retransmit_cnt := retransmit_cnt n + 1, q_t := push_bit (unat (retransmit_cnt n + 1)) (q_timeout n)\<rparr>"
  let ?c = "c\<lparr>pQueue := qs, timer := None\<rparr>"
  have cnt: "unat (retransmit_cnt n + 1) = Suc (unat (retransmit_cnt n))" "unat (retransmit_cnt n) < 4"
    using t(2) by (auto simp: COAP_DEFAULT_MAX_RETRANSMIT_def word_less_nat_alt unat_word_ariths)
  have "send_through conn (q_req ?n) (q_pdu ?n) ?c =
      Some (q_id n, ?c\<lparr>requests := sent_by (q_req ?n) conn (q_id n) (requests ?c), sent_pdus := sent_pdus ?c @ [(q_req ?n, pdu_bytes (q_pdu ?n))]\<rparr>)"
    by (rule send_through_ok) (use assms(2,4) in \<open>simp_all add: node_ok_def\<close>)
  then have s: "send_through conn (q_req n) (q_pdu n) ?c = Some (q_id n, c\<lparr>pQueue := qs, timer := None,
      requests := sent_by (q_req n) conn (q_id n) (requests c), sent_pdus := sent_pdus c @ [(q_req n, pdu_bytes (q_pdu n))]\<rparr>)" by simp
  let ?reqs = "sent_by (q_req n) conn (q_id n) (requests c)"
  have "q_id n \<noteq> COAP_INVALID_TID"
    using assms(2) tid_valid[of _ _ "q_pdu n" "q_id n"] by (fastforce simp: node_ok_def COAP_INVALID_TID_def)
  then have tick: "timerTick conn c = Some (timerRestart (c\<lparr>timer := None, requests := ?reqs,
      sent_pdus := sent_pdus c @ [(q_req n, pdu_bytes (q_pdu n))], pQueue := insert_node ?n qs\<rparr>))"
    using assms(1) ty t s by (simp add: timerTick_def coapPopNext_def Let_def add_node_insert)
  have ne: "insert_node ?n qs \<noteq> []" by (cases qs) simp_all
  have "retransmit_cnt n + 1 \<le> COAP_DEFAULT_MAX_RETRANSMIT"
    using cnt by (simp add: COAP_DEFAULT_MAX_RETRANSMIT_def word_le_nat_alt)
  then have ok: "node_ok ?reqs ?n" using node_ok_targets[OF assms(2) sent_by_targets] by (simp add: node_ok_def)
  have tr: "tries n = Suc (tries ?n)" using ty t(1) cnt by (simp add: tries_def)
  show ?thesis
    by (rule exI, rule exI[of _ ?n], intro conjI, rule tick) (use ne ok tr in \<open>simp_all add: repeats_def\<close>)
qed

text \<open>On a closed request it is undefined.\<close>

lemma tick_closed:
  assumes "pQueue c = n # qs" "tries n \<noteq> 0" "\<not> udp_open (requests c ! q_req n)"
  shows "timerTick conn c = None"
proof (cases "getType (q_pdu n)")
  case (Some ty)
  have "ty \<noteq> COAP_NON_CONFIRMABLE" "retransmit_cnt n < COAP_DEFAULT_MAX_RETRANSMIT"
    using assms(2) Some by (auto simp: tries_def COAP_DEFAULT_MAX_RETRANSMIT_def word_less_nat_alt split: if_splits)
  then show ?thesis using assms(1,3) Some send_closed[of "c\<lparr>pQueue := qs, timer := None\<rparr>"]
    by (simp add: timerTick_def coapPopNext_def Let_def)
qed (use assms(1) in \<open>simp add: timerTick_def coapPopNext_def\<close>)

subsection \<open>Until somebody is told\<close>

fun run_ticks :: "bool list \<Rightarrow> coap_client \<Rightarrow> coap_client option" where
  "run_ticks [] c = Some c"
| "run_ticks (conn # conns) c = do { c \<leftarrow> timerTick conn c; run_ticks conns c }"

definition all_tries :: "coap_queue list \<Rightarrow> nat" where
  "all_tries qs = (\<Sum>n\<leftarrow>qs. tries n)"

lemma tries_insert: "all_tries (insert_node n qs) = tries n + all_tries qs"
  unfolding all_tries_def sum_list_mset by (subst insert_node_mset) simp_all

lemma insert_node_any:
  assumes "\<And>n t. P (n\<lparr>q_t := t\<rparr>) = P n"
  shows "(\<forall>x \<in> set (insert_node n qs). P x) \<longleftrightarrow> P n \<and> (\<forall>x \<in> set qs. P x)"
  using assms by (induction qs arbitrary: n) auto

text \<open>What every message keeps while it waits.\<close>

definition label :: "coap_queue \<Rightarrow> int \<times> nat \<times> CoapPDU" where
  "label n = (q_id n, q_req n, q_pdu n)"

lemma label_time [simp]: "label (n\<lparr>q_t := t\<rparr>) = label n"
  by (simp add: label_def)

text \<open>
  As long as the first message has a transmission left the timer sends it again; so within as many ticks as there
  are transmissions left, a message without one is in front, and nobody has been told anything yet.
\<close>

lemma until_given_up:
  assumes "\<forall>n \<in> set (pQueue c). node_ok (requests c) n \<and> udp_open (requests c ! q_req n)" "pQueue c \<noteq> []"
    "length conns = all_tries (pQueue c)"
  shows "\<exists>k c1 n qs ds. k \<le> length conns \<and> run_ticks (take k conns) c = Some c1 \<and> pQueue c1 = n # qs \<and> tries n = 0 \<and>
    node_ok (requests c1) n \<and> callbacks c1 = callbacks c \<and> calls c1 = calls c \<and> freed c1 = freed c \<and>
    sent_pdus c1 = sent_pdus c @ ds \<and> length ds = k \<and>
    mset ds + mset (concat (map repeats (pQueue c1))) = mset (concat (map repeats (pQueue c))) \<and>
    mset (map label (pQueue c1)) = mset (map label (pQueue c))"
  using assms
proof (induction conns arbitrary: c)
  case Nil
  then obtain n qs where q: "pQueue c = n # qs" by (cases "pQueue c") auto
  then have "tries n = 0" using Nil.prems(3) by (simp add: all_tries_def)
  then show ?case using q Nil.prems(1)
    by (intro exI[of _ 0] exI[of _ c] exI[of _ n] exI[of _ qs] exI[of _ "[]"]) simp
next
  case (Cons conn conns)
  then obtain n qs where q: "pQueue c = n # qs" by (cases "pQueue c") auto
  have n: "node_ok (requests c) n" "udp_open (requests c ! q_req n)"
    "\<forall>n \<in> set qs. node_ok (requests c) n \<and> udp_open (requests c ! q_req n)" using Cons.prems(1) q by simp_all
  show ?case
  proof (cases "tries n = 0")
    case True
    then show ?thesis using q n(1)
      by (intro exI[of _ 0] exI[of _ c] exI[of _ n] exI[of _ qs] exI[of _ "[]"]) simp
  next
    case False
    obtain c1 n' where c1: "timerTick conn c = Some c1" "pQueue c1 = insert_node n' qs" "requests c1 = sent_by (q_req n) conn (q_id n) (requests c)"
      "callbacks c1 = callbacks c" "sent_pdus c1 = sent_pdus c @ [(q_req n, pdu_bytes (q_pdu n))]" "calls c1 = calls c" "freed c1 = freed c"
      "q_id n' = q_id n" "q_req n' = q_req n" "q_pdu n' = q_pdu n" "node_ok (requests c1) n'" "tries n = Suc (tries n')"
      "repeats n = (q_req n, pdu_bytes (q_pdu n)) # repeats n'"
      using tick_repeats[OF q n(1) False n(2)] by blast
    have "q_req n < length (requests c)" using n(1) by (simp add: node_ok_def)
    then have "node_ok (requests c1) n' \<and> udp_open (requests c1 ! q_req n')" using c1(3,9,11) n(2) by (simp add: sent_by_nth)
    moreover have "node_ok (requests c1) x \<and> udp_open (requests c1 ! q_req x)" if "x \<in> set qs" for x
    proof -
      have x: "node_ok (requests c) x" "udp_open (requests c ! q_req x)" using n(3) that by simp_all
      then have "q_req x < length (requests c)" by (simp add: node_ok_def)
      then show ?thesis using x node_ok_targets[OF x(1) sent_by_targets] c1(3) by (simp add: sent_by_nth)
    qed
    ultimately have "\<forall>x \<in> set (pQueue c1). node_ok (requests c1) x \<and> udp_open (requests c1 ! q_req x)"
      unfolding c1(2) by (subst insert_node_any) (auto simp: node_ok_time)
    moreover have "pQueue c1 \<noteq> []" unfolding c1(2) by (cases qs) simp_all
    moreover have "length conns = all_tries (pQueue c1)"
      using Cons.prems(3) q c1(12) unfolding c1(2) tries_insert by (simp add: all_tries_def)
    ultimately obtain k' c2 m ms ds where r: "k' \<le> length conns" "run_ticks (take k' conns) c1 = Some c2" "pQueue c2 = m # ms" "tries m = 0"
      "node_ok (requests c2) m" "callbacks c2 = callbacks c" "calls c2 = calls c" "freed c2 = freed c"
      "sent_pdus c2 = sent_pdus c1 @ ds" "length ds = k'"
      "mset ds + mset (concat (map repeats (pQueue c2))) = mset (concat (map repeats (pQueue c1)))"
      "mset (map label (pQueue c2)) = mset (map label (pQueue c1))"
      using Cons.IH[of c1] unfolding c1(4,6,7) by blast
    have s: "mset (concat (map repeats (pQueue c1))) = mset (repeats n') + mset (concat (map repeats qs))"
      unfolding c1(2) by (rule concat_insert) simp
    have l: "mset (map label (pQueue c1)) = mset (map label (pQueue c))"
      unfolding c1(2) q by (subst insert_node_mset) (simp_all add: label_def c1(8-10))
    show ?thesis
      by (rule exI[of _ "Suc k'"], rule exI[of _ c2], rule exI[of _ m], rule exI[of _ ms], rule exI[of _ "(q_req n, pdu_bytes (q_pdu n)) # ds"])
        (use r(1-10) r(11)[unfolded s] r(12)[unfolded l] c1(1,5,13) q in simp)
  qed
qed

subsection \<open>The queue as a list of deadlines\<close>

text \<open>
  C33: the queue of relative times is a list of deadlines in their order. For a queue with different ids whose times
  add up to less than \<open>2 ^ 32\<close>: \<open>coapAddNode\<close> inserts the deadline of the new node behind the earlier and
  equal ones; \<open>coapRemoveNode\<close> takes out exactly the node with the id and moves no other deadline; \<open>coapPopNext\<close>
  takes the first; and when no more time has gone by than the first has left, \<open>timerUpdate\<close> moves the base, not the
  deadlines.
\<close>

theorem queue_refines_deadlines:
  assumes "total_time qs < 2 ^ 32" "distinct (map q_id qs)"
  shows "sorted (map fst (due b qs)) \<and>
    due b (coapAddNode qs n) = insert_due (b + unat (q_t n), n\<lparr>q_t := 0\<rparr>) (due b qs) \<and>
    due b (snd (coapRemoveNode qs i)) = filter (\<lambda>x. q_id (snd x) \<noteq> i) (due b qs) \<and>
    (case coapPopNext qs of
       (None, qs') \<Rightarrow> qs = [] \<and> qs' = []
     | (Some q, qs') \<Rightarrow> due b qs = (b + unat (q_t q), q\<lparr>q_t := 0\<rparr>) # due (b + unat (q_t q)) qs') \<and>
    (pQueue c = qs \<longrightarrow> (case qs of [] \<Rightarrow> True | q # _ \<Rightarrow> fst (timerElapsed time c) \<le> q_t q) \<longrightarrow>
       due (b + unat (fst (timerElapsed time c))) (pQueue (timerUpdate time c)) = due b qs)"
proof (intro conjI)
  show "case coapPopNext qs of (None, qs') \<Rightarrow> qs = [] \<and> qs' = []
     | (Some q, qs') \<Rightarrow> due b qs = (b + unat (q_t q), q\<lparr>q_t := 0\<rparr>) # due (b + unat (q_t q)) qs'"
    by (cases qs) (simp_all add: coapPopNext_def)
  show "pQueue c = qs \<longrightarrow> (case qs of [] \<Rightarrow> True | q # _ \<Rightarrow> fst (timerElapsed time c) \<le> q_t q) \<longrightarrow>
      due (b + unat (fst (timerElapsed time c))) (pQueue (timerUpdate time c)) = due b qs"
  proof (cases qs)
    case (Cons q qs')
    obtain d c' where e: "timerElapsed time c = (d, c')" "pQueue c' = pQueue c" by (simp add: timerElapsed_def Let_def)
    show ?thesis
    proof (intro impI)
      assume x: "pQueue c = qs" "case qs of [] \<Rightarrow> True | q # _ \<Rightarrow> fst (timerElapsed time c) \<le> q_t q"
      then have d: "d \<le> q_t q" using Cons e by simp
      have "b + unat d + unat (q_t q - d) = b + unat (q_t q)" using d by (simp add: unat_sub word_le_nat_alt)
      moreover have "due (b + unat d) (q\<lparr>q_t := q_t q - d\<rparr> # qs') =
          (b + unat d + unat (q_t q - d), q\<lparr>q_t := 0\<rparr>) # due (b + unat d + unat (q_t q - d)) qs'" by simp
      moreover have "pQueue (timerUpdate time c) = q\<lparr>q_t := q_t q - d\<rparr> # qs'" using e Cons x d by (simp add: timerUpdate_def)
      ultimately show "due (b + unat (fst (timerElapsed time c))) (pQueue (timerUpdate time c)) = due b qs"
        unfolding e(1) Cons by (simp only: fst_conv due.simps)
    qed
  qed (simp add: timerUpdate_def timerElapsed_def Let_def)
qed (simp_all add: due_sorted add_node_insert insert_node_due remove_node_due[OF assms])

definition demo_node :: "u32 \<Rightarrow> int \<Rightarrow> coap_queue" where
  "demo_node t i = \<lparr>q_t = t, retransmit_cnt = 0, q_timeout = 2000, q_id = i, q_pdu = demo_pdu, q_req = 0\<rparr>"

lemma queue_refines_deadlines_witness:
  "due 10 (coapAddNode [demo_node 5 1, demo_node 7 2] (demo_node 9 3)) =
     [(15, demo_node 0 1), (19, demo_node 0 3), (22, demo_node 0 2)]"
  using queue_refines_deadlines[of "[demo_node 5 1, demo_node 7 2]" 10 "demo_node 9 3" 1 "new_client 0" 0]
  by (simp add: total_time_def demo_node_def insert_due_def)

end
