(* ===== verification/Client_Life.thy ===== *)
theory Client_Life imports Client_Props begin

section \<open>The life of a client\<close>

text \<open>
  The states a client can be in. The timer is armed for the first of the messages that wait, whatever is asked of the
  client, whatever arrives, whenever the timer fires. As long as no two waiting messages share a transaction id, every
  message can be sent again until it has no transmission left and its caller is told; when two share one, a
  response leaves one of them behind on a closed request, and the timer runs into a null pointer.
\<close>

subsection \<open>Sending\<close>

text \<open>A message that waits, with the number of its retransmissions.\<close>

definition counted :: "coap_queue \<Rightarrow> (int \<times> nat \<times> CoapPDU) \<times> u8" where
  "counted n = (label n, retransmit_cnt n)"

lemma counted_time [simp]: "counted (n\<lparr>q_t := t\<rparr>) = counted n"
  by (simp add: counted_def)

lemma counted_labels: "mset (map label qs) = image_mset fst (mset (map counted qs))"
  by (induction qs) (simp_all add: counted_def)

lemma update_fields:
  obtains qs b where "timerUpdate time c = c\<lparr>basetime := b, pQueue := qs\<rparr>" "qs = [] \<longleftrightarrow> pQueue c = []"
    "map counted qs = map counted (pQueue c)" "\<forall>n \<in> set qs. \<exists>m \<in> set (pQueue c). \<exists>t. n = m\<lparr>q_t := t\<rparr>"
proof (cases "pQueue c")
  case Nil
  have "timerUpdate time c = c\<lparr>basetime := time div 1000, pQueue := []\<rparr>"
    by (simp add: timerUpdate_def timerElapsed_def Let_def Nil)
  from that[OF this] show thesis using Nil by simp
next
  case (Cons q qs)
  define d where "d = fst (timerElapsed time c)"
  have u: "timerUpdate time c = c\<lparr>basetime := time div 1000, pQueue := q\<lparr>q_t := (if q_t q \<ge> d then q_t q - d else 0)\<rparr> # qs\<rparr>"
    by (simp add: timerUpdate_def timerElapsed_def Let_def Cons d_def)
  have same: "\<exists>t. n = n\<lparr>q_t := t\<rparr>" for n :: coap_queue by (rule exI[of _ "q_t n"]) simp
  show thesis
  proof (rule that[OF u])
    show "\<forall>n \<in> set (q\<lparr>q_t := (if q_t q \<ge> d then q_t q - d else 0)\<rparr> # qs). \<exists>m \<in> set (pQueue c). \<exists>t. n = m\<lparr>q_t := t\<rparr>"
      unfolding Cons using same by fastforce
  qed (simp_all add: Cons)
qed

lemma update_first: "pQueue c = q # qs \<Longrightarrow> \<exists>b t. timerUpdate time c = c\<lparr>basetime := b, pQueue := q\<lparr>q_t := t\<rparr> # qs\<rparr>"
  by (cases "timerElapsed time c") (auto simp: timerUpdate_def timerElapsed_def Let_def)

lemma response_timeout_bounds: "2000 \<le> unat (response_timeout r) \<and> unat (response_timeout r) \<le> 2996"
proof -
  have a: "unat (r AND 0xFF) \<le> 255"
    using word_and_le1[of r "0xFF"] by (simp add: word_le_nat_alt)
  then have m: "unat (1000 * (r AND 0xFF) :: u32) = 1000 * unat (r AND 0xFF)" by (simp add: unat_word_ariths)
  have d: "unat (drop_bit 8 (1000 * (r AND 0xFF) :: u32)) = 1000 * unat (r AND 0xFF) div 256"
    unfolding unat_drop_bit_eq m by (simp only: drop_bit_eq_div) simp
  have "1000 * unat (r AND 0xFF) div 256 \<le> 996" using a by simp
  then show ?thesis
    by (simp add: response_timeout_def COAP_DEFAULT_RESPONSE_TIMEOUT_def COAP_TICKS_PER_SECOND_def unat_word_ariths d)
qed

text \<open>
  What the client is given of a URL and finds of the heap: memory for the message and, while it is printed, for its
  options; segments and queries of plain characters; a content format of one byte; a port.
\<close>

definition proper_request :: "client_env \<Rightarrow> u8 list list \<Rightarrow> u8 list list \<Rightarrow> u16 \<Rightarrow> int \<Rightarrow> bool" where
  "proper_request env segs qs format port \<longleftrightarrow> never_fails (env_realloc env) \<and> env_option_memory env \<and> segs \<noteq> [] \<and> (\<forall>s \<in> set segs. plain s) \<and>
     good_queries qs \<and> format \<le> 0xff \<and> 0 \<le> port \<and> port < 65536"

lemma built_readable:
  assumes "client_msg (request_header ty method mid) tok opts pl p" "ty = COAP_CONFIRMABLE \<or> ty = COAP_NON_CONFIRMABLE"
  shows "getType p = Some ty" "\<exists>t. createTransactionID ip port p = Some t" "0 \<le> pduLength p" "pduLength p \<le> int (length (pdu p))"
proof -
  have inb: "in_buffer p" and b: "pdu_bytes p = request_header ty method mid @ tok @ encs 0 opts @ pl"
    using assms(1) by (simp_all add: client_msg_def)
  obtain T where t: "pdu p = pdu_bytes p @ T" "pduLength p = int (length (pdu_bytes p))" using in_buffer_split[OF inb] by blast
  have r: "rd p 0 = Some (0x44 OR ty)" "rd p 2 = Some (ucast (drop_bit 8 mid))" "rd p 3 = Some (ucast mid)"
    using t b by (simp_all add: rd_def request_header_def)
  show "getType p = Some ty" using r(1) assms(2) by (auto simp: getType_def pdu_types)
  show "\<exists>t. createTransactionID ip port p = Some t"
    using r(2,3) by (simp add: createTransactionID_def getMessageID_def load16_def)
  show "0 \<le> pduLength p" "pduLength p \<le> int (length (pdu p))" using t by simp_all
qed

definition armed :: "coap_client \<Rightarrow> bool" where
  "armed c \<longleftrightarrow> timer c = (if pQueue c = [] then None else Some (q_t (hd (pQueue c))))"

text \<open>The states the client's own operations lead to.\<close>

definition client_ok :: "coap_client \<Rightarrow> bool" where
  "client_ok c \<longleftrightarrow> (\<forall>n \<in> set (pQueue c). node_ok (requests c) n) \<and> armed c \<and>
     (\<forall>i < length (requests c). 0 \<le> req_port (requests c ! i) \<and> req_port (requests c ! i) < 65536)"

lemma do_request_ok:
  assumes "client_ok c" "client_msg (request_header ty method mid) tok opts pl p" "ty = COAP_CONFIRMABLE \<or> ty = COAP_NON_CONFIRMABLE"
    "i < length (requests c)" "\<not> constructedFromBuffer p" "printHex p = Some dump" "udp_open (requests c ! i)"
  shows "\<exists>t c'. doRequest mem conn r time i p c = Some (t, c') \<and> client_ok c' \<and>
    length (requests c') = length (requests c) \<and> message_id c' = message_id c \<and>
    (if mem then sent_pdus c' = sent_pdus c @ [(i, pdu_bytes p)] \<and> length (pQueue c') = Suc (length (pQueue c)) \<and>
       mset (map counted (pQueue c')) = add_mset ((t, i, p), 0) (mset (map counted (pQueue c))) \<and> callbacks c' = callbacks c \<and>
       requests c' = sent_by i conn t (requests c) \<and> (\<exists>n \<in> set (pQueue c'). q_id n = t \<and> q_pdu n = p \<and> q_req n = i \<and> retransmit_cnt n = 0)
     else t = COAP_INVALID_TID \<and> c' = c)"
proof (cases mem)
  case False
  then show ?thesis using assms(1) by (simp add: doRequest_def)
next
  case True
  note rp = built_readable[OF assms(2,3)]
  let ?r = "requests c ! i"
  have port: "0 \<le> req_port ?r" "req_port ?r < 65536" using assms(1,4) by (simp_all add: client_ok_def)
  obtain t where t: "createTransactionID (req_ip ?r) (word_of_int (req_port ?r)) p = Some t" using rp(2) by blast
  define timeout where "timeout = (if ty = COAP_CONFIRMABLE then response_timeout r else COAP_DEFAULT_RESPONSE_TIMEOUT * COAP_TICKS_PER_SECOND)"
  let ?n = "\<lparr>q_t = timeout, retransmit_cnt = 0, q_timeout = timeout, q_id = t, q_pdu = p, q_req = i\<rparr>"
  have s: "send_through conn i p c = Some (t, c\<lparr>requests := sent_by i conn t (requests c), sent_pdus := sent_pdus c @ [(i, pdu_bytes p)]\<rparr>)"
    using send_through_ok[of ?n c t conn] assms(4,7) port t rp(3,4) by auto
  define reqs' where "reqs' = sent_by i conn t (requests c)"
  have st: "same_targets (requests c) reqs'" by (simp add: reqs'_def)
  let ?c = "c\<lparr>requests := reqs', sent_pdus := sent_pdus c @ [(i, pdu_bytes p)], timer := None\<rparr>"
  obtain qs b where u: "timerUpdate time ?c = ?c\<lparr>basetime := b, pQueue := qs\<rparr>"
    "\<forall>n \<in> set qs. \<exists>m \<in> set (pQueue ?c). \<exists>t. n = m\<lparr>q_t := t\<rparr>" "map counted qs = map counted (pQueue ?c)" by (rule update_fields[of time ?c])
  have l: "length qs = length (pQueue c)" using arg_cong[OF u(3), of length] by simp
  have d: "doRequest mem conn r time i p c = Some (t, timerRestart (?c\<lparr>basetime := b, pQueue := insert_node ?n qs\<rparr>))"
    using True rp(1) s u(1) assms(6) by (simp add: doRequest_def reqs'_def[symmetric] timerStop_def Let_def add_node_insert timeout_def)
  have ne: "insert_node ?n qs \<noteq> []" by (cases qs) simp_all
  have "node_ok reqs' ?n"
    using assms(4,5) port t rp st by (simp add: node_ok_def same_targets_def)
  moreover have "node_ok reqs' n" if "n \<in> set qs" for n
    using u(2) that assms(1) node_ok_targets[OF _ st] by (fastforce simp: client_ok_def node_ok_time)
  ultimately have "\<forall>n \<in> set (insert_node ?n qs). node_ok reqs' n" unfolding insert_node_all by blast
  then have ok: "client_ok (timerRestart (?c\<lparr>basetime := b, pQueue := insert_node ?n qs\<rparr>))"
    using ne assms(1) st by (simp add: client_ok_def armed_def same_targets_def)
  have "(q_id ?n, q_pdu ?n, q_req ?n, retransmit_cnt ?n) \<in> (\<lambda>n. (q_id n, q_pdu n, q_req n, retransmit_cnt n)) ` set (insert_node ?n qs)"
  proof -
    have "(\<lambda>n. (q_id n, q_pdu n, q_req n, retransmit_cnt n)) ?n \<in># mset (map (\<lambda>n. (q_id n, q_pdu n, q_req n, retransmit_cnt n)) (insert_node ?n qs))"
      by (subst insert_node_mset) simp_all
    then show ?thesis by simp
  qed
  then have "\<exists>n \<in> set (insert_node ?n qs). q_id n = t \<and> q_pdu n = p \<and> q_req n = i \<and> retransmit_cnt n = 0" by auto
  moreover have "mset (map counted (insert_node ?n qs)) = add_mset ((t, i, p), 0) (mset (map counted (pQueue c)))"
  proof -
    have "mset (map counted (insert_node ?n qs)) = add_mset (counted ?n) (mset (map counted qs))" by (rule insert_node_mset) simp
    then show ?thesis using u(3) by (simp add: counted_def label_def)
  qed
  moreover have "length (insert_node ?n qs) = Suc (length (pQueue c))" using l by (simp add: insert_node_length)
  ultimately show ?thesis
    by (intro exI[of _ t] exI[of _ "timerRestart (?c\<lparr>basetime := b, pQueue := insert_node ?n qs\<rparr>)"])
      (use d ok True in \<open>auto simp: reqs'_def\<close>)
qed

text \<open>\<open>c'\<close> is \<open>c\<close> after a request has been sent.\<close>

definition asked :: "u8 \<Rightarrow> u8 \<Rightarrow> u8 list list \<Rightarrow> u8 list list \<Rightarrow> u16 \<Rightarrow> u8 list \<Rightarrow> nat \<Rightarrow> coap_client \<Rightarrow> coap_client \<Rightarrow> bool" where
  "asked ty method segs qs format payload callback c c' \<longleftrightarrow>
     length (pQueue c') = Suc (length (pQueue c)) \<and> length (requests c') = Suc (length (requests c)) \<and> message_id c' = message_id c + 1 \<and>
     (\<exists>n \<in> set (pQueue c'). callbacks c' (q_id n) = Some callback \<and> retransmit_cnt n = 0 \<and> getType (q_pdu n) = Some ty \<and>
        pdu_bytes (q_pdu n) = request_header ty method (message_id c) @ CLIENT_TOKEN @ encs 0 (request_options segs qs format) @ payload_tail payload \<and>
        sent_pdus c' = sent_pdus c @ [(length (requests c), pdu_bytes (q_pdu n))])"

text \<open>The new message and its request; \<open>hdr\<close> is the header of the message.\<close>

definition sent_as :: "u8 list \<Rightarrow> bool \<Rightarrow> u32 \<Rightarrow> int \<Rightarrow> coap_client \<Rightarrow> coap_client \<Rightarrow> bool" where
  "sent_as hdr conn ip port c c' \<longleftrightarrow> (\<exists>t p. requests c' = sent_by (length (requests c)) conn t (requests c @ [new_request ip port]) \<and>
     mset (map counted (pQueue c')) = add_mset ((t, length (requests c), p), 0) (mset (map counted (pQueue c))) \<and> take 4 (pdu_bytes p) = hdr)"

text \<open>
  What a message that waits needs to be sent again, and for its caller to be told: an open request with its
  transaction id, and a callback.
\<close>

definition sendable :: "coap_client \<Rightarrow> int \<times> nat \<times> CoapPDU \<Rightarrow> bool" where
  "sendable c = (\<lambda>(t, r, p). r < length (requests c) \<and> udp_open (requests c ! r) \<and> tid (requests c ! r) = t \<and> callbacks c t \<noteq> None)"

definition all_sendable :: "coap_client \<Rightarrow> bool" where
  "all_sendable c \<longleftrightarrow> (\<forall>n \<in> set (pQueue c). sendable c (label n))"

lemma all_sendable_labels: "all_sendable c \<longleftrightarrow> (\<forall>l \<in># mset (map label (pQueue c)). sendable c l)"
  by (auto simp: all_sendable_def)

text \<open>Every operation leads from such a state to such a state.\<close>

lemma request_ok:
  assumes "client_ok c" "proper_request env segs qs format (Port url)" "PathWithQuery url = uri_text segs qs"
  shows "\<exists>c'. request env time conn_type method url format payload callback c = Some c' \<and> client_ok c' \<and>
    (Host url \<noteq> [] \<and> env_dns env (Host url) = Dns_ok ip' \<and> env_node_memory env \<longrightarrow>
       asked (if conn_type = COAP_NON_CONFIRMABLE then COAP_NON_CONFIRMABLE else COAP_CONFIRMABLE) method segs qs format payload callback c c' \<and>
       sent_as (request_header (if conn_type = COAP_NON_CONFIRMABLE then COAP_NON_CONFIRMABLE else COAP_CONFIRMABLE) method (message_id c))
         (env_connects env) ip' (if Port url = 80 then COAP_DEFAULT_PORT else Port url) c c') \<and>
    (all_sendable c \<longrightarrow> all_sendable c')"
proof (cases "Host url = []")
  case False
  define ty where "ty = (if conn_type \<noteq> COAP_CONFIRMABLE \<and> conn_type \<noteq> COAP_NON_CONFIRMABLE then COAP_CONFIRMABLE else conn_type)"
  have ty: "ty = COAP_CONFIRMABLE \<or> ty = COAP_NON_CONFIRMABLE" by (simp add: ty_def)
  define port where "port = (if Port url = 80 then COAP_DEFAULT_PORT else Port url)"
  have port: "0 \<le> port" "port < 65536" using assms(2) by (simp_all add: port_def proper_request_def COAP_DEFAULT_PORT_def)
  have om: "env_option_memory env" using assms(2) by (simp add: proper_request_def)
  have "never_fails (env_realloc env)" "segs \<noteq> []" "\<forall>s \<in> set segs. plain s" "good_queries qs" "format \<le> 0xff"
    using assms(2) by (simp_all add: proper_request_def)
  from build_request[OF this(1) ty this(2-5)] obtain p where
    p: "builPDU (env_realloc env) (env_calloc env) ty method (PathWithQuery url) format payload c = Some (p, c\<lparr>message_id := message_id c + 1\<rparr>)"
    "client_msg (request_header ty method (message_id c)) CLIENT_TOKEN (request_options segs qs format) (payload_tail payload) p" "\<not> constructedFromBuffer p"
    "payloadLength p = 0 \<or> (\<exists>a. payloadPointer p = Some a \<and> 0 \<le> payloadLength p \<and> inside p a (payloadLength p))"
    unfolding assms(3) by blast
  obtain human dump where pr: "printHuman True p = Some human" "printHex p = Some dump" using built_printed[OF p(2,4)] by blast
  show ?thesis
  proof (cases "env_dns env (Host url)")
    case (Dns_ok ip)
    let ?c = "c\<lparr>message_id := message_id c + 1, requests := requests c @ [new_request ip port]\<rparr>"
    have "client_ok ?c"
      using assms(1) port by (auto simp: client_ok_def armed_def node_ok_def nth_append new_request_def less_Suc_eq)
    have op: "length (requests c) < length (requests ?c)" "udp_open (requests ?c ! length (requests c))" by (simp_all add: new_request_def)
    from do_request_ok[OF \<open>client_ok ?c\<close> p(2) ty op(1) p(3) pr(2) op(2), of "env_node_memory env" "env_connects env" "env_random env" time]
    obtain t c' where d: "doRequest (env_node_memory env) (env_connects env) (env_random env) time (length (requests c)) p ?c = Some (t, c')"
      "client_ok c'" "length (requests c') = length (requests ?c)" "message_id c' = message_id ?c"
      and mem: "if env_node_memory env then sent_pdus c' = sent_pdus ?c @ [(length (requests c), pdu_bytes p)] \<and>
          length (pQueue c') = Suc (length (pQueue ?c)) \<and>
          mset (map counted (pQueue c')) = add_mset ((t, length (requests c), p), 0) (mset (map counted (pQueue ?c))) \<and> callbacks c' = callbacks ?c \<and>
          requests c' = sent_by (length (requests c)) (env_connects env) t (requests ?c) \<and>
          (\<exists>n \<in> set (pQueue c'). q_id n = t \<and> q_pdu n = p \<and> q_req n = length (requests c) \<and> retransmit_cnt n = 0)
        else t = COAP_INVALID_TID \<and> c' = ?c" by (elim exE conjE)
    have mems: "env_node_memory env \<Longrightarrow> sent_pdus c' = sent_pdus c @ [(length (requests c), pdu_bytes p)] \<and>
        length (pQueue c') = Suc (length (pQueue c)) \<and>
        mset (map counted (pQueue c')) = add_mset ((t, length (requests c), p), 0) (mset (map counted (pQueue c))) \<and> callbacks c' = callbacks c \<and>
        requests c' = sent_by (length (requests c)) (env_connects env) t (requests c @ [new_request ip port]) \<and>
        (\<exists>n \<in> set (pQueue c'). q_id n = t \<and> q_pdu n = p \<and> q_req n = length (requests c) \<and> retransmit_cnt n = 0)"
      "\<not> env_node_memory env \<Longrightarrow> c' = ?c"
      using mem by (simp_all split del: if_split)
    let ?c' = "c'\<lparr>callbacks := (callbacks c')(t \<mapsto> callback)\<rparr>"
    have ok: "client_ok ?c'" using d(2) by (simp add: client_ok_def armed_def)
    have as: "asked ty method segs qs format payload callback c ?c'" if m: "env_node_memory env"
    proof -
      obtain n where "n \<in> set (pQueue c')" "q_id n = t" "q_pdu n = p" "retransmit_cnt n = 0" using mems(1)[OF m] by blast
      moreover have "pdu_bytes p = request_header ty method (message_id c) @ CLIENT_TOKEN @ encs 0 (request_options segs qs format) @ payload_tail payload"
        using p(2) by (simp add: client_msg_def)
      ultimately show ?thesis using d(3,4) mems(1)[OF m] built_readable(1)[OF p(2) ty] unfolding asked_def by auto
    qed
    have sa: "sent_as (request_header ty method (message_id c)) (env_connects env) ip port c ?c'" if m: "env_node_memory env"
      using mems(1)[OF m] p(2) unfolding sent_as_def
      by (intro exI[of _ t] exI[of _ p]) (simp add: client_msg_def request_header_def)
    have sd: "all_sendable ?c'" if "all_sendable c"
    proof (cases "env_node_memory env")
      case True
      have k: "requests c' = sent_by (length (requests c)) (env_connects env) t (requests c @ [new_request ip port])" using mems(1)[OF True] by blast
      have old: "sendable ?c' l" if "sendable c l" for l
        using that k mems(1)[OF True] by (auto simp: sendable_def sent_by_nth nth_append split: prod.splits)
      have new: "sendable ?c' (t, length (requests c), p)" using k by (simp add: sendable_def sent_by_nth new_request_def)
      have "mset (map label (pQueue ?c')) = add_mset (t, length (requests c), p) (mset (map label (pQueue c)))"
        using mems(1)[OF True] unfolding counted_labels by simp
      moreover have "\<forall>l \<in># mset (map label (pQueue c)). sendable c l" using \<open>all_sendable c\<close> unfolding all_sendable_labels .
      ultimately show ?thesis using old new unfolding all_sendable_labels by (metis insert_iff set_mset_add_mset_insert)
    next
      case False
      then show ?thesis using \<open>all_sendable c\<close> mems(2) by (auto simp: all_sendable_def sendable_def label_def nth_append)
    qed
    have te: "ty = (if conn_type = COAP_NON_CONFIRMABLE then COAP_NON_CONFIRMABLE else COAP_CONFIRMABLE)" by (simp add: ty_def)
    have rq: "request env time conn_type method url format payload callback c = Some ?c'"
      using False Dns_ok p(1) d(1) pr(1) om by (simp add: request_def Let_def ty_def[symmetric] port_def[symmetric])
    show ?thesis
      by (rule exI[of _ ?c'], intro conjI impI; (elim conjE)?)
        (use rq ok as sa sd Dns_ok in \<open>simp_all add: te[symmetric] port_def[symmetric]\<close>)
  qed (use False assms(1) in \<open>simp_all add: request_def Let_def\<close>)
qed (use assms(1) in \<open>simp add: request_def Let_def\<close>)

lemma tick_ok:
  assumes "client_ok c" "timerTick conn c = Some c'"
  shows "client_ok c'"
proof -
  obtain n qs where q: "pQueue c = n # qs" using assms(2) by (cases "pQueue c") (auto simp: timerTick_def coapPopNext_def)
  have n: "node_ok (requests c) n" "\<forall>n \<in> set qs. node_ok (requests c) n" using assms(1) q by (simp_all add: client_ok_def)
  show ?thesis
  proof (cases "tries n = 0")
    case True
    then show ?thesis using tick_gives_up[OF q n(1) True, of conn] assms n by (auto simp: client_ok_def armed_def)
  next
    case False
    then have "udp_open (requests c ! q_req n)" using tick_closed[OF q False, of conn] assms(2) by auto
    from tick_repeats[OF q n(1) False this, of conn] obtain n' where c: "pQueue c' = insert_node n' qs"
      "requests c' = sent_by (q_req n) conn (q_id n) (requests c)" "timer c' = Some (q_t (hd (pQueue c')))" "node_ok (requests c') n'"
      using assms(2) by auto
    have st: "same_targets (requests c) (requests c')" unfolding c(2) by simp
    have "\<forall>n \<in> set (pQueue c'). node_ok (requests c') n"
      unfolding c(1) insert_node_all using c(4) n(2) node_ok_targets[OF _ st] by blast
    moreover have "pQueue c' \<noteq> []" unfolding c(1) by (cases qs) simp_all
    ultimately show ?thesis using c(3) assms(1) st by (auto simp: client_ok_def armed_def same_targets_def)
  qed
qed

text \<open>With all messages sendable the timer can fire, and they stay so.\<close>

lemma tick_sendable:
  assumes "client_ok c" "all_sendable c" "pQueue c \<noteq> []"
  shows "\<exists>c'. timerTick conn c = Some c' \<and> all_sendable c'"
proof -
  obtain n qs where q: "pQueue c = n # qs" using assms(3) by (cases "pQueue c") auto
  have n: "node_ok (requests c) n" using assms(1) q by (simp add: client_ok_def)
  have s: "sendable c (label n)" "\<forall>m \<in> set qs. sendable c (label m)" using assms(2) q by (simp_all add: all_sendable_def)
  show ?thesis
  proof (cases "tries n = 0")
    case True
    from tick_gives_up[OF q n True, of conn] obtain c' where "timerTick conn c = Some c'" "pQueue c' = qs" "requests c' = requests c"
      "callbacks c' = callbacks c" by blast
    then show ?thesis using s(2) by (auto simp: all_sendable_def sendable_def)
  next
    case False
    have "udp_open (requests c ! q_req n)" using s(1) by (simp add: sendable_def label_def)
    from tick_repeats[OF q n False this, of conn] obtain c' n' where c: "timerTick conn c = Some c'" "pQueue c' = insert_node n' qs"
      "requests c' = sent_by (q_req n) conn (q_id n) (requests c)" "callbacks c' = callbacks c"
      "q_id n' = q_id n" "q_req n' = q_req n" "q_pdu n' = q_pdu n" by blast
    have keep: "sendable c' l" if "sendable c l" "fst (snd l) = q_req n \<longrightarrow> fst l = q_id n" for l
      using that c(3,4) by (auto simp: sendable_def sent_by_nth split: prod.splits)
    have same: "fst l = q_id n" if "sendable c l" "fst (snd l) = q_req n" for l
      using that s(1) by (auto simp: sendable_def label_def split: prod.splits)
    have "label n' = label n" using c(5-7) by (simp add: label_def)
    then have "\<forall>m \<in> set (pQueue c'). sendable c' (label m)"
      unfolding c(2) by (subst insert_node_any) (use s keep same in auto)
    then show ?thesis using c(1) by (auto simp: all_sendable_def)
  qed
qed

lemma remove_nodes:
  "n \<in> set (snd (coapRemoveNode qs t)) \<Longrightarrow> \<exists>m \<in> set qs. \<exists>t. n = m\<lparr>q_t := t\<rparr>"
proof (induction qs)
  case (Cons q qs)
  have same: "\<exists>t. n = n\<lparr>q_t := t\<rparr>" by (rule exI[of _ "q_t n"]) simp
  show ?case
  proof (cases "q_id q = t")
    case True
    then show ?thesis using Cons.prems same by (auto simp: later_def split: list.splits)
  next
    case False
    then have "n = q \<or> n \<in> set (snd (coapRemoveNode qs t))" using Cons.prems by (auto split: prod.splits)
    then show ?thesis using Cons.IH same by auto
  qed
qed simp

lemma later_ids: "map q_id (later t qs) = map q_id qs" "map label (later t qs) = map label qs"
  by (cases qs; simp add: later_def)+

lemma remove_node_ids: "map q_id (snd (coapRemoveNode qs t)) = remove1 t (map q_id qs)"
proof (induction qs)
  case (Cons q qs)
  then show ?case by (cases "coapRemoveNode qs t"; cases "q_id q = t") (simp_all add: later_ids)
qed simp

text \<open>A response for a request that is not waiting while others are runs the search off the queue.\<close>

lemma find_node_None: "find_node t qs = None \<longleftrightarrow> t \<notin> q_id ` set qs"
  by (induction qs) auto

lemma close_fields [simp]:
  "pQueue (close_request i c) = pQueue c" "callbacks (close_request i c) = callbacks c" "timer (close_request i c) = timer c"
  "calls (close_request i c) = calls c"
  "requests (close_request i c) = (requests c)[i := (requests c ! i)\<lparr>udp_open := False\<rparr>]"
  by (simp_all add: close_request_def)

text \<open>The client after a response it had a callback for: \<open>accept_response\<close>, before the timer is set again.\<close>

definition accept_response :: "nat \<Rightarrow> CoapPDU \<Rightarrow> coap_queue \<Rightarrow> coap_client \<Rightarrow> coap_client" where
  "accept_response i p node c =
    (let t = tid (requests c ! i);
         c = call_back t True p (timerStop c);
         c = close_request i (c\<lparr>callbacks := (callbacks c)(t := None)\<rparr>)
     in coapDeleteNode node (c\<lparr>pQueue := snd (coapRemoveNode (pQueue c) t)\<rparr>))"

lemma stop_fields [simp]:
  "pQueue (timerStop c) = pQueue c" "requests (timerStop c) = requests c" "callbacks (timerStop c) = callbacks c"
  "calls (timerStop c) = calls c" "timer (timerStop c) = None"
  by (simp_all add: timerStop_def)

lemma accept_fields:
  "pQueue (accept_response i p node c) = snd (coapRemoveNode (pQueue c) (tid (requests c ! i)))"
  "requests (accept_response i p node c) = (requests c)[i := (requests c ! i)\<lparr>udp_open := False\<rparr>]"
  "callbacks (accept_response i p node c) = (callbacks c)(tid (requests c ! i) := None)"
  "timer (accept_response i p node c) = None"
  "calls (accept_response i p node c) = calls (call_back (tid (requests c ! i)) True p c)"
  by (simp_all add: accept_response_def Let_def call_back_def split: option.splits)

lemma response_cases:
  assumes "onResponse time successful i p c = Some c'"
  obtains "c' = c"
  | "c' = timerRestart (timerUpdate time (timerStop c))" "callbacks c (tid (requests c ! i)) = None"
      "tid (requests c ! i) \<in> q_id ` set (pQueue c)"
  | node where "c' = timerRestart (timerUpdate time (accept_response i p node c))" "callbacks c (tid (requests c ! i)) \<noteq> None"
  using assms find_node_None[of "tid (requests c ! i)" "pQueue c"]
  by (auto simp: onResponse_def coapGetNodeById_def Let_def accept_response_def timerStop_def split: if_splits option.splits Option.bind_splits)

lemma response_ok:
  assumes "client_ok c" "onResponse time successful i p c = Some c'"
  shows "client_ok c'"
proof -
  have *: "client_ok (timerRestart (timerUpdate time c1))"
    if c1: "timer c1 = None" "same_targets (requests c) (requests c1)"
      "\<And>n. n \<in> set (pQueue c1) \<Longrightarrow> \<exists>m \<in> set (pQueue c). \<exists>t. n = m\<lparr>q_t := t\<rparr>" for c1
  proof -
    obtain qs b where u: "timerUpdate time c1 = c1\<lparr>basetime := b, pQueue := qs\<rparr>"
      "\<forall>n \<in> set qs. \<exists>m \<in> set (pQueue c1). \<exists>t. n = m\<lparr>q_t := t\<rparr>" by (rule update_fields[of time c1])
    have "node_ok (requests c1) n" if nq: "n \<in> set qs" for n
    proof -
      obtain m t m' t' where "m \<in> set (pQueue c1)" "n = m\<lparr>q_t := t\<rparr>" "m' \<in> set (pQueue c)" "m = m'\<lparr>q_t := t'\<rparr>"
        using u(2) nq c1(3) by meson
      then show ?thesis using assms(1) node_ok_targets[OF _ c1(2)] by (simp add: client_ok_def node_ok_time)
    qed
    then show ?thesis using u(1) c1(1,2) assms(1) by (auto simp: client_ok_def armed_def same_targets_def)
  qed
  have same: "\<exists>m \<in> set (pQueue c). \<exists>t. n = m\<lparr>q_t := t\<rparr>" if "n \<in> set (pQueue c)" for n
    using that exI[of "\<lambda>t. n = n\<lparr>q_t := t\<rparr>" "q_t n"] by auto
  from assms(2) show ?thesis
  proof (cases rule: response_cases)
    case 1
    then show ?thesis using assms(1) by simp
  next
    case 2
    then show ?thesis using *[of "timerStop c"] same by (simp add: same_targets_def)
  next
    case (3 node)
    have "same_targets (requests c) ((requests c)[i := (requests c ! i)\<lparr>udp_open := False\<rparr>])"
      by (cases "i < length (requests c)") (auto simp: same_targets_def nth_list_update)
    then show ?thesis unfolding 3(1) by (intro *) (use remove_nodes in \<open>auto simp: accept_fields\<close>)
  qed
qed

text \<open>With different ids the response takes its own message away, and the others keep what they need.\<close>

lemma response_sendable:
  assumes "all_sendable c" "distinct (map q_id (pQueue c))" "onResponse time successful i p c = Some c'"
  shows "all_sendable c'"
  using assms(3)
proof (cases rule: response_cases)
  case 1
  then show ?thesis using assms(1) by simp
next
  case 2
  then show ?thesis using assms(1) by (auto simp: all_sendable_def sendable_def label_def)
next
  case (3 node)
  let ?t = "tid (requests c ! i)" and ?c = "accept_response i p node c"
  obtain qs b where u: "timerUpdate time ?c = ?c\<lparr>basetime := b, pQueue := qs\<rparr>"
    "\<forall>n \<in> set qs. \<exists>m \<in> set (pQueue ?c). \<exists>t. n = m\<lparr>q_t := t\<rparr>" by (rule update_fields[of time ?c])
  have "sendable c' (label n)" if n: "n \<in> set (pQueue c')" for n
  proof -
    have "n \<in> set qs" using n unfolding 3(1) u(1) by simp
    then obtain m t m' t' where m: "m \<in> set (pQueue ?c)" "n = m\<lparr>q_t := t\<rparr>" "m' \<in> set (pQueue c)" "m = m'\<lparr>q_t := t'\<rparr>"
      using u(2) remove_nodes[of _ "pQueue c" ?t] by (metis accept_fields(1))
    then have l: "label n = label m'" "q_id m = q_id m'" by simp_all
    have "q_id m \<in> set (remove1 ?t (map q_id (pQueue c)))"
      using m(1) remove_node_ids[of "pQueue c" ?t] by (metis accept_fields(1) image_eqI list.set_map)
    then have "q_id m' \<noteq> ?t" using assms(2) l(2) by (simp add: set_remove1_eq)
    moreover have "sendable c (label m')" using assms(1) m(3) by (simp add: all_sendable_def)
    ultimately have "q_req m' \<noteq> i" "sendable c (label m')" "q_id m' \<noteq> ?t" by (auto simp: sendable_def label_def)
    then show ?thesis unfolding l(1) 3(1) u(1) by (auto simp: sendable_def label_def accept_fields)
  qed
  then show ?thesis by (simp add: all_sendable_def)
qed

subsection \<open>Reachable states\<close>

text \<open>
  What may happen to a client: it is asked for a request, a datagram arrives for one of its requests that is open, its
  timer fires. The orderly states are those in which no two of the messages that wait have ever had the same id.
\<close>

inductive client_step :: "coap_client \<Rightarrow> coap_client \<Rightarrow> bool" where
  "proper_request env segs qs format (Port url) \<Longrightarrow> PathWithQuery url = uri_text segs qs \<Longrightarrow>
     request env time conn_type method url format payload callback c = Some c' \<Longrightarrow> client_step c c'"
| "i < length (requests c) \<Longrightarrow> udp_open (requests c ! i) \<Longrightarrow> onReceive mem time a i data behind c = Some c' \<Longrightarrow> client_step c c'"
| "timer c \<noteq> None \<Longrightarrow> timerTick conn c = Some c' \<Longrightarrow> client_step c c'"

inductive client_reachable :: "coap_client \<Rightarrow> bool" where
  "client_reachable (new_client random)"
| "client_reachable c \<Longrightarrow> client_step c c' \<Longrightarrow> client_reachable c'"

inductive client_orderly :: "coap_client \<Rightarrow> bool" where
  "client_orderly (new_client random)"
| "client_orderly c \<Longrightarrow> client_step c c' \<Longrightarrow> distinct (map q_id (pQueue c')) \<Longrightarrow> client_orderly c'"

lemma receive_response:
  assumes "onReceive mem time a i data behind c = Some c'"
  obtains successful p where "onResponse time successful i p c = Some c'"
  using assms by (auto simp: onReceive_def split: Option.bind_splits if_splits)

lemma client_step_ok:
  assumes "client_ok c" "client_step c c'"
  shows "client_ok c'"
  using assms(2)
proof (cases rule: client_step.cases)
  case (1 env segs qs format url time conn_type meth pl callback)
  from request_ok[OF assms(1) 1(1,2), of time conn_type meth pl callback] 1(3) show ?thesis by auto
next
  case (2 i mem time a data behind)
  then show ?thesis using response_ok[OF assms(1)] receive_response by metis
next
  case (3 conn)
  then show ?thesis using tick_ok[OF assms(1)] by simp
qed

lemma client_reachable_ok: "client_reachable c \<Longrightarrow> client_ok c"
proof (induction rule: client_reachable.induct)
  case (1 random)
  show ?case by (simp add: client_ok_def armed_def new_client_def)
qed (rule client_step_ok)

lemma orderly_step:
  assumes "client_ok c" "all_sendable c" "distinct (map q_id (pQueue c))" "client_step c c'"
  shows "all_sendable c'"
  using assms(4)
proof (cases rule: client_step.cases)
  case (1 env segs qs format url time conn_type meth pl callback)
  from request_ok[OF assms(1) 1(1,2), of time conn_type meth pl callback] 1(3) assms(2) show ?thesis by auto
next
  case (2 i mem time a data behind)
  then show ?thesis using response_sendable[OF assms(2,3)] receive_response by metis
next
  case (3 conn)
  then have "pQueue c \<noteq> []" using assms(1) by (auto simp: client_ok_def armed_def)
  then show ?thesis using tick_sendable[OF assms(1,2), of conn] 3 by auto
qed

lemma orderly_ok: "client_orderly c \<Longrightarrow> client_reachable c \<and> all_sendable c \<and> distinct (map q_id (pQueue c))"
proof (induction rule: client_orderly.induct)
  case (1 random)
  show ?case using client_reachable.intros(1) by (simp add: all_sendable_def new_client_def)
next
  case (2 c c')
  then show ?case using client_reachable.intros(2) orderly_step[OF client_reachable_ok] by blast
qed

subsection \<open>The properties\<close>

text \<open>
  C34: in every state a client can come to, by proper requests (\<open>proper_request\<close>: the heap has memory for the message
  and for printing it, the URL has plain segments and queries and a valid port, the format fits a byte), by any
  datagrams for its open requests and by its timer: the timer is armed exactly when something waits, with the time of
  the first node, and every waiting node has a readable message, a request with a valid port, the transaction id that
  this message has there, and at most four retransmissions behind it. As long as no two messages that waited together
  had the same transaction id, every waiting node also has an open request, that request has the node's id, its
  caller has a callback, and whenever something waits the timer can fire. (When a request has failed, its message has been
  released twice, see C36; that the heap stands this is taken for granted here.)
\<close>

theorem client_states_armed:
  assumes "client_reachable c"
  shows "timer c = (if pQueue c = [] then None else Some (q_t (hd (pQueue c)))) \<and>
    (\<forall>n \<in> set (pQueue c). q_req n < length (requests c) \<and>
       createTransactionID (req_ip (requests c ! q_req n)) (word_of_int (req_port (requests c ! q_req n))) (q_pdu n) = Some (q_id n) \<and>
       0 \<le> q_id n \<and> q_id n < 65536 \<and> getType (q_pdu n) \<noteq> None \<and> pduLength (q_pdu n) \<le> int (length (pdu (q_pdu n))) \<and>
       unat (retransmit_cnt n) \<le> 4) \<and>
    (client_orderly c \<longrightarrow>
      (\<forall>n \<in> set (pQueue c). udp_open (requests c ! q_req n) \<and> tid (requests c ! q_req n) = q_id n \<and> callbacks c (q_id n) \<noteq> None) \<and>
      (pQueue c \<noteq> [] \<longrightarrow> (\<forall>connects. timerTick connects c \<noteq> None)))"
proof -
  have ok: "client_ok c" by (rule client_reachable_ok[OF assms])
  then have n: "node_ok (requests c) n" if "n \<in> set (pQueue c)" for n using that by (simp add: client_ok_def)
  have "timer c = (if pQueue c = [] then None else Some (q_t (hd (pQueue c))))" using ok by (simp add: client_ok_def armed_def)
  moreover have "q_req n < length (requests c) \<and>
       createTransactionID (req_ip (requests c ! q_req n)) (word_of_int (req_port (requests c ! q_req n))) (q_pdu n) = Some (q_id n) \<and>
       0 \<le> q_id n \<and> q_id n < 65536 \<and> getType (q_pdu n) \<noteq> None \<and> pduLength (q_pdu n) \<le> int (length (pdu (q_pdu n))) \<and>
       unat (retransmit_cnt n) \<le> 4" if "n \<in> set (pQueue c)" for n
    using n[OF that] tid_valid by (fastforce simp: node_ok_def COAP_DEFAULT_MAX_RETRANSMIT_def word_le_nat_alt)
  moreover have "udp_open (requests c ! q_req n) \<and> tid (requests c ! q_req n) = q_id n \<and> callbacks c (q_id n) \<noteq> None"
    if "client_orderly c" "n \<in> set (pQueue c)" for n
    using orderly_ok[OF that(1)] that(2) by (auto simp: all_sendable_def sendable_def label_def)
  moreover have "timerTick connects c \<noteq> None" if "client_orderly c" "pQueue c \<noteq> []" for connects
    using tick_sendable[OF ok, of connects] orderly_ok[OF that(1)] that(2) by auto
  ultimately show ?thesis by blast
qed

text \<open>
  C6: a client that hears nothing tells a caller. In every orderly state with something waiting, the timer sends the
  first message again and again, each message at most as often as it has retransmissions left and always with the
  same bytes, so that within as many ticks as there are retransmissions left in the queue a message without one is in
  front. Until then no message is lost, no caller is told anything and nothing is given back; the next tick calls the
  callback of that message, with failure. (With it the bytes of the message are given back twice, see C36; where a
  request has failed before, the heap is taken to have stood that.)
\<close>

theorem client_gives_up:
  assumes "client_orderly c" "pQueue c \<noteq> []" "length connects = all_tries (pQueue c)"
  shows "\<exists>k c1 n qs ds f. k \<le> length connects \<and> run_ticks (take k connects) c = Some c1 \<and> pQueue c1 = n # qs \<and>
    (getType (q_pdu n) = Some COAP_NON_CONFIRMABLE \<or> retransmit_cnt n = COAP_DEFAULT_MAX_RETRANSMIT) \<and>
    mset (map label (pQueue c1)) = mset (map label (pQueue c)) \<and> calls c1 = calls c \<and> freed c1 = freed c \<and>
    sent_pdus c1 = sent_pdus c @ ds \<and> length ds = k \<and>
    mset ds + mset (concat (map repeats (pQueue c1))) = mset (concat (map repeats (pQueue c))) \<and>
    callbacks c (q_id n) = Some f \<and>
    (\<forall>conn. \<exists>c2. timerTick conn c1 = Some c2 \<and> pQueue c2 = qs \<and> calls c2 = calls c @ [(f, False, q_pdu n)])"
proof -
  have ok: "client_ok c" "all_sendable c" using orderly_ok[OF assms(1)] client_reachable_ok by blast+
  then have "\<forall>n \<in> set (pQueue c). node_ok (requests c) n \<and> udp_open (requests c ! q_req n)"
    by (auto simp: client_ok_def all_sendable_def sendable_def label_def)
  from until_given_up[OF this assms(2,3)] obtain k c1 n qs ds where r: "k \<le> length connects" "run_ticks (take k connects) c = Some c1"
    "pQueue c1 = n # qs" "tries n = 0" "node_ok (requests c1) n" "callbacks c1 = callbacks c" "calls c1 = calls c" "freed c1 = freed c"
    "sent_pdus c1 = sent_pdus c @ ds" "length ds = k"
    "mset ds + mset (concat (map repeats (pQueue c1))) = mset (concat (map repeats (pQueue c)))"
    "mset (map label (pQueue c1)) = mset (map label (pQueue c))" by blast
  have "label n \<in># mset (map label (pQueue c))" unfolding r(12)[symmetric] r(3) by simp
  then obtain m where "m \<in> set (pQueue c)" "label n = label m" by auto
  then obtain f where f: "callbacks c (q_id n) = Some f" using ok(2) by (auto simp: all_sendable_def sendable_def label_def)
  have spent: "getType (q_pdu n) = Some COAP_NON_CONFIRMABLE \<or> retransmit_cnt n = COAP_DEFAULT_MAX_RETRANSMIT"
    using r(4,5) by (auto simp: tries_def node_ok_def COAP_DEFAULT_MAX_RETRANSMIT_def word_le_nat_alt word_unat_eq_iff split: if_splits)
  have "\<exists>c2. timerTick conn c1 = Some c2 \<and> pQueue c2 = qs \<and> calls c2 = calls c @ [(f, False, q_pdu n)]" for conn
    using tick_gives_up[OF r(3,5,4), of conn] f r(6,7) by (auto simp: failures_def)
  then show ?thesis using r spent f by blast
qed

text \<open>A client that has sent one request.\<close>

definition demo_env :: client_env where
  "demo_env = \<lparr>env_realloc = (\<lambda>a n. Some (a, \<lambda>_. 0)), env_calloc = 8, env_node_memory = True, env_option_memory = True, env_connects = True, env_random = 0,
     env_dns = (\<lambda>_. Dns_ok 0x0A000001)\<rparr>"

definition demo_url :: URL where
  "demo_url = \<lparr>Host = [49], Port = 5683, PathWithQuery = [47, 108, 101, 100, 0]\<rparr>"

lemma demo_client:
  assumes "ty = COAP_CONFIRMABLE \<or> ty = COAP_NON_CONFIRMABLE"
  shows "\<exists>c n. request demo_env 0 ty COAP_GET demo_url 0 [] 3 (new_client 7) = Some c \<and> client_reachable c \<and> client_orderly c \<and> pQueue c = [n] \<and>
    callbacks c (q_id n) = Some 3 \<and> getType (q_pdu n) = Some ty"
proof -
  have p: "proper_request demo_env [[108, 101, 100]] [] 0 (Port demo_url)"
    by (simp add: proper_request_def demo_env_def demo_url_def never_fails_def plain_def good_queries_def)
  have u: "PathWithQuery demo_url = uri_text [[108, 101, 100]] []"
    by (simp add: demo_url_def uri_text_def path_text_def query_text_def)
  have ok: "client_ok (new_client 7)" by (rule client_reachable_ok[OF client_reachable.intros(1)])
  have e: "Host demo_url \<noteq> [] \<and> env_dns demo_env (Host demo_url) = Dns_ok 0x0A000001 \<and> env_node_memory demo_env"
    by (simp add: demo_env_def demo_url_def)
  have ty: "(if ty = COAP_NON_CONFIRMABLE then COAP_NON_CONFIRMABLE else COAP_CONFIRMABLE) = ty" using assms by auto
  obtain c where c: "request demo_env 0 ty COAP_GET demo_url 0 [] 3 (new_client 7) = Some c"
    "asked ty COAP_GET [[108, 101, 100]] [] 0 [] 3 (new_client 7) c"
    using request_ok[OF ok p u, of 0 ty COAP_GET "[]" 3 "0x0A000001"] e unfolding ty by blast
  obtain n where "pQueue c = [n]" using c(2) by (cases "pQueue c") (auto simp: asked_def new_client_def)
  moreover have "client_reachable c"
    by (rule client_reachable.intros(2)[OF client_reachable.intros(1) client_step.intros(1)[OF p u c(1)]])
  moreover have "client_orderly c"
    by (rule client_orderly.intros(2)[OF client_orderly.intros(1) client_step.intros(1)[OF p u c(1)]]) (use \<open>pQueue c = [n]\<close> in simp)
  ultimately show ?thesis using c by (auto simp: asked_def)
qed

lemma client_states_armed_witness:
  "\<exists>c. request demo_env 0 COAP_CONFIRMABLE COAP_GET demo_url 0 [] 3 (new_client 7) = Some c \<and> timer c \<noteq> None \<and> timerTick False c \<noteq> None"
proof -
  obtain c where c: "request demo_env 0 COAP_CONFIRMABLE COAP_GET demo_url 0 [] 3 (new_client 7) = Some c" "client_reachable c" "client_orderly c"
    "pQueue c \<noteq> []"
    using demo_client[of COAP_CONFIRMABLE] by auto
  from client_states_armed[OF c(2)] c(1,3,4) show ?thesis by simp
qed

lemma client_gives_up_witness:
  "\<exists>c k c1 c2 p. request demo_env 0 COAP_CONFIRMABLE COAP_GET demo_url 0 [] 3 (new_client 7) = Some c \<and>
     run_ticks (take k (replicate (all_tries (pQueue c)) True)) c = Some c1 \<and> timerTick True c1 = Some c2 \<and> calls c2 = calls c @ [(3, False, p)]"
proof -
  obtain c n where c: "request demo_env 0 COAP_CONFIRMABLE COAP_GET demo_url 0 [] 3 (new_client 7) = Some c" "client_orderly c" "pQueue c = [n]"
    "callbacks c (q_id n) = Some 3"
    using demo_client[of COAP_CONFIRMABLE] by auto
  have "pQueue c \<noteq> []" "length (replicate (all_tries (pQueue c)) True) = all_tries (pQueue c)" using c(3) by simp_all
  from client_gives_up[OF c(2) this] obtain k c1 m qs f where k: "run_ticks (take k (replicate (all_tries (pQueue c)) True)) c = Some c1"
    "pQueue c1 = m # qs" "mset (map label (pQueue c1)) = mset (map label (pQueue c))" "callbacks c (q_id m) = Some f"
    "\<forall>conn. \<exists>c2. timerTick conn c1 = Some c2 \<and> pQueue c2 = qs \<and> calls c2 = calls c @ [(f, False, q_pdu m)]" by blast
  have "label m \<in># mset (map label (pQueue c))" unfolding k(3)[symmetric] k(2) by simp
  then have "q_id m = q_id n" using c(3) by (simp add: label_def)
  then have "f = 3" using k(4) c(4) by simp
  moreover obtain c2 where "timerTick True c1 = Some c2" "calls c2 = calls c @ [(f, False, q_pdu m)]" using k(5) by blast
  ultimately show ?thesis using c(1) k(1) by blast
qed

text \<open>
  C36: a request that fails and has a callback is given back twice. When the timer fires and the first message has
  no transmission left, the callback takes a copy of the message whose destructor gives its bytes back, and then
  \<open>coapDeleteNode\<close> gives the same bytes back again. This is so in every state a client can be in.
\<close>

theorem failed_request_freed_twice:
  assumes "client_reachable c" "pQueue c = n # qs"
    "getType (q_pdu n) = Some COAP_NON_CONFIRMABLE \<or> retransmit_cnt n = COAP_DEFAULT_MAX_RETRANSMIT" "callbacks c (q_id n) = Some f"
  shows "\<exists>c'. timerTick connects c = Some c' \<and> calls c' = calls c @ [(f, False, q_pdu n)] \<and>
    freed c' = freed c @ [pdu_addr (q_pdu n), pdu_addr (q_pdu n)]"
proof -
  have "node_ok (requests c) n" using client_reachable_ok[OF assms(1)] assms(2) by (simp add: client_ok_def)
  moreover have "tries n = 0" using assms(3) by (auto simp: tries_def COAP_DEFAULT_MAX_RETRANSMIT_def)
  ultimately obtain c' where c': "timerTick connects c = Some c'" "calls c' = calls c @ failures (callbacks c) n"
    "freed c' = freed c @ releases (callbacks c) n"
    using tick_gives_up[OF assms(2), of connects] by blast
  have "failures (callbacks c) n = [(f, False, q_pdu n)]" "releases (callbacks c) n = [pdu_addr (q_pdu n), pdu_addr (q_pdu n)]"
    using assms(4) by (simp_all add: failures_def releases_def eval_nat_numeral)
  then show ?thesis using c' by simp
qed

lemma failed_request_freed_twice_witness:
  "\<exists>c c' a. request demo_env 0 COAP_NON_CONFIRMABLE COAP_GET demo_url 0 [] 3 (new_client 7) = Some c \<and>
     timerTick True c = Some c' \<and> freed c' = freed c @ [a, a]"
proof -
  obtain c n where c: "request demo_env 0 COAP_NON_CONFIRMABLE COAP_GET demo_url 0 [] 3 (new_client 7) = Some c" "client_reachable c"
    "pQueue c = [n]" "callbacks c (q_id n) = Some 3" "getType (q_pdu n) = Some COAP_NON_CONFIRMABLE"
    using demo_client[of COAP_NON_CONFIRMABLE] by auto
  from failed_request_freed_twice[OF c(2,3) disjI1[OF c(5)] c(4), of True] c(1) show ?thesis by blast
qed

text \<open>
  C35: when two confirmable requests to different servers happen to get the same transaction id (a hash of 16 bits of the
  server's address, its port and the message id), a response crashes the client. The response to the second of them
  finds the first in the queue: the caller is told, the first message is dropped though nobody has answered it, and the
  second request is closed while its message stays. When the timer then fires for this message, \<open>sendPDU\<close> reads
  through the null pointer that \<open>close\<close> has left.
\<close>

theorem shared_id_crashes:
  assumes "client_reachable c" "pQueue c = n1 # n2 # qs" "q_id n1 = q_id n2" "sendable c (label n2)" "connected (requests c ! q_req n2)"
    "getType (q_pdu n2) = Some COAP_CONFIRMABLE" "retransmit_cnt n2 < COAP_DEFAULT_MAX_RETRANSMIT"
    "data \<noteq> []" "PDU_of_bytes a (data @ behind) (int (length data)) = Some p0" "validate p0 = Some (1, p)"
  shows "\<exists>c' f n. onReceive True time a (q_req n2) data behind c = Some c' \<and> client_reachable c' \<and>
    callbacks c (q_id n2) = Some f \<and> calls c' = calls c @ [(f, True, p)] \<and>
    pQueue c' = n # qs \<and> label n = label n2 \<and> connected (requests c' ! q_req n2) \<and> \<not> udp_open (requests c' ! q_req n2) \<and>
    (\<forall>connects. timerTick connects c' = None)"
proof -
  let ?i = "q_req n2"
  have i: "?i < length (requests c)" "udp_open (requests c ! ?i)" "tid (requests c ! ?i) = q_id n2"
    using assms(4) by (simp_all add: sendable_def label_def)
  obtain f where f: "callbacks c (q_id n2) = Some f" using assms(4) by (auto simp: sendable_def label_def)
  have n1: "\<exists>ty. getType (q_pdu n1) = Some ty"
    using client_reachable_ok[OF assms(1)] assms(2) by (auto simp: client_ok_def node_ok_def)
  have p0: "pdu p0 = data @ behind" "pduLength p0 = int (length data)" "pdu_addr p0 = a" "constructedFromBuffer p0"
    using assms(8,9) by (auto simp: PDU_of_bytes_def PDU_in_buffer_def)
  note h = validated_header[OF assms(10)]
  obtain human where "printHuman True p = Some human" using validated_printed[OF _ assms(10), of True] p0 by auto
  moreover obtain dump where "printHex p = Some dump" using h p0 by (simp add: printHex_def bytes_at_def Let_def)
  moreover obtain b0 b1 where "rd p 0 = Some b0" "rd p 1 = Some b1" using h p0 by (simp add: rd_def)
  then have "getType p = Some (b0 AND 0x30)" "getCode p = Some b1" by (simp_all add: getType_def getCode_def)
  moreover have "find_node (q_id n2) (pQueue c) = Some n1" using assms(2,3) by simp
  ultimately have rec: "onReceive True time a ?i data behind c = Some (timerRestart (timerUpdate time (accept_response ?i p n1 c)))"
    (is "_ = Some ?c'")
    using assms(2,9,10) i f n1
    by (auto simp: onReceive_def onResponse_def coapGetNodeById_def accept_response_def Let_def timerStop_def)
  have q: "pQueue (accept_response ?i p n1 c) = n2\<lparr>q_t := q_t n2 + q_t n1\<rparr> # qs"
    using assms(2,3) i(3) by (simp add: accept_fields later_def)
  from update_first[OF q, of time] obtain b t where
    u: "timerUpdate time (accept_response ?i p n1 c) = accept_response ?i p n1 c\<lparr>basetime := b, pQueue := n2\<lparr>q_t := t\<rparr> # qs\<rparr>"
    by auto
  have q': "pQueue ?c' = n2\<lparr>q_t := t\<rparr> # qs" unfolding u by simp
  have r: "\<not> udp_open (requests ?c' ! ?i)" "connected (requests ?c' ! ?i)" unfolding u using i(1) assms(5) by (simp_all add: accept_fields)
  have "tries (n2\<lparr>q_t := t\<rparr>) \<noteq> 0" "\<not> udp_open (requests ?c' ! q_req (n2\<lparr>q_t := t\<rparr>))"
    using assms(6,7) r(1) by (simp_all add: tries_def pdu_types COAP_DEFAULT_MAX_RETRANSMIT_def word_less_nat_alt)
  note dead = tick_closed[OF q' this]
  have "calls ?c' = calls c @ [(f, True, p)]"
    unfolding u using f i(3) by (simp add: accept_fields call_back_def destroy_pdu_def)
  moreover have "client_reachable ?c'"
    by (rule client_reachable.intros(2)[OF assms(1) client_step.intros(2)[OF i(1,2) rec]])
  moreover have "label (n2\<lparr>q_t := t\<rparr>) = label n2" by simp
  ultimately show ?thesis using rec f q' r dead by blast
qed

text \<open>
  It does happen: a GET with the message id 7 to 10.0.32.162 and one with the id 8 to 10.0.122.215, one after the other.
\<close>

definition twin_env :: client_env where
  "twin_env = demo_env\<lparr>env_dns := (\<lambda>h. Dns_ok (if h = [49] then 0xA220000A else 0xD77A000A))\<rparr>"

lemma header_id:
  assumes "take 4 (pdu_bytes p) = request_header ty m mid" "0 \<le> pduLength p" "pduLength p \<le> int (length (pdu p))"
  shows "rd p 0 = Some (0x44 OR ty)" "getMessageID p = Some (push_bit 8 (ucast (ucast (drop_bit 8 mid) :: u8)) OR ucast (ucast mid :: u8))"
proof -
  have l: "4 \<le> length (pdu_bytes p)" using arg_cong[OF assms(1), of length] by (simp add: request_header_def)
  have "rd p (int i) = Some (take 4 (pdu_bytes p) ! i)" if "i < 4" for i
    using that l assms(2,3) by (simp add: rd_def pdu_bytes_def)
  from this[of 0] this[of 2] this[of 3]
  have r: "rd p 0 = Some (0x44 OR ty)" "rd p 2 = Some (ucast (drop_bit 8 mid))" "rd p 3 = Some (ucast mid)"
    unfolding assms(1) by (simp_all add: request_header_def)
  show "rd p 0 = Some (0x44 OR ty)" by (rule r(1))
  show "getMessageID p = Some (push_bit 8 (ucast (ucast (drop_bit 8 mid) :: u8)) OR ucast (ucast mid :: u8))"
    using r(2,3) by (simp add: getMessageID_def load16_def)
qed

lemma twin_ids:
  "getMessageID p = Some 7 \<Longrightarrow> createTransactionID 0xA220000A 5683 p = Some 28633"
  "getMessageID p = Some 8 \<Longrightarrow> createTransactionID 0xD77A000A 5683 p = Some 28633"
proof -
  have "key_id (coap_hash [7, 0] (coap_hash (bytes32 0xA220000A) (coap_hash (bytes32 5683) (0, 0, 0, 0)))) = 28633"
    "key_id (coap_hash [8, 0] (coap_hash (bytes32 0xD77A000A) (coap_hash (bytes32 5683) (0, 0, 0, 0)))) = 28633"
    by code_simp+
  then show "getMessageID p = Some 7 \<Longrightarrow> createTransactionID 0xA220000A 5683 p = Some 28633"
    "getMessageID p = Some 8 \<Longrightarrow> createTransactionID 0xD77A000A 5683 p = Some 28633"
    by (simp_all add: createTransactionID_def)
qed

lemma demo_twins:
  "\<exists>c n1 n2. client_reachable c \<and> pQueue c = [n1, n2] \<and> q_id n1 = q_id n2 \<and> sendable c (label n2) \<and>
     connected (requests c ! q_req n2) \<and> getType (q_pdu n2) = Some COAP_CONFIRMABLE \<and> retransmit_cnt n2 = 0"
proof -
  let ?url = "demo_url\<lparr>Host := [50]\<rparr>"
  have p: "proper_request twin_env [[108, 101, 100]] [] 0 (Port demo_url)" "proper_request twin_env [[108, 101, 100]] [] 0 (Port ?url)"
    by (simp_all add: proper_request_def twin_env_def demo_env_def demo_url_def never_fails_def plain_def good_queries_def)
  have u: "PathWithQuery demo_url = uri_text [[108, 101, 100]] []" "PathWithQuery ?url = uri_text [[108, 101, 100]] []"
    by (simp_all add: demo_url_def uri_text_def path_text_def query_text_def)
  have e: "Host demo_url \<noteq> [] \<and> env_dns twin_env (Host demo_url) = Dns_ok 0xA220000A \<and> env_node_memory twin_env"
    "Host ?url \<noteq> [] \<and> env_dns twin_env (Host ?url) = Dns_ok 0xD77A000A \<and> env_node_memory twin_env"
    by (simp_all add: twin_env_def demo_env_def demo_url_def)
  have ty: "COAP_CONFIRMABLE \<noteq> COAP_NON_CONFIRMABLE" "env_connects twin_env" "Port demo_url = 5683" "Port ?url = 5683"
    by (simp_all add: pdu_types twin_env_def demo_env_def demo_url_def)
  have r0: "client_reachable (new_client 7)" "client_ok (new_client 7)" "all_sendable (new_client 7)"
    using client_reachable.intros(1) client_reachable_ok by (blast, blast, simp add: all_sendable_def new_client_def)
  obtain c1 where c1: "request twin_env 0 COAP_CONFIRMABLE COAP_GET demo_url 0 [] 3 (new_client 7) = Some c1" "client_ok c1" "all_sendable c1"
    "message_id c1 = 8" "length (requests c1) = 1"
    "sent_as (request_header COAP_CONFIRMABLE COAP_GET 7) True 0xA220000A 5683 (new_client 7) c1"
    using request_ok[OF r0(2) p(1) u(1), of 0 COAP_CONFIRMABLE COAP_GET "[]" 3 "0xA220000A"] e(1) ty r0(3)
    by (auto simp: asked_def new_client_def)
  have r1: "client_reachable c1" by (rule client_reachable.intros(2)[OF r0(1) client_step.intros(1)[OF p(1) u(1) c1(1)]])
  obtain c where c: "request twin_env 0 COAP_CONFIRMABLE COAP_GET ?url 0 [] 3 c1 = Some c" "client_ok c" "all_sendable c"
    "sent_as (request_header COAP_CONFIRMABLE COAP_GET 8) True 0xD77A000A 5683 c1 c"
    using request_ok[OF c1(2) p(2) u(2), of 0 COAP_CONFIRMABLE COAP_GET "[]" 3 "0xD77A000A"] e(2) ty c1(3,4) by auto
  have r: "client_reachable c" by (rule client_reachable.intros(2)[OF r1 client_step.intros(1)[OF p(2) u(2) c(1)]])
  obtain t1 p1 where s1: "requests c1 = sent_by 0 True t1 [new_request 0xA220000A 5683]"
    "mset (map counted (pQueue c1)) = {#((t1, 0, p1), 0)#}" "take 4 (pdu_bytes p1) = request_header COAP_CONFIRMABLE COAP_GET 7"
    using c1(6) by (auto simp: sent_as_def new_client_def)
  obtain t2 p2 where s2: "requests c = sent_by 1 True t2 (requests c1 @ [new_request 0xD77A000A 5683])"
    "mset (map counted (pQueue c)) = {#((t2, 1, p2), 0), ((t1, 0, p1), 0)#}" "take 4 (pdu_bytes p2) = request_header COAP_CONFIRMABLE COAP_GET 8"
    using c(4) c1(5) s1(2) by (auto simp: sent_as_def)
  have req: "req_ip (requests c ! 0) = 0xA220000A" "req_ip (requests c ! 1) = 0xD77A000A" "req_port (requests c ! 0) = 5683"
    "req_port (requests c ! 1) = 5683" "connected (requests c ! 0)" "connected (requests c ! 1)"
    unfolding s2(1) s1(1) by (simp_all add: sent_by_def new_request_def)
  obtain x y where q: "pQueue c = [x, y]"
    using arg_cong[OF s2(2), of size] by (auto simp: length_Suc_conv eval_nat_numeral)
  have xy: "{#counted x, counted y#} = {#((t2, 1, p2), 0), ((t1, 0, p1), 0)#}" using s2(2) unfolding q by simp
  have ok: "node_ok (requests c) x" "node_ok (requests c) y" using c(2) q by (simp_all add: client_ok_def)
  have id: "q_id n = 28633 \<and> connected (requests c ! q_req n) \<and> getType (q_pdu n) = Some COAP_CONFIRMABLE \<and> retransmit_cnt n = 0"
    if n: "node_ok (requests c) n" "counted n = ((t2, 1, p2), 0) \<or> counted n = ((t1, 0, p1), 0)" for n
  proof -
    have m: "q_req n = 1 \<and> take 4 (pdu_bytes (q_pdu n)) = request_header COAP_CONFIRMABLE COAP_GET 8 \<or>
        q_req n = 0 \<and> take 4 (pdu_bytes (q_pdu n)) = request_header COAP_CONFIRMABLE COAP_GET 7"
      using n(2) s1(3) s2(3) by (auto simp: counted_def label_def)
    have b: "0 \<le> pduLength (q_pdu n)" "pduLength (q_pdu n) \<le> int (length (pdu (q_pdu n)))"
      and t: "createTransactionID (req_ip (requests c ! q_req n)) (word_of_int (req_port (requests c ! q_req n))) (q_pdu n) = Some (q_id n)"
      using n(1) by (simp_all add: node_ok_def)
    have z: "retransmit_cnt n = 0" using n(2) by (auto simp: counted_def)
    from m show ?thesis
    proof (elim disjE conjE)
      assume a: "q_req n = 1" "take 4 (pdu_bytes (q_pdu n)) = request_header COAP_CONFIRMABLE COAP_GET 8"
      note hd = header_id[OF a(2) b]
      have "getMessageID (q_pdu n) = Some 8" "getType (q_pdu n) = Some COAP_CONFIRMABLE"
        using hd by (simp_all add: getType_def pdu_types)
      then show ?thesis using t z req a(1) twin_ids(2) by simp
    next
      assume a: "q_req n = 0" "take 4 (pdu_bytes (q_pdu n)) = request_header COAP_CONFIRMABLE COAP_GET 7"
      note hd = header_id[OF a(2) b]
      have "getMessageID (q_pdu n) = Some 7" "getType (q_pdu n) = Some COAP_CONFIRMABLE"
        using hd by (simp_all add: getType_def pdu_types)
      then show ?thesis using t z req a(1) twin_ids(1) by simp
    qed
  qed
  have "counted x \<in># {#((t2, 1, p2), 0), ((t1, 0, p1), 0)#}" "counted y \<in># {#((t2, 1, p2), 0), ((t1, 0, p1), 0)#}"
    unfolding xy[symmetric] by simp_all
  then have "counted x = ((t2, 1, p2), 0) \<or> counted x = ((t1, 0, p1), 0)" "counted y = ((t2, 1, p2), 0) \<or> counted y = ((t1, 0, p1), 0)"
    by simp_all
  note ids = id[OF ok(1) this(1)] id[OF ok(2) this(2)]
  moreover have "sendable c (label y)" using c(3) q by (simp add: all_sendable_def)
  ultimately show ?thesis using r q by (intro exI[of _ c] exI[of _ x] exI[of _ y]) simp
qed

lemma shared_id_crashes_witness:
  "\<exists>c c' i. client_reachable c \<and> length (pQueue c) = 2 \<and> onReceive True 0 8 i [0x60, 0x45, 0, 8] [] c = Some c' \<and>
     (\<forall>connects. timerTick connects c' = None)"
proof -
  have "\<exists>p0 p. PDU_of_bytes 8 ([0x60, 0x45, 0, 8] @ []) (int (length [0x60, 0x45, 0, 8 :: u8])) = Some p0 \<and> validate p0 = Some (1, p)"
    by (simp add: PDU_of_bytes_def PDU_in_buffer_def validate_def getVersion_def getTokenLength_def getCode_def rd_def
        valid_pdu_code_def COAP_HDR_SIZE_def)
  then obtain p0 p where p: "PDU_of_bytes 8 ([0x60, 0x45, 0, 8] @ []) (int (length [0x60, 0x45, 0, 8 :: u8])) = Some p0"
    "validate p0 = Some (1, p)" by blast
  obtain c n1 n2 where c: "client_reachable c" "pQueue c = n1 # n2 # []" "q_id n1 = q_id n2" "sendable c (label n2)"
    "connected (requests c ! q_req n2)" "getType (q_pdu n2) = Some COAP_CONFIRMABLE" "retransmit_cnt n2 = 0" using demo_twins by blast
  have "retransmit_cnt n2 < COAP_DEFAULT_MAX_RETRANSMIT" using c(7) by (simp add: COAP_DEFAULT_MAX_RETRANSMIT_def)
  from shared_id_crashes[OF c(1-6) this _ p, of 0] c(1,2) show ?thesis by fastforce
qed

end
