(* ===== verification/Client_App.thy ===== *)
theory Client_App imports Client_Life Client_Print begin

section \<open>The application that uses the client (\<open>app/network.cpp\<close>)\<close>

text \<open>
  Every five seconds the application sends three requests to a server in its network; the responses come to one
  callback, which prints the payload. \<open>parse_url\<close> is Sming's class \<open>URL\<close>, \<open>json\<close> the text with the time.
\<close>

subsection \<open>Requests with fewer arguments\<close>

definition client_get_default :: "client_env \<Rightarrow> u32 \<Rightarrow> URL \<Rightarrow> nat \<Rightarrow> coap_client \<Rightarrow> coap_client option" where
  "client_get_default env time url callback = client_get env time COAP_NON_CONFIRMABLE url callback"

definition client_post_json :: "client_env \<Rightarrow> u32 \<Rightarrow> u8 \<Rightarrow> URL \<Rightarrow> u8 list \<Rightarrow> nat \<Rightarrow> coap_client \<Rightarrow> coap_client option" where
  "client_post_json env time connType url payload callback =
     client_post env time connType url COAP_CONTENT_FORMAT_APP_JSON payload callback"

definition client_post_empty :: "client_env \<Rightarrow> u32 \<Rightarrow> u8 \<Rightarrow> URL \<Rightarrow> nat \<Rightarrow> coap_client \<Rightarrow> coap_client option" where
  "client_post_empty env time connType url callback = client_post_json env time connType url [] callback"

definition client_post_default :: "client_env \<Rightarrow> u32 \<Rightarrow> URL \<Rightarrow> nat \<Rightarrow> coap_client \<Rightarrow> coap_client option" where
  "client_post_default env time url callback = client_post_empty env time COAP_NON_CONFIRMABLE url callback"

subsection \<open>The application\<close>

definition ascii :: "string \<Rightarrow> u8 list" where
  "ascii s = map of_char s"

text \<open>
  After the message itself has been printed (\<open>mem\<close>: whether there is memory for that), the text of its payload, if any. The
  string is made of as many bytes as the whole message has, from where the payload begins; there is no value when they
  are not all readable.
\<close>

definition onConfigRetrieve :: "bool \<Rightarrow> bool \<Rightarrow> CoapPDU \<Rightarrow> u8 list option option" where
  "onConfigRetrieve mem success p =
    (if success then do {
       _ \<leftarrow> printHuman mem p;
       if payloadLength p > 0
       then (case payloadPointer p of
               None \<Rightarrow> None
             | Some a \<Rightarrow> do { message \<leftarrow> bytes_at p a (nat (pduLength p)); Some (Some message) })
       else Some None }
     else Some None)"

text \<open>\<open>CONFIG_CB\<close> is the number of the callback.\<close>

definition CONFIG_CB :: nat where "CONFIG_CB = 0"

definition pushTime :: "(u8 list \<Rightarrow> URL) \<Rightarrow> client_env \<Rightarrow> u32 \<Rightarrow> u8 list \<Rightarrow> coap_client \<Rightarrow> coap_client option" where
  "pushTime parse_url env time json c = do {
     c \<leftarrow> client_get env time COAP_CONFIRMABLE (parse_url (ascii ''coap://192.168.1.1/config'')) CONFIG_CB c;
     c \<leftarrow> client_post_json env time COAP_CONFIRMABLE (parse_url (ascii ''coap://192.168.1.1/ack'')) json CONFIG_CB c;
     client_get env time COAP_NON_CONFIRMABLE (parse_url (ascii ''coap://192.168.1.1/esp8266'')) CONFIG_CB c }"

subsection \<open>The properties\<close>

text \<open>
  C37: the callback reads past the datagram. For every valid datagram with a payload that begins at its byte \<open>off\<close>, the
  text it prints is made of the payload and of \<open>off\<close> bytes that lie behind the datagram; when fewer are readable
  there, the read is outside the memory.
\<close>

theorem config_message_reads_past_end:
  assumes "PDU_of_bytes a (d @ behind) (int (length d)) = Some p" "validate p = Some (1, q)" "0 < payloadLength q"
  shows "\<exists>off. 4 < off \<and> off < length d \<and> payloadPointer q = Some (a + int off) \<and> payloadLength q = int (length d - off) \<and>
    onConfigRetrieve True True q = (if length behind < off then None else Some (Some (drop off d @ take off behind)))"
proof -
  have d: "d \<noteq> []"
  proof
    assume "d = []"
    then have "pduLength p = 4"
      using assms(1) by (auto simp: PDU_of_bytes_def PDU_in_buffer_def setVersion_def wr_def Let_def split: Option.bind_split_asm if_split_asm)
    then show False using validate_payload[OF assms(2)] assms(3) by auto
  qed
  have p: "pdu p = d @ behind" "pdu_addr p = a" "pduLength p = int (length d)"
    using assms(1) d by (auto simp: PDU_of_bytes_def PDU_in_buffer_def)
  obtain i where i: "payloadPointer q = Some (a + i)" "4 < i" "i + payloadLength q = int (length d)"
    and q: "pdu q = d @ behind" "pdu_addr q = a" "pduLength q = int (length d)"
    using validate_payload[OF assms(2)] assms(3) p by auto
  define off where "off = nat i"
  have off: "i = int off" "4 < off" "off < length d" "payloadLength q = int (length d - off)"
    using i assms(3) by (simp_all add: off_def)
  have "pduLength p \<le> int (length (pdu p))" using p by simp
  then obtain s where printed: "printHuman True q = Some s" using validated_printed[OF _ assms(2), of True] by auto
  have "onConfigRetrieve True True q = (if length behind < off then None else Some (Some (drop off d @ take off behind)))"
    using assms(3) i(1) q off printed by (auto simp: onConfigRetrieve_def bytes_at_def Let_def)
  then show ?thesis using off i(1) by auto
qed

lemma config_message_reads_past_end_witness:
  "\<exists>p q. PDU_of_bytes 8 ([0x60, 0x45, 0, 7, 0xFF, 65] @ [1, 2, 3, 4, 5, 6]) 6 = Some p \<and> validate p = Some (1, q) \<and>
     onConfigRetrieve True True q = Some (Some [65, 1, 2, 3, 4, 5])"
proof -
  have p: "\<exists>p q. PDU_of_bytes 8 ([0x60, 0x45, 0, 7, 0xFF, 65] @ [1, 2, 3, 4, 5, 6]) (int (length [0x60, 0x45, 0, 7, 0xFF, 65 :: u8])) = Some p \<and>
      validate p = Some (1, q) \<and> 0 < payloadLength q \<and> payloadPointer q = Some (8 + 5)"
    by (simp add: PDU_of_bytes_def PDU_in_buffer_def validate_def getVersion_def getTokenLength_def getCode_def rd_def
        valid_pdu_code_def COAP_HDR_SIZE_def validate_loop.simps)
  then obtain p q where p: "PDU_of_bytes 8 ([0x60, 0x45, 0, 7, 0xFF, 65] @ [1, 2, 3, 4, 5, 6]) (int (length [0x60, 0x45, 0, 7, 0xFF, 65 :: u8])) = Some p"
    "validate p = Some (1, q)" "0 < payloadLength q" "payloadPointer q = Some (8 + 5)" by blast
  from config_message_reads_past_end[OF p(1-3)] p(1,2,4) show ?thesis by (auto simp: eval_nat_numeral)
qed

text \<open>
  C38: what the application asks every five seconds. When there is memory (for the messages, for the nodes, and
  for the options while a message is printed), the server's address needs no look-up and
  Sming's \<open>URL\<close> takes the three texts apart as it should, \<open>pushTime\<close> is defined in every state the client can be in, leads
  to such a state, sends exactly three datagrams with consecutive message ids (a confirmable GET of \<open>/config\<close>, a
  confirmable POST of the JSON text to \<open>/ack\<close>, a non confirmable GET of \<open>/esp8266\<close>), and three messages more wait.
\<close>

theorem push_time_sends:
  assumes "client_reachable c" "never_fails (env_realloc env)" "env_node_memory env" "env_option_memory env"
    "\<And>path u. (u, path) \<in> {(ascii ''coap://192.168.1.1/config'', ascii ''config''), (ascii ''coap://192.168.1.1/ack'', ascii ''ack''),
       (ascii ''coap://192.168.1.1/esp8266'', ascii ''esp8266'')} \<Longrightarrow>
       Host (parse_url u) \<noteq> [] \<and> 0 \<le> Port (parse_url u) \<and> Port (parse_url u) < 65536 \<and>
       PathWithQuery (parse_url u) = 47 # path @ [0] \<and> env_dns env (Host (parse_url u)) = Dns_ok ip"
  shows "\<exists>c'. pushTime parse_url env time json c = Some c' \<and> client_reachable c' \<and>
    length (pQueue c') = length (pQueue c) + 3 \<and> message_id c' = message_id c + 3 \<and>
    sent_pdus c' = sent_pdus c @
      [(length (requests c), request_header COAP_CONFIRMABLE COAP_GET (message_id c) @ CLIENT_TOKEN @
          encs 0 [(11, ascii ''config''), (12, [])]),
       (length (requests c) + 1, request_header COAP_CONFIRMABLE COAP_POST (message_id c + 1) @ CLIENT_TOKEN @
          encs 0 [(11, ascii ''ack''), (12, [50])] @ (if json = [] then [] else 0xFF # json)),
       (length (requests c) + 2, request_header COAP_NON_CONFIRMABLE COAP_GET (message_id c + 2) @ CLIENT_TOKEN @
          encs 0 [(11, ascii ''esp8266''), (12, [])])]"
proof -
  have pl: "plain (ascii ''config'')" "plain (ascii ''ack'')" "plain (ascii ''esp8266'')"
    by (simp_all add: plain_def ascii_def)
  have step: "\<exists>c'. request env time ty req (parse_url u) format payload CONFIG_CB c = Some c' \<and> client_reachable c' \<and>
      asked (if ty = COAP_NON_CONFIRMABLE then COAP_NON_CONFIRMABLE else COAP_CONFIRMABLE) req [path] [] format payload CONFIG_CB c c'"
    if r: "client_reachable c" and u: "(u, path) \<in> {(ascii ''coap://192.168.1.1/config'', ascii ''config''), (ascii ''coap://192.168.1.1/ack'', ascii ''ack''),
       (ascii ''coap://192.168.1.1/esp8266'', ascii ''esp8266'')}" and f: "format \<le> 0xff" for c u path ty req format payload
  proof -
    note v = assms(5)[OF u]
    have "plain path" using u pl by auto
    then have p: "proper_request env [path] [] format (Port (parse_url u))"
      using assms(2,4) v f by (simp add: proper_request_def good_queries_def)
    have t: "PathWithQuery (parse_url u) = uri_text [path] []" using v by (simp add: uri_text_def path_text_def query_text_def)
    obtain c' where c': "request env time ty req (parse_url u) format payload CONFIG_CB c = Some c'"
      "asked (if ty = COAP_NON_CONFIRMABLE then COAP_NON_CONFIRMABLE else COAP_CONFIRMABLE) req [path] [] format payload CONFIG_CB c c'"
      using request_ok[OF client_reachable_ok[OF r] p t, of time ty req payload CONFIG_CB ip] v assms(3) by blast
    then show ?thesis using client_reachable.intros(2)[OF r client_step.intros(1)[OF p t c'(1)]] by blast
  qed
  obtain c1 where c1: "request env time COAP_CONFIRMABLE COAP_GET (parse_url (ascii ''coap://192.168.1.1/config'')) 0 [] CONFIG_CB c = Some c1"
    "client_reachable c1" "asked COAP_CONFIRMABLE COAP_GET [ascii ''config''] [] 0 [] CONFIG_CB c c1"
    using step[OF assms(1), of "ascii ''coap://192.168.1.1/config''" "ascii ''config''" 0 COAP_CONFIRMABLE COAP_GET "[]"] by (auto simp: pdu_types)
  obtain c2 where c2: "request env time COAP_CONFIRMABLE COAP_POST (parse_url (ascii ''coap://192.168.1.1/ack'')) 50 json CONFIG_CB c1 = Some c2"
    "client_reachable c2" "asked COAP_CONFIRMABLE COAP_POST [ascii ''ack''] [] 50 json CONFIG_CB c1 c2"
    using step[OF c1(2), of "ascii ''coap://192.168.1.1/ack''" "ascii ''ack''" 50 COAP_CONFIRMABLE COAP_POST json] by (auto simp: pdu_types)
  obtain c3 where c3: "request env time COAP_NON_CONFIRMABLE COAP_GET (parse_url (ascii ''coap://192.168.1.1/esp8266'')) 0 [] CONFIG_CB c2 = Some c3"
    "client_reachable c3" "asked COAP_NON_CONFIRMABLE COAP_GET [ascii ''esp8266''] [] 0 [] CONFIG_CB c2 c3"
    using step[OF c2(2), of "ascii ''coap://192.168.1.1/esp8266''" "ascii ''esp8266''" 0 COAP_NON_CONFIRMABLE COAP_GET "[]"] by auto
  have "pushTime parse_url env time json c = Some c3"
    using c1(1) c2(1) c3(1) by (simp add: pushTime_def client_get_def client_post_json_def client_post_def content_formats)
  moreover have "request_options [ascii ''config''] [] 0 = [(11, ascii ''config''), (12, [])]"
    "request_options [ascii ''ack''] [] 50 = [(11, ascii ''ack''), (12, [50])]"
    "request_options [ascii ''esp8266''] [] 0 = [(11, ascii ''esp8266''), (12, [])]" by (simp_all add: request_options_def)
  ultimately show ?thesis using c1(3) c2(3) c3(2,3)
    by (intro exI[of _ c3]) (auto simp: asked_def payload_tail_def add.commute[of "message_id c" 2] add.commute[of "message_id c" 3] simp del: encs.simps)
qed

definition demo_parse_url :: "u8 list \<Rightarrow> URL" where
  "demo_parse_url u = \<lparr>Host = [49], Port = 5683, PathWithQuery = 47 # drop 19 u @ [0]\<rparr>"

lemma push_time_sends_witness:
  "\<exists>c. pushTime demo_parse_url demo_env 0 [123, 125] (new_client 7) = Some c \<and> length (pQueue c) = 3 \<and> message_id c = 10"
proof -
  have env: "never_fails (env_realloc demo_env)" "env_node_memory demo_env" "env_option_memory demo_env"
    and url: "\<And>path u. (u, path) \<in> {(ascii ''coap://192.168.1.1/config'', ascii ''config''), (ascii ''coap://192.168.1.1/ack'', ascii ''ack''),
       (ascii ''coap://192.168.1.1/esp8266'', ascii ''esp8266'')} \<Longrightarrow>
       Host (demo_parse_url u) \<noteq> [] \<and> 0 \<le> Port (demo_parse_url u) \<and> Port (demo_parse_url u) < 65536 \<and>
       PathWithQuery (demo_parse_url u) = 47 # path @ [0] \<and> env_dns demo_env (Host (demo_parse_url u)) = Dns_ok 0x0A000001"
    by (auto simp: demo_env_def demo_parse_url_def ascii_def never_fails_def)
  from push_time_sends[of "new_client 7" demo_env demo_parse_url "0x0A000001" 0 "[123, 125]", OF client_reachable.intros(1) env url]
  show ?thesis by (auto simp: new_client_def)
qed

end
