(* ===== verification/Coap_Nv.thy ===== *)
theory Coap_Nv imports Coap_Resource begin

section \<open>Observers in non volatile memory (\<open>coap_resource.c\<close>)\<close>

text \<open>
  Before a deep sleep the observers of all resources can be written to non volatile memory as lists of options, one
  after the other, each followed by the payload marker; after the sleep they are read back. An endpoint is stored
  as the bytes of its struct, of which \<open>pad\<close> gives the two unused ones at the end. \<open>None\<close> is undefined behaviour
  (or, for the loop that loads, that it does not end).
\<close>

subsection \<open>The bytes of a struct\<close>

fun le_bytes :: "nat \<Rightarrow> 'a::len word \<Rightarrow> u8 list" where
  "le_bytes 0 w = []"
| "le_bytes (Suc n) w = ucast w # le_bytes n (drop_bit 8 w)"

fun le_word :: "u8 list \<Rightarrow> 'a::len word" where
  "le_word [] = 0"
| "le_word (b # bs) = ucast b OR push_bit 8 (le_word bs)"

fun net_type_code :: "NetInterfaceType_t \<Rightarrow> u32" where
  "net_type_code IPV6 = 0"
| "net_type_code IPV4 = 1"
| "net_type_code BTLE = 2"
| "net_type_code UART = 3"

definition net_type_of :: "u32 \<Rightarrow> NetInterfaceType_t option" where
  "net_type_of c = find (\<lambda>t. net_type_code t = c) [IPV6, IPV4, BTLE, UART]"

definition sizeof_NetEp :: nat where
  "sizeof_NetEp = 24"

definition ep_bytes :: "u8 list \<Rightarrow> NetEp \<Rightarrow> u8 list" where
  "ep_bytes pad ep = le_bytes 4 (net_type_code (NetType ep)) @ NetAddr ep @ le_bytes 2 (NetPort ep) @ pad"

text \<open>The struct that some bytes are; \<open>None\<close> when they show no value of the enum.\<close>

definition ep_of_bytes :: "u8 list \<Rightarrow> NetEp option" where
  "ep_of_bytes bs = map_option
     (\<lambda>t. \<lparr>NetType = t, NetAddr = take 16 (drop 4 bs), NetPort = le_word (take 2 (drop 20 bs))\<rparr>)
     (net_type_of (le_word (take 4 bs)))"

subsection \<open>Saving\<close>

text \<open>A loop of \<open>CoAP_CopyOptionToList\<close>; a failed copy is not noticed.\<close>

fun copy_options :: "options \<Rightarrow> options \<Rightarrow> bget_state \<Rightarrow> options \<times> bget_state" where
  "copy_options [] dst h = (dst, h)"
| "copy_options (opt # opts) dst h =
     (let (_, dst, h) = CoAP_CopyOptionToList dst opt h in copy_options opts dst h)"

text \<open>The options of one observer; the path of its resource is among them only for the first one.\<close>

definition observer_options ::
  "(CoAP_Observer \<Rightarrow> u8 list) \<Rightarrow> CoAP_Res \<Rightarrow> bool \<Rightarrow> CoAP_Observer \<Rightarrow> bget_state \<Rightarrow> options \<times> bget_state" where
  "observer_options pad r UriPathHasBeenEncoded ob h =
    (let (_, l, h) = CoAP_AppendOptionToList [] OPT_NUM_URI_HOST (ep_bytes (pad ob) (Ep ob)) (of_nat sizeof_NetEp) h;
         (_, l, h) = CoAP_AppendOptionToList l OPT_NUM_URI_PORT [IfID ob] 1 h;
         (l, h) = (if UriPathHasBeenEncoded = False then copy_options (pUri r) l h else (l, h));
         (l, h) = copy_options (pOptList ob) l h;
         (_, l, h) = CoAP_AppendOptionToList l OPT_NUM_LOBARO_TOKEN_SAVE (le_bytes 8 (Token ob)) 8 h
     in (l, h))"

definition TEMP_PAGE_SIZE :: nat where
  "TEMP_PAGE_SIZE = 2048"

text \<open>The page, the offset of \<open>pTempPage\<close> in it, the byte count and the heap.\<close>

record nv_writer =
  TempPage :: memory
  pTempPage :: nat
  TotalPageBytes :: u32
  nv_heap :: bget_state

definition put_bytes :: "memory \<Rightarrow> nat \<Rightarrow> u8 list \<Rightarrow> memory" where
  "put_bytes m k bs = (\<lambda>i. if k \<le> i \<and> i < k + length bs then bs ! (i - k) else m i)"

text \<open>
  One observer. The pointer moves by the count of all bytes so far, not by the size of this record; a write behind the
  page is undefined.
\<close>

definition save_observer ::
  "(CoAP_Observer \<Rightarrow> u8 list) \<Rightarrow> CoAP_Res \<Rightarrow> bool \<Rightarrow> CoAP_Observer \<Rightarrow> nv_writer \<Rightarrow> nv_writer option" where
  "save_observer pad r UriPathHasBeenEncoded ob s =
    (let (l, h) = observer_options pad r UriPathHasBeenEncoded ob (nv_heap s);
         (bytes, BytesWritten) = pack_OptionsFromList l
     in if pTempPage s + length bytes \<ge> TEMP_PAGE_SIZE then None
        else
          let page = put_bytes (TempPage s) (pTempPage s) bytes;
              page = page(pTempPage s + unat BytesWritten := 0xff);
              Total = TotalPageBytes s + (ucast BytesWritten + 1)
          in Some \<lparr>TempPage = page, pTempPage = pTempPage s + unat Total, TotalPageBytes = Total,
                   nv_heap = CoAP_FreeOptionList l h\<rparr>)"

fun save_observers ::
  "(CoAP_Observer \<Rightarrow> u8 list) \<Rightarrow> CoAP_Res \<Rightarrow> bool \<Rightarrow> CoAP_Observer list \<Rightarrow> nv_writer \<Rightarrow> nv_writer option" where
  "save_observers pad r UriPathHasBeenEncoded [] s = Some s"
| "save_observers pad r UriPathHasBeenEncoded (ob # obs) s = do {
     s \<leftarrow> save_observer pad r UriPathHasBeenEncoded ob s;
     save_observers pad r True obs s }"

fun save_resources :: "(CoAP_Observer \<Rightarrow> u8 list) \<Rightarrow> CoAP_Res list \<Rightarrow> nv_writer \<Rightarrow> nv_writer option" where
  "save_resources pad [] s = Some s"
| "save_resources pad (r # rs) s = do {
     s \<leftarrow> save_observers pad r False (pListObservers r) s;
     save_resources pad rs s }"

text \<open>The result, the page and the bytes of it that \<open>hal_nonVolatile_WriteBuf\<close> is given, and the stack.\<close>

definition CoAP_NVsaveObservers ::
  "(CoAP_Observer \<Rightarrow> u8 list) \<Rightarrow> memory \<Rightarrow> 'x coap \<Rightarrow> (CoAP_Result_t \<times> memory \<times> u8 list \<times> 'x coap) option" where
  "CoAP_NVsaveObservers pad page w = do {
     s \<leftarrow> save_resources pad (pResList w) \<lparr>TempPage = page, pTempPage = 0, TotalPageBytes = 0, nv_heap = heap w\<rparr>;
     Some (COAP_OK, TempPage s, read_bytes (TempPage s) (unat (TotalPageBytes s)), w\<lparr>heap := nv_heap s\<rparr>) }"

subsection \<open>Loading\<close>

text \<open>The loop over the options of a record. \<open>coap_memcpy\<close> reads behind a value that is too short.\<close>

fun restore_options :: "options \<Rightarrow> CoAP_Observer \<Rightarrow> bget_state \<Rightarrow> (CoAP_Observer \<times> bget_state) option" where
  "restore_options [] ob h = Some (ob, h)"
| "restore_options (opt # opts) ob h =
    (if Number opt = OPT_NUM_URI_HOST then
       (if length (Value opt) < sizeof_NetEp then None
        else do { ep \<leftarrow> ep_of_bytes (Value opt); restore_options opts (ob\<lparr>Ep := ep\<rparr>) h })
     else if Number opt = OPT_NUM_URI_PORT then
       (if length (Value opt) < 1 then None else restore_options opts (ob\<lparr>IfID := hd (Value opt)\<rparr>) h)
     else if Number opt = OPT_NUM_URI_PATH then restore_options opts ob h
     else if Number opt = OPT_NUM_LOBARO_TOKEN_SAVE then
       (if length (Value opt) < 8 then None
        else restore_options opts (ob\<lparr>Token := le_word (take 8 (Value opt))\<rparr>) h)
     else
       (let (_, l, h) = CoAP_CopyOptionToList (pOptList ob) opt h
        in restore_options opts (ob\<lparr>pOptList := l\<rparr>) h))"

text \<open>
  \<open>raw\<close> is where \<open>pRawPage\<close> points to in the memory of the page (\<open>None\<close> is the null pointer), \<open>opts\<close> the list
  \<open>pOptList\<close>, which both \<open>continue\<close> statements keep.
\<close>

partial_function (option) load_observers_loop ::
  "memory \<Rightarrow> nat option \<Rightarrow> options \<Rightarrow> 'x coap \<Rightarrow> (CoAP_Result_t \<times> 'x coap) option" where
  "load_observers_loop page raw opts w =
    (case raw of
       None \<Rightarrow> None
     | Some k \<Rightarrow>
         (case parse_OptionsFromRaw (mem_at page k) (of_nat TEMP_PAGE_SIZE) opts (heap w) of
            None \<Rightarrow> None
          | Some (res, next_raw, opts, h) \<Rightarrow>
              (if res \<noteq> COAP_OK then Some (COAP_OK, w\<lparr>heap := h\<rparr>)
               else
                 (case CoAP_FindResourceByUri (pResList w) opts w of
                    None \<Rightarrow> load_observers_loop page (map_option ((+) k) next_raw) opts (w\<lparr>heap := h\<rparr>)
                  | Some r \<Rightarrow>
                      (case CoAP_AllocNewObserver h of
                         (None, h) \<Rightarrow> load_observers_loop page (map_option ((+) k) next_raw) opts (w\<lparr>heap := h\<rparr>)
                       | (Some ob, h) \<Rightarrow>
                           (case restore_options opts ob h of
                              None \<Rightarrow> None
                            | Some (ob, h) \<Rightarrow>
                                load_observers_loop page (map_option ((+) k) next_raw) []
                                  (upd_res (res_addr r)
                                     (\<lambda>r. r\<lparr>pListObservers := snd (CoAP_AppendObserverToList (pListObservers r) (Some ob))\<rparr>)
                                     (w\<lparr>heap := CoAP_FreeOptionList opts h\<rparr>))))))))"

text \<open>\<open>page\<close> is the memory behind the pointer that \<open>hal_nonVolatile_GetBufPtr\<close> returns.\<close>

definition CoAP_NVloadObservers :: "memory option \<Rightarrow> 'x coap \<Rightarrow> (CoAP_Result_t \<times> 'x coap) option" where
  "CoAP_NVloadObservers page w =
    (case page of
       None \<Rightarrow> load_observers_loop (\<lambda>_. 0) None [] w
     | Some m \<Rightarrow> load_observers_loop m (Some 0) [] w)"

text \<open>The port to the ESP8266 has neither.\<close>

definition hal_nonVolatile_GetBufPtr :: "memory option" where
  "hal_nonVolatile_GetBufPtr = None"

definition hal_nonVolatile_WriteBuf :: "u8 list \<Rightarrow> bool" where
  "hal_nonVolatile_WriteBuf data = False"

end
