(* ===== verification/Nv_Props.thy ===== *)
theory Nv_Props imports Coap_Nv Payload_Safety begin

section \<open>Observers survive a sleep\<close>

subsection \<open>The bytes of a struct\<close>

lemma le_bytes_length [simp]: "length (le_bytes n w) = n"
  by (induction n w rule: le_bytes.induct) simp_all

lemma le_word_bytes: "le_word (le_bytes n w) = take_bit (8 * n) w"
proof (induction n w rule: le_bytes.induct)
  case (2 n w)
  have "(ucast (ucast w :: u8) :: 'a word) OR push_bit 8 (take_bit (8 * n) (drop_bit 8 w)) = take_bit (8 + 8 * n) w"
    by (rule bit_word_eqI) (auto simp: bit_simps)
  with 2 show ?case by simp
qed simp

lemma le_word_whole [simp]: "le_word (le_bytes 4 (w :: u32)) = w" "le_word (le_bytes 2 (p :: u16)) = p" "le_word (le_bytes 8 (t :: u64)) = t"
  by (simp_all add: le_word_bytes take_bit_word_eq_self)

lemma net_type_of_code [simp]: "net_type_of (net_type_code t) = Some t"
  by (cases t) (simp_all add: net_type_of_def)

lemma ep_bytes_length: "addr_wf ep \<Longrightarrow> length pad = 2 \<Longrightarrow> length (ep_bytes pad ep) = 24"
  by (simp add: ep_bytes_def addr_wf_def NetAddr_MAX_LENGTH_def)

lemma ep_bytes_roundtrip:
  assumes "addr_wf ep" "length pad = 2"
  shows "ep_of_bytes (ep_bytes pad ep) = Some ep"
proof -
  have n: "length (NetAddr ep) = 16" using assms(1) by (simp add: addr_wf_def NetAddr_MAX_LENGTH_def)
  have "take 4 (ep_bytes pad ep) = le_bytes 4 (net_type_code (NetType ep))" "take 16 (drop 4 (ep_bytes pad ep)) = NetAddr ep"
    "take 2 (drop 20 (ep_bytes pad ep)) = le_bytes 2 (NetPort ep)"
    using n assms(2) by (simp_all add: ep_bytes_def)
  then show ?thesis by (simp add: ep_of_bytes_def)
qed

subsection \<open>Which resource a path names\<close>

definition path_of :: "options \<Rightarrow> u8 list list" where
  "path_of opts = map Value (filter (\<lambda>opt. Number opt = OPT_NUM_URI_PATH) opts)"

lemma path_of_simps [simp]:
  "path_of [] = []"
  "path_of (opt # opts) = (if Number opt = OPT_NUM_URI_PATH then [Value opt] else []) @ path_of opts"
  "path_of (xs @ ys) = path_of xs @ path_of ys"
  by (simp_all add: path_of_def)

lemma path_of_to_path:
  "path_of opts = (case to_path opts of [] \<Rightarrow> [] | opt # os \<Rightarrow> Value opt # path_of os)"
  "opt \<in> set (tl (to_path opts)) \<Longrightarrow> opt \<in> set opts"
  "to_path opts = opt # os \<Longrightarrow> Number opt = OPT_NUM_URI_PATH \<and> opt \<in> set opts"
  by (induction opts) (auto simp: to_path_def split: if_splits dest: list.set_sel(2))

lemma OptionsAreEqual_wf:
  assumes "opt_wf a" "opt_wf b" "Number a = Number b"
  shows "CoAP_OptionsAreEqual (Some a) (Some b) \<longleftrightarrow> Value a = Value b"
proof -
  have "unat (Length a) = unat (Length b) \<longleftrightarrow> Length a = Length b" by (simp add: word_unat_eq_iff)
  then show ?thesis using assms
    by (auto simp: CoAP_OptionsAreEqual_def opt_wf_def list_all_iff intro: nth_equalityI)
qed

lemma uri_equal_core:
  "list_all opt_wf A \<Longrightarrow> list_all opt_wf B \<Longrightarrow> CoAP_UriOptionsAreEqual A B \<longleftrightarrow> path_of A = path_of B"
proof (induction A B rule: CoAP_UriOptionsAreEqual.induct)
  case (1 A B)
  have wf: "list_all opt_wf (tl (to_path A))" "list_all opt_wf (tl (to_path B))"
    using 1(2,3) path_of_to_path(2) by (auto simp: list_all_iff)
  show ?case
  proof (cases "A = [] \<and> B = []")
    case True
    then show ?thesis by (simp add: CoAP_UriOptionsAreEqual.simps)
  next
    case False
    note step = CoAP_UriOptionsAreEqual.simps[of A B] and IH = 1(1)[OF False _ wf]
    show ?thesis
    proof (cases "to_path A"; cases "to_path B")
      fix a as b bs
      assume ab: "to_path A = a # as" "to_path B = b # bs"
      then have "CoAP_OptionsAreEqual (Some a) (Some b) \<longleftrightarrow> Value a = Value b"
        using path_of_to_path(3)[of A] path_of_to_path(3)[of B] 1(2,3) by (intro OptionsAreEqual_wf) (auto simp: list_all_iff)
      then show ?thesis using step IH ab False path_of_to_path(1)[of A] path_of_to_path(1)[of B]
        by (auto simp: head_option_def)
    qed (use step IH False path_of_to_path(1)[of A] path_of_to_path(1)[of B] in
        \<open>auto simp: head_option_def CoAP_OptionsAreEqual_def CoAP_UriOptionsAreEqual.simps\<close>)
  qed
qed

subsection \<open>A record\<close>

text \<open>What a list of options says, in the order in which the record is made.\<close>

abbreviation sized :: "options \<Rightarrow> bool" where
  "sized opts \<equiv> list_all (\<lambda>opt. opt_wf opt \<and> unat (Length opt) \<le> MAX_OPTION_VALUE_SIZE) opts"

lemma append_last:
  assumes "opts_heap h R l" "\<forall>opt \<in> set l. Number opt \<le> num" "length buf = unat len" "unat len \<le> 1034"
    "room h k" "option_request len + 28 \<le> k"
  shows "\<exists>opt h'. CoAP_AppendOptionToList l num buf len h = (COAP_OK, l @ [opt], h') \<and> content opt = (num, buf) \<and> opt_wf opt \<and>
    Length opt = len \<and> opts_heap h' R (l @ [opt]) \<and> room h' (k - option_request len - 15)"
proof -
  obtain res l' h' where ap: "CoAP_AppendOptionToList l num buf len h = (res, l', h')"
    by (cases "CoAP_AppendOptionToList l num buf len h")
  have inv: "heap_inv h (R \<union> opt_addr ` set l)" using assms(1) by (simp add: opts_heap_def)
  have r: "res = COAP_OK" "room h' (k - option_request len - 15)"
    using append_option_room[OF ap inv assms(5,6)] assms(4) by auto
  then obtain p where l': "l' = insert_option (mk_option p num buf len) l" using ap append_option_OK by blast
  then have l'': "l' = l @ [mk_option p num buf len]" using assms(2) insert_option_last by auto
  have "opts_heap h' R l'" using append_option_heap[OF ap[unfolded r(1)] assms(1)] assms(4) by simp
  then show ?thesis using ap r l'' assms(3) by (intro exI[of _ "mk_option p num buf len"] exI[of _ h']) (simp add: content_def opt_wf_def)
qed

lemma copy_options_append:
  assumes "opts_heap h R l" "packable n os" "\<forall>opt \<in> set l. Number opt \<le> n" "room h (opts_room os + d)" "0 \<le> d"
  shows "\<exists>os' h'. copy_options os l h = (l @ os', h') \<and> map content os' = map content os \<and> sized os' \<and>
    opts_heap h' R (l @ os') \<and> room h' (13 + d)"
  using assms
proof (induction os arbitrary: l h n)
  case (Cons opt os)
  have o: "n \<le> Number opt" "opt_wf opt" "unat (Length opt) \<le> 1034" "packable (Number opt) os"
    using Cons.prems(2) by (auto simp: MAX_OPTION_VALUE_SIZE_def)
  have le: "\<forall>a \<in> set l. Number a \<le> Number opt" using Cons.prems(3) o(1) by fastforce
  have rm: "option_request (Length opt) + 28 \<le> opts_room (opt # os) + d" using opts_room_ge[of os] Cons.prems(5) by simp
  obtain new h1 where new: "CoAP_AppendOptionToList l (Number opt) (Value opt) (Length opt) h = (COAP_OK, l @ [new], h1)"
    "content new = content opt" "opt_wf new" "Length new = Length opt" "opts_heap h1 R (l @ [new])" "room h1 (opts_room os + d)"
    using append_last[OF Cons.prems(1) le _ o(3) Cons.prems(4) rm, where buf = "Value opt"] o(2) by (auto simp: opt_wf_def content_def algebra_simps)
  have "Number new = Number opt" using new(2) by (simp add: content_def)
  then have "\<forall>a \<in> set (l @ [new]). Number a \<le> Number opt" using le by simp
  from Cons.IH[OF new(5) o(4) this new(6) Cons.prems(5)] obtain os' h' where
    "copy_options os (l @ [new]) h1 = (l @ [new] @ os', h')" "map content os' = map content os" "sized os'"
    "opts_heap h' R (l @ [new] @ os')" "room h' (13 + d)" by auto
  then show ?case using new(1-4) o(2,3)
    by (intro exI[of _ "new # os'"] exI[of _ h']) (simp add: CoAP_CopyOptionToList_def MAX_OPTION_VALUE_SIZE_def)
qed simp

lemma content_same:
  assumes "map content xs = map content ys" "sized xs" "sized ys"
  shows "packable n xs = packable n ys" "pack_options_loop n xs = pack_options_loop n ys" "opts_room xs = opts_room ys"
    "path_of xs = path_of ys"
proof -
  have "packable n xs = packable n ys \<and> pack_options_loop n xs = pack_options_loop n ys \<and> opts_room xs = opts_room ys \<and> path_of xs = path_of ys"
    using assms
  proof (induction xs arbitrary: n ys)
    case (Cons x xs)
    then obtain y zs where y: "ys = y # zs" "content x = content y" "map content xs = map content zs" by (cases ys) auto
    have "unat (Length x) = unat (Length y)" using y(1,2) Cons.prems by (auto simp: content_def opt_wf_def)
    then have "Length x = Length y" by (simp add: word_unat_eq_iff)
    moreover have "Number x = Number y" "Value x = Value y" using y(2) by (auto simp: content_def)
    ultimately show ?case using Cons.IH[OF y(3)] Cons.prems y(1) by (simp add: pack_option_Cons pack_option_def opt_wf_def)
  qed simp
  then show "packable n xs = packable n ys" "pack_options_loop n xs = pack_options_loop n ys" "opts_room xs = opts_room ys"
    "path_of xs = path_of ys" by simp_all
qed

text \<open>
  An observer that can be stored: its endpoint has an address of 16 bytes, and its own options are ordered and have
  numbers between those of the path and of the token. A path is a list of options of that number.
\<close>

definition path_ok :: "options \<Rightarrow> bool" where
  "path_ok opts \<longleftrightarrow> sized opts \<and> list_all (\<lambda>opt. Number opt = OPT_NUM_URI_PATH) opts"

definition observer_ok :: "(CoAP_Observer \<Rightarrow> u8 list) \<Rightarrow> CoAP_Observer \<Rightarrow> bool" where
  "observer_ok pad ob \<longleftrightarrow> addr_wf (Ep ob) \<and> length (pad ob) = 2 \<and> packable 12 (pOptList ob) \<and>
     list_all (\<lambda>opt. Number opt < OPT_NUM_LOBARO_TOKEN_SAVE) (pOptList ob)"

definition record_contents :: "(CoAP_Observer \<Rightarrow> u8 list) \<Rightarrow> options \<Rightarrow> CoAP_Observer \<Rightarrow> (u16 \<times> u8 list) list" where
  "record_contents pad path ob =
     [(OPT_NUM_URI_HOST, ep_bytes (pad ob) (Ep ob)), (OPT_NUM_URI_PORT, [IfID ob])] @ map content path @
     map content (pOptList ob) @ [(OPT_NUM_LOBARO_TOKEN_SAVE, le_bytes 8 (Token ob))]"

definition record_room :: "options \<Rightarrow> CoAP_Observer \<Rightarrow> int" where
  "record_room path ob = opts_room path + opts_room (pOptList ob) + 101"

lemma path_ok_packable: "path_ok path \<Longrightarrow> packable 7 path"
proof -
  assume p: "path_ok path"
  then have "sorted (map Number path)"
    by (induction path) (auto simp: path_ok_def list_all_iff)
  then show "packable 7 path" using p by (auto simp: path_ok_def packable_def list_all_iff OPT_NUM_URI_PATH_def)
qed

lemma observer_options_ok:
  assumes "observer_ok pad ob" "path_ok path" "pUri r = path \<and> \<not> encoded \<or> path = [] \<and> encoded"
    and "heap_inv h R" "room h (record_room path ob + d)" "0 \<le> d"
  shows "\<exists>l h'. observer_options pad r encoded ob h = (l, h') \<and> map content l = record_contents pad path ob \<and> sized l \<and>
    packable 0 l \<and> opts_heap h' R l \<and> room h' (13 + d)"
proof -
  have ob: "length (ep_bytes (pad ob) (Ep ob)) = 24" "packable 12 (pOptList ob)" "\<forall>opt \<in> set (pOptList ob). Number opt < 350"
    using assms(1) ep_bytes_length[of "Ep ob" "pad ob"] by (auto simp: observer_ok_def list_all_iff OPT_NUM_LOBARO_TOKEN_SAVE_def)
  have ge: "13 \<le> opts_room path" "13 \<le> opts_room (pOptList ob)" by (rule opts_room_ge)+
  obtain a h1 where a: "CoAP_AppendOptionToList [] 3 (ep_bytes (pad ob) (Ep ob)) 24 h = (COAP_OK, [a], h1)"
    "content a = (3, ep_bytes (pad ob) (Ep ob))" "opt_wf a" "Length a = 24" "opts_heap h1 R [a]" "room h1 (record_room path ob + d - 51)"
    using append_last[of h R "[]" 3 "ep_bytes (pad ob) (Ep ob)" 24 "record_room path ob + d"] assms(4-6) ob(1) ge
    by (auto simp: record_room_def option_request_def sizeof_option_def)
  have n: "Number a = 3" using a(2) by (simp add: content_def)
  obtain b h2 where b: "CoAP_AppendOptionToList [a] 7 [IfID ob] 1 h1 = (COAP_OK, [a, b], h2)"
    "content b = (7, [IfID ob])" "opt_wf b" "Length b = 1" "opts_heap h2 R [a, b]" "room h2 (record_room path ob + d - 79)"
    using append_last[OF a(5), of 7 "[IfID ob]" 1, OF _ _ _ a(6)] n ge assms(6)
    by (auto simp: record_room_def option_request_def sizeof_option_def)
  have n': "Number b = 7" using b(2) by (simp add: content_def)
  have r2: "room h2 (opts_room path + (opts_room (pOptList ob) + d + 22))" using b(6) by (simp add: record_room_def algebra_simps)
  obtain ps h3 where c: "(if encoded = False then copy_options (pUri r) [a, b] h2 else ([a, b], h2)) = ([a, b] @ ps, h3)"
    "map content ps = map content path" "sized ps" "opts_heap h3 R ([a, b] @ ps)" "room h3 (opts_room (pOptList ob) + d + 35)"
  proof (cases encoded)
    case True
    then show ?thesis using that[of "[]" h2] assms(3) b(5) r2 by (auto simp: algebra_simps)
  next
    case False
    have "\<forall>opt \<in> set [a, b]. Number opt \<le> 7" using n n' by simp
    from copy_options_append[OF b(5) path_ok_packable[OF assms(2)] this r2] obtain ps h3 where
      "copy_options path [a, b] h2 = ([a, b] @ ps, h3)" "map content ps = map content path" "sized ps"
      "opts_heap h3 R ([a, b] @ ps)" "room h3 (13 + (opts_room (pOptList ob) + d + 22))" using ge(2) assms(6) by auto
    then show ?thesis using False assms(3) by (intro that[of ps h3]) (auto simp: algebra_simps)
  qed
  have np: "\<forall>opt \<in> set ps. Number opt = 11"
  proof -
    have "Number ` set ps = Number ` set path"
      using arg_cong[OF c(2), of "\<lambda>l. fst ` set l"] by (simp add: image_image content_def)
    moreover have "Number ` set path \<subseteq> {11}" using assms(2) by (auto simp: path_ok_def list_all_iff OPT_NUM_URI_PATH_def)
    ultimately show ?thesis by auto
  qed
  have le12: "\<forall>opt \<in> set ([a, b] @ ps). Number opt \<le> 12" using n n' np by auto
  obtain os h4 where d: "copy_options (pOptList ob) ([a, b] @ ps) h3 = ([a, b] @ ps @ os, h4)"
    "map content os = map content (pOptList ob)" "sized os" "opts_heap h4 R ([a, b] @ ps @ os)" "room h4 (48 + d)"
    using copy_options_append[OF c(4) ob(2) le12, of "35 + d"] c(5) assms(6) by (auto simp: algebra_simps)
  have no: "\<forall>opt \<in> set os. Number opt < 350 \<and> 12 \<le> Number opt"
  proof -
    have "Number ` set os = Number ` set (pOptList ob)"
      using arg_cong[OF d(2), of "\<lambda>l. fst ` set l"] by (simp add: image_image content_def)
    moreover have "Number ` set (pOptList ob) \<subseteq> {k. k < 350 \<and> 12 \<le> k}"
      using ob(2,3) by (auto simp: packable_def list_all_iff)
    ultimately show ?thesis by auto
  qed
  have no': "\<forall>opt \<in> set os. 3 \<le> Number opt \<and> 7 \<le> Number opt \<and> 11 \<le> Number opt"
    using no by (auto intro: order_trans[of _ "12 :: u16"])
  have le: "\<forall>opt \<in> set ([a, b] @ ps @ os). Number opt \<le> 350" using n n' np no by (auto simp: less_imp_le)
  obtain t h5 where t: "CoAP_AppendOptionToList ([a, b] @ ps @ os) 350 (le_bytes 8 (Token ob)) 8 h4 = (COAP_OK, ([a, b] @ ps @ os) @ [t], h5)"
    "content t = (350, le_bytes 8 (Token ob))" "opt_wf t" "Length t = 8" "opts_heap h5 R (([a, b] @ ps @ os) @ [t])" "room h5 (13 + d)"
    using append_last[OF d(4), of 350 "le_bytes 8 (Token ob)" 8, OF le _ _ d(5)] assms(6)
    by (auto simp: option_request_def sizeof_option_def)
  have nt: "Number t = 350" using t(2) by (simp add: content_def)
  have "observer_options pad r encoded ob h = ([a, b] @ ps @ os @ [t], h5)"
    using a(1) b(1) c(1) d(1) t(1) by (simp add: observer_options_def option_numbers sizeof_NetEp_def Let_def)
  moreover have "map content ([a, b] @ ps @ os @ [t]) = record_contents pad path ob"
    using a(2) b(2) c(2) d(2) t(2) by (simp add: record_contents_def option_numbers)
  moreover have sz: "sized ([a, b] @ ps @ os @ [t])" using a(3,4) b(3,4) c(3) d(3) t(3,4) by (simp add: MAX_OPTION_VALUE_SIZE_def)
  moreover have "sorted (map Number ps)" using np by (induction ps) auto
  moreover have "sorted (map Number os)"
    using content_same(1)[OF d(2,3), of 12] ob(2) by (auto simp: packable_def list_all_iff)
  ultimately show ?thesis using n n' np no no' nt t(5,6)
    by (intro exI[of _ "[a, b] @ ps @ os @ [t]"] exI[of _ h5]) (auto simp: packable_def sorted_append list_all_iff less_imp_le)
qed

subsection \<open>Saving\<close>

definition record_size :: "(CoAP_Observer \<Rightarrow> u8 list) \<Rightarrow> options \<Rightarrow> CoAP_Observer \<Rightarrow> nat" where
  "record_size pad path ob = sum_list (map (\<lambda>c. length (snd c) + 5) (record_contents pad path ob))"

lemma pack_loop_length: "sized l \<Longrightarrow> length (pack_options_loop n l) \<le> sum_list (map (\<lambda>c. length (snd c) + 5) (map content l))"
proof (induction l arbitrary: n)
  case (Cons opt l)
  have "length (pack_option n opt) \<le> length (Value opt) + 5"
    using length_opt_ext(1)[of "Number opt - n"] length_opt_ext(1)[of "Length opt"] Cons.prems by (simp add: pack_option_def Let_def opt_wf_def)
  then show ?case using Cons.IH[of "Number opt"] Cons.prems by (simp add: pack_option_Cons content_def)
qed simp

lemma put_bytes_read: "read_bytes ((put_bytes m 0 bs)(length bs := b)) (Suc (length bs)) = bs @ [b]"
  by (rule nth_equalityI) (auto simp: read_bytes_def put_bytes_def nth_append less_Suc_eq simp del: upt_Suc)

lemma save_resources_none: "\<forall>r \<in> set rs. pListObservers r = [] \<Longrightarrow> save_resources pad rs s = Some s"
  by (induction rs) simp_all

lemma save_resources_append: "save_resources pad (xs @ ys) s = Option.bind (save_resources pad xs s) (save_resources pad ys)"
  by (induction xs arbitrary: s) (auto split: Option.bind_splits)

lemma fold_release_room:
  "heap_inv h L \<Longrightarrow> set as \<subseteq> L \<Longrightarrow> distinct as \<Longrightarrow> room h k \<Longrightarrow> room (fold release1 as h) k"
proof (induction as arbitrary: h L)
  case (Cons a as)
  have "heap_inv (release1 a h) (L - {a})" "room (release1 a h) k" using Cons.prems mem.rel_inv room_release by auto
  then show ?case using Cons.IH[of "release1 a h" "L - {a}"] Cons.prems by auto
qed simp

lemma free_list_room:
  assumes "opts_heap h R l" "room h k"
  shows "room (CoAP_FreeOptionList l h) k"
proof (cases l)
  case (Cons a os)
  let ?as = "map opt_addr os @ [opt_addr a]"
  have "CoAP_FreeOptionList l h = fold release1 ?as h" by (simp add: FreeOptionList_fold Cons)
  moreover have "set ?as \<subseteq> R \<union> opt_addr ` set l" "distinct ?as" using assms(1) Cons by (auto simp: opts_heap_def)
  ultimately show ?thesis using fold_release_room[of h "R \<union> opt_addr ` set l" ?as k] assms by (simp add: opts_heap_def)
qed (use assms(2) in \<open>simp add: FreeOptionList_fold\<close>)

lemma save_step:
  assumes "observer_ok pad ob" "path_ok path" "pUri r = path \<and> \<not> encoded \<or> path = [] \<and> encoded" "heap_inv (nv_heap s) R"
    "room (nv_heap s) (record_room path ob + d)" "0 \<le> d" "pTempPage s + record_size pad path ob < 2048" "unat (TotalPageBytes s) \<le> pTempPage s"
  shows "\<exists>l h' t. save_observer pad r encoded ob s = Some \<lparr>TempPage = (put_bytes (TempPage s) (pTempPage s) (pack_options_loop 0 l))
        (pTempPage s + length (pack_options_loop 0 l) := 0xff), pTempPage = pTempPage s + unat t, TotalPageBytes = t, nv_heap = h'\<rparr> \<and>
    unat t = unat (TotalPageBytes s) + Suc (length (pack_options_loop 0 l)) \<and> heap_inv h' R \<and> room h' (13 + d) \<and>
    map content l = record_contents pad path ob \<and> sized l \<and> packable 0 l \<and> length (pack_options_loop 0 l) \<le> record_size pad path ob"
proof -
  obtain l h where l: "observer_options pad r encoded ob (nv_heap s) = (l, h)" "map content l = record_contents pad path ob" "sized l"
    "packable 0 l" "opts_heap h R l" "room h (13 + d)" using observer_options_ok[OF assms(1-6)] by auto
  let ?n = "length (pack_options_loop 0 l)" and ?t = "TotalPageBytes s + (ucast (of_nat (length (pack_options_loop 0 l)) :: u16) + 1)"
  have size: "?n \<le> record_size pad path ob" using pack_loop_length[OF l(3), of 0] l(2) by (simp add: record_size_def)
  then have len: "pTempPage s + ?n < 2048" using assms(7) by simp
  then have n: "unat (of_nat ?n :: u16) = ?n" by (simp add: unat_of_nat)
  moreover have "unat ?t = unat (TotalPageBytes s) + Suc ?n"
    using len n assms(8) by (simp add: unat_word_ariths unsigned_ucast_eq unsigned_take_bit_eq take_bit_nat_eq_self)
  ultimately show ?thesis using l len size FreeOptionList_heap[OF l(5)] free_list_room[OF l(5,6)]
    by (intro exI[of _ l] exI[of _ "CoAP_FreeOptionList l h"] exI[of _ ?t])
      (simp add: save_observer_def pack_OptionsFromList_def Let_def TEMP_PAGE_SIZE_def)
qed

subsection \<open>Loading\<close>

lemma restore_path: "\<forall>opt \<in> set ps. Number opt = OPT_NUM_URI_PATH \<Longrightarrow> restore_options (ps @ xs) ob h = restore_options xs ob h"
  by (induction ps) (simp_all add: option_numbers)

lemma restore_own:
  "\<forall>opt \<in> set os. Number opt \<notin> {3, 7, 11, 350} \<Longrightarrow> restore_options (os @ xs) ob h =
     restore_options xs (ob\<lparr>pOptList := fst (copy_options os (pOptList ob) h)\<rparr>) (snd (copy_options os (pOptList ob) h))"
proof (induction os arbitrary: ob h)
  case (Cons opt os)
  then show ?case by (simp add: option_numbers split_beta)
qed simp

lemma restore_record:
  assumes "map content l = record_contents pad path ob" "sized l" "observer_ok pad ob" "path_ok path"
    and "pOptList new = []" "heap_inv h R" "room h (opts_room (pOptList ob) + d)" "0 \<le> d"
  shows "\<exists>os h'. restore_options l new h = Some (new\<lparr>Ep := Ep ob, IfID := IfID ob, Token := Token ob, pOptList := os\<rparr>, h') \<and>
    map content os = map content (pOptList ob) \<and> opts_heap h' R os \<and> room h' (13 + d)"
proof -
  obtain a b ps os t where l: "l = a # b # ps @ os @ [t]" "content a = (3, ep_bytes (pad ob) (Ep ob))" "content b = (7, [IfID ob])"
    "map content ps = map content path" "map content os = map content (pOptList ob)" "content t = (350, le_bytes 8 (Token ob))"
    using assms(1) by (auto simp: record_contents_def map_eq_append_conv append_eq_map_conv map_eq_Cons_conv Cons_eq_map_conv option_numbers)
  have nv: "Number a = 3" "Value a = ep_bytes (pad ob) (Ep ob)" "Number b = 7" "Value b = [IfID ob]"
    "Number t = 350" "Value t = le_bytes 8 (Token ob)" using l(2,3,6) by (auto simp: content_def)
  have ep: "length (Value a) = 24" "ep_of_bytes (Value a) = Some (Ep ob)"
    using assms(3) nv(2) ep_bytes_length[of "Ep ob" "pad ob"] ep_bytes_roundtrip[of "Ep ob" "pad ob"] by (auto simp: observer_ok_def)
  have "Number ` set ps = Number ` set path" using arg_cong[OF l(4), of "\<lambda>l. fst ` set l"] by (simp add: image_image content_def)
  moreover have "Number ` set path \<subseteq> {11}" using assms(4) by (auto simp: path_ok_def list_all_iff OPT_NUM_URI_PATH_def)
  ultimately have ps: "\<forall>opt \<in> set ps. Number opt = OPT_NUM_URI_PATH" by (auto simp: OPT_NUM_URI_PATH_def)
  have ob: "packable 12 (pOptList ob)" "\<forall>opt \<in> set (pOptList ob). Number opt < 350"
    using assms(3) by (auto simp: observer_ok_def list_all_iff OPT_NUM_LOBARO_TOKEN_SAVE_def)
  then have sz: "sized os" "sized (pOptList ob)" using assms(2) l(1) by (auto simp: packable_def list_all_iff)
  have "Number ` set os = Number ` set (pOptList ob)" using arg_cong[OF l(5), of "\<lambda>l. fst ` set l"] by (simp add: image_image content_def)
  moreover have "Number ` set (pOptList ob) \<subseteq> {k. k < 350 \<and> 12 \<le> k}" using ob by (auto simp: packable_def list_all_iff)
  ultimately have no: "\<forall>opt \<in> set os. Number opt \<notin> {3, 7, 11, 350}" by fastforce
  have "packable 12 os" "opts_room os = opts_room (pOptList ob)" using content_same[OF l(5) sz] ob(1) by simp_all
  then obtain os' h' where os': "copy_options os [] h = (os', h')" "map content os' = map content os" "opts_heap h' R os'" "room h' (13 + d)"
    using copy_options_append[of h R "[]" 12 os d] assms(6-8) by auto
  have "restore_options (ps @ os @ [t]) (new\<lparr>Ep := Ep ob, IfID := IfID ob\<rparr>) h =
      Some (new\<lparr>Ep := Ep ob, IfID := IfID ob, pOptList := os', Token := Token ob\<rparr>, h')"
    unfolding restore_path[OF ps] restore_own[OF no] using os'(1) nv assms(5) by (simp add: option_numbers)
  then show ?thesis using os' l(1,5) nv ep by (intro exI[of _ os'] exI[of _ h']) (simp add: option_numbers sizeof_NetEp_def)
qed

lemma opts_room_content: "sized l \<Longrightarrow> opts_room l = sum_list (map (\<lambda>c. int (length (snd c)) + 27) (map content l)) + 13"
  by (induction l) (simp_all add: option_request_def sizeof_option_def opt_wf_def content_def)

lemma record_room_eq:
  assumes "map content l = record_contents pad path ob" "sized l" "observer_ok pad ob" "path_ok path"
  shows "opts_room l = record_room path ob"
proof -
  have "sized path" "sized (pOptList ob)" "length (ep_bytes (pad ob) (Ep ob)) = 24"
    using assms(3,4) ep_bytes_length[of "Ep ob" "pad ob"] by (auto simp: path_ok_def observer_ok_def packable_def list_all_iff)
  then show ?thesis using opts_room_content[of l] opts_room_content[of path] opts_room_content[of "pOptList ob"] assms(1,2)
    by (simp add: record_contents_def record_room_def)
qed

lemma find_first:
  assumes "pResList w = qs1 @ q # qs2" "\<forall>x \<in> set (pResList w). list_all opt_wf (pUri x)" "list_all opt_wf opts"
    "path_of (pUri q) = path_of opts" "\<forall>x \<in> set qs1. path_of (pUri x) \<noteq> path_of opts"
  shows "CoAP_FindResourceByUri (pResList w) opts w = Some q"
proof -
  have "find (\<lambda>r. CoAP_UriOptionsAreEqual (pUri r) opts) qs1 = None"
    using assms uri_equal_core by (auto simp: find_None_iff)
  moreover have "CoAP_UriOptionsAreEqual (pUri q) opts" using assms uri_equal_core[of "pUri q" opts] by auto
  moreover have "find P (qs1 @ q # qs2) = Some q" if "find P qs1 = None" "P q" for P :: "CoAP_Res \<Rightarrow> bool"
    using that by (induction qs1) (auto split: if_splits)
  ultimately show ?thesis using assms(1) by (simp add: CoAP_FindResourceByUri_def)
qed

lemma upd_res_at:
  assumes "pResList w = qs1 @ q # qs2" "distinct (map res_addr (pResList w))"
  shows "upd_res (res_addr q) f w = w\<lparr>pResList := qs1 @ f q # qs2\<rparr>"
proof -
  have "res_addr q \<notin> res_addr ` set qs1" "res_addr q \<notin> res_addr ` set qs2" using assms by auto
  then have "res_addr x \<noteq> res_addr q" if "x \<in> set qs1 \<or> x \<in> set qs2" for x using that imageI[of x _ res_addr] by metis
  then have "map (\<lambda>r. if res_addr r = res_addr q then f r else r) qs1 = qs1" "map (\<lambda>r. if res_addr r = res_addr q then f r else r) qs2 = qs2"
    by (simp_all add: map_idI)
  then show ?thesis using assms(1) by (simp add: upd_res_def)
qed

lemma bytes_there: "n < m \<Longrightarrow> \<exists>bs. bs \<noteq> [] \<and> length bs = m - n \<and> has_bytes page n bs"
  by (rule exI[of _ "map page [n..<m]"]) (auto simp: has_bytes_def)

lemma parse_record:
  assumes "map content l = record_contents pad path ob" "sized l" "packable 0 l" "observer_ok pad ob" "path_ok path"
    and "has_bytes page k (pack_options_loop 0 l @ [0xff])" "length (pack_options_loop 0 l) < 2047" "heap_inv h R" "0 \<le> d"
  shows "\<exists>res pb l' h'. parse_OptionsFromRaw (mem_at page k) (of_nat 2048) [] h = Some (res, pb, l', h') \<and>
    (res = COAP_ERR_OUT_OF_MEMORY \<and> \<not> room h (record_room path ob + d) \<or>
     res = COAP_OK \<and> pb = Some (Suc (length (pack_options_loop 0 l))) \<and> map content l' = map content l \<and> sized l' \<and>
     path_of l' = path_of path \<and> opts_heap h' R l' \<and> (room h (record_room path ob + d) \<longrightarrow> room h' (13 + d)))"
proof -
  let ?n = "length (pack_options_loop 0 l)"
  have ne: "l \<noteq> []" using assms(1) by (auto simp: record_contents_def)
  obtain pl where pl: "pl \<noteq> []" "length pl = 2048 - Suc ?n" "has_bytes (mem_at page k) (Suc ?n) pl"
    using bytes_there[of "Suc ?n" 2048 "mem_at page k"] assms(7) by auto
  have at: "mem_at page k i = page (k + i)" for i by (simp add: mem_at_def)
  have hb: "has_bytes (mem_at page k) 0 (fst (pack_OptionsFromList l) @ payload_tail pl)"
    using assms(6) pl(1,3) at by (simp add: payload_tail_def pack_OptionsFromList_def Let_def)
  have tl: "unat (of_nat 2048 :: u16) = length (fst (pack_OptionsFromList l)) + length (payload_tail pl)"
    using assms(7) pl by (simp add: payload_tail_def pack_OptionsFromList_def Let_def)
  obtain res pb l' h' where p: "parse_OptionsFromRaw (mem_at page k) (of_nat 2048) [] h = Some (res, pb, l', h')"
    "res = COAP_ERR_OUT_OF_MEMORY \<and> \<not> room h (record_room path ob + d) \<or>
     res = COAP_OK \<and> map content l' = map content l \<and> pb = Some (Suc ?n) \<and> (room h (record_room path ob + d) \<longrightarrow> room h' (13 + d))"
    using parse_packed[OF assms(3) ne hb tl assms(8,9)] pl(1) unfolding record_room_eq[OF assms(1,2,4,5)]
    by (auto simp: payload_at_def pack_OptionsFromList_def Let_def)
  have ok: "sized l'" "opts_heap h' R l'" if "res = COAP_OK"
    using parse_OptionsFromRaw_robust_core[of "of_nat 2048" h R "mem_at page k"] assms(8) p(1) that by (auto simp: loop_ok_def)
  have "path_of l' = path_of path" if "map content l' = map content l" "sized l'"
  proof -
    have "path_of l' = path_of l" using content_same(4)[OF that assms(2)] .
    moreover have "filter (\<lambda>c. fst c = OPT_NUM_URI_PATH) (map content l) = map content path"
      using assms(4,5) unfolding assms(1) record_contents_def
      by (auto simp: option_numbers filter_empty_conv observer_ok_def packable_def path_ok_def list_all_iff content_def filter_id_conv)
    moreover have "path_of xs = map snd (filter (\<lambda>c. fst c = OPT_NUM_URI_PATH) (map content xs))" for xs
      by (induction xs) (simp_all add: content_def)
    moreover have "path_of path = map snd (map content path)" using assms(5) by (induction path) (auto simp: path_ok_def content_def)
    ultimately show ?thesis by simp
  qed
  with p ok show ?thesis by blast
qed

lemma load_step:
  assumes l: "map content l = record_contents pad path ob" "sized l" "packable 0 l" "observer_ok pad ob" "path_ok path"
    and page: "has_bytes page k (pack_options_loop 0 l @ [0xff])" "length (pack_options_loop 0 l) < 2047"
    and w: "pResList w = qs1 @ q # qs2" "\<forall>x \<in> set (pResList w). list_all opt_wf (pUri x)" "distinct (map res_addr (pResList w))"
      "path_of (pUri q) = path_of path" "\<forall>x \<in> set qs1. path_of (pUri x) \<noteq> path_of path"
      "heap_inv (heap w) R" "room (heap w) (record_room path ob + (opts_room (pOptList ob) + 50))"
  shows "\<exists>new h'. load_observers_loop page (Some k) [] w = load_observers_loop page (Some (k + Suc (length (pack_options_loop 0 l)))) []
      (w\<lparr>heap := h', pResList := qs1 @ q\<lparr>pListObservers := pListObservers q @ [new]\<rparr> # qs2\<rparr>) \<and>
    Ep new = Ep ob \<and> IfID new = IfID ob \<and> Token new = Token ob \<and> FailCount new = 0 \<and>
    map content (pOptList new) = map content (pOptList ob) \<and> opts_heap h' (insert (obs_addr new) R) (pOptList new) \<and> obs_addr new \<notin> R"
proof -
  let ?n = "length (pack_options_loop 0 l)" and ?o = "opts_room (pOptList ob)"
  have o13: "13 \<le> ?o" by (rule opts_room_ge)
  then obtain l' h1 where p: "parse_OptionsFromRaw (mem_at page k) (of_nat 2048) [] (heap w) = Some (COAP_OK, Some (Suc ?n), l', h1)"
    "map content l' = map content l" "sized l'" "path_of l' = path_of path" "opts_heap h1 R l'" "room h1 (13 + (?o + 50))"
    using parse_record[OF l page w(6), of "?o + 50"] w(7) by auto
  have find: "CoAP_FindResourceByUri (pResList w) l' w = Some q"
    using find_first[OF w(1,2)] p(3,4) w(4,5) by (simp add: list_all_iff)
  have inv1: "heap_inv h1 (R \<union> opt_addr ` set l')" "R \<inter> opt_addr ` set l' = {}" "distinct (map opt_addr l')"
    using p(5) by (simp_all add: opts_heap_def)
  have f: "fits sizeof_CoAP_Observer" by (simp add: fits_def sizeof_CoAP_Observer_def)
  obtain a h2 where a: "coap_mem_get sizeof_CoAP_Observer h1 = (Some a, h2)" "room h2 ?o"
    using room_get[OF inv1(1) f p(6)] o13 by (auto simp: sizeof_CoAP_Observer_def)
  have inv2: "heap_inv h2 (insert a (R \<union> opt_addr ` set l'))" "a \<notin> R \<union> opt_addr ` set l'"
    using mem.get_inv[OF a(1) inv1(1) f] mem.get_fresh[OF a(1) inv1(1) f] .
  define fresh where "fresh = \<lparr>obs_addr = a, Ep = null_ep, IfID = 0, FailCount = 0, Token = 0, pOptList = []\<rparr>"
  have alloc: "CoAP_AllocNewObserver h1 = (Some fresh, h2)" using a(1) by (simp add: CoAP_AllocNewObserver_def fresh_def)
  obtain os h3 where os: "restore_options l' fresh h2 = Some (fresh\<lparr>Ep := Ep ob, IfID := IfID ob, Token := Token ob, pOptList := os\<rparr>, h3)"
    "map content os = map content (pOptList ob)" "opts_heap h3 (insert a (R \<union> opt_addr ` set l')) os"
    using restore_record[of l' pad path ob fresh, OF _ p(3) l(4,5) _ inv2(1), of 0] p(2) l(1) a(2) by (auto simp: fresh_def)
  let ?new = "fresh\<lparr>Ep := Ep ob, IfID := IfID ob, Token := Token ob, pOptList := os\<rparr>"
  let ?h4 = "CoAP_FreeOptionList l' h3"
  have "opts_heap h3 (insert a R \<union> opt_addr ` set os) l'"
    using os(3) inv1(2,3) inv2(2) by (auto simp: opts_heap_def Un_ac insert_commute)
  from FreeOptionList_heap[OF this] have h4: "opts_heap ?h4 (insert a R) os"
    using os(3) by (auto simp: opts_heap_def)
  have upd: "upd_res (res_addr q) g (w\<lparr>heap := ?h4\<rparr>) = w\<lparr>heap := ?h4, pResList := qs1 @ g q # qs2\<rparr>" for g
    using upd_res_at[of "w\<lparr>heap := ?h4\<rparr>" qs1 q qs2 g] w(1,3) by simp
  have "load_observers_loop page (Some k) [] w = load_observers_loop page (Some (k + Suc ?n)) []
      (w\<lparr>heap := ?h4, pResList := qs1 @ q\<lparr>pListObservers := pListObservers q @ [?new]\<rparr> # qs2\<rparr>)"
    using p(1) find alloc os(1) upd by (subst load_observers_loop.simps) (simp add: TEMP_PAGE_SIZE_def CoAP_AppendObserverToList_def)
  then show ?thesis using os(2) h4 inv2(2) by (intro exI[of _ ?new] exI[of _ ?h4]) (simp add: fresh_def)
qed

lemma load_end: "page k = 0xff \<Longrightarrow> load_observers_loop page (Some k) opts w = Some (COAP_OK, w)"
  by (subst load_observers_loop.simps) (simp add: TEMP_PAGE_SIZE_def parse_OptionsFromRaw_def mem_at_def)

text \<open>A record without a path, which no resource has, and that is the last one.\<close>

lemma load_unknown:
  assumes "map content l = record_contents pad [] ob" "sized l" "packable 0 l" "observer_ok pad ob"
    and "has_bytes page k (pack_options_loop 0 l @ [0xff])" "length (pack_options_loop 0 l) < 2047"
    and "page (k + Suc (length (pack_options_loop 0 l))) = 0xff" "heap_inv (heap w) R"
    and "\<forall>x \<in> set (pResList w). list_all opt_wf (pUri x) \<and> path_of (pUri x) \<noteq> []"
  shows "\<exists>h'. load_observers_loop page (Some k) [] w = Some (COAP_OK, w\<lparr>heap := h'\<rparr>)"
proof -
  obtain res pb l' h' where p: "parse_OptionsFromRaw (mem_at page k) (of_nat 2048) [] (heap w) = Some (res, pb, l', h')"
    "res \<noteq> COAP_OK \<or> res = COAP_OK \<and> pb = Some (Suc (length (pack_options_loop 0 l))) \<and> sized l' \<and> path_of l' = []"
    using parse_record[OF assms(1-4) _ assms(5,6,8), of 0] by (auto simp: path_ok_def)
  have "CoAP_FindResourceByUri (pResList w) l' w = None" if l': "sized l'" "path_of l' = []"
  proof -
    have "\<not> CoAP_UriOptionsAreEqual (pUri x) l'" if "x \<in> set (pResList w)" for x
      using assms(9) that uri_equal_core[of "pUri x" l'] l' by (auto simp: list_all_iff)
    then show ?thesis by (auto simp: CoAP_FindResourceByUri_def find_None_iff)
  qed
  with p show ?thesis
    using load_end[of page "k + Suc (length (pack_options_loop 0 l))", OF assms(7)]
    by (subst load_observers_loop.simps) (auto simp: TEMP_PAGE_SIZE_def)
qed

subsection \<open>The properties\<close>

lemma has_put: "has_bytes m 0 pre \<Longrightarrow> has_bytes ((put_bytes m (length pre) bs)(length pre + length bs := b)) 0 (pre @ bs @ [b])"
  by (auto simp: has_bytes_def put_bytes_def nth_append)

lemma read_whole: "has_bytes m 0 bs \<Longrightarrow> read_bytes m (length bs) = bs"
  using read_bytes_has[of m 0 bs] by (simp add: mem_at_def)

text \<open>
  C27: which resource a request or a stored record names. \<open>CoAP_FindResourceByUri\<close> gives the first resource whose path is
  the path of the options, segment by segment, and none when there is no such resource; options with other numbers
  do not matter.
\<close>

theorem resource_by_path:
  assumes "\<forall>r \<in> set (pResList w). list_all opt_wf (pUri r)" "list_all opt_wf opts"
  shows "CoAP_FindResourceByUri [] opts w = find (\<lambda>r. path_of (pUri r) = path_of opts) (pResList w)"
proof -
  have "find P xs = find Q xs" if "\<forall>x \<in> set xs. P x = Q x" for P Q and xs :: "CoAP_Res list"
    using that by (induction xs) auto
  then show ?thesis using assms uri_equal_core by (simp add: CoAP_FindResourceByUri_def)
qed

text \<open>
  C28: an observer survives a sleep. When one resource has one observer, \<open>CoAP_NVsaveObservers\<close> gives the memory a record
  and all buffers it took back; and \<open>CoAP_NVloadObservers\<close>, on any page that begins with the record and an erased byte,
  gives the first resource with the same path an observer with the same endpoint, interface, token and options, whose
  buffers are the only ones that stay allocated.
\<close>

theorem observer_survives_sleep:
  assumes "pResList w = rs1 @ r # rs2" "pListObservers r = [ob]" "\<forall>q \<in> set (rs1 @ rs2). pListObservers q = []"
    and "path_ok (pUri r)" "observer_ok pad ob" "record_size pad (pUri r) ob < 2047"
    and "heap_inv (heap w) L" "room (heap w) (record_room (pUri r) ob)"
    and "pResList v = qs1 @ q # qs2" "\<forall>x \<in> set (pResList v). list_all opt_wf (pUri x)" "distinct (map res_addr (pResList v))"
    and "path_of (pUri q) = path_of (pUri r)" "\<forall>x \<in> set qs1. path_of (pUri x) \<noteq> path_of (pUri r)"
    and "heap_inv (heap v) K" "room (heap v) (record_room (pUri r) ob + (opts_room (pOptList ob) + 50))"
  shows "\<exists>page' bytes h. CoAP_NVsaveObservers pad page w = Some (COAP_OK, page', bytes, w\<lparr>heap := h\<rparr>) \<and> heap_inv h L \<and>
    (\<forall>flash. has_bytes flash 0 (bytes @ [0xff]) \<longrightarrow>
      (\<exists>new h'. CoAP_NVloadObservers (Some flash) v =
          Some (COAP_OK, v\<lparr>heap := h', pResList := qs1 @ q\<lparr>pListObservers := pListObservers q @ [new]\<rparr> # qs2\<rparr>) \<and>
        Ep new = Ep ob \<and> IfID new = IfID ob \<and> Token new = Token ob \<and> map content (pOptList new) = map content (pOptList ob) \<and>
        opts_heap h' (insert (obs_addr new) K) (pOptList new)))"
proof -
  let ?s = "\<lparr>TempPage = page, pTempPage = 0, TotalPageBytes = 0, nv_heap = heap w\<rparr>"
  obtain l h t where l: "save_observer pad r False ob ?s = Some \<lparr>TempPage = (put_bytes page 0 (pack_options_loop 0 l))
        (length (pack_options_loop 0 l) := 0xff), pTempPage = unat t, TotalPageBytes = t, nv_heap = h\<rparr>"
    "unat t = Suc (length (pack_options_loop 0 l))" "heap_inv h L"
    "map content l = record_contents pad (pUri r) ob" "sized l" "packable 0 l" "length (pack_options_loop 0 l) < 2047"
    using save_step[OF assms(5,4), of r False ?s L 0] assms(6-8) by auto
  let ?P = "pack_options_loop 0 l"
  have "has_bytes ((put_bytes page 0 ?P)(length ?P := 0xff)) 0 (?P @ [0xff])" using has_put[of page "[]" ?P "0xff"] by simp
  from read_whole[OF this] have "CoAP_NVsaveObservers pad page w = Some (COAP_OK, (put_bytes page 0 ?P)(length ?P := 0xff), ?P @ [0xff], w\<lparr>heap := h\<rparr>)"
    using l(1,2) assms(1-3) by (simp add: CoAP_NVsaveObservers_def save_resources_append save_resources_none)
  moreover have "\<exists>new h'. CoAP_NVloadObservers (Some flash) v =
          Some (COAP_OK, v\<lparr>heap := h', pResList := qs1 @ q\<lparr>pListObservers := pListObservers q @ [new]\<rparr> # qs2\<rparr>) \<and>
        Ep new = Ep ob \<and> IfID new = IfID ob \<and> Token new = Token ob \<and> map content (pOptList new) = map content (pOptList ob) \<and>
        opts_heap h' (insert (obs_addr new) K) (pOptList new)" if f: "has_bytes flash 0 ((?P @ [0xff]) @ [0xff])" for flash
  proof -
    have hb: "has_bytes flash 0 (?P @ [0xff])" "flash (Suc (length ?P)) = 0xff" using f by simp_all
    from load_step[OF l(4-6) assms(5,4) hb(1) l(7) assms(9-15)] hb(2) show ?thesis
      by (auto simp: CoAP_NVloadObservers_def load_end)
  qed
  ultimately show ?thesis using l(3) by blast
qed

text \<open>
  C29: of two observers of one resource only the first survives. The record of the second one has no path, since that is
  stored once for a resource, and on loading it names no resource (unless one has the empty path); the options that were
  read for it are kept in \<open>pOptList\<close>, which ends the loading.
\<close>

theorem second_observer_forgotten:
  assumes "pResList w = rs1 @ r # rs2" "pListObservers r = [ob, ob2]" "\<forall>q \<in> set (rs1 @ rs2). pListObservers q = []"
    and "path_ok (pUri r)" "observer_ok pad ob" "observer_ok pad ob2" "record_size pad (pUri r) ob + record_size pad [] ob2 < 2047"
    and "heap_inv (heap w) L" "room (heap w) (record_room (pUri r) ob + record_room [] ob2)"
    and "pResList v = qs1 @ q # qs2" "\<forall>x \<in> set (pResList v). list_all opt_wf (pUri x) \<and> path_of (pUri x) \<noteq> []"
    and "distinct (map res_addr (pResList v))"
    and "path_of (pUri q) = path_of (pUri r)" "\<forall>x \<in> set qs1. path_of (pUri x) \<noteq> path_of (pUri r)"
    and "heap_inv (heap v) K" "room (heap v) (record_room (pUri r) ob + (opts_room (pOptList ob) + 50))"
  shows "\<exists>page' bytes h. CoAP_NVsaveObservers pad page w = Some (COAP_OK, page', bytes, w\<lparr>heap := h\<rparr>) \<and>
    (\<forall>flash. has_bytes flash 0 (bytes @ [0xff]) \<longrightarrow>
      (\<exists>new h'. CoAP_NVloadObservers (Some flash) v =
          Some (COAP_OK, v\<lparr>heap := h', pResList := qs1 @ q\<lparr>pListObservers := pListObservers q @ [new]\<rparr> # qs2\<rparr>) \<and>
        Ep new = Ep ob \<and> IfID new = IfID ob \<and> Token new = Token ob))"
proof -
  let ?s = "\<lparr>TempPage = page, pTempPage = 0, TotalPageBytes = 0, nv_heap = heap w\<rparr>"
  have r13: "13 \<le> record_room [] ob2" using opts_room_ge[of "pOptList ob2"] by (simp add: record_room_def)
  obtain l h t where l: "save_observer pad r False ob ?s = Some \<lparr>TempPage = (put_bytes page 0 (pack_options_loop 0 l))
        (length (pack_options_loop 0 l) := 0xff), pTempPage = unat t, TotalPageBytes = t, nv_heap = h\<rparr>"
    "unat t = Suc (length (pack_options_loop 0 l))" "heap_inv h L" "room h (13 + record_room [] ob2)"
    "map content l = record_contents pad (pUri r) ob" "sized l" "packable 0 l" "length (pack_options_loop 0 l) \<le> record_size pad (pUri r) ob"
    using save_step[OF assms(5,4), of r False ?s L "record_room [] ob2"] assms(7-9) r13 by auto
  let ?P = "pack_options_loop 0 l"
  let ?m = "(put_bytes page 0 ?P)(length ?P := 0xff)"
  have m: "has_bytes ?m 0 (?P @ [0xff])" using has_put[of page "[]" ?P "0xff"] by simp
  let ?s2 = "\<lparr>TempPage = ?m, pTempPage = unat t, TotalPageBytes = t, nv_heap = h\<rparr>"
  obtain l2 h2 t2 where l2: "save_observer pad r True ob2 ?s2 = Some \<lparr>TempPage = (put_bytes ?m (Suc (length ?P)) (pack_options_loop 0 l2))
        (Suc (length ?P) + length (pack_options_loop 0 l2) := 0xff), pTempPage = Suc (length ?P) + unat t2, TotalPageBytes = t2, nv_heap = h2\<rparr>"
    "unat t2 = Suc (length ?P) + Suc (length (pack_options_loop 0 l2))"
    "map content l2 = record_contents pad [] ob2" "sized l2" "packable 0 l2" "length (pack_options_loop 0 l2) < 2047"
    using save_step[OF assms(6), of "[]" r True ?s2 L 13] l(2-4,8) assms(7)
    by (auto simp: path_ok_def add.commute[of 13])
  let ?P2 = "pack_options_loop 0 l2"
  let ?bytes = "?P @ [0xff] @ ?P2 @ [0xff]"
  have "has_bytes ((put_bytes ?m (Suc (length ?P)) ?P2)(Suc (length ?P) + length ?P2 := 0xff)) 0 ((?P @ [0xff]) @ ?P2 @ [0xff])"
    using has_put[OF m, of ?P2 "0xff"] by simp
  from read_whole[OF this] have "CoAP_NVsaveObservers pad page w =
      Some (COAP_OK, (put_bytes ?m (Suc (length ?P)) ?P2)(Suc (length ?P) + length ?P2 := 0xff), ?bytes, w\<lparr>heap := h2\<rparr>)"
    using l(1,2) l2(1,2) assms(1-3) by (simp add: CoAP_NVsaveObservers_def save_resources_append save_resources_none)
  moreover have "\<exists>new h'. CoAP_NVloadObservers (Some flash) v =
          Some (COAP_OK, v\<lparr>heap := h', pResList := qs1 @ q\<lparr>pListObservers := pListObservers q @ [new]\<rparr> # qs2\<rparr>) \<and>
        Ep new = Ep ob \<and> IfID new = IfID ob \<and> Token new = Token ob" if f: "has_bytes flash 0 (?bytes @ [0xff])" for flash
  proof -
    let ?k = "Suc (length ?P)"
    have hb: "has_bytes flash 0 (?P @ [0xff])" "has_bytes flash ?k (?P2 @ [0xff])" "flash (?k + Suc (length ?P2)) = 0xff"
      using f by simp_all
    have wf: "\<forall>x \<in> set (pResList v). list_all opt_wf (pUri x)" and short: "length ?P < 2047" using assms(11,7) l(8) by auto
    obtain new h' where new: "CoAP_NVloadObservers (Some flash) v = load_observers_loop flash (Some ?k) []
          (v\<lparr>heap := h', pResList := qs1 @ q\<lparr>pListObservers := pListObservers q @ [new]\<rparr> # qs2\<rparr>)"
      "Ep new = Ep ob" "IfID new = IfID ob" "Token new = Token ob" "opts_heap h' (insert (obs_addr new) K) (pOptList new)"
      using load_step[OF l(5-7) assms(5,4) hb(1) short assms(10) wf assms(12-16)] by (auto simp: CoAP_NVloadObservers_def)
    let ?v = "v\<lparr>heap := h', pResList := qs1 @ q\<lparr>pListObservers := pListObservers q @ [new]\<rparr> # qs2\<rparr>"
    have inv: "heap_inv (heap ?v) (insert (obs_addr new) K \<union> opt_addr ` set (pOptList new))" using new(5) by (simp add: opts_heap_def)
    have wf': "\<forall>x \<in> set (pResList ?v). list_all opt_wf (pUri x) \<and> path_of (pUri x) \<noteq> []" using assms(10,11) by auto
    obtain h'' where "load_observers_loop flash (Some ?k) [] ?v = Some (COAP_OK, ?v\<lparr>heap := h''\<rparr>)"
      using load_unknown[OF l2(3-5) assms(6) hb(2) l2(6) hb(3) inv wf'] by auto
    then show ?thesis using new(1-4) by (intro exI[of _ new] exI[of _ h'']) simp
  qed
  ultimately show ?thesis by auto
qed

subsection \<open>Concrete instances\<close>

text \<open>A resource \<open>/led\<close> with up to two observers.\<close>

definition demo_observer :: "u64 \<Rightarrow> CoAP_Observer" where
  "demo_observer token = \<lparr>obs_addr = 9500, Ep = \<lparr>NetType = IPV4, NetAddr = replicate 16 1, NetPort = 5683\<rparr>, IfID = 1, FailCount = 0,
     Token = token, pOptList = []\<rparr>"

definition demo_led :: "CoAP_Observer list \<Rightarrow> CoAP_Res" where
  "demo_led obs = \<lparr>res_addr = 9600, pDescription = None, UpdateCnt = 0, Options = \<lparr>Cf = 0, Flags = RES_OPT_GET, ETag = 0\<rparr>,
     pUri = [\<lparr>opt_addr = 9700, Number = 11, Length = 3, Value = [108, 101, 100]\<rparr>], pListObservers = obs, Handler = Some 1, Notifier = Some 2\<rparr>"

definition demo_leds :: "CoAP_Observer list \<Rightarrow> unit coap" where
  "demo_leds obs = \<lparr>heap = demo_heap, rtc_1Hz = 0, SocketCtrl = \<lparr>SocketMemory = [], initDone = True\<rparr>, sent = [], lastMId = 0, lastToken = 0,
     pInteractions = [], pResList = [demo_led obs], ResListMembers = 1, app = ()\<rparr>"

lemma demo_nv [simp]:
  "path_ok (pUri (demo_led obs))" "observer_ok (\<lambda>_. [0, 0]) (demo_observer k)" "heap_inv (heap (demo_leds obs)) {}"
  "record_size (\<lambda>_. [0, 0]) (pUri (demo_led obs)) (demo_observer k) = 56" "record_size (\<lambda>_. [0, 0]) [] (demo_observer j) = 48"
  "pResList (demo_leds obs) = [demo_led obs]" "pListObservers (demo_led obs) = obs"
  "record_room (pUri (demo_led obs)) (demo_observer k) = 157" "record_room [] (demo_observer k) = 127"
  "pOptList (demo_observer k) = []" "Token (demo_observer k) = k"
  "path_of (pUri (demo_led obs)) = [[108, 101, 100]]" "list_all opt_wf (pUri (demo_led obs))"
  using demo_heap_inv
  by (simp_all add: path_ok_def observer_ok_def demo_led_def demo_observer_def demo_leds_def record_size_def record_contents_def
      record_room_def opt_wf_def MAX_OPTION_VALUE_SIZE_def OPT_NUM_URI_PATH_def addr_wf_def NetAddr_MAX_LENGTH_def packable_def ep_bytes_def
      option_request_def sizeof_option_def content_def)

lemma demo_leds_room [simp]: "k \<le> 4000 \<Longrightarrow> room (heap (demo_leds obs)) k"
  using room_mono[OF demo_heap_room] by (simp add: demo_leds_def)

lemma resource_by_path_witness:
  "CoAP_FindResourceByUri [] (pUri (demo_led [])) (demo_leds []) = Some (demo_led [])"
  using resource_by_path[of "demo_leds []" "pUri (demo_led [])"] by simp

lemma observer_survives_sleep_witness:
  "\<exists>page bytes w v new. CoAP_NVsaveObservers (\<lambda>_. [0, 0]) (\<lambda>_. 0) (demo_leds [demo_observer 7]) = Some (COAP_OK, page, bytes, w) \<and>
     CoAP_NVloadObservers (Some (mem_of (bytes @ [0xff]))) (demo_leds []) = Some (COAP_OK, v) \<and>
     map pListObservers (pResList v) = [[new]] \<and> Token new = 7"
proof -
  obtain page bytes h where s: "CoAP_NVsaveObservers (\<lambda>_. [0, 0]) (\<lambda>_. 0) (demo_leds [demo_observer 7]) =
      Some (COAP_OK, page, bytes, (demo_leds [demo_observer 7])\<lparr>heap := h\<rparr>)"
    and f: "\<forall>flash. has_bytes flash 0 (bytes @ [0xff]) \<longrightarrow> (\<exists>new h'. CoAP_NVloadObservers (Some flash) (demo_leds []) =
          Some (COAP_OK, (demo_leds [])\<lparr>heap := h', pResList := [(demo_led [])\<lparr>pListObservers := [new]\<rparr>]\<rparr>) \<and> Token new = 7)"
    using observer_survives_sleep[of "demo_leds [demo_observer 7]" "[]" "demo_led [demo_observer 7]" "[]" "demo_observer 7"
        "\<lambda>_. [0, 0]" "{}" "demo_leds []" "[]" "demo_led []" "[]" "{}" "\<lambda>_. 0"] by (simp del: has_bytes_append) blast
  then obtain new h' where "CoAP_NVloadObservers (Some (mem_of (bytes @ [0xff]))) (demo_leds []) =
          Some (COAP_OK, (demo_leds [])\<lparr>heap := h', pResList := [(demo_led [])\<lparr>pListObservers := [new]\<rparr>]\<rparr>)" "Token new = 7"
    using has_bytes_mem_of by blast
  then show ?thesis using s by (intro exI conjI) (assumption | simp)+
qed

lemma second_observer_forgotten_witness:
  "\<exists>page bytes w v new. CoAP_NVsaveObservers (\<lambda>_. [0, 0]) (\<lambda>_. 0) (demo_leds [demo_observer 7, demo_observer 8]) = Some (COAP_OK, page, bytes, w) \<and>
     CoAP_NVloadObservers (Some (mem_of (bytes @ [0xff]))) (demo_leds []) = Some (COAP_OK, v) \<and>
     map pListObservers (pResList v) = [[new]] \<and> Token new = 7"
proof -
  obtain page bytes h where s: "CoAP_NVsaveObservers (\<lambda>_. [0, 0]) (\<lambda>_. 0) (demo_leds [demo_observer 7, demo_observer 8]) =
      Some (COAP_OK, page, bytes, (demo_leds [demo_observer 7, demo_observer 8])\<lparr>heap := h\<rparr>)"
    and f: "\<forall>flash. has_bytes flash 0 (bytes @ [0xff]) \<longrightarrow> (\<exists>new h'. CoAP_NVloadObservers (Some flash) (demo_leds []) =
          Some (COAP_OK, (demo_leds [])\<lparr>heap := h', pResList := [(demo_led [])\<lparr>pListObservers := [new]\<rparr>]\<rparr>) \<and> Token new = 7)"
    using second_observer_forgotten[of "demo_leds [demo_observer 7, demo_observer 8]" "[]" "demo_led [demo_observer 7, demo_observer 8]" "[]"
        "demo_observer 7" "demo_observer 8" "\<lambda>_. [0, 0]" "{}" "demo_leds []" "[]" "demo_led []" "[]" "{}" "\<lambda>_. 0"]
    by (simp del: has_bytes_append) blast
  then obtain new h' where "CoAP_NVloadObservers (Some (mem_of (bytes @ [0xff]))) (demo_leds []) =
          Some (COAP_OK, (demo_leds [])\<lparr>heap := h', pResList := [(demo_led [])\<lparr>pListObservers := [new]\<rparr>]\<rparr>)" "Token new = 7"
    using has_bytes_mem_of by blast
  then show ?thesis using s by (intro exI conjI) (assumption | simp)+
qed

end
