(* ===== verification/Wifi.thy ===== *)
theory Wifi imports Coap_Resource "HOL-Library.Multiset" begin

section \<open>The connection to the wireless network (\<open>wifi/wifi.cpp\<close>)\<close>

text \<open>
  The settings and globals of \<open>wifi_config.h\<close> and \<open>network.h\<close>, the list of networks of the last scan, and what the
  program asked Sming for (\<open>sdk_calls\<close>, the newest last). \<open>ap_enabled\<close> is what \<open>WifiAccessPoint.isEnabled\<close> answers,
  \<open>waiting\<close> says whether Sming waits for the station to be connected, and how many seconds; then it calls either
  \<open>connectOk\<close> or \<open>connectFail\<close>. Printing is left out. Sming's \<open>sort\<close> is a parameter.
\<close>

record BssInfo =
  ssid :: "u8 list"
  rssi :: int
  hidden :: bool

datatype auth_mode = AUTH_OPEN | AUTH_WPA_WPA2_PSK

datatype sdk_call =
    Start_scan
  | Wait_connection nat
  | AP_enable bool
  | AP_config "u8 list" "u8 list" auth_mode bool int
  | Station_enable bool
  | Station_config "u8 list" "u8 list"
  | Station_disconnect
  | Enable_DHCP bool
  | Set_IP u32 u32 u32
  | On_ready

record wifi =
  networks :: "BssInfo list"
  missedConnections :: u8
  wifiEnabled :: bool
  wifiAPEnabled :: bool
  wifiAPSSID :: "u8 list"
  wifiAPPassword :: "u8 list"
  wifiAPChannel :: int
  wifiAPHiddden :: bool
  wifiStationEnabled :: bool
  wifiStationSSID :: "u8 list"
  wifiStationPassword :: "u8 list"
  dhcp :: bool
  ip :: u32
  netmask :: u32
  gateway :: u32
  online :: bool
  ap_enabled :: bool
  waiting :: "nat option"
  sdk_calls :: "sdk_call list"

definition maxMissedConnections :: u8 where
  "maxMissedConnections = 3"

subsection \<open>Calls of Sming\<close>

definition call_sdk :: "sdk_call \<Rightarrow> wifi \<Rightarrow> wifi" where
  "call_sdk c s = (case c of
       Wait_connection n \<Rightarrow> s\<lparr>waiting := Some n, sdk_calls := sdk_calls s @ [c]\<rparr>
     | AP_enable b \<Rightarrow> s\<lparr>ap_enabled := b, sdk_calls := sdk_calls s @ [c]\<rparr>
     | _ \<Rightarrow> s\<lparr>sdk_calls := sdk_calls s @ [c]\<rparr>)"

subsection \<open>Scanning\<close>

type_synonym vector_sort = "(BssInfo \<Rightarrow> BssInfo \<Rightarrow> int) \<Rightarrow> BssInfo list \<Rightarrow> BssInfo list"

definition by_rssi :: "BssInfo \<Rightarrow> BssInfo \<Rightarrow> int" where
  "by_rssi a b = rssi b - rssi a"

definition wifiScanCompleted :: "vector_sort \<Rightarrow> bool \<Rightarrow> BssInfo list \<Rightarrow> wifi \<Rightarrow> wifi" where
  "wifiScanCompleted vsort succeeded nets s =
    (let s = (if succeeded then s\<lparr>networks := filter (\<lambda>n. \<not> hidden n \<and> length (ssid n) > 0) nets\<rparr> else s)
     in s\<lparr>networks := vsort by_rssi (networks s)\<rparr>)"

definition wifiScan :: "wifi \<Rightarrow> BssInfo list \<times> wifi" where
  "wifiScan s = (networks s, call_sdk Start_scan s)"

subsection \<open>The station\<close>

definition connectOk :: "wifi \<Rightarrow> wifi" where
  "connectOk s = s\<lparr>missedConnections := 0\<rparr>"

definition connectFail :: "wifi \<Rightarrow> wifi" where
  "connectFail s =
    (let s = s\<lparr>missedConnections := missedConnections s + 1, online := False\<rparr>
     in if missedConnections s > maxMissedConnections
        then (if \<not> ap_enabled s then call_sdk (AP_enable True) s else s)
        else call_sdk (Wait_connection 10) s)"

subsection \<open>Settings\<close>

text \<open>The text that \<open>%d\<close> prints; the number of the chip is taken as an \<open>int\<close>.\<close>

definition decimal :: "int \<Rightarrow> u8 list" where
  "decimal i = (if i < 0 then 45 # digits (nat (- i)) else digits (nat i))"

definition default_ssid :: "u32 \<Rightarrow> u8 list" where
  "default_ssid chip_id = [69, 83, 80] @ decimal (sint chip_id)"

definition configureAP :: "u32 \<Rightarrow> wifi \<Rightarrow> wifi" where
  "configureAP chip_id s =
    (let s = (if length (wifiAPSSID s) = 0 then s\<lparr>wifiAPSSID := default_ssid chip_id\<rparr> else s)
     in if wifiEnabled s then
          let s = call_sdk (AP_enable (wifiAPEnabled s)) s
          in if length (wifiAPPassword s) < 1
             then call_sdk (AP_config (wifiAPSSID s) (wifiAPPassword s) AUTH_OPEN (wifiAPHiddden s) (wifiAPChannel s)) s
             else call_sdk (AP_config (wifiAPSSID s) (wifiAPPassword s) AUTH_WPA_WPA2_PSK (wifiAPHiddden s) (wifiAPChannel s)) s
        else call_sdk (AP_enable False) s)"

definition configureStation :: "wifi \<Rightarrow> wifi" where
  "configureStation s =
    (let s = (if wifiEnabled s
              then call_sdk (Station_config (wifiStationSSID s) (wifiStationPassword s)) (call_sdk (Station_enable (wifiStationEnabled s)) s)
              else call_sdk (Station_enable False) (call_sdk Station_disconnect s));
         s = call_sdk (Enable_DHCP (dhcp s)) s
     in if \<not> dhcp s \<and> ip s \<noteq> 0 then call_sdk (Set_IP (ip s) (netmask s) (gateway s)) s else s)"

definition wifiSetup :: "u32 \<Rightarrow> wifi \<Rightarrow> wifi" where
  "wifiSetup chip_id s =
    (let s = configureAP chip_id s;
         s = configureStation s;
         s = call_sdk (Wait_connection 30) s
     in call_sdk Start_scan s)"

definition networkSetup :: "u32 \<Rightarrow> wifi \<Rightarrow> wifi" where
  "networkSetup chip_id s = call_sdk On_ready (wifiSetup chip_id s)"

subsection \<open>The states after the start\<close>

definition at_boot :: "wifi \<Rightarrow> bool" where
  "at_boot s \<longleftrightarrow> networks s = [] \<and> missedConnections s = 0 \<and> \<not> online s \<and> waiting s = None \<and> sdk_calls s = []"

text \<open>The settings the program comes with.\<close>

definition default_wifi :: wifi where
  "default_wifi = \<lparr>networks = [], missedConnections = 0, wifiEnabled = True, wifiAPEnabled = True, wifiAPSSID = [69, 83, 80],
     wifiAPPassword = [], wifiAPChannel = 6, wifiAPHiddden = False, wifiStationEnabled = True,
     wifiStationSSID = [109, 121, 78, 101, 116, 119, 111, 114, 107], wifiStationPassword = [109, 121, 83, 101, 99, 114, 101, 116],
     dhcp = True, ip = 0, netmask = 0, gateway = 0, online = False, ap_enabled = False, waiting = None, sdk_calls = []\<rparr>"

text \<open>Sming calls back once for a wait; a scan can be completed at any time.\<close>

inductive wifi_step :: "vector_sort \<Rightarrow> wifi \<Rightarrow> wifi \<Rightarrow> bool" for vsort where
  connected: "waiting s = Some n \<Longrightarrow> wifi_step vsort s (connectOk (s\<lparr>waiting := None\<rparr>))"
| failed: "waiting s = Some n \<Longrightarrow> wifi_step vsort s (connectFail (s\<lparr>waiting := None\<rparr>))"
| scanned: "wifi_step vsort s (wifiScanCompleted vsort succeeded nets s)"
| asked_again: "wifi_step vsort s (snd (wifiScan s))"

inductive wifi_reachable :: "vector_sort \<Rightarrow> wifi \<Rightarrow> bool" for vsort where
  start: "at_boot s \<Longrightarrow> wifi_reachable vsort (networkSetup chip_id s)"
| step: "wifi_reachable vsort s \<Longrightarrow> wifi_step vsort s s' \<Longrightarrow> wifi_reachable vsort s'"

definition waits :: "wifi \<Rightarrow> nat" where
  "waits s = length (filter (\<lambda>c. \<exists>n. c = Wait_connection n) (sdk_calls s))"

lemma call_sdk_fields [simp]:
  "missedConnections (call_sdk c s) = missedConnections s" "online (call_sdk c s) = online s" "networks (call_sdk c s) = networks s"
  "waits (call_sdk c s) = waits s + (case c of Wait_connection n \<Rightarrow> 1 | _ \<Rightarrow> 0)"
  "waiting (call_sdk c s) = (case c of Wait_connection n \<Rightarrow> Some n | _ \<Rightarrow> waiting s)"
  "ap_enabled (call_sdk c s) = (case c of AP_enable b \<Rightarrow> b | _ \<Rightarrow> ap_enabled s)"
  by (cases c; simp add: call_sdk_def waits_def)+

lemma wifi_setup_fields:
  "missedConnections (networkSetup chip s) = missedConnections s \<and> online (networkSetup chip s) = online s \<and>
   waits (networkSetup chip s) = waits s + 1 \<and> waiting (networkSetup chip s) = Some 30"
proof -
  have a: "missedConnections (configureAP chip s) = missedConnections s \<and> online (configureAP chip s) = online s \<and> waits (configureAP chip s) = waits s"
    by (auto simp: configureAP_def Let_def waits_def[of "wifiAPSSID_update _ _"]) (simp_all add: waits_def)
  have b: "missedConnections (configureStation s) = missedConnections s \<and> online (configureStation s) = online s \<and> waits (configureStation s) = waits s" for s
    by (auto simp: configureStation_def Let_def)
  show ?thesis using a b by (simp add: networkSetup_def wifiSetup_def Let_def)
qed

text \<open>
  The station is given up for good: it is asked for at most four times without a success, then the access point is on and
  nothing waits any more; after one success nothing waits either, so a connection that is lost later is not noticed.
  \<open>online\<close> is never set.
\<close>

definition wifi_ok :: "wifi \<Rightarrow> bool" where
  "wifi_ok s \<longleftrightarrow> \<not> online s \<and> waits s \<le> 4 \<and>
     (case waiting s of
        Some n \<Rightarrow> missedConnections s \<le> 3 \<and> waits s = Suc (unat (missedConnections s))
      | None \<Rightarrow> missedConnections s = 0 \<or> missedConnections s = 4 \<and> ap_enabled s)"

lemma connectFail_ok:
  assumes "wifi_ok s" "waiting s = Some n"
  shows "wifi_ok (connectFail (s\<lparr>waiting := None\<rparr>))"
proof -
  let ?m = "missedConnections s"
  have m: "unat ?m \<le> 3" "waits s = Suc (unat ?m)" using assms by (auto simp: wifi_ok_def word_le_nat_alt)
  have w: "waits (s\<lparr>waiting := None, missedConnections := ?m + 1, online := False\<rparr>) = waits s" by (simp add: waits_def)
  have u: "unat (?m + 1) = Suc (unat ?m)" using m(1) by (simp add: unat_word_ariths)
  show ?thesis
  proof (cases "?m + 1 > maxMissedConnections")
    case True
    then have "unat (?m + 1) = 4" using m u by (simp add: maxMissedConnections_def word_less_nat_alt)
    then have "?m + 1 = 4" by (simp add: word_unat_eq_iff)
    then show ?thesis using True m u w by (simp add: connectFail_def Let_def wifi_ok_def)
  next
    case False
    then have "unat ?m \<le> 2" using u by (simp add: maxMissedConnections_def word_less_nat_alt)
    then show ?thesis using False m u w by (simp add: connectFail_def Let_def wifi_ok_def maxMissedConnections_def word_le_nat_alt)
  qed
qed

lemma wifi_gives_up: "wifi_reachable vsort s \<Longrightarrow> wifi_ok s"
proof (induction rule: wifi_reachable.induct)
  case (start s chip_id)
  then show ?case using wifi_setup_fields[of chip_id s] by (simp add: wifi_ok_def at_boot_def waits_def[of s])
next
  case (step s s')
  from step(2) show ?case
  proof cases
    case (connected n)
    then show ?thesis using step(3) by (auto simp: connectOk_def wifi_ok_def waits_def)
  next
    case (failed n)
    then show ?thesis using connectFail_ok step(3) by blast
  next
    case (scanned succeeded nets)
    then show ?thesis using step(3) by (cases "waiting s") (simp_all add: wifiScanCompleted_def Let_def wifi_ok_def waits_def)
  next
    case asked_again
    then show ?thesis using step(3) by (cases "waiting s") (simp_all add: wifiScan_def wifi_ok_def)
  qed
qed

lemma default_wifi_gives_up: "wifi_reachable vsort (networkSetup chip_id default_wifi)"
  by (rule wifi_reachable.start) (simp add: at_boot_def default_wifi_def)

text \<open>A completed scan gives the networks that can be seen, the strongest first.\<close>

lemma scan_sorted:
  assumes "\<And>xs. mset (vsort by_rssi xs) = mset xs \<and> sorted_wrt (\<lambda>a b. by_rssi a b \<le> 0) (vsort by_rssi xs)"
  shows "mset (networks (wifiScanCompleted vsort True nets s)) = filter_mset (\<lambda>n. \<not> hidden n \<and> ssid n \<noteq> []) (mset nets)"
    "sorted_wrt (\<lambda>a b. rssi b \<le> rssi a) (networks (wifiScanCompleted vsort ok nets s))"
  using assms by (simp_all add: wifiScanCompleted_def Let_def by_rssi_def mset_filter)

end
